(* ===== verification/Prelude.thy ===== *)
theory Prelude
  imports Main "HOL-Library.Word"
begin

text \<open>
  What every other theory of the development shares: the machine integer types of the Rust
  code, big-endian byte conversions, the casts \<open>as i32\<close> and \<open>as i64\<close>, Rust's truncating
  division, the string primitives the sources use, and the theorem collections that the
  component proofs are simplified with.
\<close>

unbundle bit_operations_syntax

section \<open>Theorem collections\<close>

named_theorems parser_simps \<open>unfolding rules of the string parsers and printers\<close>
named_theorems upsert_simps \<open>what a table lookup returns after an upsert\<close>
named_theorems io_intros \<open>preservation rules for effectful programs\<close>

section \<open>Machine integers\<close>

type_synonym u8 = "8 word"
type_synonym u16 = "16 word"
type_synonym u32 = "32 word"

text \<open>\<open>u16::from_be_bytes\<close>, \<open>u16::to_be_bytes\<close> and \<open>u32::from_be_bytes\<close>.\<close>

definition be16 :: "u8 \<Rightarrow> u8 \<Rightarrow> u16" where
  "be16 hi lo = push_bit 8 (ucast hi) OR ucast lo"

definition to_be16 :: "u16 \<Rightarrow> u8 list" where
  "to_be16 w = [ucast (drop_bit 8 w), ucast w]"

definition be32 :: "u8 \<Rightarrow> u8 \<Rightarrow> u8 \<Rightarrow> u8 \<Rightarrow> u32" where
  "be32 a b c d =
     push_bit 24 (ucast a) OR push_bit 16 (ucast b) OR push_bit 8 (ucast c) OR ucast d"

lemma length_2_cases: "length xs = 2 \<Longrightarrow> \<exists>x y. xs = [x, y]"
  by (auto simp: length_Suc_conv eval_nat_numeral)

lemma length_to_be16 [simp]: "length (to_be16 w) = 2"
  by (simp add: to_be16_def)

lemma be16_to_be16 [simp]: "be16 (ucast (drop_bit 8 w)) (ucast w) = w"
  unfolding be16_def
  by (rule bit_word_eqI) (auto simp: bit_simps)

text \<open>
  The \<open>as\<close> casts between signed integers keep the low bits and read them as two's
  complement. Signed values are HOL integers; a cast is the identity in the type's range.
\<close>

definition as_i32 :: "int \<Rightarrow> int" where
  "as_i32 x = signed_take_bit 31 x"

definition as_i64 :: "int \<Rightarrow> int" where
  "as_i64 x = signed_take_bit 63 x"

lemma as_i32_id: "- (2 ^ 31) \<le> x \<Longrightarrow> x < 2 ^ 31 \<Longrightarrow> as_i32 x = x"
  unfolding as_i32_def by (rule signed_take_bit_int_eq_self) auto

lemma as_i32_bounds: "- (2 ^ 31) \<le> as_i32 x \<and> as_i32 x < 2 ^ 31"
  using signed_take_bit_int_greater_eq_minus_exp [of 31 x] signed_take_bit_int_less_exp [of 31 x]
  by (simp add: as_i32_def)

lemma as_i64_id: "- (2 ^ 63) \<le> x \<Longrightarrow> x < 2 ^ 63 \<Longrightarrow> as_i64 x = x"
  unfolding as_i64_def by (rule signed_take_bit_int_eq_self) auto

text \<open>Rust's \<open>/\<close> and \<open>%\<close> on signed integers truncate towards zero.\<close>

definition tdiv :: "int \<Rightarrow> int \<Rightarrow> int" where
  "tdiv a b = sgn a * sgn b * (\<bar>a\<bar> div \<bar>b\<bar>)"

lemma tdiv_nonneg: "0 \<le> a \<Longrightarrow> 0 < b \<Longrightarrow> tdiv a b = a div b"
  by (cases "a = 0") (auto simp: tdiv_def)

lemma tdiv_neg: "a < 0 \<Longrightarrow> 0 < b \<Longrightarrow> tdiv a b = - ((- a) div b)"
  by (simp add: tdiv_def)

lemma le_zdiv_iff:
  fixes a b k :: int
  assumes "0 < b"
  shows "k \<le> a div b \<longleftrightarrow> k * b \<le> a"
proof
  assume "k \<le> a div b"
  then have "k * b \<le> a div b * b" using assms by simp
  also have "\<dots> \<le> a" using assms pos_mod_sign [of b a] div_mult_mod_eq [of a b] by linarith
  finally show "k * b \<le> a" .
next
  assume "k * b \<le> a"
  then show "k \<le> a div b" using assms zdiv_mono1 [of "k * b" a b] by simp
qed

lemma tdiv_ge_iff:
  assumes "0 < b" and "0 < k"
  shows "k \<le> tdiv a b \<longleftrightarrow> k * b \<le> a"
proof (cases "0 \<le> a")
  case True
  with assms show ?thesis by (simp add: tdiv_nonneg le_zdiv_iff)
next
  case False
  have "0 \<le> (- a) div b" using False assms(1) by (simp add: pos_imp_zdiv_nonneg_iff)
  then have "\<not> k \<le> tdiv a b" using False assms by (simp add: tdiv_neg)
  moreover have "\<not> k * b \<le> a" using False assms mult_pos_pos [of k b] by linarith
  ultimately show ?thesis by simp
qed

section \<open>Decimal printing\<close>

definition digit_char :: "nat \<Rightarrow> char" where
  "digit_char d = char_of (48 + d)"

fun show_nat :: "nat \<Rightarrow> string" where
  "show_nat n = (if n < 10 then [digit_char n] else show_nat (n div 10) @ [digit_char (n mod 10)])"

definition show_int :: "int \<Rightarrow> string" where
  "show_int i = (if i < 0 then CHR ''-'' # show_nat (nat (- i)) else show_nat (nat i))"

text \<open>\<open>{:0w}\<close> pads a number with zeros on the left.\<close>

definition pad_left :: "nat \<Rightarrow> char \<Rightarrow> string \<Rightarrow> string" where
  "pad_left w c s = replicate (w - length s) c @ s"

definition show_padded :: "nat \<Rightarrow> nat \<Rightarrow> string" where
  "show_padded w n = pad_left w CHR ''0'' (show_nat n)"

fun read_nat :: "nat \<Rightarrow> string \<Rightarrow> nat option" where
  "read_nat acc [] = Some acc"
| "read_nat acc (c # cs) =
     (let n = of_char c in if 48 \<le> n \<and> n \<le> (57 :: nat) then read_nat (10 * acc + (n - 48)) cs else None)"

declare show_nat.simps [simp del]

lemma read_nat_append:
  "read_nat acc (xs @ ys) = Option.bind (read_nat acc xs) (\<lambda>a. read_nat a ys)"
  by (induction xs arbitrary: acc) (auto simp: Let_def)

lemma read_nat_digit: "d < 10 \<Longrightarrow> read_nat acc [digit_char d] = Some (10 * acc + d)"
  by (simp add: digit_char_def of_char_of Let_def)

lemma read_show_nat: "\<exists>k. \<forall>acc. read_nat acc (show_nat n) = Some (acc * 10 ^ k + n)"
proof (induction n rule: show_nat.induct)
  case (1 n)
  show ?case
  proof (cases "n < 10")
    case True
    then show ?thesis
      using read_nat_digit [OF True]
      by (intro exI [of _ 1]) (subst show_nat.simps, simp del: read_nat.simps)
  next
    case False
    then obtain k where k: "\<And>acc. read_nat acc (show_nat (n div 10)) = Some (acc * 10 ^ k + n div 10)"
      using 1 by auto
    have "read_nat acc (show_nat n) = Some (acc * 10 ^ Suc k + n)" for acc
      using False k by (subst show_nat.simps) (simp add: read_nat_append read_nat_digit algebra_simps del: read_nat.simps)
    then show ?thesis by blast
  qed
qed

lemma read_show_nat_0 [simp]: "read_nat 0 (show_nat n) = Some n"
  using read_show_nat [of n] by auto

lemma show_nat_inj: "show_nat m = show_nat n \<longleftrightarrow> m = n"
  by (metis option.inject read_show_nat_0)

lemma show_nat_nonempty [simp]: "show_nat n \<noteq> []"
  by (subst show_nat.simps) simp

lemma show_nat_digits: "c \<in> set (show_nat n) \<Longrightarrow> \<exists>d < 10. c = digit_char d"
proof (induction n rule: show_nat.induct)
  case (1 n)
  then show ?case
    using pos_mod_bound [of "10 :: int"]
    by (subst (asm) (2) show_nat.simps) (auto split: if_splits intro: exI [of _ "n mod 10"])
qed

end
