(* ===== verification/Effects.thy ===== *)
theory Effects
  imports Prelude
begin

text \<open>
  Effects of the asynchronous code, shared by every component that talks to PostgreSQL or to a
  remote service. A world is a state (the tables, and whatever was sent), the next value of the
  identifier sequences, and a schedule that says which of the coming operations go through: each
  query, transaction begin, commit or request consumes one entry, and an exhausted schedule lets
  everything through. An operation that fails leaves the state alone; the sequence advances
  whether it fails or not and is not rolled back, as PostgreSQL sequences are. Identifiers come
  from one counter for all tables, so they increase with gaps.
\<close>

section \<open>Worlds and effectful programs\<close>

record 's world =
  wdb :: 's
  wseq :: int
  wsched :: "bool list"

datatype db_error = QueryFailed | UniqueViolation | CheckViolation | ForeignKeyViolation | NumericOverflow | RowNotFound

datatype database_error = NotConfigured | ConnectFailed | MigrateFailed | DatabaseQuery db_error

type_synonym ('s, 'e, 'a) io = "'s world \<Rightarrow> ('e + 'a) \<times> 's world"

definition io_return :: "'a \<Rightarrow> ('s, 'e, 'a) io" where
  "io_return x w = (Inr x, w)"

definition io_throw :: "'e \<Rightarrow> ('s, 'e, 'a) io" where
  "io_throw e w = (Inl e, w)"

text \<open>\<open>m?\<close> followed by the rest of the function.\<close>

definition io_bind :: "('s, 'e, 'a) io \<Rightarrow> ('a \<Rightarrow> ('s, 'e, 'b) io) \<Rightarrow> ('s, 'e, 'b) io" where
  "io_bind m f w = (case m w of (Inl e, w') \<Rightarrow> (Inl e, w') | (Inr x, w') \<Rightarrow> f x w')"

text \<open>A \<open>match\<close> on the result of a call.\<close>

definition io_try :: "('s, 'e, 'a) io \<Rightarrow> ('e + 'a \<Rightarrow> ('s, 'f, 'b) io) \<Rightarrow> ('s, 'f, 'b) io" where
  "io_try m f w = (case m w of (r, w') \<Rightarrow> f r w')"

definition io_map_error :: "('e \<Rightarrow> 'f) \<Rightarrow> ('s, 'e, 'a) io \<Rightarrow> ('s, 'f, 'a) io" where
  "io_map_error g m w = (case m w of (Inl e, w') \<Rightarrow> (Inl (g e), w') | (Inr x, w') \<Rightarrow> (Inr x, w'))"

fun io_for :: "'a list \<Rightarrow> ('a \<Rightarrow> ('s, 'e, unit) io) \<Rightarrow> ('s, 'e, unit) io" where
  "io_for [] f = io_return ()"
| "io_for (x # xs) f = io_bind (f x) (\<lambda>_. io_for xs f)"

fun io_map_list :: "'a list \<Rightarrow> ('a \<Rightarrow> ('s, 'e, 'b) io) \<Rightarrow> ('s, 'e, 'b list) io" where
  "io_map_list [] f = io_return []"
| "io_map_list (x # xs) f =
     io_bind (f x) (\<lambda>y. io_bind (io_map_list xs f) (\<lambda>ys. io_return (y # ys)))"

text \<open>One operation on the state; it is given a fresh identifier.\<close>

definition operation :: "'e \<Rightarrow> (int \<Rightarrow> 's \<Rightarrow> 'e + 'a \<times> 's) \<Rightarrow> ('s, 'e, 'a) io" where
  "operation failed f w =
     (let w' = w\<lparr>wseq := wseq w + 1, wsched := tl (wsched w)\<rparr>
      in if wsched w \<noteq> [] \<and> \<not> hd (wsched w) then (Inl failed, w')
         else case f (wseq w) (wdb w) of
                Inl e \<Rightarrow> (Inl e, w')
              | Inr (x, s) \<Rightarrow> (Inr x, w'\<lparr>wdb := s\<rparr>))"

definition query :: "(int \<Rightarrow> 's \<Rightarrow> db_error + 'a \<times> 's) \<Rightarrow> ('s, db_error, 'a) io" where
  "query f = operation QueryFailed f"

definition select :: "('s \<Rightarrow> 'a) \<Rightarrow> ('s, db_error, 'a) io" where
  "select f = query (\<lambda>_ s. Inr (f s, s))"

definition execute :: "('s \<Rightarrow> 's) \<Rightarrow> ('s, db_error, unit) io" where
  "execute f = query (\<lambda>_ s. Inr ((), f s))"

text \<open>
  \<open>pool.begin()\<close> \dots \<open>tx.commit()\<close>: a body that returns an error drops the transaction, which
  rolls it back; a commit that fails is taken to have rolled back too.
\<close>

definition transaction :: "('s, db_error, 'a) io \<Rightarrow> ('s, db_error, 'a) io" where
  "transaction m w =
     (case execute (\<lambda>s. s) w of
        (Inl e, w1) \<Rightarrow> (Inl e, w1)
      | (Inr _, w1) \<Rightarrow>
          (case io_bind m (\<lambda>x. io_bind (execute (\<lambda>s. s)) (\<lambda>_. io_return x)) w1 of
             (Inl e, w2) \<Rightarrow> (Inl e, w2\<lparr>wdb := wdb w1\<rparr>)
           | (Inr x, w2) \<Rightarrow> (Inr x, w2)))"

section \<open>Preservation of a state invariant\<close>

text \<open>
  \<open>keeps I m\<close>: whether \<open>m\<close> succeeds or fails, an invariant of the sequence and the state holds
  after it if it held before, and the sequence has not gone back.
\<close>

definition keeps :: "(int \<Rightarrow> 's \<Rightarrow> bool) \<Rightarrow> ('s, 'e, 'a) io \<Rightarrow> bool" where
  "keeps I m \<longleftrightarrow> (\<forall>w. wseq w \<le> wseq (snd (m w))
     \<and> (I (wseq w) (wdb w) \<longrightarrow> I (wseq (snd (m w))) (wdb (snd (m w)))))"

definition persistent :: "(int \<Rightarrow> 's \<Rightarrow> bool) \<Rightarrow> bool" where
  "persistent I \<longleftrightarrow> (\<forall>m n s. m \<le> n \<longrightarrow> I m s \<longrightarrow> I n s)"

lemma keepsI:
  "(\<And>w. wseq w \<le> wseq (snd (m w))) \<Longrightarrow>
   (\<And>w. I (wseq w) (wdb w) \<Longrightarrow> I (wseq (snd (m w))) (wdb (snd (m w)))) \<Longrightarrow> keeps I m"
  by (simp add: keeps_def)

lemma keepsD: "keeps I m \<Longrightarrow> I (wseq w) (wdb w) \<Longrightarrow> I (wseq (snd (m w))) (wdb (snd (m w)))"
  by (simp add: keeps_def)

lemma keeps_seq: "keeps I m \<Longrightarrow> wseq w \<le> wseq (snd (m w))"
  by (simp add: keeps_def)

lemma keeps_return [io_intros]: "keeps I (io_return x)"
  by (simp add: keeps_def io_return_def)

lemma keeps_throw [io_intros]: "keeps I (io_throw e)"
  by (simp add: keeps_def io_throw_def)

lemma keeps_bind [io_intros]:
  assumes "keeps I m" and "\<And>x. keeps I (f x)"
  shows "keeps I (io_bind m f)"
proof (rule keepsI)
  fix w
  obtain r w' where m: "m w = (r, w')" by force
  show "wseq w \<le> wseq (snd (io_bind m f w))"
    using keeps_seq [OF assms(1), of w] keeps_seq [OF assms(2), of w'] m
    by (cases r) (auto simp: io_bind_def intro: order_trans)
  assume "I (wseq w) (wdb w)"
  then have "I (wseq w') (wdb w')" using keepsD [OF assms(1), of w] m by simp
  then show "I (wseq (snd (io_bind m f w))) (wdb (snd (io_bind m f w)))"
    using keepsD [OF assms(2), of w'] m by (cases r) (auto simp: io_bind_def)
qed

lemma keeps_try [io_intros]:
  assumes "keeps I m" and "\<And>r. keeps I (f r)"
  shows "keeps I (io_try m f)"
proof (rule keepsI)
  fix w
  obtain r w' where m: "m w = (r, w')" by force
  show "wseq w \<le> wseq (snd (io_try m f w))"
    using keeps_seq [OF assms(1), of w] keeps_seq [OF assms(2), of w'] m
    by (auto simp: io_try_def intro: order_trans)
  assume "I (wseq w) (wdb w)"
  then have "I (wseq w') (wdb w')" using keepsD [OF assms(1), of w] m by simp
  then show "I (wseq (snd (io_try m f w))) (wdb (snd (io_try m f w)))"
    using keepsD [OF assms(2), of w'] m by (auto simp: io_try_def)
qed

lemma snd_map_error [simp]: "snd (io_map_error g m w) = snd (m w)"
  by (auto simp: io_map_error_def split: prod.splits sum.splits)

lemma keeps_map_error [io_intros]: "keeps I m \<Longrightarrow> keeps I (io_map_error g m)"
  by (simp add: keeps_def)

lemma keeps_for [io_intros]: "(\<And>x. x \<in> set xs \<Longrightarrow> keeps I (f x)) \<Longrightarrow> keeps I (io_for xs f)"
  by (induction xs) (auto intro!: io_intros)

lemma keeps_map_list [io_intros]:
  "(\<And>x. x \<in> set xs \<Longrightarrow> keeps I (f x)) \<Longrightarrow> keeps I (io_map_list xs f)"
  by (induction xs) (auto intro!: io_intros)

lemma keeps_if [io_intros]: "(b \<Longrightarrow> keeps I m) \<Longrightarrow> (\<not> b \<Longrightarrow> keeps I n) \<Longrightarrow> keeps I (if b then m else n)"
  by simp

lemma keeps_case_option [io_intros]:
  "(x = None \<Longrightarrow> keeps I m) \<Longrightarrow> (\<And>y. x = Some y \<Longrightarrow> keeps I (f y)) \<Longrightarrow>
   keeps I (case x of None \<Rightarrow> m | Some y \<Rightarrow> f y)"
  by (cases x) auto

lemma persistentD: "persistent I \<Longrightarrow> I m s \<Longrightarrow> m \<le> n \<Longrightarrow> I n s"
  by (auto simp: persistent_def)

lemma keeps_operation:
  assumes "persistent I"
    and "\<And>n s x s'. I n s \<Longrightarrow> f n s = Inr (x, s') \<Longrightarrow> I (n + 1) s'"
  shows "keeps I (operation e f)"
proof (rule keepsI)
  fix w
  show "wseq w \<le> wseq (snd (operation e f w))"
    by (auto simp: operation_def Let_def split: sum.splits)
  assume i: "I (wseq w) (wdb w)"
  have "I (wseq w + 1) (wdb w)" using persistentD [OF assms(1) i] by simp
  then show "I (wseq (snd (operation e f w))) (wdb (snd (operation e f w)))"
    using assms(2) [OF i] by (auto simp: operation_def Let_def split: sum.splits)
qed

lemma keeps_query:
  "persistent I \<Longrightarrow> (\<And>n s x s'. I n s \<Longrightarrow> f n s = Inr (x, s') \<Longrightarrow> I (n + 1) s') \<Longrightarrow> keeps I (query f)"
  unfolding query_def by (rule keeps_operation)

lemma keeps_select [io_intros]: "persistent I \<Longrightarrow> keeps I (select f)"
  unfolding select_def by (intro keeps_query) (auto elim: persistentD)

lemma keeps_execute:
  "persistent I \<Longrightarrow> (\<And>n s. I n s \<Longrightarrow> I n (f s)) \<Longrightarrow> keeps I (execute f)"
  unfolding execute_def by (rule keeps_query) (auto dest!: persistentD [where n = "_ + 1"])

lemma keeps_transaction [io_intros]:
  fixes m :: "('s, db_error, 'a) io"
  assumes "persistent I" and "keeps I m"
  shows "keeps I (transaction m)"
proof (rule keepsI)
  fix w :: "'s world"
  have e: "keeps I (execute (\<lambda>s. s))" using assms(1) by (rule keeps_execute)
  have b: "keeps I (io_bind m (\<lambda>x. io_bind (execute (\<lambda>s. s)) (\<lambda>_. io_return x)))"
    by (intro io_intros assms e)
  obtain r w1 where 1: "execute (\<lambda>s. s) w = (r, w1)" by force
  obtain r2 w2 where
    2: "io_bind m (\<lambda>x. io_bind (execute (\<lambda>s. s)) (\<lambda>_. io_return x)) w1 = (r2, w2)" by force
  have le: "wseq w \<le> wseq w1" "wseq w1 \<le> wseq w2"
    using keeps_seq [OF e, of w] keeps_seq [OF b, of w1] 1 2 by auto
  then show "wseq w \<le> wseq (snd (transaction m w))"
    using 1 2 by (cases r; cases r2) (auto simp: transaction_def)
  assume "I (wseq w) (wdb w)"
  then have i1: "I (wseq w1) (wdb w1)" using keepsD [OF e, of w] 1 by simp
  have i2: "I (wseq w2) (wdb w2)" using keepsD [OF b, of w1] i1 2 by simp
  have i3: "I (wseq w2) (wdb w1)" using persistentD [OF assms(1) i1] le by simp
  show "I (wseq (snd (transaction m w))) (wdb (snd (transaction m w)))"
    using 1 2 i1 i2 i3 by (cases r; cases r2) (auto simp: transaction_def)
qed

section \<open>Transactions are all or nothing\<close>

lemma wdb_execute_id: "wdb (snd (execute (\<lambda>s. s) w)) = wdb w"
  by (simp add: execute_def query_def operation_def Let_def)

lemma transaction_rolls_back: "transaction m w = (Inl e, w') \<Longrightarrow> wdb w' = wdb w"
  using wdb_execute_id [of w]
  by (auto simp: transaction_def split: prod.splits sum.splits)

text \<open>A transaction that succeeds has the effect of its body.\<close>

lemma transaction_commits:
  assumes "transaction m w = (Inr x, w')"
  obtains w1 w2 where "wdb w1 = wdb w" "wseq w1 = wseq w + 1" "m w1 = (Inr x, w2)" "wdb w' = wdb w2"
    "wseq w2 \<le> wseq w'"
proof -
  obtain w1 w2 where w1: "execute (\<lambda>s. s) w = (Inr (), w1)"
    and 2: "io_bind m (\<lambda>x. io_bind (execute (\<lambda>s. s)) (\<lambda>_. io_return x)) w1 = (Inr x, w2)"
    and w': "w' = w2"
    using assms by (auto simp: transaction_def split: prod.splits sum.splits)
  then obtain w3 where 3: "m w1 = (Inr x, w3)" and "execute (\<lambda>s. s) w3 = (Inr (), w2)"
    by (auto simp: io_bind_def io_return_def split: prod.splits sum.splits)
  then have "wdb w2 = wdb w3" "wseq w3 \<le> wseq w2"
    using wdb_execute_id [of w3]
    by (auto simp: execute_def query_def operation_def Let_def split: if_splits)
  have "wdb w1 = wdb w" "wseq w1 = wseq w + 1"
    using w1 by (auto simp: execute_def query_def operation_def Let_def split: if_splits)
  with 3 w' \<open>wdb w2 = wdb w3\<close> \<open>wseq w3 \<le> wseq w2\<close> show thesis using that by blast
qed

text \<open>
  A transaction keeps an invariant that its body establishes when it succeeds, even if the body
  breaks it on the way.
\<close>

abbreviation advances :: "('s, 'e, 'a) io \<Rightarrow> bool" where
  "advances m \<equiv> keeps (\<lambda>_ _. True) m"

lemma keeps_transaction_success:
  fixes m :: "('s, db_error, 'a) io"
  assumes "persistent I" and "advances m"
    and "\<And>w x w'. I (wseq w) (wdb w) \<Longrightarrow> m w = (Inr x, w') \<Longrightarrow> I (wseq w') (wdb w')"
  shows "keeps I (transaction m)"
proof (rule keepsI)
  fix w :: "'s world"
  have true: "persistent (\<lambda>_ (_ :: 's). True)" by (simp add: persistent_def)
  have adv: "advances (transaction m)" using true assms(2) by (rule keeps_transaction)
  show le: "wseq w \<le> wseq (snd (transaction m w))" using keeps_seq [OF adv] .
  assume i: "I (wseq w) (wdb w)"
  obtain r w' where t: "transaction m w = (r, w')" by force
  show "I (wseq (snd (transaction m w))) (wdb (snd (transaction m w)))"
  proof (cases r)
    case (Inl e)
    with t have "wdb w' = wdb w" by (simp add: transaction_rolls_back)
    then show ?thesis using persistentD [OF assms(1) i le] t by simp
  next
    case (Inr x)
    with t have "transaction m w = (Inr x, w')" by simp
    then obtain w1 w2 where w1: "wdb w1 = wdb w" "wseq w1 = wseq w + 1" and m: "m w1 = (Inr x, w2)"
      and w2: "wdb w' = wdb w2" "wseq w2 \<le> wseq w'" by (rule transaction_commits)
    have "I (wseq w1) (wdb w1)" using persistentD [OF assms(1) i, of "wseq w1"] w1 by simp
    from assms(3) [OF this m] have "I (wseq w2) (wdb w2)" .
    then show ?thesis using persistentD [OF assms(1) _ w2(2)] t w2(1) by simp
  qed
qed

section \<open>Running without failures\<close>

lemmas io_run = io_bind_def io_try_def io_return_def io_throw_def io_map_error_def transaction_def
  query_def select_def execute_def operation_def

section \<open>What a successful run has done\<close>

lemma bind_ok:
  "io_bind m f w = (Inr y, w') \<longleftrightarrow> (\<exists>x w1. m w = (Inr x, w1) \<and> f x w1 = (Inr y, w'))"
  by (auto simp: io_bind_def split: prod.splits sum.splits)

lemma return_ok [simp]: "io_return x w = (Inr y, w') \<longleftrightarrow> y = x \<and> w' = w"
  by (auto simp: io_return_def)

lemma query_ok: "query f w = (Inr x, w') \<Longrightarrow> f (wseq w) (wdb w) = Inr (x, wdb w')"
  by (auto simp: query_def operation_def Let_def split: if_splits sum.splits)

lemma query_ok_seq: "query f w = (Inr x, w') \<Longrightarrow> wseq w' = wseq w + 1"
  by (auto simp: query_def operation_def Let_def split: if_splits sum.splits)

lemma select_ok: "select f w = (Inr x, w') \<Longrightarrow> x = f (wdb w) \<and> wdb w' = wdb w"
  unfolding select_def by (drule query_ok) auto

lemma execute_ok: "execute f w = (Inr x, w') \<Longrightarrow> wdb w' = f (wdb w)"
  unfolding execute_def by (drule query_ok) auto

text \<open>
  A loop of steps, each of which acts on some view of the state as a function \<open>g\<close> does, acts on
  it as the fold of \<open>g\<close>, as long as a side condition is maintained.
\<close>

lemma for_ok:
  assumes "\<And>x w y w1. x \<in> set xs \<Longrightarrow> f x w = (Inr y, w1) \<Longrightarrow> P (wdb w) \<Longrightarrow>
      view (wdb w1) = g (view (wdb w)) x \<and> P (wdb w1)"
    and "io_for xs f w = (Inr (), w')" and "P (wdb w)"
  shows "view (wdb w') = foldl g (view (wdb w)) xs \<and> P (wdb w')"
  using assms
proof (induction xs arbitrary: w)
  case (Cons x xs)
  from Cons.prems(2) obtain y w1 where f: "f x w = (Inr y, w1)" and rest: "io_for xs f w1 = (Inr (), w')"
    by (auto simp: bind_ok)
  have step: "view (wdb w1) = g (view (wdb w)) x" "P (wdb w1)"
    using Cons.prems(1) [OF _ f Cons.prems(3)] by simp_all
  have "view (wdb w') = foldl g (view (wdb w1)) xs \<and> P (wdb w')"
    by (rule Cons.IH [OF Cons.prems(1) [OF list.set_intros(2)] rest step(2)])
  then show ?case using step by simp
qed simp

end
