(* ===== verification/Tables.thy ===== *)
theory Tables
  imports Effects
begin

text \<open>
  Tables as lists of rows in insertion order, and the statements the sources run on them. The
  contract of an \<open>INSERT .. ON CONFLICT (key) DO UPDATE\<close> is a locale, interpreted for each of
  the code's upserts in the theory of the component that has it.
\<close>

section \<open>Statements\<close>

definition lookup :: "('r \<Rightarrow> 'k) \<Rightarrow> 'k \<Rightarrow> 'r list \<Rightarrow> 'r option" where
  "lookup key k rows = find (\<lambda>r. key r = k) rows"

definition update_where :: "('r \<Rightarrow> bool) \<Rightarrow> ('r \<Rightarrow> 'r) \<Rightarrow> 'r list \<Rightarrow> 'r list" where
  "update_where p f rows = map (\<lambda>r. if p r then f r else r) rows"

definition upsert :: "('r \<Rightarrow> 'k) \<Rightarrow> 'k \<Rightarrow> 'r \<Rightarrow> ('r \<Rightarrow> 'r) \<Rightarrow> 'r list \<Rightarrow> 'r list" where
  "upsert key k new merge rows =
     (if k \<in> set (map key rows) then update_where (\<lambda>r. key r = k) merge rows else rows @ [new])"

text \<open>\<open>ORDER BY id DESC LIMIT 1\<close> and other greatest-first choices.\<close>

fun latest_by :: "('r \<Rightarrow> 'k::linorder) \<Rightarrow> 'r list \<Rightarrow> 'r option" where
  "latest_by f [] = None"
| "latest_by f (r # rs) =
     (case latest_by f rs of None \<Rightarrow> Some r | Some q \<Rightarrow> if f q < f r then Some r else Some q)"

text \<open>\<open>ORDER BY f ASC\<close>, stable.\<close>

definition order_by :: "('r \<Rightarrow> 'k::linorder) \<Rightarrow> 'r list \<Rightarrow> 'r list" where
  "order_by f rows = sort_key f rows"

section \<open>Laws\<close>

lemma lookup_Nil [simp]: "lookup key k [] = None"
  by (simp add: lookup_def)

lemma lookup_Cons: "lookup key k (r # rs) = (if key r = k then Some r else lookup key k rs)"
  by (simp add: lookup_def)

lemma lookup_None_iff: "lookup key k rows = None \<longleftrightarrow> k \<notin> key ` set rows"
  by (auto simp: lookup_def find_None_iff)

lemma lookup_SomeD: "lookup key k rows = Some r \<Longrightarrow> r \<in> set rows \<and> key r = k"
  by (auto simp: lookup_def find_Some_iff)

lemma lookup_distinct:
  "distinct (map key rows) \<Longrightarrow> r \<in> set rows \<Longrightarrow> lookup key (key r) rows = Some r"
  by (induction rows) (force simp: lookup_Cons)+

lemma lookup_append: "lookup key k (xs @ ys) = (case lookup key k xs of None \<Rightarrow> lookup key k ys | Some r \<Rightarrow> Some r)"
  by (induction xs) (auto simp: lookup_Cons)

lemma length_update_where [simp]: "length (update_where p f rows) = length rows"
  by (simp add: update_where_def)

lemma map_update_where:
  "(\<And>r. r \<in> set rows \<Longrightarrow> p r \<Longrightarrow> g (f r) = g r) \<Longrightarrow> map g (update_where p f rows) = map g rows"
  by (auto simp: update_where_def)

lemma set_update_where: "set (update_where p f rows) = {if p r then f r else r | r. r \<in> set rows}"
  by (auto simp: update_where_def)

lemma lookup_update_where:
  "(\<And>r. key (f r) = key r) \<Longrightarrow>
   lookup key k (update_where p f rows) = map_option (\<lambda>r. if p r then f r else r) (lookup key k rows)"
  by (induction rows) (auto simp: lookup_Cons update_where_def)

lemma lookup_update_same:
  "(\<And>r. r \<in> set rows \<Longrightarrow> key (f r) = key r) \<Longrightarrow>
   lookup key k (update_where (\<lambda>r. key r = k) f rows) = map_option f (lookup key k rows)"
  by (induction rows) (auto simp: lookup_Cons update_where_def)

lemma lookup_update_other:
  "(\<And>r. r \<in> set rows \<Longrightarrow> p r \<Longrightarrow> key (f r) = key r \<and> key r \<noteq> k) \<Longrightarrow>
   lookup key k (update_where p f rows) = lookup key k rows"
  by (induction rows) (auto simp: lookup_Cons update_where_def)

lemma latest_by_None [simp]: "latest_by f rows = None \<longleftrightarrow> rows = []"
  by (induction rows) (auto split: option.splits)

lemma latest_by_max:
  "latest_by f rows = Some r \<Longrightarrow> r \<in> set rows \<and> (\<forall>q \<in> set rows. f q \<le> f r)"
  by (induction rows arbitrary: r) (fastforce split: option.splits if_splits)+

lemma latest_by_append_max:
  "(\<And>q. q \<in> set rows \<Longrightarrow> f q < f r) \<Longrightarrow> latest_by f (rows @ [r]) = Some r"
  by (induction rows) (auto dest: order.asym)

section \<open>The contract of an upsert\<close>

text \<open>
  \<open>fresh k a\<close> is the row that the statement inserts for the key \<open>k\<close> and the bound values \<open>a\<close>,
  \<open>merge a\<close> what its \<open>DO UPDATE\<close> does to the row in place.
\<close>

locale upsert_contract =
  fixes key :: "'r \<Rightarrow> 'k" and fresh :: "'k \<Rightarrow> 'a \<Rightarrow> 'r" and merge :: "'a \<Rightarrow> 'r \<Rightarrow> 'r"
  assumes key_fresh: "key (fresh k a) = k"
    and key_merge: "key (merge a r) = key r"
begin

lemma lookup_same:
  "lookup key k (upsert key k (fresh k a) (merge a) rows) =
     Some (case lookup key k rows of None \<Rightarrow> fresh k a | Some r \<Rightarrow> merge a r)"
proof (cases "k \<in> set (map key rows)")
  case True
  then obtain r where "lookup key k rows = Some r"
    by (metis lookup_None_iff not_None_eq set_map)
  with True show ?thesis by (simp add: upsert_def lookup_update_same key_merge)
next
  case False
  then have "lookup key k rows = None" by (simp add: lookup_None_iff)
  with False show ?thesis by (simp add: upsert_def lookup_append lookup_Cons key_fresh)
qed

lemma lookup_other:
  "j \<noteq> k \<Longrightarrow> lookup key j (upsert key k (fresh k a) (merge a) rows) = lookup key j rows"
proof -
  assume j: "j \<noteq> k"
  have "lookup key j (update_where (\<lambda>r. key r = k) (merge a) rows) = lookup key j rows"
    using j by (intro lookup_update_other) (auto simp: key_merge)
  with j show ?thesis
    by (auto simp: upsert_def lookup_append lookup_Cons key_fresh split: option.splits)
qed

lemma keys:
  "map key (upsert key k (fresh k a) (merge a) rows) =
     (if k \<in> set (map key rows) then map key rows else map key rows @ [k])"
  by (simp add: upsert_def map_update_where key_merge key_fresh)

lemma distinct_keys:
  "distinct (map key rows) \<Longrightarrow> distinct (map key (upsert key k (fresh k a) (merge a) rows))"
  by (simp only: keys) simp

lemma all_rows:
  assumes "\<And>r. r \<in> set rows \<Longrightarrow> P r" and "P (fresh k a)"
    and "\<And>r. r \<in> set rows \<Longrightarrow> P r \<Longrightarrow> P (merge a r)"
  shows "\<forall>r \<in> set (upsert key k (fresh k a) (merge a) rows). P r"
  using assms by (auto simp: upsert_def set_update_where)

end

end
