(* ===== verification/Float64.thy ===== *)
theory Float64
  imports Prelude Complex_Main "HOL-Library.Log_Nat"
begin

text \<open>
  Rust's \<open>f64\<close>: IEEE 754 binary64 with round-to-nearest-even. A value is a NaN, an infinity
  or a finite rational; the sign of a zero is not kept (no code of the repository divides by
  a computed zero or prints one). \<open>round64\<close> rounds an exact rational to the nearest double,
  and every arithmetic operation is the exact operation followed by it. The transcendental
  functions of the standard library are a parameter (record \<open>libm\<close>), because their precision
  is left open by its documentation.
\<close>

section \<open>Rounding\<close>

datatype f64 = NaN | Inf bool | Fin rat

text \<open>\<open>ilog2 q\<close> is the binary exponent of a positive rational.\<close>

definition ilog2 :: "rat \<Rightarrow> int" where
  "ilog2 q = (let (n, d) = quotient_of q; k = bitlen n - bitlen d
              in if q < power_int 2 k then k - 1 else k)"

definition round_even :: "rat \<Rightarrow> int" where
  "round_even x =
     (let f = \<lfloor>x\<rfloor>; r = x - of_int f
      in if r < 1 / 2 then f else if 1 / 2 < r then f + 1 else if even f then f else f + 1)"

definition ulp_exp :: "rat \<Rightarrow> int" where
  "ulp_exp q = max (ilog2 q - 52) (-1074)"

definition round_pos :: "rat \<Rightarrow> rat" where
  "round_pos q = of_int (round_even (q / power_int 2 (ulp_exp q))) * power_int 2 (ulp_exp q)"

definition round64 :: "rat \<Rightarrow> f64" where
  "round64 q =
     (if q = 0 then Fin 0
      else let v = round_pos \<bar>q\<bar> in if 2 ^ 1024 \<le> v then Inf (q < 0) else Fin (sgn q * v))"

section \<open>Operations\<close>

fun fneg :: "f64 \<Rightarrow> f64" where
  "fneg NaN = NaN"
| "fneg (Inf s) = Inf (\<not> s)"
| "fneg (Fin a) = Fin (- a)"

fun fabs :: "f64 \<Rightarrow> f64" where
  "fabs NaN = NaN"
| "fabs (Inf s) = Inf False"
| "fabs (Fin a) = Fin \<bar>a\<bar>"

fun fadd :: "f64 \<Rightarrow> f64 \<Rightarrow> f64" where
  "fadd (Fin a) (Fin b) = round64 (a + b)"
| "fadd NaN _ = NaN"
| "fadd _ NaN = NaN"
| "fadd (Inf s) (Inf t) = (if s = t then Inf s else NaN)"
| "fadd (Inf s) (Fin _) = Inf s"
| "fadd (Fin _) (Inf s) = Inf s"

definition fsub :: "f64 \<Rightarrow> f64 \<Rightarrow> f64" where
  "fsub a b = fadd a (fneg b)"

fun fmul :: "f64 \<Rightarrow> f64 \<Rightarrow> f64" where
  "fmul (Fin a) (Fin b) = round64 (a * b)"
| "fmul NaN _ = NaN"
| "fmul _ NaN = NaN"
| "fmul (Inf s) (Inf t) = Inf (s \<noteq> t)"
| "fmul (Inf s) (Fin b) = (if b = 0 then NaN else Inf (s \<noteq> (b < 0)))"
| "fmul (Fin a) (Inf s) = (if a = 0 then NaN else Inf (s \<noteq> (a < 0)))"

fun fdiv :: "f64 \<Rightarrow> f64 \<Rightarrow> f64" where
  "fdiv (Fin a) (Fin b) =
     (if b \<noteq> 0 then round64 (a / b) else if a = 0 then NaN else Inf (a < 0))"
| "fdiv NaN _ = NaN"
| "fdiv _ NaN = NaN"
| "fdiv (Inf s) (Inf t) = NaN"
| "fdiv (Inf s) (Fin b) = Inf (s \<noteq> (b < 0))"
| "fdiv (Fin a) (Inf s) = Fin 0"

text \<open>Comparisons are false on a NaN, as in Rust.\<close>

fun fle :: "f64 \<Rightarrow> f64 \<Rightarrow> bool" where
  "fle (Fin a) (Fin b) = (a \<le> b)"
| "fle NaN _ = False"
| "fle _ NaN = False"
| "fle (Inf s) (Inf t) = (s \<or> \<not> t)"
| "fle (Inf s) (Fin _) = s"
| "fle (Fin _) (Inf s) = (\<not> s)"

fun flt :: "f64 \<Rightarrow> f64 \<Rightarrow> bool" where
  "flt (Fin a) (Fin b) = (a < b)"
| "flt NaN _ = False"
| "flt _ NaN = False"
| "flt (Inf s) (Inf t) = (s \<and> \<not> t)"
| "flt (Inf s) (Fin _) = s"
| "flt (Fin _) (Inf s) = (\<not> s)"

text \<open>\<open>f64::max\<close> returns the other argument when one is a NaN.\<close>

definition fmax :: "f64 \<Rightarrow> f64 \<Rightarrow> f64" where
  "fmax a b = (if a = NaN then b else if b = NaN then a else if flt a b then b else a)"

fun is_finite :: "f64 \<Rightarrow> bool" where
  "is_finite (Fin _) = True"
| "is_finite _ = False"

definition f64_of_int :: "int \<Rightarrow> f64" where
  "f64_of_int n = round64 (of_int n)"

fun f64_floor :: "f64 \<Rightarrow> f64" where
  "f64_floor (Fin a) = Fin (of_int \<lfloor>a\<rfloor>)"
| "f64_floor x = x"

text \<open>\<open>f64::round\<close> rounds half-way cases away from zero.\<close>

fun f64_round :: "f64 \<Rightarrow> f64" where
  "f64_round (Fin a) = Fin (sgn a * of_int \<lfloor>\<bar>a\<bar> + 1 / 2\<rfloor>)"
| "f64_round x = x"

text \<open>\<open>as i64\<close> truncates towards zero and saturates; a NaN gives 0.\<close>

definition clamp_i64 :: "int \<Rightarrow> int" where
  "clamp_i64 n = max (- (2 ^ 63)) (min (2 ^ 63 - 1) n)"

fun f64_as_i64 :: "f64 \<Rightarrow> int" where
  "f64_as_i64 (Fin a) = clamp_i64 (if 0 \<le> a then \<lfloor>a\<rfloor> else - \<lfloor>- a\<rfloor>)"
| "f64_as_i64 NaN = 0"
| "f64_as_i64 (Inf s) = (if s then - (2 ^ 63) else 2 ^ 63 - 1)"

text \<open>The functions of the platform's mathematical library.\<close>

record libm =
  fsin :: "f64 \<Rightarrow> f64"
  fcos :: "f64 \<Rightarrow> f64"
  fatan2 :: "f64 \<Rightarrow> f64 \<Rightarrow> f64"
  fsqrt :: "f64 \<Rightarrow> f64"

text \<open>\<open>f64::to_radians\<close> multiplies by the double nearest to \<open>\<pi> / 180\<close>.\<close>

definition PIS_IN_180 :: rat where
  "PIS_IN_180 = 5030569068109113 / 2 ^ 58"

definition to_radians :: "f64 \<Rightarrow> f64" where
  "to_radians x = fmul x (Fin PIS_IN_180)"

section \<open>Laws of rounding\<close>

lemma exp2_pos: "0 < power_int (2 :: rat) k"
  by simp

lemma exp2_nonzero: "power_int (2 :: rat) k \<noteq> 0"
  by simp

lemma exp2_mono: "i \<le> j \<Longrightarrow> power_int (2 :: rat) i \<le> power_int 2 j"
  by (rule power_int_increasing) auto

lemma exp2_less_iff: "power_int (2 :: rat) i < power_int 2 j \<longleftrightarrow> i < j"
  using exp2_mono [of j i] power_int_strict_increasing [of i j "2 :: rat"] by force

lemma exp2_add: "power_int (2 :: rat) (i + j) = power_int 2 i * power_int 2 j"
  by (simp add: power_int_add)

lemma exp2_diff: "power_int (2 :: rat) (i - j) = power_int 2 i / power_int 2 j"
  by (simp add: power_int_diff)

lemma exp2_nat: "0 \<le> k \<Longrightarrow> power_int (2 :: rat) k = of_int (2 ^ nat k)"
  by (simp add: power_int_def)

lemma bitlen_rat:
  assumes "0 < n"
  shows "power_int (2 :: rat) (bitlen n - 1) \<le> of_int n \<and> of_int n < power_int (2 :: rat) (bitlen n)"
proof -
  have pos: "0 < bitlen n" using bitlen_nonneg [of n] bitlen_eq_zero_iff [of n] assms by linarith
  have b: "2 ^ nat (bitlen n - 1) \<le> n" "n < 2 ^ nat (bitlen n)"
    using bitlen_bounds [OF assms] by auto
  have "(of_int (2 ^ nat (bitlen n - 1)) :: rat) \<le> of_int n" using b(1) of_int_le_iff by blast
  moreover have "(of_int n :: rat) < of_int (2 ^ nat (bitlen n))" using b(2) of_int_less_iff by blast
  ultimately show ?thesis using pos by (simp add: exp2_nat)
qed

lemma ilog2_bounds:
  assumes "0 < q"
  shows "power_int 2 (ilog2 q) \<le> q \<and> q < power_int 2 (ilog2 q + 1)"
proof -
  obtain n d where nd: "quotient_of q = (n, d)" by force
  have d: "0 < d" using quotient_of_denom_pos [OF nd] .
  have q: "q = of_int n / of_int d" using quotient_of_div [OF nd] .
  have n: "0 < n" using assms d q by (simp add: zero_less_divide_iff)
  define k where "k = bitlen n - bitlen d"
  note bn = bitlen_rat [OF n] and bd = bitlen_rat [OF d]
  have "power_int 2 (k - 1) = power_int 2 (bitlen n - 1) / power_int (2 :: rat) (bitlen d)"
    by (simp add: k_def algebra_simps flip: exp2_diff)
  also have "\<dots> \<le> of_int n / of_int d" using bn bd d n by (intro frac_le) auto
  finally have lower: "power_int 2 (k - 1) \<le> q" by (simp add: q)
  have "of_int n / of_int d < power_int 2 (bitlen n) / power_int (2 :: rat) (bitlen d - 1)"
    using bn bd n by (intro frac_less) auto
  also have "\<dots> = power_int 2 (k + 1)" by (simp add: k_def algebra_simps flip: exp2_diff)
  finally have upper: "q < power_int 2 (k + 1)" by (simp add: q)
  show ?thesis using lower upper by (simp add: ilog2_def nd Let_def flip: k_def)
qed

lemma ilog2_less_iff: "0 < q \<Longrightarrow> ilog2 q < k \<longleftrightarrow> q < power_int 2 k"
proof
  assume q: "0 < q"
  show "ilog2 q < k \<Longrightarrow> q < power_int 2 k"
    using ilog2_bounds [OF q] exp2_mono [of "ilog2 q + 1" k] by linarith
  show "q < power_int 2 k \<Longrightarrow> ilog2 q < k"
    using ilog2_bounds [OF q] exp2_less_iff [of "ilog2 q" k] by linarith
qed

lemma ilog2_mono: "0 < x \<Longrightarrow> x \<le> y \<Longrightarrow> ilog2 x \<le> ilog2 y"
  using ilog2_less_iff [of x "ilog2 y + 1"] ilog2_bounds [of y] by linarith

lemma round_even_of_int [simp]: "round_even (of_int n) = n"
  by (simp add: round_even_def)

lemma round_even_floor: "\<lfloor>x\<rfloor> \<le> round_even x \<and> round_even x \<le> \<lfloor>x\<rfloor> + 1"
  by (simp add: round_even_def Let_def)

lemma round_even_mono: "x \<le> y \<Longrightarrow> round_even x \<le> round_even y"
proof (cases "\<lfloor>x\<rfloor> = \<lfloor>y\<rfloor>")
  case True
  assume "x \<le> y"
  with True show ?thesis by (auto simp: round_even_def Let_def)
next
  case False
  assume "x \<le> y"
  with False have "\<lfloor>x\<rfloor> + 1 \<le> \<lfloor>y\<rfloor>" using floor_mono [of x y] by linarith
  then show ?thesis using round_even_floor [of x] round_even_floor [of y] by linarith
qed

lemma round_even_near: "\<bar>of_int (round_even x) - x\<bar> \<le> 1 / 2"
proof -
  define f r where "f = \<lfloor>x\<rfloor>" and "r = x - of_int f"
  then have "0 \<le> r" "r < 1" "x = of_int f + r" by linarith+
  then show ?thesis unfolding round_even_def Let_def f_def [symmetric] r_def [symmetric]
    by auto
qed

lemma ulp_exp_mono: "0 < x \<Longrightarrow> x \<le> y \<Longrightarrow> ulp_exp x \<le> ulp_exp y"
  using ilog2_mono [of x y] by (simp add: ulp_exp_def)

lemma round_even_grid:
  assumes "k \<ge> e" and "q = of_int m * power_int 2 k"
  shows "of_int (round_even (q / power_int 2 e)) * power_int 2 e = q"
proof -
  have eq: "q / power_int 2 e = of_int (m * 2 ^ nat (k - e))"
    using assms exp2_add [of "k - e" e] by (simp add: exp2_nat)
  show ?thesis unfolding eq round_even_of_int unfolding eq [symmetric] by simp
qed

lemma round_pos_mono:
  assumes "0 < x" and "x \<le> y"
  shows "round_pos x \<le> round_pos y"
proof (cases "ulp_exp x = ulp_exp y")
  case True
  have "x / power_int 2 (ulp_exp y) \<le> y / power_int 2 (ulp_exp y)"
    using assms by (simp add: divide_right_mono)
  then show ?thesis using True by (simp add: round_pos_def round_even_mono)
next
  case False
  then have less: "ulp_exp x < ulp_exp y" using ulp_exp_mono [OF assms] by simp
  then have uy: "ulp_exp y = ilog2 y - 52"
    by (auto simp: ulp_exp_def max_def split: if_splits)
  define p where "p = power_int (2 :: rat) (ilog2 y)"
  have "ilog2 x < ilog2 y" using less uy by (simp add: ulp_exp_def)
  then have xp: "x \<le> p" using ilog2_less_iff [OF assms(1)] by (simp add: p_def less_imp_le)
  have py: "p \<le> y" using ilog2_bounds [of y] assms by (simp add: p_def)
  have grid: "of_int (round_even (p / power_int 2 e)) * power_int 2 e = p" if "e \<le> ilog2 y" for e
    using round_even_grid [OF that, of p 1] by (simp add: p_def)
  have "round_pos x \<le> of_int (round_even (p / power_int 2 (ulp_exp x))) * power_int 2 (ulp_exp x)"
    using xp by (simp add: round_pos_def round_even_mono divide_right_mono)
  also have "\<dots> = p" using less uy by (intro grid) simp
  also have "p = of_int (round_even (p / power_int 2 (ulp_exp y))) * power_int 2 (ulp_exp y)"
    using uy by (intro grid [symmetric]) simp
  also have "\<dots> \<le> round_pos y"
    using py by (simp add: round_pos_def round_even_mono divide_right_mono)
  finally show ?thesis .
qed

lemma round_pos_nonneg: "0 < x \<Longrightarrow> 0 \<le> round_pos x"
  using round_even_mono [of 0 "x / power_int 2 (ulp_exp x)"] round_even_of_int [of 0]
  by (simp add: round_pos_def)

text \<open>A value with a 53-bit significand on the grid of the subnormals rounds to itself.\<close>

lemma round_pos_exact:
  assumes "q = of_int m * power_int 2 e" and "0 < m" and "m < 2 ^ 53" and "-1074 \<le> e"
  shows "round_pos q = q"
proof -
  have q: "0 < q" using assms by simp
  have "(of_int m :: rat) < of_int (2 ^ 53)" using assms(3) by (simp only: of_int_less_iff)
  then have "q < power_int 2 53 * power_int 2 e"
    unfolding assms(1) by (intro mult_strict_right_mono) (auto simp: exp2_nat)
  also have "\<dots> = power_int 2 (e + 53)" by (simp only: exp2_add mult.commute)
  finally have "ilog2 q < e + 53" using q by (simp add: ilog2_less_iff)
  then have "ulp_exp q \<le> e" using assms(4) by (simp add: ulp_exp_def)
  then show ?thesis unfolding round_pos_def by (rule round_even_grid [OF _ assms(1)])
qed

lemma round64_mono:
  assumes "x \<le> y"
  shows "fle (round64 x) (round64 y)"
proof -
  consider "x = 0" | "y = 0" | "0 < x" | "y < 0" | "x < 0" "0 < y" using assms by linarith
  then show ?thesis
  proof cases
    case 1
    then show ?thesis using assms round_pos_nonneg [of y] by (auto simp: round64_def Let_def)
  next
    case 2
    then show ?thesis using assms round_pos_nonneg [of "- x"] by (auto simp: round64_def Let_def)
  next
    case 3
    then show ?thesis using assms round_pos_mono [of x y] by (auto simp: round64_def Let_def)
  next
    case 4
    then show ?thesis using assms round_pos_mono [of "- y" "- x"] by (auto simp: round64_def Let_def)
  next
    case 5
    then show ?thesis using round_pos_nonneg [of y] round_pos_nonneg [of "- x"]
      by (auto simp: round64_def Let_def)
  qed
qed

lemma round64_exact:
  assumes q: "q = of_int m * power_int 2 e" and m: "\<bar>m\<bar> < 2 ^ 53" and e: "-1074 \<le> e"
    and max: "\<bar>q\<bar> < 2 ^ 1024"
  shows "round64 q = Fin q"
proof (cases "m = 0")
  case True
  then show ?thesis by (simp add: q round64_def)
next
  case False
  have "\<bar>q\<bar> = of_int \<bar>m\<bar> * power_int 2 e" by (simp add: q abs_mult)
  then have "round_pos \<bar>q\<bar> = \<bar>q\<bar>" using False m e by (intro round_pos_exact) auto
  moreover have "q \<noteq> 0" using False by (simp add: q)
  ultimately show ?thesis using max by (simp add: round64_def Let_def sgn_mult_abs not_le)
qed

lemma round64_of_int: "\<bar>m\<bar> < 2 ^ 53 \<Longrightarrow> round64 (of_int m) = Fin (of_int m)"
proof -
  assume m: "\<bar>m\<bar> < 2 ^ 53"
  have "(of_int \<bar>m\<bar> :: rat) < of_int (2 ^ 1024)"
    using m less_trans [OF m, of "2 ^ 1024"] by (simp only: of_int_less_iff) simp
  then have "\<bar>of_int m :: rat\<bar> < 2 ^ 1024" by simp
  then show ?thesis using m by (intro round64_exact [of _ m 0]) auto
qed

lemma f64_of_int_exact: "\<bar>m\<bar> < 2 ^ 53 \<Longrightarrow> f64_of_int m = Fin (of_int m)"
  by (simp add: f64_of_int_def round64_of_int)

text \<open>The doubles: the values that rounding leaves alone. Every operation yields one.\<close>

fun is_f64 :: "f64 \<Rightarrow> bool" where
  "is_f64 (Fin a) = (round64 a = Fin a)"
| "is_f64 _ = True"

lemma round_pos_grid:
  assumes "0 < q"
  shows "\<exists>m e. round_pos q = of_int m * power_int 2 e \<and> 0 \<le> m \<and> m < 2 ^ 53 \<and> -1074 \<le> e"
proof -
  define e m where "e = ulp_exp q" and "m = round_even (q / power_int 2 e)"
  have v: "round_pos q = of_int m * power_int 2 e" by (simp add: round_pos_def m_def e_def)
  have e: "-1074 \<le> e" by (simp add: e_def ulp_exp_def)
  have "ilog2 q < e + 53" by (auto simp: e_def ulp_exp_def)
  then have "q < power_int 2 (e + 53)" using assms by (simp add: ilog2_less_iff)
  then have "q / power_int 2 e < power_int 2 53" by (simp add: divide_less_eq exp2_add mult.commute)
  then have "q / power_int 2 e \<le> of_int (2 ^ 53)" by (simp add: exp2_nat)
  from round_even_mono [OF this] have m: "m \<le> 2 ^ 53" by (simp only: m_def round_even_of_int)
  have m0: "0 \<le> m" using round_even_mono [of "of_int 0" "q / power_int 2 e"] assms
    by (simp add: m_def del: of_int_0) (simp add: round_even_of_int [of 0, simplified])
  show ?thesis
  proof (cases "m = 2 ^ 53")
    case True
    have "round_pos q = of_int 1 * power_int 2 (e + 53)"
      using v True exp2_nat [of 53] by (simp add: exp2_add)
    then show ?thesis using e by (intro exI [of _ 1] exI [of _ "e + 53"]) auto
  next
    case False
    then show ?thesis using v e m m0 by (intro exI [of _ m] exI [of _ e]) auto
  qed
qed

lemma is_f64_round64: "is_f64 (round64 q)"
proof (cases "q = 0 \<or> 2 ^ 1024 \<le> round_pos \<bar>q\<bar>")
  case True
  then show ?thesis by (auto simp: round64_def)
next
  case False
  then obtain m e where v: "round_pos \<bar>q\<bar> = of_int m * power_int 2 e"
    and m: "0 \<le> m" "m < 2 ^ 53" and e: "-1074 \<le> e"
    using round_pos_grid [of "\<bar>q\<bar>"] by auto
  have "sgn q * round_pos \<bar>q\<bar> = of_int ((if q < 0 then -1 else 1) * m) * power_int 2 e"
    using False by (simp add: v sgn_if)
  moreover have "\<bar>sgn q * round_pos \<bar>q\<bar>\<bar> < 2 ^ 1024"
    using False round_pos_nonneg [of "\<bar>q\<bar>"] by (cases "q < 0") (auto simp: abs_mult)
  ultimately have "round64 (sgn q * round_pos \<bar>q\<bar>) = Fin (sgn q * round_pos \<bar>q\<bar>)"
    using m e by (intro round64_exact [where m = "(if q < 0 then -1 else 1) * m" and e = e])
      (auto simp: abs_mult)
  then show ?thesis using False by (simp add: round64_def)
qed

lemma is_f64_fadd: "is_f64 a \<Longrightarrow> is_f64 b \<Longrightarrow> is_f64 (fadd a b)"
  by (cases a; cases b) (auto simp: is_f64_round64)

text \<open>Adding a non-negative double never decreases a double, whatever the rounding.\<close>

lemma fadd_increasing:
  assumes "is_f64 a" and "a \<noteq> NaN" and "fle (Fin 0) b" and "a \<noteq> Inf True"
  shows "fle a (fadd a b)"
proof (cases a)
  case (Fin x)
  then show ?thesis
  proof (cases b)
    case y: (Fin y)
    with assms(3) round64_mono [of x "x + y"] Fin assms(1) show ?thesis by simp
  qed (use Fin assms(3) in auto)
qed (use assms in \<open>cases b; auto\<close>)+

end
