(* ===== verification/Store.thy ===== *)
theory Store
  imports Tables Float64
begin

text \<open>
  The tables of the database as the migrations leave them, one record type per row. Columns that
  an \<open>UPDATE\<close> of the code always sets together are grouped (\<open>location_columns\<close>,
  \<open>heartbeat_columns\<close>). Not kept are the \<open>created_at\<close> and \<open>updated_at\<close> stamps that no query
  reads, the raw JSON copies of provider messages, and the columns of \<open>customers\<close> that no query
  reads. Nullable columns are options, text is a string, \<open>BIGINT\<close> and \<open>INTEGER\<close> are
  integers, an instant is in microseconds and a date in days.
\<close>

section \<open>Rows\<close>

record location_columns =
  lk_gps_timestamp :: int
  lk_protocol_number :: int
  lk_packet_family :: string
  lk_latitude :: f64
  lk_longitude :: f64
  lk_speed_kph :: int
  lk_course :: int
  lk_course_status :: int
  lk_satellite_count :: int
  lk_gps_info_length :: int
  lk_extra_data_hex :: string

record heartbeat_columns =
  hk_terminal_info_raw :: int
  hk_terminal_info_bits :: string
  hk_gps_tracking_on :: bool
  hk_bit_1_guess :: bool
  hk_acc_high :: "bool option"
  hk_bit_3_guess :: bool
  hk_vibration_detected :: bool
  hk_bit_4_guess :: bool
  hk_engine_status_guess :: string
  hk_voltage_level :: int
  hk_gsm_signal_strength :: int
  hk_alarm_language :: int

record device_row =
  dv_id :: int
  dv_imei :: string
  dv_first_seen_at :: int
  dv_last_seen_at :: int
  dv_last_login_at :: "int option"
  dv_last_heartbeat_at :: "int option"
  dv_last_location_at :: "int option"
  dv_latest_peer_addr :: "string option"
  dv_latest_protocol_number :: "int option"
  dv_latest_packet_family :: "string option"
  dv_latest_location :: "location_columns option"
  dv_latest_heartbeat :: "heartbeat_columns option"
  dv_updated_at :: int
  dv_sim_card :: "string option"
  dv_sim_card_expiration_date :: "int option"
  dv_referenced_by_customer_id :: "int option"
  dv_pricing_tier :: string
  dv_shipment_fee_idr :: "int option"

record location_row =
  lr_id :: int
  lr_device_id :: int
  lr_imei :: string
  lr_server_received_at :: int
  lr_columns :: location_columns
  lr_peer_addr :: string

record heartbeat_row =
  hr_id :: int
  hr_device_id :: int
  hr_imei :: string
  hr_server_received_at :: int
  hr_protocol_number :: int
  hr_peer_addr :: string
  hr_columns :: heartbeat_columns

record odometer_row =
  od_imei :: string
  od_total_distance_meters :: f64
  od_last_processed_location_id :: "int option"
  od_last_server_received_at :: "int option"
  od_last_latitude :: "f64 option"
  od_last_longitude :: "f64 option"
  od_last_speed_kph :: "int option"

record daily_row =
  dd_imei :: string
  dd_distance_date :: int
  dd_distance_meters :: f64

record user_row =
  tu_telegram_user_id :: int
  tu_chat_id :: int
  tu_bound_imei :: "string option"
  tu_registration_status :: string

record subscription_row =
  sb_id :: int
  sb_telegram_user_id :: int
  sb_chat_id :: int
  sb_plan_code :: string
  sb_status :: string
  sb_current_period_start_at :: "int option"
  sb_current_period_end_at :: "int option"

record payment_row =
  pm_id :: int
  pm_telegram_user_id :: int
  pm_chat_id :: int
  pm_device_id :: "int option"
  pm_imei :: "string option"
  pm_subscription_id :: "int option"
  pm_payment_status :: string
  pm_plan_code :: string
  pm_gross_amount_idr :: int
  pm_period_days :: int
  pm_provider_order_id :: string
  pm_provider_transaction_id :: "string option"
  pm_payment_type :: "string option"
  pm_payment_url :: "string option"
  pm_expires_at :: "int option"
  pm_paid_at :: "int option"

record sanction_row =
  sn_subscription_id :: int
  sn_telegram_user_id :: int
  sn_chat_id :: int
  sn_last_pre_expiry_reminded_for_period_end_at :: "int option"
  sn_last_pre_expiry_reminded_day :: "int option"
  sn_last_overdue_reminded_day :: "int option"
  sn_fine_amount_idr :: int
  sn_withdrawal_required :: bool
  sn_withdrawal_required_at :: "int option"
  sn_resolved_at :: "int option"

record notification_row =
  nt_imei :: string
  nt_chat_id :: int
  nt_last_status :: string
  nt_last_message_id :: int
  nt_last_heartbeat_id :: int

record session_row =
  es_id :: int
  es_imei :: string
  es_chat_id :: int
  es_trigger_heartbeat_id :: int
  es_prompt_message_id :: int
  es_ride_status_message_id :: "int option"
  es_session_status :: string
  es_created_at :: int
  es_resolved_at :: "int option"

record fuel_row =
  fc_id :: int
  fc_imei :: string
  fc_status :: string
  fc_started_at :: int
  fc_start_distance_meters :: f64
  fc_completed_at :: "int option"
  fc_end_distance_meters :: "f64 option"
  fc_distance_meters :: "f64 option"
  fc_liters :: "f64 option"
  fc_total_cost_idr :: "int option"
  fc_fuel_type :: "string option"
  fc_riding_seconds :: "int option"
  fc_engine_on_seconds :: "int option"
  fc_trip_count :: "int option"

record customer_row =
  cu_id :: int
  cu_name :: string
  cu_phone_number :: string
  cu_imei :: string
  cu_updated_at :: int

section \<open>The database\<close>

record store =
  devices :: "device_row list"
  device_locations :: "location_row list"
  device_heartbeats :: "heartbeat_row list"
  device_distance_odometer :: "odometer_row list"
  device_distance_daily :: "daily_row list"
  telegram_users :: "user_row list"
  telegram_subscriptions :: "subscription_row list"
  telegram_payment_events :: "payment_row list"
  telegram_subscription_sanctions :: "sanction_row list"
  telegram_bot_state :: "(string \<times> string) list"
  telegram_device_notifications :: "notification_row list"
  telegram_engine_sessions :: "session_row list"
  fuel_calibrations :: "fuel_row list"
  customers :: "customer_row list"

definition empty_store :: store where
  "empty_store = \<lparr>devices = [], device_locations = [], device_heartbeats = [],
     device_distance_odometer = [], device_distance_daily = [], telegram_users = [],
     telegram_subscriptions = [], telegram_payment_events = [],
     telegram_subscription_sanctions = [], telegram_bot_state = [],
     telegram_device_notifications = [], telegram_engine_sessions = [], fuel_calibrations = [], customers = []\<rparr>"

end
