(* ===== verification/Calendar.thy ===== *)
theory Calendar
  imports Prelude
begin

text \<open>
  Time, as the sources use chrono: an instant (\<open>DateTime<Utc>\<close>) is its number of microseconds
  since the Unix epoch, the precision PostgreSQL stores; a \<open>NaiveDateTime\<close> is the same count of
  the local clock, and a \<open>NaiveDate\<close> is its number of days since 1970-01-01. The business day of
  the code is the date in WIB, seven hours ahead of UTC.
\<close>

section \<open>Durations and the WIB day\<close>

abbreviation SECOND :: int where "SECOND \<equiv> 1000000"
abbreviation DAY :: int where "DAY \<equiv> 86400000000"

definition WIB_OFFSET_SECONDS :: int where
  "WIB_OFFSET_SECONDS = 7 * 60 * 60"

text \<open>\<open>TimeDelta::num_seconds\<close> truncates towards zero.\<close>

definition num_seconds :: "int \<Rightarrow> int" where
  "num_seconds d = tdiv d SECOND"

definition wib_date :: "int \<Rightarrow> int" where
  "wib_date t = (t + WIB_OFFSET_SECONDS * SECOND) div DAY"

text \<open>The instant at which a WIB day begins.\<close>

definition wib_midnight :: "int \<Rightarrow> int" where
  "wib_midnight d = d * DAY - WIB_OFFSET_SECONDS * SECOND"

lemma wib_date_mono: "s \<le> t \<Longrightarrow> wib_date s \<le> wib_date t"
  by (simp add: wib_date_def zdiv_mono1)

lemma wib_date_le_iff: "d \<le> wib_date t \<longleftrightarrow> wib_midnight d \<le> t"
  by (simp add: wib_date_def wib_midnight_def le_zdiv_iff) linarith

lemma wib_date_eq_iff: "wib_date t = d \<longleftrightarrow> wib_midnight d \<le> t \<and> t < wib_midnight (d + 1)"
  using wib_date_le_iff [of d t] wib_date_le_iff [of "d + 1" t] by linarith

lemma wib_date_midnight [simp]: "wib_date (wib_midnight d) = d"
  by (simp add: wib_date_def wib_midnight_def)

lemma wib_date_add_days: "wib_date (t + n * DAY) = wib_date t + n"
  using wib_date_eq_iff [of t "wib_date t"] by (simp add: wib_date_eq_iff wib_midnight_def algebra_simps)

lemma num_seconds_range:
  "0 < lo \<Longrightarrow> lo \<le> num_seconds d \<and> num_seconds d \<le> hi \<longleftrightarrow>
   lo * SECOND \<le> d \<and> d < (hi + 1) * SECOND" if "0 \<le> hi"
  using tdiv_ge_iff [of SECOND lo d] tdiv_ge_iff [of SECOND "hi + 1" d] that
  by (auto simp: num_seconds_def)

section \<open>The civil calendar\<close>

definition leap_year :: "int \<Rightarrow> bool" where
  "leap_year y = (y mod 4 = 0 \<and> (y mod 100 \<noteq> 0 \<or> y mod 400 = 0))"

definition days_in_month :: "int \<Rightarrow> int \<Rightarrow> int" where
  "days_in_month y m =
     (if m = 2 then if leap_year y then 29 else 28
      else if m = 4 \<or> m = 6 \<or> m = 9 \<or> m = 11 then 30 else 31)"

definition days_before_month :: "int \<Rightarrow> int \<Rightarrow> int" where
  "days_before_month y m = sum_list (map (\<lambda>k. days_in_month y (int k)) [1..<nat m])"

definition days_before_year :: "int \<Rightarrow> int" where
  "days_before_year y = 365 * (y - 1) + (y - 1) div 4 - (y - 1) div 100 + (y - 1) div 400 - 719162"

text \<open>
  \<open>NaiveDate::from_ymd_opt\<close>, in the years the sources can produce (all four-digit years), and
  \<open>and_hms_opt\<close>.
\<close>

definition from_ymd_opt :: "int \<Rightarrow> int \<Rightarrow> int \<Rightarrow> int option" where
  "from_ymd_opt y m d =
     (if 1 \<le> m \<and> m \<le> 12 \<and> 1 \<le> d \<and> d \<le> days_in_month y m
      then Some (days_before_year y + days_before_month y m + d - 1) else None)"

definition and_hms_opt :: "int \<Rightarrow> int \<Rightarrow> int \<Rightarrow> int \<Rightarrow> int option" where
  "and_hms_opt date h m s =
     (if h < 24 \<and> m < 60 \<and> s < 60 then Some (date * DAY + (h * 3600 + m * 60 + s) * SECOND) else None)"

text \<open>\<open>NaiveDate::MIN\<close> and \<open>NaiveDate::MAX\<close>: the first day of the year -262143 and the last of 262142.\<close>

definition NAIVE_DATE_MIN :: int where "NAIVE_DATE_MIN = days_before_year (- 262143)"
definition NAIVE_DATE_MAX :: int where "NAIVE_DATE_MAX = days_before_year 262143 - 1"

text \<open>\<open>checked_add_signed\<close> of a number of days.\<close>

definition checked_add_days :: "int \<Rightarrow> int \<Rightarrow> int option" where
  "checked_add_days date n =
     (if NAIVE_DATE_MIN \<le> date + n \<and> date + n \<le> NAIVE_DATE_MAX then Some (date + n) else None)"

text \<open>
  \<open>year()\<close> and \<open>month()\<close> of a date: 400 years have 146097 days, so that the estimate is off by one
  at most.
\<close>

definition year_of :: "int \<Rightarrow> int" where
  "year_of d =
     (let y = (400 * (d + 719162)) div 146097 + 1
      in if d < days_before_year y then y - 1 else if days_before_year (y + 1) \<le> d then y + 1 else y)"

definition month_of :: "int \<Rightarrow> int" where
  "month_of d =
     (let y = year_of d
      in int (length (filter (\<lambda>m. days_before_year y + days_before_month y (int m) \<le> d) [1..<13])))"

lemma year_of_days: "days_before_year (year_of d) \<le> d \<and> d < days_before_year (year_of d + 1)"
proof -
  define k where "k = (400 * (d + 719162)) div 146097"
  have div: "146097 * (x div 146097) \<le> x \<and> x < 146097 * (x div 146097 + 1)" for x :: int
    by presburger
  have k: "146097 * k \<le> 400 * (d + 719162)" "400 * (d + 719162) < 146097 * (k + 1)"
    using div [of "400 * (d + 719162)"] unfolding k_def by blast+
  have b: "days_before_year (j + 1) + 719162 = 365 * j + j div 4 - j div 100 + j div 400" for j
    by (simp add: days_before_year_def)
  have q: "m * (j div m) \<le> j \<and> j < m * (j div m) + m" if "0 < m" for j m :: int
    using that mult_div_mod_eq [of m j] pos_mod_sign [of m j] pos_mod_bound [of m j] by linarith
  have bound: "146097 * j - 699 \<le> 400 * (days_before_year (j + 1) + 719162)"
    "400 * (days_before_year (j + 1) + 719162) \<le> 146097 * j + 396" for j
  proof -
    obtain a c e where q': "4 * a \<le> j" "j < 4 * a + 4" "100 * c \<le> j" "j < 100 * c + 100"
      "400 * e \<le> j" "j < 400 * e + 400"
      and days: "days_before_year (j + 1) + 719162 = 365 * j + a - c + e"
      using b [of j] q [of 4 j] q [of 100 j] q [of 400 j]
      by (intro that [of "j div 4" "j div 100" "j div 400"]) simp_all
    show "146097 * j - 699 \<le> 400 * (days_before_year (j + 1) + 719162)"
      unfolding days using q' by (simp only: distrib_left right_diff_distrib)
    show "400 * (days_before_year (j + 1) + 719162) \<le> 146097 * j + 396"
      unfolding days using q' by (simp only: distrib_left right_diff_distrib)
  qed
  show ?thesis
    using bound [of "k - 1"] bound [of k] bound [of "k + 1"] bound [of "k + 2"] k
    unfolding year_of_def Let_def k_def [symmetric] by (auto simp: algebra_simps)
qed

lemma epoch_day: "from_ymd_opt 1970 1 1 = Some 0"
  by code_simp

lemma sample_day: "from_ymd_opt 2026 5 16 = Some 20589"
  by code_simp

end
