(* ===== verification/Messages.thy ===== *)
theory Messages
  imports Calendar
begin

text \<open>
  The parts of \<open>src/telegram_messages.rs\<close> that compute: amounts, durations, relative times and the
  labels of signal and battery. A message text is represented by its number in that file and the
  strings that are substituted into it, in their order, because the fixed texts are not ASCII and
  nothing depends on them.
\<close>

datatype message = Msg nat "string list"

section \<open>Amounts\<close>

text \<open>A separator before every third digit, counted from the right.\<close>

definition group_thousands :: "string \<Rightarrow> string" where
  "group_thousands digits =
     rev (concat (map (\<lambda>(i, c). if 0 < i \<and> i mod 3 = 0 then [CHR ''.'', c] else [c])
       (enumerate 0 (rev digits))))"

definition format_idr :: "int \<Rightarrow> string" where
  "format_idr amount =
     (let formatted = group_thousands (show_nat (nat \<bar>amount\<bar>))
      in if amount < 0 then ''-Rp '' @ formatted else ''Rp '' @ formatted)"

section \<open>Durations\<close>

definition format_duration_compact_from_seconds :: "nat \<Rightarrow> string" where
  "format_duration_compact_from_seconds total_seconds =
     (let hours = total_seconds div 3600; minutes = (total_seconds mod 3600) div 60;
          seconds = total_seconds mod 60
      in if 0 < hours then show_nat hours @ ''h '' @ show_nat minutes @ ''m '' @ show_nat seconds @ ''s''
         else if 0 < minutes then show_nat minutes @ ''m '' @ show_nat seconds @ ''s''
         else show_nat seconds @ ''s'')"

definition format_duration_minutes_from_seconds :: "nat \<Rightarrow> string" where
  "format_duration_minutes_from_seconds total_seconds =
     (let total_minutes = total_seconds div 60; hours = total_minutes div 60;
          minutes = total_minutes mod 60
      in if 0 < hours then show_nat hours @ ''h '' @ show_nat minutes @ ''m''
         else show_nat minutes @ ''m'')"

text \<open>\<open>to_std().unwrap_or_default()\<close>: an event in the future counts as zero seconds ago.\<close>

definition format_relative_time_compact :: "int \<Rightarrow> int \<Rightarrow> string" where
  "format_relative_time_compact reference_time event_time =
     (let d = reference_time - event_time; seconds = (if d < 0 then 0 else nat (d div SECOND))
      in if seconds \<le> 59 then show_nat seconds @ ''dtk lalu''
         else if seconds \<le> 3599 then show_nat (seconds div 60) @ ''m lalu''
         else show_nat (seconds div 3600) @ ''j lalu'')"

section \<open>Labels\<close>

definition connection_status_label :: "int \<Rightarrow> string" where
  "connection_status_label gsm_signal_strength =
     (let level = max 1 (min 4 gsm_signal_strength)
      in if level = 1 then ''Lemah'' else if level = 2 then ''Cukup'' else if level = 3 then ''Baik''
         else if level = 4 then ''Sangat Baik'' else ''Tidak diketahui'')"

definition gps_battery_label :: "int \<Rightarrow> string" where
  "gps_battery_label voltage_level =
     (if voltage_level = 0 then ''Habis'' else if voltage_level = 1 then ''Sangat Rendah''
      else if voltage_level = 2 then ''Rendah'' else if voltage_level = 3 then ''Sedang''
      else if voltage_level = 4 then ''Penuh'' else ''Tidak diketahui'')"

section \<open>Amounts can be read back\<close>

definition parse_idr :: "string \<Rightarrow> int option" where
  "parse_idr s =
     (let neg = (take 1 s = ''-''); digits = filter (\<lambda>c. c \<noteq> CHR ''.'') (drop (if neg then 4 else 3) s)
      in map_option (\<lambda>n. if neg then - int n else int n) (read_nat 0 digits))"

lemma concat_groups:
  "CHR ''.'' \<notin> set cs \<Longrightarrow>
   filter (\<lambda>c. c \<noteq> CHR ''.'') (concat (map (\<lambda>(i, c). if 0 < i \<and> i mod 3 = 0 then [CHR ''.'', c] else [c])
       (enumerate k cs))) = cs"
  by (induction cs arbitrary: k) auto

lemma digit_char_not_dot: "d < 10 \<Longrightarrow> digit_char d \<noteq> CHR ''.''"
proof
  assume "d < 10" and "digit_char d = CHR ''.''"
  then have "(of_char (digit_char d) :: nat) = of_char (CHR ''.'')" by (simp only:)
  with \<open>d < 10\<close> show False by (simp add: digit_char_def of_char_of)
qed

lemma ungroup: "filter (\<lambda>c. c \<noteq> CHR ''.'') (group_thousands (show_nat n)) = show_nat n"
proof -
  have "CHR ''.'' \<notin> set (rev (show_nat n))"
    using show_nat_digits [of "CHR ''.''" n] digit_char_not_dot by force
  from concat_groups [OF this, of 0] show ?thesis
    by (simp add: group_thousands_def flip: rev_filter)
qed

text \<open>
  A printed rupiah amount determines the amount: reading the text back, less its separators,
  gives it, for every integer, with the sign in front of the currency.
\<close>

theorem format_idr_roundtrip: "parse_idr (format_idr amount) = Some amount"
  by (cases "amount < 0") (auto simp: parse_idr_def format_idr_def ungroup Let_def)

end
