(* ===== verification/Subscription.thy ===== *)
theory Subscription
  imports Store Messages "HOL-Library.Product_Lexorder"
begin

text \<open>
  The subscription lifecycle, \<open>src/subscription_maintenance.rs\<close>: the daily maintenance run with its
  reminders and sanctions, the payment quote and the lifecycle state shown to clients. The world of
  the run is the database and the messages that Telegram has accepted. Days are WIB days.
\<close>

section \<open>Constants and data\<close>

definition SUBSCRIPTION_PRE_EXPIRY_REMINDER_DAYS :: int where
  "SUBSCRIPTION_PRE_EXPIRY_REMINDER_DAYS = 5"
definition SUBSCRIPTION_DAILY_FINE_IDR :: int where "SUBSCRIPTION_DAILY_FINE_IDR = 1000"
definition SUBSCRIPTION_MAX_FINE_DAYS :: int where "SUBSCRIPTION_MAX_FINE_DAYS = 7"
definition SUBSCRIPTION_MAX_FINE_IDR :: int where
  "SUBSCRIPTION_MAX_FINE_IDR = SUBSCRIPTION_DAILY_FINE_IDR * SUBSCRIPTION_MAX_FINE_DAYS"
definition CUSTOMER_REFERENCED_DEVICE_FEE_IDR :: int where
  "CUSTOMER_REFERENCED_DEVICE_FEE_IDR = 10000"

definition MIDTRANS_BASIC_PLAN_CODE :: string where "MIDTRANS_BASIC_PLAN_CODE = ''monthly_basic''"
definition MIDTRANS_OJOL_PLAN_CODE :: string where "MIDTRANS_OJOL_PLAN_CODE = ''monthly_ojol''"

datatype pricing_tier = Basic | Ojol

record subscription_plan =
  pl_tier :: pricing_tier
  pl_plan_code :: string
  pl_price_idr :: int

datatype maintenance_error =
    MissingDatabase | MDatabase database_error | MQuery db_error | MissingTelegramBotToken | MHttp

record subscription_payment_quote =
  qt_base_amount_idr :: int
  qt_customer_reference_fee_idr :: int
  qt_shipment_fee_idr :: int
  qt_fine_amount_idr :: int
  qt_total_amount_idr :: int
  qt_overdue_days :: int
  qt_withdrawal_required :: bool

datatype lifecycle_stage = Active | PreExpiry | ExpiryDay | Overdue | WithdrawalRequired

fun stage_as_str :: "lifecycle_stage \<Rightarrow> string" where
  "stage_as_str Active = ''active''"
| "stage_as_str PreExpiry = ''pre_expiry''"
| "stage_as_str ExpiryDay = ''expiry_day''"
| "stage_as_str Overdue = ''overdue''"
| "stage_as_str WithdrawalRequired = ''withdrawal_required''"

record lifecycle_state =
  lf_stage :: lifecycle_stage
  lf_day :: "int option"
  lf_reminder_sent :: "bool option"
  lf_fine_amount_idr :: int
  lf_withdrawal_required :: bool

datatype maintenance_action =
    NoAction
  | PreExpiryReminder int
  | ExpiryDayReminder
  | OverdueReminder int int
  | MarkWithdrawalRequired int int

record maintenance_record =
  mr_subscription_id :: int
  mr_telegram_user_id :: int
  mr_chat_id :: int
  mr_current_period_end_at :: int
  mr_last_pre_expiry_reminded_for_period_end_at :: "int option"
  mr_last_pre_expiry_reminded_day :: "int option"
  mr_last_overdue_reminded_day :: "int option"
  mr_withdrawal_required :: bool
  mr_resolved_at :: "int option"

text \<open>A message handed to Telegram; a button has a label and its callback data.\<close>

record sent_message =
  tm_chat_id :: int
  tm_text :: message
  tm_keyboard :: "(string \<times> string) list list option"

record telegram_store = store +
  sent :: "sent_message list"

section \<open>Days and fines\<close>

definition days_until_expiry_wib :: "int \<Rightarrow> int \<Rightarrow> int" where
  "days_until_expiry_wib current_period_end_at now = wib_date current_period_end_at - wib_date now"

definition overdue_days_wib :: "int \<Rightarrow> int \<Rightarrow> int" where
  "overdue_days_wib current_period_end_at now = max (wib_date now - wib_date current_period_end_at) 0"

definition fine_amount_for_overdue_days :: "int \<Rightarrow> int" where
  "fine_amount_for_overdue_days overdue_days =
     max 0 (min SUBSCRIPTION_MAX_FINE_DAYS overdue_days) * SUBSCRIPTION_DAILY_FINE_IDR"

section \<open>The action that is due\<close>

definition resolve_subscription_maintenance_action ::
  "int \<Rightarrow> int \<Rightarrow> int option \<Rightarrow> int option \<Rightarrow> int option \<Rightarrow> bool \<Rightarrow> maintenance_action" where
  "resolve_subscription_maintenance_action current_period_end_at now reminded_for pre_day overdue_day
     withdrawal_required =
     (let days_until_expiry = days_until_expiry_wib current_period_end_at now;
          reminder_was_sent_for_period = (reminded_for = Some current_period_end_at);
          reminder_was_sent_for_day = (pre_day = Some (as_i32 days_until_expiry));
          legacy_d_minus_five_was_sent =
            (reminder_was_sent_for_period \<and> pre_day = None
             \<and> days_until_expiry = SUBSCRIPTION_PRE_EXPIRY_REMINDER_DAYS)
      in if (1 \<le> days_until_expiry \<and> days_until_expiry \<le> SUBSCRIPTION_PRE_EXPIRY_REMINDER_DAYS)
            \<and> (\<not> reminder_was_sent_for_period
               \<or> (\<not> reminder_was_sent_for_day \<and> \<not> legacy_d_minus_five_was_sent))
         then PreExpiryReminder days_until_expiry
         else if days_until_expiry = 0
                 \<and> (reminded_for \<noteq> Some current_period_end_at \<or> pre_day \<noteq> Some 0)
         then ExpiryDayReminder
         else let overdue_days = overdue_days_wib current_period_end_at now in
         if overdue_days = 0 then NoAction
         else let fine_amount_idr = fine_amount_for_overdue_days overdue_days in
         if overdue_days \<le> SUBSCRIPTION_MAX_FINE_DAYS
         then if overdue_day \<noteq> Some (as_i32 overdue_days)
              then OverdueReminder overdue_days fine_amount_idr else NoAction
         else if \<not> withdrawal_required then MarkWithdrawalRequired overdue_days fine_amount_idr
         else NoAction)"

definition subscription_lifecycle_state ::
  "int option \<Rightarrow> int \<Rightarrow> int option \<Rightarrow> int option \<Rightarrow> int option \<Rightarrow> bool \<Rightarrow> int option \<Rightarrow> lifecycle_state" where
  "subscription_lifecycle_state current_period_end_at now reminded_for pre_day overdue_day
     withdrawal_required resolved_at =
     (let quiet = \<lparr>lf_stage = Active, lf_day = None, lf_reminder_sent = None, lf_fine_amount_idr = 0,
                    lf_withdrawal_required = withdrawal_required\<rparr>
      in case current_period_end_at of
           None \<Rightarrow> quiet
         | Some period_end \<Rightarrow>
             let days_until_expiry = days_until_expiry_wib period_end now;
                 reminder_matches_period = (reminded_for = Some period_end)
             in if days_until_expiry > SUBSCRIPTION_PRE_EXPIRY_REMINDER_DAYS then quiet
                else if days_until_expiry > 0
                then let legacy_d_minus_five_was_sent =
                           (reminder_matches_period \<and> pre_day = None
                            \<and> days_until_expiry = SUBSCRIPTION_PRE_EXPIRY_REMINDER_DAYS)
                     in \<lparr>lf_stage = PreExpiry, lf_day = Some days_until_expiry,
                         lf_reminder_sent = Some (legacy_d_minus_five_was_sent
                           \<or> (reminder_matches_period \<and> pre_day = Some (as_i32 days_until_expiry))),
                         lf_fine_amount_idr = 0, lf_withdrawal_required = withdrawal_required\<rparr>
                else if days_until_expiry = 0
                then \<lparr>lf_stage = ExpiryDay, lf_day = Some 0,
                      lf_reminder_sent = Some (reminder_matches_period \<and> pre_day = Some 0),
                      lf_fine_amount_idr = 0, lf_withdrawal_required = withdrawal_required\<rparr>
                else let overdue_days = overdue_days_wib period_end now;
                         fine_amount_idr = fine_amount_for_overdue_days overdue_days
                     in if overdue_days \<le> SUBSCRIPTION_MAX_FINE_DAYS
                        then \<lparr>lf_stage = Overdue, lf_day = Some overdue_days,
                              lf_reminder_sent = Some (resolved_at = None \<and> reminder_matches_period
                                \<and> overdue_day = Some (as_i32 overdue_days)),
                              lf_fine_amount_idr = fine_amount_idr,
                              lf_withdrawal_required = withdrawal_required\<rparr>
                        else \<lparr>lf_stage = WithdrawalRequired, lf_day = Some overdue_days,
                              lf_reminder_sent = None, lf_fine_amount_idr = fine_amount_idr,
                              lf_withdrawal_required = withdrawal_required\<rparr>)"

section \<open>Statements\<close>

definition lookup_sanction :: "int \<Rightarrow> 'z store_scheme \<Rightarrow> sanction_row option" where
  "lookup_sanction i s = lookup sn_subscription_id i (telegram_subscription_sanctions s)"

definition maintained :: "subscription_row \<Rightarrow> bool" where
  "maintained b \<longleftrightarrow> sb_plan_code b \<in> {MIDTRANS_BASIC_PLAN_CODE, MIDTRANS_OJOL_PLAN_CODE}
     \<and> sb_current_period_end_at b \<noteq> None \<and> sb_status b \<in> {''active'', ''past_due''}"

definition record_of :: "'z store_scheme \<Rightarrow> subscription_row \<Rightarrow> maintenance_record option" where
  "record_of s b =
     map_option (\<lambda>period_end.
       let tss = lookup_sanction (sb_id b) s in
       \<lparr>mr_subscription_id = sb_id b, mr_telegram_user_id = sb_telegram_user_id b,
        mr_chat_id = sb_chat_id b, mr_current_period_end_at = period_end,
        mr_last_pre_expiry_reminded_for_period_end_at =
          Option.bind tss sn_last_pre_expiry_reminded_for_period_end_at,
        mr_last_pre_expiry_reminded_day = Option.bind tss sn_last_pre_expiry_reminded_day,
        mr_last_overdue_reminded_day = Option.bind tss sn_last_overdue_reminded_day,
        mr_withdrawal_required = (case tss of Some r \<Rightarrow> sn_withdrawal_required r | None \<Rightarrow> False),
        mr_resolved_at = Option.bind tss sn_resolved_at\<rparr>) (sb_current_period_end_at b)"

definition maintenance_records :: "'z store_scheme \<Rightarrow> maintenance_record list" where
  "maintenance_records s =
     order_by (\<lambda>r. (mr_current_period_end_at r, mr_subscription_id r))
       (List.map_filter (record_of s) (filter maintained (telegram_subscriptions s)))"

definition fetch_subscription_maintenance_records ::
  "('z store_scheme, db_error, maintenance_record list) io" where
  "fetch_subscription_maintenance_records = select maintenance_records"

definition set_subscription_status :: "int \<Rightarrow> string \<Rightarrow> ('z store_scheme, db_error, unit) io" where
  "set_subscription_status subscription_id status =
     query (\<lambda>_ s. if status \<notin> {''active'', ''expired'', ''canceled'', ''past_due''} then Inl CheckViolation
       else Inr ((), s\<lparr>telegram_subscriptions :=
              update_where (\<lambda>b. sb_id b = subscription_id) (\<lambda>b. b\<lparr>sb_status := status\<rparr>)
                (telegram_subscriptions s)\<rparr>))"

text \<open>The bound values of the sanction upsert.\<close>

record sanction_values =
  sv_telegram_user_id :: int
  sv_chat_id :: int
  sv_reminded_for :: "int option"
  sv_pre_day :: "int option"
  sv_overdue_day :: "int option"
  sv_fine_amount_idr :: int
  sv_withdrawal_required :: bool
  sv_withdrawal_required_at :: "int option"

definition coalesce :: "'a option \<Rightarrow> 'a option \<Rightarrow> 'a option" where
  "coalesce a b = (case a of Some _ \<Rightarrow> a | None \<Rightarrow> b)"

definition fresh_sanction :: "int \<Rightarrow> sanction_values \<Rightarrow> sanction_row" where
  "fresh_sanction subscription_id v =
     \<lparr>sn_subscription_id = subscription_id, sn_telegram_user_id = sv_telegram_user_id v,
      sn_chat_id = sv_chat_id v,
      sn_last_pre_expiry_reminded_for_period_end_at = sv_reminded_for v,
      sn_last_pre_expiry_reminded_day = sv_pre_day v,
      sn_last_overdue_reminded_day = sv_overdue_day v,
      sn_fine_amount_idr = sv_fine_amount_idr v,
      sn_withdrawal_required = sv_withdrawal_required v,
      sn_withdrawal_required_at = sv_withdrawal_required_at v,
      sn_resolved_at = None\<rparr>"

definition merge_sanction :: "sanction_values \<Rightarrow> sanction_row \<Rightarrow> sanction_row" where
  "merge_sanction v r =
     (let distinct_period = (sv_reminded_for v \<noteq> sn_last_pre_expiry_reminded_for_period_end_at r) in
      \<lparr>sn_subscription_id = sn_subscription_id r, sn_telegram_user_id = sv_telegram_user_id v,
       sn_chat_id = sv_chat_id v,
       sn_last_pre_expiry_reminded_for_period_end_at =
         coalesce (sv_reminded_for v) (sn_last_pre_expiry_reminded_for_period_end_at r),
       sn_last_pre_expiry_reminded_day =
         (if distinct_period then sv_pre_day v
          else coalesce (sv_pre_day v) (sn_last_pre_expiry_reminded_day r)),
       sn_last_overdue_reminded_day =
         (if distinct_period then sv_overdue_day v
          else coalesce (sv_overdue_day v) (sn_last_overdue_reminded_day r)),
       sn_fine_amount_idr = sv_fine_amount_idr v,
       sn_withdrawal_required = sv_withdrawal_required v,
       sn_withdrawal_required_at = coalesce (sv_withdrawal_required_at v) (sn_withdrawal_required_at r),
       sn_resolved_at = None\<rparr>)"

text \<open>The check constraints of the sanctions table.\<close>

definition sanction_checks :: "sanction_row \<Rightarrow> bool" where
  "sanction_checks r \<longleftrightarrow> 0 \<le> sn_fine_amount_idr r
     \<and> (case sn_last_overdue_reminded_day r of Some d \<Rightarrow> 1 \<le> d | None \<Rightarrow> True)
     \<and> (case sn_last_pre_expiry_reminded_day r of Some d \<Rightarrow> 0 \<le> d \<and> d \<le> 5 | None \<Rightarrow> True)"

definition upsert_sanction_state ::
  "maintenance_record \<Rightarrow> int option \<Rightarrow> int option \<Rightarrow> int option \<Rightarrow> int \<Rightarrow> bool \<Rightarrow> int option
   \<Rightarrow> ('z store_scheme, db_error, unit) io" where
  "upsert_sanction_state record reminded_for pre_day overdue_day fine withdrawal withdrawal_at =
     query (\<lambda>_ s.
       let v = \<lparr>sv_telegram_user_id = mr_telegram_user_id record, sv_chat_id = mr_chat_id record,
                sv_reminded_for = reminded_for, sv_pre_day = pre_day, sv_overdue_day = overdue_day,
                sv_fine_amount_idr = fine, sv_withdrawal_required = withdrawal,
                sv_withdrawal_required_at = withdrawal_at\<rparr>;
           i = mr_subscription_id record;
           rows = upsert sn_subscription_id i (fresh_sanction i v) (merge_sanction v)
                    (telegram_subscription_sanctions s)
       in if i \<notin> set (map sb_id (telegram_subscriptions s)) then Inl ForeignKeyViolation
          else if \<not> sanction_checks (fresh_sanction i v) \<or> \<not> (\<forall>r \<in> set rows. sn_subscription_id r = i \<longrightarrow> sanction_checks r)
          then Inl CheckViolation
          else Inr ((), s\<lparr>telegram_subscription_sanctions := rows\<rparr>))"

definition mark_pre_expiry_reminder_sent ::
  "maintenance_record \<Rightarrow> int \<Rightarrow> int \<Rightarrow> ('z store_scheme, db_error, unit) io" where
  "mark_pre_expiry_reminder_sent record period_end_at days_until_expiry =
     upsert_sanction_state record (Some period_end_at) (Some (as_i32 days_until_expiry)) None 0 False None"

definition carried_pre_day :: "maintenance_record \<Rightarrow> int option" where
  "carried_pre_day record =
     (if mr_last_pre_expiry_reminded_for_period_end_at record = Some (mr_current_period_end_at record)
      then mr_last_pre_expiry_reminded_day record else None)"

definition mark_overdue_reminder_sent ::
  "maintenance_record \<Rightarrow> int \<Rightarrow> int \<Rightarrow> ('z store_scheme, db_error, unit) io" where
  "mark_overdue_reminder_sent record overdue_days fine_amount_idr =
     io_bind (set_subscription_status (mr_subscription_id record) ''past_due'') (\<lambda>_.
     upsert_sanction_state record (Some (mr_current_period_end_at record)) (carried_pre_day record)
       (Some (as_i32 overdue_days)) fine_amount_idr False None)"

definition mark_withdrawal_required ::
  "maintenance_record \<Rightarrow> int \<Rightarrow> int \<Rightarrow> int \<Rightarrow> ('z store_scheme, db_error, unit) io" where
  "mark_withdrawal_required record overdue_days fine_amount_idr now =
     io_bind (set_subscription_status (mr_subscription_id record) ''past_due'') (\<lambda>_.
     upsert_sanction_state record (Some (mr_current_period_end_at record)) (carried_pre_day record)
       (Some (as_i32 overdue_days)) fine_amount_idr True (Some now))"

section \<open>The maintenance run\<close>

definition CALLBACK_1_PAYMENT_SUBSCRIBE :: string where
  "CALLBACK_1_PAYMENT_SUBSCRIBE = ''payment:subscribe''"
definition BTN_15_SUBSCRIBE :: string where "BTN_15_SUBSCRIBE = ''Berlangganan''"

definition subscription_payment_keyboard :: "(string \<times> string) list list" where
  "subscription_payment_keyboard = [[(BTN_15_SUBSCRIBE, CALLBACK_1_PAYMENT_SUBSCRIBE)]]"

text \<open>
  The request may fail before Telegram has the message; reading the response may fail after.
\<close>

definition send_telegram_message ::
  "int \<Rightarrow> message \<Rightarrow> (string \<times> string) list list option \<Rightarrow> (telegram_store, maintenance_error, unit) io" where
  "send_telegram_message chat_id text reply_markup =
     io_bind (operation MHttp (\<lambda>_ s. Inr ((), s\<lparr>sent := sent s @
        [\<lparr>tm_chat_id = chat_id, tm_text = text, tm_keyboard = reply_markup\<rparr>]\<rparr>))) (\<lambda>_.
     operation MHttp (\<lambda>_ s. Inr ((), s)))"

definition format_pre_expiry_subscription_reminder_message :: message where
  "format_pre_expiry_subscription_reminder_message = Msg 47 []"
definition format_expiry_day_subscription_reminder_message :: message where
  "format_expiry_day_subscription_reminder_message = Msg 50 []"
definition format_overdue_subscription_reminder_message :: "int \<Rightarrow> message" where
  "format_overdue_subscription_reminder_message fine = Msg 48 [format_idr fine]"

definition action_of_record :: "int \<Rightarrow> maintenance_record \<Rightarrow> maintenance_action" where
  "action_of_record now record =
     (let last_overdue_reminded_day =
            (if mr_resolved_at record \<noteq> None
                \<or> mr_last_pre_expiry_reminded_for_period_end_at record
                   \<noteq> Some (mr_current_period_end_at record)
             then None else mr_last_overdue_reminded_day record)
      in resolve_subscription_maintenance_action (mr_current_period_end_at record) now
           (mr_last_pre_expiry_reminded_for_period_end_at record)
           (mr_last_pre_expiry_reminded_day record) last_overdue_reminded_day
           (mr_withdrawal_required record))"

definition maintain_record :: "int \<Rightarrow> maintenance_record \<Rightarrow> (telegram_store, maintenance_error, unit) io" where
  "maintain_record now record =
     (case action_of_record now record of
        NoAction \<Rightarrow> io_return ()
      | PreExpiryReminder days_until_expiry \<Rightarrow>
          io_bind (send_telegram_message (mr_chat_id record)
              format_pre_expiry_subscription_reminder_message (Some subscription_payment_keyboard)) (\<lambda>_.
          io_map_error MQuery (mark_pre_expiry_reminder_sent record (mr_current_period_end_at record)
              days_until_expiry))
      | ExpiryDayReminder \<Rightarrow>
          io_bind (send_telegram_message (mr_chat_id record)
              format_expiry_day_subscription_reminder_message (Some subscription_payment_keyboard)) (\<lambda>_.
          io_map_error MQuery (mark_pre_expiry_reminder_sent record (mr_current_period_end_at record) 0))
      | OverdueReminder overdue_days fine_amount_idr \<Rightarrow>
          io_bind (send_telegram_message (mr_chat_id record)
              (format_overdue_subscription_reminder_message fine_amount_idr)
              (Some subscription_payment_keyboard)) (\<lambda>_.
          io_map_error MQuery (mark_overdue_reminder_sent record overdue_days fine_amount_idr))
      | MarkWithdrawalRequired overdue_days fine_amount_idr \<Rightarrow>
          io_map_error MQuery (mark_withdrawal_required record overdue_days fine_amount_idr now))"

definition run_subscription_maintenance :: "int \<Rightarrow> (telegram_store, maintenance_error, unit) io" where
  "run_subscription_maintenance now =
     io_bind (io_map_error MQuery fetch_subscription_maintenance_records) (\<lambda>records.
       io_for records (maintain_record now))"

section \<open>Quotes and resolution\<close>

definition build_subscription_payment_quote ::
  "int \<Rightarrow> subscription_plan \<Rightarrow> int \<Rightarrow> ('z store_scheme, db_error, subscription_payment_quote) io" where
  "build_subscription_payment_quote telegram_user_id plan now =
     io_bind (select (\<lambda>s. map_option
         (\<lambda>tu. Option.bind (tu_bound_imei tu) (\<lambda>imei. lookup dv_imei imei (devices s)))
         (lookup tu_telegram_user_id telegram_user_id (telegram_users s)))) (\<lambda>device_row.
     let device = Option.bind device_row (\<lambda>d. d);
         has_customer_referenced_device =
           (case device of Some d \<Rightarrow> dv_referenced_by_customer_id d \<noteq> None | None \<Rightarrow> False);
         shipment_fee_idr = (case Option.bind device dv_shipment_fee_idr of Some f \<Rightarrow> f | None \<Rightarrow> 0)
     in
     io_bind (case device of
                Some d \<Rightarrow> select (\<lambda>s. \<exists>p \<in> set (telegram_payment_events s).
                            pm_device_id p = Some (dv_id d) \<and> pm_payment_status p = ''paid'')
              | None \<Rightarrow> io_return False) (\<lambda>prior_paid_payment_exists.
     io_bind (select (\<lambda>s. Option.bind (lookup sb_telegram_user_id telegram_user_id
                (telegram_subscriptions s)) sb_current_period_end_at)) (\<lambda>current_period_end_at.
     let overdue_days = (case current_period_end_at of
             Some period_end \<Rightarrow> overdue_days_wib period_end now | None \<Rightarrow> 0);
         fine_amount_idr = fine_amount_for_overdue_days overdue_days;
         customer_reference_fee_idr =
           (if has_customer_referenced_device then CUSTOMER_REFERENCED_DEVICE_FEE_IDR else 0);
         shipment_fee_idr = (if prior_paid_payment_exists then 0 else shipment_fee_idr)
     in io_return
       \<lparr>qt_base_amount_idr = pl_price_idr plan,
        qt_customer_reference_fee_idr = customer_reference_fee_idr,
        qt_shipment_fee_idr = shipment_fee_idr,
        qt_fine_amount_idr = fine_amount_idr,
        qt_total_amount_idr = pl_price_idr plan + customer_reference_fee_idr + shipment_fee_idr
          + fine_amount_idr,
        qt_overdue_days = overdue_days,
        qt_withdrawal_required = (SUBSCRIPTION_MAX_FINE_DAYS < overdue_days)\<rparr>)))"

definition resolve_subscription_sanction :: "int \<Rightarrow> int \<Rightarrow> ('z store_scheme, db_error, unit) io" where
  "resolve_subscription_sanction sql_now subscription_id =
     execute (\<lambda>s. s\<lparr>telegram_subscription_sanctions :=
       update_where (\<lambda>r. sn_subscription_id r = subscription_id)
         (\<lambda>r. r\<lparr>sn_last_pre_expiry_reminded_for_period_end_at := None,
                sn_last_pre_expiry_reminded_day := None, sn_last_overdue_reminded_day := None,
                sn_fine_amount_idr := 0, sn_withdrawal_required := False,
                sn_withdrawal_required_at := None, sn_resolved_at := Some sql_now\<rparr>)
         (telegram_subscription_sanctions s)\<rparr>)"

interpretation sanction: upsert_contract sn_subscription_id fresh_sanction merge_sanction
  by unfold_locales (auto simp: fresh_sanction_def merge_sanction_def Let_def)

section \<open>Fines\<close>

lemmas subscription_constants = SUBSCRIPTION_PRE_EXPIRY_REMINDER_DAYS_def
  SUBSCRIPTION_DAILY_FINE_IDR_def SUBSCRIPTION_MAX_FINE_DAYS_def SUBSCRIPTION_MAX_FINE_IDR_def
  CUSTOMER_REFERENCED_DEVICE_FEE_IDR_def

lemma fine_bounds: "0 \<le> fine_amount_for_overdue_days d \<and> fine_amount_for_overdue_days d \<le> SUBSCRIPTION_MAX_FINE_IDR"
  by (auto simp: fine_amount_for_overdue_days_def subscription_constants)

lemma fine_mono: "d \<le> e \<Longrightarrow> fine_amount_for_overdue_days d \<le> fine_amount_for_overdue_days e"
  by (auto simp: fine_amount_for_overdue_days_def subscription_constants)

lemma fine_exact: "0 \<le> d \<Longrightarrow> d \<le> 7 \<Longrightarrow> fine_amount_for_overdue_days d = 1000 * d"
  by (simp add: fine_amount_for_overdue_days_def subscription_constants)

section \<open>The two readings of the lifecycle agree\<close>

text \<open>The action that a lifecycle state calls for.\<close>

definition action_for_state :: "lifecycle_state \<Rightarrow> maintenance_action" where
  "action_for_state st =
     (let day = (case lf_day st of Some d \<Rightarrow> d | None \<Rightarrow> 0); told = (lf_reminder_sent st = Some True)
      in case lf_stage st of
           Active \<Rightarrow> NoAction
         | PreExpiry \<Rightarrow> if told then NoAction else PreExpiryReminder day
         | ExpiryDay \<Rightarrow> if told then NoAction else ExpiryDayReminder
         | Overdue \<Rightarrow> if told then NoAction else OverdueReminder day (lf_fine_amount_idr st)
         | WithdrawalRequired \<Rightarrow> if lf_withdrawal_required st then NoAction
             else MarkWithdrawalRequired day (lf_fine_amount_idr st))"

lemma small_as_i32: "0 \<le> d \<Longrightarrow> d \<le> 7 \<Longrightarrow> as_i32 d = d"
  by (rule as_i32_id) auto

text \<open>
  C18. The maintenance run and the lifecycle state shown to clients, written separately, agree: for
  every maintenance record and every time, the action the run takes is the one that the displayed
  stage, day, fine and reminder flag call for.
\<close>

theorem action_agrees_with_lifecycle:
  "action_of_record now r =
   action_for_state (subscription_lifecycle_state (Some (mr_current_period_end_at r)) now
     (mr_last_pre_expiry_reminded_for_period_end_at r) (mr_last_pre_expiry_reminded_day r)
     (mr_last_overdue_reminded_day r) (mr_withdrawal_required r) (mr_resolved_at r))"
proof -
  define e where "e = mr_current_period_end_at r"
  define k where "k = wib_date e - wib_date now"
  have days: "days_until_expiry_wib e now = k" "overdue_days_wib e now = max (- k) 0"
    by (simp_all add: days_until_expiry_wib_def overdue_days_wib_def k_def)
  consider "5 < k" | "1 \<le> k" "k \<le> 5" | "k = 0" | "k < 0" "- k \<le> 7" | "k < -7" by linarith
  then show ?thesis
    by cases (auto simp: action_of_record_def resolve_subscription_maintenance_action_def
        subscription_lifecycle_state_def action_for_state_def days subscription_constants Let_def
        small_as_i32 simp flip: e_def)
qed

text \<open>
  Fines: 1000 rupiah per overdue WIB day, never negative, never more than 7000, never smaller on
  a later day.
\<close>

theorem fine_schedule:
  "0 \<le> fine_amount_for_overdue_days d \<and> fine_amount_for_overdue_days d \<le> 7000
   \<and> fine_amount_for_overdue_days (overdue_days_wib e now) =
       1000 * max 0 (min 7 (wib_date now - wib_date e))
   \<and> fine_amount_for_overdue_days d \<le> fine_amount_for_overdue_days (d + 1)"
  using fine_bounds [of d] fine_mono [of d "d + 1"]
  by (auto simp: subscription_constants fine_amount_for_overdue_days_def overdue_days_wib_def)

section \<open>At most one reminder a day\<close>

lemma action_same_day: "wib_date now' = wib_date now \<Longrightarrow> action_of_record now' r = action_of_record now r"
  by (simp add: action_of_record_def resolve_subscription_maintenance_action_def
      days_until_expiry_wib_def overdue_days_wib_def Let_def)

lemma record_of_id: "record_of s b = Some r \<Longrightarrow> mr_subscription_id r = sb_id b \<and> sb_current_period_end_at b = Some (mr_current_period_end_at r)"
  by (auto simp: record_of_def Let_def)

text \<open>What the tables hold after a record has been marked.\<close>

definition marked :: "maintenance_record \<Rightarrow> sanction_values \<Rightarrow> subscription_row list \<Rightarrow> 'z store_scheme \<Rightarrow> 'z store_scheme" where
  "marked r v subs s = s\<lparr>telegram_subscriptions := subs,
     telegram_subscription_sanctions := upsert sn_subscription_id (mr_subscription_id r)
       (fresh_sanction (mr_subscription_id r) v) (merge_sanction v) (telegram_subscription_sanctions s)\<rparr>"

lemma upsert_sanction_ok:
  assumes "upsert_sanction_state r p d od f wr wat w = (Inr u, w')"
  shows "wdb w' = marked r \<lparr>sv_telegram_user_id = mr_telegram_user_id r, sv_chat_id = mr_chat_id r,
      sv_reminded_for = p, sv_pre_day = d, sv_overdue_day = od, sv_fine_amount_idr = f,
      sv_withdrawal_required = wr, sv_withdrawal_required_at = wat\<rparr>
      (telegram_subscriptions (wdb w)) (wdb w)"
  using query_ok [OF assms [unfolded upsert_sanction_state_def]]
  by (auto simp: marked_def Let_def split: if_splits)

lemma set_status_ok:
  "set_subscription_status i st w = (Inr u, w') \<Longrightarrow>
   wdb w' = (wdb w)\<lparr>telegram_subscriptions := update_where (\<lambda>b. sb_id b = i) (\<lambda>b. b\<lparr>sb_status := st\<rparr>)
      (telegram_subscriptions (wdb w))\<rparr>"
  unfolding set_subscription_status_def by (drule query_ok) (auto split: if_splits)

lemma map_error_ok: "io_map_error g m w = (Inr x, w') \<longleftrightarrow> m w = (Inr x, w')"
  by (auto simp: io_map_error_def split: prod.splits sum.splits)

lemma operation_ok: "operation e f w = (Inr x, w') \<Longrightarrow> f (wseq w) (wdb w) = Inr (x, wdb w')"
  by (auto simp: operation_def Let_def split: if_splits sum.splits)

lemma send_ok:
  "send_telegram_message c t k w = (Inr u, w') \<Longrightarrow> \<exists>ms. wdb w' = (wdb w)\<lparr>sent := ms\<rparr>"
  unfolding send_telegram_message_def bind_ok
  by (elim exE conjE) (drule operation_ok, drule operation_ok, simp, metis)

lemma marked_sent: "marked r v subs (s\<lparr>sent := ms\<rparr>) = (marked r v subs s)\<lparr>sent := ms\<rparr>"
  by (simp add: marked_def)

definition status_set :: "maintenance_record \<Rightarrow> 'z store_scheme \<Rightarrow> subscription_row list" where
  "status_set r s = update_where (\<lambda>b. sb_id b = mr_subscription_id r)
     (\<lambda>b. b\<lparr>sb_status := ''past_due''\<rparr>) (telegram_subscriptions s)"

text \<open>The bound values of the mark that belongs to an action.\<close>

definition mark_values :: "int \<Rightarrow> maintenance_record \<Rightarrow> maintenance_action \<Rightarrow> sanction_values" where
  "mark_values now r a =
     \<lparr>sv_telegram_user_id = mr_telegram_user_id r, sv_chat_id = mr_chat_id r,
      sv_reminded_for = Some (mr_current_period_end_at r),
      sv_pre_day = (case a of PreExpiryReminder d \<Rightarrow> Some (as_i32 d) | ExpiryDayReminder \<Rightarrow> Some 0 | _ \<Rightarrow> carried_pre_day r),
      sv_overdue_day = (case a of OverdueReminder d _ \<Rightarrow> Some (as_i32 d)
                         | MarkWithdrawalRequired d _ \<Rightarrow> Some (as_i32 d) | _ \<Rightarrow> None),
      sv_fine_amount_idr = (case a of OverdueReminder _ f \<Rightarrow> f | MarkWithdrawalRequired _ f \<Rightarrow> f | _ \<Rightarrow> 0),
      sv_withdrawal_required = (case a of MarkWithdrawalRequired _ _ \<Rightarrow> True | _ \<Rightarrow> False),
      sv_withdrawal_required_at = (case a of MarkWithdrawalRequired _ _ \<Rightarrow> Some now | _ \<Rightarrow> None)\<rparr>"

lemma maintain_record_ok:
  assumes "maintain_record now r w = (Inr u, w')"
  shows "if action_of_record now r = NoAction then wdb w' = wdb w
    else \<exists>ms subs. wdb w' = (marked r (mark_values now r (action_of_record now r)) subs (wdb w))\<lparr>sent := ms\<rparr>
      \<and> subs \<in> {telegram_subscriptions (wdb w), status_set r (wdb w)}"
proof (cases "action_of_record now r")
  case NoAction
  with assms show ?thesis by (simp add: maintain_record_def)
next
  case (PreExpiryReminder d)
  with assms obtain w1 where "send_telegram_message (mr_chat_id r)
      format_pre_expiry_subscription_reminder_message (Some subscription_payment_keyboard) w = (Inr (), w1)"
    and m: "mark_pre_expiry_reminder_sent r (mr_current_period_end_at r) d w1 = (Inr (), w')"
    by (auto simp: maintain_record_def bind_ok map_error_ok)
  then obtain ms where "wdb w1 = (wdb w)\<lparr>sent := ms\<rparr>" using send_ok by blast
  then show ?thesis
    using upsert_sanction_ok [OF m [unfolded mark_pre_expiry_reminder_sent_def]] PreExpiryReminder
    by (auto simp: marked_sent mark_values_def)
next
  case ExpiryDayReminder
  with assms obtain w1 where "send_telegram_message (mr_chat_id r)
      format_expiry_day_subscription_reminder_message (Some subscription_payment_keyboard) w = (Inr (), w1)"
    and m: "mark_pre_expiry_reminder_sent r (mr_current_period_end_at r) 0 w1 = (Inr (), w')"
    by (auto simp: maintain_record_def bind_ok map_error_ok)
  then obtain ms where "wdb w1 = (wdb w)\<lparr>sent := ms\<rparr>" using send_ok by blast
  then show ?thesis
    using upsert_sanction_ok [OF m [unfolded mark_pre_expiry_reminder_sent_def]] ExpiryDayReminder
    by (auto simp: marked_sent mark_values_def small_as_i32)
next
  case (OverdueReminder d f)
  with assms obtain w1 w2 where "send_telegram_message (mr_chat_id r)
      (format_overdue_subscription_reminder_message f) (Some subscription_payment_keyboard) w = (Inr (), w1)"
    and s: "set_subscription_status (mr_subscription_id r) ''past_due'' w1 = (Inr (), w2)"
    and m: "upsert_sanction_state r (Some (mr_current_period_end_at r)) (carried_pre_day r)
       (Some (as_i32 d)) f False None w2 = (Inr (), w')"
    by (auto simp: maintain_record_def mark_overdue_reminder_sent_def bind_ok map_error_ok)
  then obtain ms where w1: "wdb w1 = (wdb w)\<lparr>sent := ms\<rparr>" using send_ok by blast
  have "wdb w' = (marked r (mark_values now r (OverdueReminder d f)) (status_set r (wdb w)) (wdb w))\<lparr>sent := ms\<rparr>"
    using upsert_sanction_ok [OF m] set_status_ok [OF s] w1
    by (simp add: marked_def mark_values_def status_set_def)
  with OverdueReminder show ?thesis by auto
next
  case (MarkWithdrawalRequired d f)
  with assms obtain w2 where s: "set_subscription_status (mr_subscription_id r) ''past_due'' w = (Inr (), w2)"
    and m: "upsert_sanction_state r (Some (mr_current_period_end_at r)) (carried_pre_day r)
       (Some (as_i32 d)) f True (Some now) w2 = (Inr (), w')"
    by (auto simp: maintain_record_def mark_withdrawal_required_def bind_ok map_error_ok)
  have "wdb w' = (marked r (mark_values now r (MarkWithdrawalRequired d f)) (status_set r (wdb w)) (wdb w))
      \<lparr>sent := sent (wdb w)\<rparr>"
    using upsert_sanction_ok [OF m] set_status_ok [OF s]
    by (simp add: marked_def mark_values_def status_set_def)
  with MarkWithdrawalRequired show ?thesis by auto
qed

definition sanction_after :: "sanction_values \<Rightarrow> int \<Rightarrow> sanction_row option \<Rightarrow> sanction_row" where
  "sanction_after v i old = (case old of None \<Rightarrow> fresh_sanction i v | Some row \<Rightarrow> merge_sanction v row)"

lemma sanction_after_fields:
  assumes "row = sanction_after v i old" and "sv_reminded_for v = Some e"
  shows "sn_last_pre_expiry_reminded_for_period_end_at row = Some e" "sn_resolved_at row = None"
    "sn_withdrawal_required row = sv_withdrawal_required v"
    "sv_pre_day v = Some d \<Longrightarrow> sn_last_pre_expiry_reminded_day row = Some d"
    "sv_overdue_day v = Some d \<Longrightarrow> sn_last_overdue_reminded_day row = Some d"
  using assms
  by (auto simp: sanction_after_def fresh_sanction_def merge_sanction_def coalesce_def Let_def
      split: option.splits)

lemma lookup_marked:
  "lookup_sanction j ((marked r v subs s)\<lparr>sent := ms\<rparr>) =
     (if j = mr_subscription_id r then Some (sanction_after v j (lookup_sanction j s))
      else lookup_sanction j s)"
  by (auto simp: lookup_sanction_def marked_def sanction.lookup_same sanction.lookup_other
      sanction_after_def split: option.splits)

lemma record_of_marked_other:
  "sb_id b \<noteq> mr_subscription_id r \<Longrightarrow> record_of ((marked r v subs s)\<lparr>sent := ms\<rparr>) b = record_of s b"
  by (simp add: record_of_def lookup_marked)

lemma action_cases:
  assumes "action_of_record now r = a" and "k = wib_date (mr_current_period_end_at r) - wib_date now"
  shows "case a of NoAction \<Rightarrow> True | PreExpiryReminder d \<Rightarrow> d = k \<and> 1 \<le> k \<and> k \<le> 5
    | ExpiryDayReminder \<Rightarrow> k = 0 | OverdueReminder d f \<Rightarrow> d = - k \<and> 1 \<le> d \<and> d \<le> 7
    | MarkWithdrawalRequired d f \<Rightarrow> d = - k \<and> 7 < d"
  using assms
  by (auto simp: action_of_record_def resolve_subscription_maintenance_action_def Let_def
      subscription_constants days_until_expiry_wib_def overdue_days_wib_def split: if_splits)

lemma marked_is_quiet:
  assumes "record_of s b = Some r" and "action_of_record now r \<noteq> NoAction"
    and "sb_id b' = sb_id b" and "sb_current_period_end_at b' = sb_current_period_end_at b"
  shows "map_option (action_of_record now)
    (record_of ((marked r (mark_values now r (action_of_record now r)) subs s)\<lparr>sent := ms\<rparr>) b') = Some NoAction"
proof -
  define a v where "a = action_of_record now r" and "v = mark_values now r a"
  define e where "e = mr_current_period_end_at r"
  define row where "row = sanction_after v (sb_id b) (lookup_sanction (sb_id b) s)"
  note id = record_of_id [OF assms(1)]
  have v: "sv_reminded_for v = Some e" by (simp add: v_def mark_values_def e_def)
  note f = sanction_after_fields [OF row_def v]
  obtain r' where r': "record_of ((marked r v subs s)\<lparr>sent := ms\<rparr>) b' = Some r'"
    and "mr_current_period_end_at r' = e"
    "mr_last_pre_expiry_reminded_for_period_end_at r' = Some e"
    "mr_last_pre_expiry_reminded_day r' = sn_last_pre_expiry_reminded_day row"
    "mr_last_overdue_reminded_day r' = sn_last_overdue_reminded_day row"
    "mr_withdrawal_required r' = sv_withdrawal_required v" "mr_resolved_at r' = None"
    using id assms(3,4) f(1,2,3)
    by (simp add: record_of_def lookup_marked Let_def e_def flip: row_def)
  then have r'_action: "action_of_record now r' = resolve_subscription_maintenance_action e now (Some e)
      (sn_last_pre_expiry_reminded_day row) (sn_last_overdue_reminded_day row) (sv_withdrawal_required v)"
    by (simp add: action_of_record_def)
  define k where "k = wib_date e - wib_date now"
  have days: "days_until_expiry_wib e now = k" "overdue_days_wib e now = max (- k) 0"
    by (simp_all add: days_until_expiry_wib_def overdue_days_wib_def k_def)
  have "action_of_record now r' = NoAction"
  proof (cases a)
    case NoAction
    then show ?thesis using assms(2) by (simp add: a_def)
  next
    case (PreExpiryReminder d)
    with action_cases [OF a_def [symmetric] refl] have k: "d = k" "1 \<le> k" "k \<le> 5"
      by (simp_all add: k_def e_def)
    have "sn_last_pre_expiry_reminded_day row = Some (as_i32 k)"
      using f(4) PreExpiryReminder k by (simp add: v_def mark_values_def)
    then show ?thesis unfolding r'_action resolve_subscription_maintenance_action_def days
      using k by (simp add: Let_def subscription_constants)
  next
    case ExpiryDayReminder
    with action_cases [OF a_def [symmetric] refl] have k: "k = 0" by (simp_all add: k_def e_def)
    have "sn_last_pre_expiry_reminded_day row = Some 0"
      using f(4) ExpiryDayReminder by (simp add: v_def mark_values_def)
    then show ?thesis unfolding r'_action resolve_subscription_maintenance_action_def days
      using k by (simp add: Let_def subscription_constants)
  next
    case (OverdueReminder d fine)
    with action_cases [OF a_def [symmetric] refl] have k: "d = - k" "1 \<le> - k" "- k \<le> 7"
      by (simp_all add: k_def e_def)
    have "sn_last_overdue_reminded_day row = Some (as_i32 (- k))"
      using f(5) OverdueReminder k by (simp add: v_def mark_values_def)
    then show ?thesis unfolding r'_action resolve_subscription_maintenance_action_def days
      using k by (simp add: Let_def subscription_constants)
  next
    case (MarkWithdrawalRequired d fine)
    with action_cases [OF a_def [symmetric] refl] have k: "7 < - k" by (simp_all add: k_def e_def)
    have "sv_withdrawal_required v" using MarkWithdrawalRequired by (simp add: v_def mark_values_def)
    then show ?thesis unfolding r'_action resolve_subscription_maintenance_action_def days
      using k by (simp add: Let_def subscription_constants)
  qed
  then show ?thesis using r' by (simp add: v_def a_def)
qed

definition quiet_or_pending :: "int \<Rightarrow> maintenance_record list \<Rightarrow> 'z store_scheme \<Rightarrow> bool" where
  "quiet_or_pending now rs s \<longleftrightarrow> distinct (map sb_id (telegram_subscriptions s))
     \<and> distinct (map mr_subscription_id rs)
     \<and> (\<forall>r \<in> set rs. \<exists>b \<in> set (telegram_subscriptions s). record_of s b = Some r)
     \<and> (\<forall>b \<in> set (telegram_subscriptions s). maintained b \<longrightarrow>
          (\<exists>r \<in> set rs. record_of s b = Some r)
          \<or> map_option (action_of_record now) (record_of s b) = Some NoAction)"

lemma telegram_subscriptions_marked [simp]:
  "telegram_subscriptions ((marked r v subs s)\<lparr>sent := ms\<rparr>) = subs"
  by (simp add: marked_def)

text \<open>Each subscription row after a mark comes from one with the same identifier and period.\<close>

lemma marked_rows:
  assumes "subs \<in> {telegram_subscriptions s, status_set r s}"
  shows "map sb_id subs = map sb_id (telegram_subscriptions s)"
    and "b' \<in> set subs \<Longrightarrow> \<exists>b \<in> set (telegram_subscriptions s). sb_id b' = sb_id b
      \<and> sb_current_period_end_at b' = sb_current_period_end_at b \<and> sb_plan_code b' = sb_plan_code b
      \<and> (sb_id b \<noteq> mr_subscription_id r \<longrightarrow> b' = b)"
    and "b \<in> set (telegram_subscriptions s) \<Longrightarrow> sb_id b \<noteq> mr_subscription_id r \<Longrightarrow> b \<in> set subs"
proof -
  let ?id = "mr_subscription_id r" and ?rows = "telegram_subscriptions s"
  show "map sb_id subs = map sb_id ?rows"
    using assms by (auto simp: status_set_def map_update_where)
  show "\<exists>b \<in> set ?rows. sb_id b' = sb_id b
      \<and> sb_current_period_end_at b' = sb_current_period_end_at b \<and> sb_plan_code b' = sb_plan_code b
      \<and> (sb_id b \<noteq> ?id \<longrightarrow> b' = b)" if "b' \<in> set subs"
  proof -
    from that assms obtain b where "b \<in> set ?rows"
      "b' = b \<or> (sb_id b = ?id \<and> b' = b\<lparr>sb_status := ''past_due''\<rparr>)"
      by (auto simp: status_set_def set_update_where split: if_splits)
    then show ?thesis by (intro bexI [of _ b]) auto
  qed
  show "b \<in> set subs" if "b \<in> set ?rows" "sb_id b \<noteq> ?id"
    using that assms by (auto simp: status_set_def set_update_where intro!: exI [of _ b])
qed

lemma maintain_record_step:
  assumes inv: "quiet_or_pending now (r # rs) (wdb w)" and m: "maintain_record now r w = (Inr u, w')"
  shows "quiet_or_pending now rs (wdb w')"
proof (cases "action_of_record now r = NoAction")
  case True
  then have "wdb w' = wdb w" using maintain_record_ok [OF m] by simp
  with inv True show ?thesis by (auto simp: quiet_or_pending_def)
next
  case False
  define s where "s = wdb w"
  obtain ms subs where s': "wdb w' = (marked r (mark_values now r (action_of_record now r)) subs s)\<lparr>sent := ms\<rparr>"
    and subs: "subs \<in> {telegram_subscriptions s, status_set r s}"
    using maintain_record_ok [OF m] False by (auto simp: s_def)
  note rows = marked_rows [OF subs]
  from inv have dist: "distinct (map sb_id (telegram_subscriptions s))"
    and ids: "mr_subscription_id r \<notin> mr_subscription_id ` set rs" "distinct (map mr_subscription_id rs)"
    and all: "\<forall>q \<in> set (r # rs). \<exists>b \<in> set (telegram_subscriptions s). record_of s b = Some q"
    and qp: "\<forall>b \<in> set (telegram_subscriptions s). maintained b \<longrightarrow>
          (\<exists>q \<in> set (r # rs). record_of s b = Some q)
          \<or> map_option (action_of_record now) (record_of s b) = Some NoAction"
    by (simp_all add: quiet_or_pending_def s_def)
  obtain b0 where b0: "b0 \<in> set (telegram_subscriptions s)" "record_of s b0 = Some r" using all by auto
  note id0 = record_of_id [OF b0(2)]
  have "\<exists>b \<in> set subs. record_of (wdb w') b = Some q" if q: "q \<in> set rs" for q
  proof -
    obtain b where b: "b \<in> set (telegram_subscriptions s)" "record_of s b = Some q" using all q by auto
    have "sb_id b \<noteq> mr_subscription_id r" using record_of_id [OF b(2)] ids(1) q by (metis image_eqI)
    then have "b \<in> set subs" "record_of (wdb w') b = Some q"
      using rows(3) b by (simp_all add: s' record_of_marked_other)
    then show ?thesis by blast
  qed
  moreover have "(\<exists>q \<in> set rs. record_of (wdb w') b' = Some q)
      \<or> map_option (action_of_record now) (record_of (wdb w') b') = Some NoAction"
    if b': "b' \<in> set subs" "maintained b'" for b'
  proof -
    obtain b where b: "b \<in> set (telegram_subscriptions s)" "sb_id b' = sb_id b"
      "sb_current_period_end_at b' = sb_current_period_end_at b"
      and same: "sb_id b \<noteq> mr_subscription_id r \<longrightarrow> b' = b"
      using rows(2) [OF b'(1)] by blast
    show ?thesis
    proof (cases "sb_id b = mr_subscription_id r")
      case True
      then have "b = b0" using dist b(1) b0(1) id0 by (metis distinct_map inj_on_def)
      then show ?thesis using marked_is_quiet [OF b0(2) False] b by (simp add: s')
    next
      case other: False
      then have "b' = b" "record_of (wdb w') b = record_of s b" using same by (auto simp: s' record_of_marked_other)
      moreover have "record_of s b \<noteq> Some r" using other record_of_id [of s b r] by auto
      ultimately show ?thesis using qp b(1) b'(2) by auto
    qed
  qed
  ultimately show ?thesis using rows(1) dist ids(2) by (simp add: quiet_or_pending_def s')
qed

lemma maintain_loop:
  "quiet_or_pending now rs (wdb w) \<Longrightarrow> io_for rs (maintain_record now) w = (Inr (), w') \<Longrightarrow>
   quiet_or_pending now [] (wdb w')"
proof (induction rs arbitrary: w)
  case (Cons r rs)
  then obtain w1 where 1: "maintain_record now r w = (Inr (), w1)"
    and "io_for rs (maintain_record now) w1 = (Inr (), w')" by (auto simp: bind_ok)
  with Cons.IH [OF maintain_record_step [OF Cons.prems(1) 1]] show ?case by simp
qed simp

lemma maintenance_records_set:
  "r \<in> set (maintenance_records s) \<longleftrightarrow>
   (\<exists>b \<in> set (telegram_subscriptions s). maintained b \<and> record_of s b = Some r)"
  by (force simp: maintenance_records_def order_by_def List.map_filter_def image_iff)

lemma map_filter_ids:
  "distinct (map sb_id bs) \<Longrightarrow> distinct (map mr_subscription_id (List.map_filter (record_of s) (filter p bs)))"
proof (induction bs)
  case (Cons b bs)
  then have "sb_id b \<notin> mr_subscription_id ` set (List.map_filter (record_of s) (filter p bs))"
    using record_of_id by (fastforce simp: List.map_filter_def)
  with Cons show ?case using record_of_id [of s b]
    by (cases "record_of s b") (auto simp: List.map_filter_simps)
qed (simp add: List.map_filter_simps)

lemma maintenance_starts:
  assumes "distinct (map sb_id (telegram_subscriptions s))"
  shows "quiet_or_pending now (maintenance_records s) s"
proof -
  have "distinct (map mr_subscription_id (maintenance_records s))"
    using map_filter_ids [OF assms, of s maintained]
    by (simp add: maintenance_records_def order_by_def distinct_map)
  moreover have "\<exists>r \<in> set (maintenance_records s). record_of s b = Some r"
    if b: "b \<in> set (telegram_subscriptions s)" "maintained b" for b
  proof -
    obtain r where r: "record_of s b = Some r"
      using b(2) by (cases "record_of s b") (auto simp: maintained_def record_of_def)
    then have "r \<in> set (maintenance_records s)" using b maintenance_records_set by blast
    with r show ?thesis by blast
  qed
  ultimately show ?thesis using assms by (auto simp: quiet_or_pending_def maintenance_records_set)
qed

lemma quiet_run:
  assumes "\<forall>r \<in> set rs. action_of_record now r = NoAction"
  shows "io_for rs (maintain_record now) w = (Inr (), w)"
  using assms by (induction rs) (auto simp: maintain_record_def io_bind_def io_return_def)

text \<open>
  C17. One reminder a day: after a maintenance run that succeeds, a second run on the same WIB day
  changes nothing and sends nothing, however it fails and whatever time of the day it is.
\<close>

theorem maintenance_once_per_day:
  assumes "distinct (map sb_id (telegram_subscriptions (wdb w)))"
    and "run_subscription_maintenance now w = (Inr (), w1)"
    and "wib_date now' = wib_date now"
  shows "wdb (snd (run_subscription_maintenance now' w1)) = wdb w1"
proof -
  from assms(2) obtain rs w0 where 0: "fetch_subscription_maintenance_records w = (Inr rs, w0)"
    and loop: "io_for rs (maintain_record now) w0 = (Inr (), w1)"
    by (auto simp: run_subscription_maintenance_def bind_ok map_error_ok)
  have rs: "rs = maintenance_records (wdb w)" "wdb w0 = wdb w"
    using select_ok [OF 0 [unfolded fetch_subscription_maintenance_records_def]] by simp_all
  have q: "quiet_or_pending now [] (wdb w1)"
    using maintain_loop [OF _ loop] maintenance_starts [OF assms(1)] rs by simp
  have quiet: "\<forall>r \<in> set (maintenance_records (wdb w1)). action_of_record now' r = NoAction"
    using q by (fastforce simp: quiet_or_pending_def maintenance_records_set action_same_day [OF assms(3)])
  obtain x w2 where f: "fetch_subscription_maintenance_records w1 = (x, w2)" by force
  have w2: "wdb w2 = wdb w1" and x: "\<And>qs. x = Inr qs \<Longrightarrow> qs = maintenance_records (wdb w1)"
    using f by (auto simp: fetch_subscription_maintenance_records_def select_def query_def operation_def
        Let_def split: if_splits)
  show ?thesis
    using f w2 x quiet_run quiet
    by (cases x) (simp_all add: run_subscription_maintenance_def io_bind_def io_map_error_def)
qed

definition sample_subscription :: subscription_row where
  "sample_subscription = \<lparr>sb_id = 1, sb_telegram_user_id = 10, sb_chat_id = 20,
     sb_plan_code = ''monthly_basic'', sb_status = ''active'', sb_current_period_start_at = Some 0,
     sb_current_period_end_at = Some (30 * DAY)\<rparr>"

definition sample_telegram_store :: telegram_store where
  "sample_telegram_store = store.extend (empty_store\<lparr>telegram_subscriptions := [sample_subscription]\<rparr>)
     \<lparr>sent = []\<rparr>"

lemma sample_telegram_store_fields [simp]:
  "telegram_subscriptions sample_telegram_store = [sample_subscription]"
  "telegram_subscription_sanctions sample_telegram_store = []"
  "telegram_users sample_telegram_store = []" "sent sample_telegram_store = []"
  by (simp_all add: sample_telegram_store_def empty_store_def store.defs)

lemma sample_run:
  "\<exists>w1. run_subscription_maintenance (33 * DAY) \<lparr>wdb = sample_telegram_store, wseq = 1, wsched = []\<rparr> = (Inr (), w1)
     \<and> sent (wdb w1) = [\<lparr>tm_chat_id = 20, tm_text = Msg 48 [format_idr 3000],
          tm_keyboard = Some subscription_payment_keyboard\<rparr>]"
proof -
  let ?w = "\<lparr>wdb = sample_telegram_store, wseq = 1, wsched = []\<rparr>"
  define r where "r = \<lparr>mr_subscription_id = 1, mr_telegram_user_id = 10, mr_chat_id = 20,
      mr_current_period_end_at = 30 * DAY, mr_last_pre_expiry_reminded_for_period_end_at = None,
      mr_last_pre_expiry_reminded_day = None, mr_last_overdue_reminded_day = None,
      mr_withdrawal_required = False, mr_resolved_at = None\<rparr>"
  have rs: "maintenance_records sample_telegram_store = [r]"
    by (simp add: maintenance_records_def sample_subscription_def maintained_def record_of_def lookup_sanction_def order_by_def r_def
        MIDTRANS_BASIC_PLAN_CODE_def List.map_filter_simps)
  have "wib_date (33 * DAY) = 33" "wib_date (30 * DAY) = 30"
    using wib_date_add_days [of 0 33] wib_date_add_days [of 0 30] by (simp_all add: wib_date_def WIB_OFFSET_SECONDS_def)
  then have a: "action_of_record (33 * DAY) r = OverdueReminder 3 3000"
    by (simp add: action_of_record_def resolve_subscription_maintenance_action_def r_def Let_def
        days_until_expiry_wib_def overdue_days_wib_def subscription_constants fine_amount_for_overdue_days_def)
  show ?thesis
    using a
    by (simp add: run_subscription_maintenance_def fetch_subscription_maintenance_records_def io_run rs
        maintain_record_def send_telegram_message_def mark_overdue_reminder_sent_def
        set_subscription_status_def upsert_sanction_state_def Let_def
        sample_subscription_def update_where_def upsert_def
        fresh_sanction_def sanction_checks_def carried_pre_day_def small_as_i32
        format_overdue_subscription_reminder_message_def r_def)
qed

lemma maintenance_once_per_day_witness:
  "\<exists>w1. run_subscription_maintenance (33 * DAY) \<lparr>wdb = sample_telegram_store, wseq = 1, wsched = []\<rparr> = (Inr (), w1)
    \<and> wdb (snd (run_subscription_maintenance (33 * DAY + 1) w1)) = wdb w1"
proof -
  obtain w1 where w1: "run_subscription_maintenance (33 * DAY)
      \<lparr>wdb = sample_telegram_store, wseq = 1, wsched = []\<rparr> = (Inr (), w1)" using sample_run by blast
  have "wib_date (33 * DAY + 1) = wib_date (33 * DAY)" by (simp add: wib_date_def WIB_OFFSET_SECONDS_def)
  moreover have "distinct (map sb_id (telegram_subscriptions sample_telegram_store))"
    by simp
  ultimately show ?thesis using maintenance_once_per_day [OF _ w1] w1 by simp
qed

section \<open>Quotes\<close>

definition bound_device :: "'z store_scheme \<Rightarrow> int \<Rightarrow> device_row option" where
  "bound_device s telegram_user_id =
     Option.bind (lookup tu_telegram_user_id telegram_user_id (telegram_users s))
       (\<lambda>tu. Option.bind (tu_bound_imei tu) (\<lambda>imei. lookup dv_imei imei (devices s)))"

definition paid_before :: "'z store_scheme \<Rightarrow> device_row \<Rightarrow> bool" where
  "paid_before s d \<longleftrightarrow> (\<exists>p \<in> set (telegram_payment_events s).
     pm_device_id p = Some (dv_id d) \<and> pm_payment_status p = ''paid'')"

lemma bind_map_option_id: "Option.bind (map_option f x) (\<lambda>d. d) = Option.bind x f"
  by (cases x) auto

text \<open>
  A payment quote: the total is the plan price plus the reference fee, the shipment fee and the
  fine; the shipment fee is the bound device's and is waived exactly when a payment for that device
  was paid before; the fine is that of the overdue WIB days of the user's subscription, at most 7000;
  withdrawal is required after more than seven days. Quoting changes nothing.
\<close>

theorem quote_breakdown:
  assumes "build_subscription_payment_quote u plan now w = (Inr q, w')"
  shows "wdb w' = wdb w \<and> qt_base_amount_idr q = pl_price_idr plan
    \<and> qt_total_amount_idr q = qt_base_amount_idr q + qt_customer_reference_fee_idr q
        + qt_shipment_fee_idr q + qt_fine_amount_idr q
    \<and> qt_shipment_fee_idr q = (case bound_device (wdb w) u of
          Some d \<Rightarrow> if paid_before (wdb w) d then 0
                    else (case dv_shipment_fee_idr d of Some f \<Rightarrow> f | None \<Rightarrow> 0)
        | None \<Rightarrow> 0)
    \<and> qt_customer_reference_fee_idr q = (case bound_device (wdb w) u of
          Some d \<Rightarrow> if dv_referenced_by_customer_id d \<noteq> None then 10000 else 0 | None \<Rightarrow> 0)
    \<and> qt_fine_amount_idr q = 1000 * min 7 (qt_overdue_days q) \<and> 0 \<le> qt_overdue_days q
    \<and> (qt_withdrawal_required q \<longleftrightarrow> 7 < qt_overdue_days q)"
proof -
  from assms obtain row w1 paid w2 pe where
    1: "select (\<lambda>s. map_option (\<lambda>tu. Option.bind (tu_bound_imei tu) (\<lambda>imei. lookup dv_imei imei (devices s)))
         (lookup tu_telegram_user_id u (telegram_users s))) w = (Inr row, w1)"
    and 2: "(case Option.bind row (\<lambda>d. d) of
                Some d \<Rightarrow> select (\<lambda>s. \<exists>p \<in> set (telegram_payment_events s).
                            pm_device_id p = Some (dv_id d) \<and> pm_payment_status p = ''paid'')
              | None \<Rightarrow> io_return False) w1 = (Inr paid, w2)"
    and 3: "select (\<lambda>s. Option.bind (lookup sb_telegram_user_id u
                (telegram_subscriptions s)) sb_current_period_end_at) w2 = (Inr pe, w')"
    and q: "q = (let device = Option.bind row (\<lambda>d. d);
         has_ref = (case device of Some d \<Rightarrow> dv_referenced_by_customer_id d \<noteq> None | None \<Rightarrow> False);
         ship = (case Option.bind device dv_shipment_fee_idr of Some f \<Rightarrow> f | None \<Rightarrow> 0);
         overdue_days = (case pe of Some period_end \<Rightarrow> overdue_days_wib period_end now | None \<Rightarrow> 0);
         fine = fine_amount_for_overdue_days overdue_days;
         ref_fee = (if has_ref then CUSTOMER_REFERENCED_DEVICE_FEE_IDR else 0);
         ship = (if paid then 0 else ship)
       in \<lparr>qt_base_amount_idr = pl_price_idr plan, qt_customer_reference_fee_idr = ref_fee,
        qt_shipment_fee_idr = ship, qt_fine_amount_idr = fine,
        qt_total_amount_idr = pl_price_idr plan + ref_fee + ship + fine,
        qt_overdue_days = overdue_days, qt_withdrawal_required = (SUBSCRIPTION_MAX_FINE_DAYS < overdue_days)\<rparr>)"
    unfolding build_subscription_payment_quote_def Let_def bind_ok return_ok by blast
  have dev: "Option.bind row (\<lambda>d. d) = bound_device (wdb w) u"
    using select_ok [OF 1] by (simp add: bound_device_def bind_map_option_id)
  have w2: "wdb w2 = wdb w" and paid: "paid = (case bound_device (wdb w) u of
      Some d \<Rightarrow> paid_before (wdb w) d | None \<Rightarrow> False)"
    using 2 select_ok [OF 1] unfolding dev
    by (auto simp: paid_before_def split: option.splits dest!: select_ok)
  have "0 \<le> (case pe of Some period_end \<Rightarrow> overdue_days_wib period_end now | None \<Rightarrow> 0)"
    by (simp add: overdue_days_wib_def split: option.split)
  then show ?thesis
    using select_ok [OF 3] w2 unfolding q dev paid
    by (auto simp: Let_def fine_amount_for_overdue_days_def subscription_constants min_def
        split: option.splits)
qed

lemma quote_breakdown_witness:
  "\<exists>q. fst (build_subscription_payment_quote 10 \<lparr>pl_tier = Basic, pl_plan_code = ''monthly_basic'', pl_price_idr = 45000\<rparr>
      (33 * DAY) \<lparr>wdb = sample_telegram_store, wseq = 1, wsched = []\<rparr>) = Inr q
    \<and> qt_total_amount_idr q = qt_base_amount_idr q + qt_customer_reference_fee_idr q
        + qt_shipment_fee_idr q + qt_fine_amount_idr q"
proof -
  let ?m = "build_subscription_payment_quote 10 \<lparr>pl_tier = Basic, pl_plan_code = ''monthly_basic'', pl_price_idr = 45000\<rparr>
      (33 * DAY) \<lparr>wdb = sample_telegram_store, wseq = 1, wsched = []\<rparr>"
  have "\<exists>q w'. ?m = (Inr q, w')"
    by (simp add: build_subscription_payment_quote_def io_run Let_def)
  then obtain q w' where "?m = (Inr q, w')" by blast
  from quote_breakdown [OF this] this show ?thesis by simp
qed

end
