(* ===== verification/Buttons.thy ===== *)
theory Buttons
  imports Subscription
begin

text \<open>
  The vocabulary of the Telegram bot, \<open>src/bot.rs\<close>: commands, the actions behind its inline
  keyboards, the callback data that names them, and the keyboards themselves.
\<close>

section \<open>Splitting and reading\<close>

text \<open>\<open>str::split\<close> with a character: never empty.\<close>

fun split_on :: "char \<Rightarrow> string \<Rightarrow> string list" where
  "split_on d [] = [[]]"
| "split_on d (c # cs) =
     (if c = d then [] # split_on d cs
      else case split_on d cs of [] \<Rightarrow> [[c]] | p # ps \<Rightarrow> (c # p) # ps)"

text \<open>\<open>str::parse::<i64>\<close>: an optional sign, then digits, in the range of the type.\<close>

definition parse_i64 :: "string \<Rightarrow> int option" where
  "parse_i64 s =
     (let (neg, ds) = (if take 1 s = ''-'' then (True, drop 1 s)
                       else if take 1 s = ''+'' then (False, drop 1 s) else (False, s))
      in if ds = [] then None
         else case read_nat 0 ds of
                None \<Rightarrow> None
              | Some n \<Rightarrow> let i = (if neg then - int n else int n)
                          in if - (2 ^ 63) \<le> i \<and> i < 2 ^ 63 then Some i else None)"

definition white :: "char \<Rightarrow> bool" where
  "white c = (c \<in> {CHR '' '', CHR 0x09, CHR 0x0A, CHR 0x0B, CHR 0x0C, CHR 0x0D})"

section \<open>Actions\<close>

datatype bot_command = Start | Help | PaySupport | Terms | Unknown string
datatype registration_status = AwaitingImei | Bound
datatype session_action = Yes | No
datatype payment_action = Subscribe
datatype theft_alert_action =
    StreamLocation "int option" | CheckLatestStatus "int option" | ContactSupport "int option"
datatype analytics_kind = Sessions | Metrics | TotalKm | TotalDrivingTime
datatype analytics_range = Select | Today | Yesterday | Month | Custom

record analytics_action =
  aa_kind :: analytics_kind
  aa_range :: analytics_range

definition parse_session_action :: "string \<Rightarrow> session_action option" where
  "parse_session_action data =
     (case split_on CHR '':'' data of
        prefix # action # rest \<Rightarrow>
          if prefix \<noteq> ''engine_session'' \<or> rest \<noteq> [] then None
          else if action = ''yes'' then Some Yes else if action = ''no'' then Some No else None
      | _ \<Rightarrow> None)"

definition parse_payment_action :: "string \<Rightarrow> payment_action option" where
  "parse_payment_action data =
     (case split_on CHR '':'' data of
        prefix # action # rest \<Rightarrow>
          if prefix \<noteq> ''payment'' then None
          else if action = ''subscribe'' \<and> rest = [] then Some Subscribe
          else if action = ''buy'' \<and> rest = [''monthly''] then Some Subscribe else None
      | _ \<Rightarrow> None)"

definition parse_theft_alert_action :: "string \<Rightarrow> theft_alert_action option" where
  "parse_theft_alert_action data =
     (case split_on CHR '':'' data of
        prefix # action # rest \<Rightarrow>
          (case (case rest of [] \<Rightarrow> Some None | value # _ \<Rightarrow> map_option Some (parse_i64 value)) of
             None \<Rightarrow> None
           | Some session_id \<Rightarrow>
               if prefix \<noteq> ''theft_alert'' \<or> length rest > 1 then None
               else if action = ''stream_location'' then Some (StreamLocation session_id)
               else if action = ''check_latest_status'' then Some (CheckLatestStatus session_id)
               else if action = ''contact_support'' then Some (ContactSupport session_id)
               else None)
      | _ \<Rightarrow> None)"

fun requires_active_subscription :: "theft_alert_action \<Rightarrow> bool" where
  "requires_active_subscription (StreamLocation _) = True"
| "requires_active_subscription (CheckLatestStatus _) = True"
| "requires_active_subscription (ContactSupport _) = False"

definition parse_kind :: "string \<Rightarrow> analytics_kind option" where
  "parse_kind value =
     (if value = ''sessions'' then Some Sessions else if value = ''metrics'' then Some Metrics
      else if value = ''km'' then Some TotalKm else if value = ''time'' then Some TotalDrivingTime
      else None)"

fun kind_value :: "analytics_kind \<Rightarrow> string" where
  "kind_value Sessions = ''sessions''"
| "kind_value Metrics = ''metrics''"
| "kind_value TotalKm = ''km''"
| "kind_value TotalDrivingTime = ''time''"

fun kind_label :: "analytics_kind \<Rightarrow> string" where
  "kind_label Sessions = ''driving session''"
| "kind_label Metrics = ''metrics''"
| "kind_label TotalKm = ''total km''"
| "kind_label TotalDrivingTime = ''total driving time''"

definition parse_range :: "string \<Rightarrow> analytics_range option" where
  "parse_range value =
     (if value = ''select'' then Some Select else if value = ''today'' then Some Today
      else if value = ''yesterday'' then Some Yesterday else if value = ''month'' then Some Month
      else if value = ''custom'' then Some Custom else None)"

fun range_value :: "analytics_range \<Rightarrow> string" where
  "range_value Select = ''select''"
| "range_value Today = ''today''"
| "range_value Yesterday = ''yesterday''"
| "range_value Month = ''month''"
| "range_value Custom = ''custom''"

fun range_label :: "analytics_range \<Rightarrow> string" where
  "range_label Select = ''Pilih rentang''"
| "range_label Today = ''Hari ini''"
| "range_label Yesterday = ''Kemarin''"
| "range_label Month = ''Bulan ini''"
| "range_label Custom = ''Pilih sendiri''"

definition parse_analytics_action :: "string \<Rightarrow> analytics_action option" where
  "parse_analytics_action data =
     (case split_on CHR '':'' data of
        prefix # kind # which # rest \<Rightarrow>
          (case (parse_kind kind, parse_range which) of
             (Some k, Some r) \<Rightarrow>
               if prefix \<noteq> ''analytics'' \<or> rest \<noteq> [] then None else Some \<lparr>aa_kind = k, aa_range = r\<rparr>
           | _ \<Rightarrow> None)
      | _ \<Rightarrow> None)"

definition parse_command :: "string \<Rightarrow> bot_command option" where
  "parse_command text =
     (let command = takeWhile (\<lambda>c. \<not> white c) (dropWhile white text)
      in if command = [] then None
         else let normalized = hd (split_on CHR ''@'' command)
              in if normalized = ''/start'' then Some Start
                 else if normalized = ''/help'' then Some Help
                 else if normalized = ''/paysupport'' then Some PaySupport
                 else if normalized = ''/terms'' then Some Terms
                 else if take 1 normalized = ''/'' then Some (Unknown normalized)
                 else None)"

fun registration_status_value :: "registration_status \<Rightarrow> string" where
  "registration_status_value AwaitingImei = ''awaiting_imei''"
| "registration_status_value Bound = ''bound''"

definition parse_registration_status :: "string \<Rightarrow> registration_status option" where
  "parse_registration_status value =
     (if value = ''awaiting_imei'' then Some AwaitingImei
      else if value = ''bound'' then Some Bound else None)"

definition is_valid_imei :: "string \<Rightarrow> bool" where
  "is_valid_imei value = (length value = 15 \<and> list_all (\<lambda>c. c \<in> set ''0123456789'') value)"

section \<open>Callback data and keyboards\<close>

type_synonym keyboard = "(string \<times> string) list list"

definition theft_alert_callback_data :: "string \<Rightarrow> int option \<Rightarrow> string" where
  "theft_alert_callback_data action session_id =
     (case session_id of
        Some i \<Rightarrow> ''theft_alert:'' @ action @ '':'' @ show_int i
      | None \<Rightarrow> ''theft_alert:'' @ action)"

definition analytics_callback_data :: "analytics_kind \<Rightarrow> analytics_range \<Rightarrow> string" where
  "analytics_callback_data kind which = ''analytics:'' @ kind_value kind @ '':'' @ range_value which"

definition engine_session_confirmation_keyboard :: keyboard where
  "engine_session_confirmation_keyboard =
     [[(''Ya, ini saya'', ''engine_session:yes''), (''Bukan saya'', ''engine_session:no'')]]"

definition theft_alert_keyboard :: "int option \<Rightarrow> keyboard" where
  "theft_alert_keyboard session_id =
     [[(''live tracking'', theft_alert_callback_data ''stream_location'' session_id),
       (''cek status'', theft_alert_callback_data ''check_latest_status'' session_id)],
      [(''hubungi bantuan'', theft_alert_callback_data ''contact_support'' session_id)]]"

definition subscribed_start_menu_keyboard :: keyboard where
  "subscribed_start_menu_keyboard =
     [[(''Live Tracking'', theft_alert_callback_data ''stream_location'' None),
       (''Status terkini'', theft_alert_callback_data ''check_latest_status'' None)],
      [(''History Perjalanan'', analytics_callback_data Sessions Select),
       (''Aktivitas Kendaraan'', analytics_callback_data Metrics Select)]]"

definition range_button :: "analytics_kind \<Rightarrow> analytics_range \<Rightarrow> string \<times> string" where
  "range_button kind which = (range_label which, analytics_callback_data kind which)"

definition analytics_range_keyboard :: "analytics_kind \<Rightarrow> keyboard" where
  "analytics_range_keyboard kind =
     (if kind = Sessions
      then [[range_button kind Today, range_button kind Yesterday], [range_button kind Custom]]
      else [[range_button kind Today, range_button kind Yesterday],
            [range_button kind Month, range_button kind Custom]])"

section \<open>Reading back what was printed\<close>

lemma split_on_nonempty [simp]: "split_on d s \<noteq> []"
  by (induction s) (auto split: list.split)

lemma split_on_none: "d \<notin> set s \<Longrightarrow> split_on d s = [s]"
  by (induction s) auto

lemma split_on_append: "d \<notin> set a \<Longrightarrow> split_on d (a @ d # b) = a # split_on d b"
  by (induction a) (auto split: list.split)

lemma digit_char_code: "k < 10 \<Longrightarrow> of_char (digit_char k) = (48 + k :: nat)"
  by (simp add: digit_char_def of_char_of)

lemma digit_char_neq: "k < 10 \<Longrightarrow> (of_char c :: nat) < 48 \<or> 57 < (of_char c :: nat) \<Longrightarrow> digit_char k \<noteq> c"
  using digit_char_code [of k] by auto

lemma show_nat_chars:
  "(of_char c :: nat) < 48 \<or> 57 < (of_char c :: nat) \<Longrightarrow> c \<notin> set (show_nat n)"
  using show_nat_digits digit_char_neq by metis

lemma take_1_show_nat:
  "(of_char c :: nat) < 48 \<or> 57 < (of_char c :: nat) \<Longrightarrow> take 1 (show_nat n) \<noteq> [c]"
  using show_nat_chars by (metis in_set_takeD list.set_intros(1))

lemma parse_i64_show_int:
  assumes "- (2 ^ 63) \<le> i" and "i < 2 ^ 63"
  shows "parse_i64 (show_int i) = Some i"
proof (cases "i < 0")
  case True
  with assms show ?thesis by (simp add: parse_i64_def show_int_def show_nat_nonempty)
next
  case False
  have "take 1 (show_nat (nat i)) \<noteq> ''-''" "take 1 (show_nat (nat i)) \<noteq> ''+''"
    by (rule take_1_show_nat, simp add: of_char_def)+
  with False assms show ?thesis by (simp add: parse_i64_def show_int_def show_nat_nonempty)
qed

lemma show_int_no_colon: "CHR '':'' \<notin> set (show_int i)"
  using show_nat_chars [of "CHR '':''"] by (auto simp: show_int_def of_char_def)

section \<open>Buttons and actions fit\<close>

lemma kind_value_colon [simp]: "CHR '':'' \<notin> set (kind_value k)"
  by (cases k) auto

lemma range_value_colon [simp]: "CHR '':'' \<notin> set (range_value r)"
  by (cases r) auto

lemma parse_kind_value [simp]: "parse_kind (kind_value k) = Some k"
  by (cases k) (auto simp: parse_kind_def)

lemma parse_range_value [simp]: "parse_range (range_value r) = Some r"
  by (cases r) (auto simp: parse_range_def)

lemma parse_analytics_callback_data:
  "parse_analytics_action (analytics_callback_data k r) = Some \<lparr>aa_kind = k, aa_range = r\<rparr>"
proof -
  have "split_on CHR '':'' (analytics_callback_data k r) = [''analytics'', kind_value k, range_value r]"
    using split_on_append [of "CHR '':''" "''analytics''"] split_on_append [of "CHR '':''" "kind_value k"]
      split_on_none [of "CHR '':''" "range_value r"]
    by (simp add: analytics_callback_data_def)
  then show ?thesis by (simp add: parse_analytics_action_def)
qed

lemma split_theft_data:
  assumes "CHR '':'' \<notin> set action"
  shows "split_on CHR '':'' (theft_alert_callback_data action i)
     = ''theft_alert'' # action # (case i of None \<Rightarrow> [] | Some n \<Rightarrow> [show_int n])"
  using assms split_on_append [of "CHR '':''" "''theft_alert''"] split_on_append [of "CHR '':''" action]
    split_on_none [of "CHR '':''" action] split_on_none [OF show_int_no_colon]
  by (cases i) (simp_all add: theft_alert_callback_data_def)

definition theft_action :: "theft_alert_action \<Rightarrow> string" where
  "theft_action a = (case a of StreamLocation _ \<Rightarrow> ''stream_location''
     | CheckLatestStatus _ \<Rightarrow> ''check_latest_status'' | ContactSupport _ \<Rightarrow> ''contact_support'')"

definition theft_session :: "theft_alert_action \<Rightarrow> int option" where
  "theft_session a = (case a of StreamLocation i \<Rightarrow> i | CheckLatestStatus i \<Rightarrow> i | ContactSupport i \<Rightarrow> i)"

lemma parse_theft_callback_data:
  assumes "case theft_session a of None \<Rightarrow> True | Some i \<Rightarrow> - (2 ^ 63) \<le> i \<and> i < 2 ^ 63"
  shows "parse_theft_alert_action (theft_alert_callback_data (theft_action a) (theft_session a)) = Some a"
proof -
  have "CHR '':'' \<notin> set (theft_action a)" by (cases a) (auto simp: theft_action_def)
  from split_theft_data [OF this] show ?thesis
    using assms
    by (cases a; cases "theft_session a")
       (auto simp: parse_theft_alert_action_def theft_action_def theft_session_def parse_i64_show_int)
qed

section \<open>Dispatch\<close>

datatype callback_action =
    PaymentCallback payment_action | AnalyticsCallback analytics_action
  | TheftCallback theft_alert_action | SessionCallback session_action

text \<open>Every reading of some callback data; the handler tries them in this order.\<close>

definition callback_actions :: "string \<Rightarrow> callback_action list" where
  "callback_actions data =
     map PaymentCallback (case parse_payment_action data of None \<Rightarrow> [] | Some a \<Rightarrow> [a])
     @ map AnalyticsCallback (case parse_analytics_action data of None \<Rightarrow> [] | Some a \<Rightarrow> [a])
     @ map TheftCallback (case parse_theft_alert_action data of None \<Rightarrow> [] | Some a \<Rightarrow> [a])
     @ map SessionCallback (case parse_session_action data of None \<Rightarrow> [] | Some a \<Rightarrow> [a])"

lemma prefix_of_action:
  "parse_payment_action data = Some a \<Longrightarrow> hd (split_on CHR '':'' data) = ''payment''"
  "parse_analytics_action data = Some b \<Longrightarrow> hd (split_on CHR '':'' data) = ''analytics''"
  "parse_theft_alert_action data = Some c \<Longrightarrow> hd (split_on CHR '':'' data) = ''theft_alert''"
  "parse_session_action data = Some d \<Longrightarrow> hd (split_on CHR '':'' data) = ''engine_session''"
  by (auto simp: parse_payment_action_def parse_analytics_action_def parse_theft_alert_action_def
      parse_session_action_def split: list.splits option.splits if_splits)

lemma callback_actions_cases:
  "callback_actions data = [] \<or> (\<exists>a. callback_actions data = [a])"
proof -
  have "hd (split_on CHR '':'' data) \<noteq> ''payment'' \<Longrightarrow> parse_payment_action data = None"
    "hd (split_on CHR '':'' data) \<noteq> ''analytics'' \<Longrightarrow> parse_analytics_action data = None"
    "hd (split_on CHR '':'' data) \<noteq> ''theft_alert'' \<Longrightarrow> parse_theft_alert_action data = None"
    "hd (split_on CHR '':'' data) \<noteq> ''engine_session'' \<Longrightarrow> parse_session_action data = None"
    using prefix_of_action [of data] by (metis option.exhaust)+
  then show ?thesis
    unfolding callback_actions_def
    by (cases "hd (split_on CHR '':'' data) = ''payment''";
        cases "hd (split_on CHR '':'' data) = ''analytics''";
        cases "hd (split_on CHR '':'' data) = ''theft_alert''") (simp_all split: option.split)
qed

lemma callback_actions_analytics [simp]:
  "callback_actions (analytics_callback_data k r) = [AnalyticsCallback \<lparr>aa_kind = k, aa_range = r\<rparr>]"
  using callback_actions_cases [of "analytics_callback_data k r"] parse_analytics_callback_data [of k r]
  by (auto simp: callback_actions_def split: option.splits)

lemma callback_actions_theft:
  assumes "case theft_session a of None \<Rightarrow> True | Some i \<Rightarrow> - (2 ^ 63) \<le> i \<and> i < 2 ^ 63"
  shows "callback_actions (theft_alert_callback_data (theft_action a) (theft_session a)) = [TheftCallback a]"
  using callback_actions_cases [of "theft_alert_callback_data (theft_action a) (theft_session a)"]
    parse_theft_callback_data [OF assms]
  by (auto simp: callback_actions_def split: option.splits)

lemma length_show_nat: "n < 10 ^ k \<Longrightarrow> 0 < k \<Longrightarrow> length (show_nat n) \<le> k"
proof (induction k arbitrary: n)
  case (Suc k)
  show ?case
  proof (cases "n < 10")
    case False
    then have "k \<noteq> 0" using Suc.prems by (cases k) auto
    moreover have "n div 10 < 10 ^ k" using Suc.prems by (simp add: less_mult_imp_div_less mult.commute)
    ultimately show ?thesis using Suc.IH [of "n div 10"] False by (subst show_nat.simps) simp
  qed (subst show_nat.simps, simp)
qed simp

lemma length_show_int: "- (2 ^ 63) \<le> i \<Longrightarrow> i < 2 ^ 63 \<Longrightarrow> length (show_int i) \<le> 20"
  using length_show_nat [of "nat i" 19] length_show_nat [of "nat (- i)" 19]
  by (cases "i < 0") (simp_all add: show_int_def nat_less_iff)

abbreviation readings :: "keyboard \<Rightarrow> callback_action list list list" where
  "readings \<equiv> map (map (\<lambda>button. callback_actions (snd button)))"

text \<open>
  C22. The bot understands its own buttons, and only in one way: every button of every keyboard it
  sends, for any session identifier of 64 bits, is read back as exactly the action it stands for and
  fits the 64 bytes that Telegram allows; no callback data at all is read as two actions.
\<close>

theorem keyboards_understood:
  assumes "- (2 ^ 63) \<le> i" and "i < 2 ^ 63"
  shows "readings (theft_alert_keyboard (Some i))
      = [[[TheftCallback (StreamLocation (Some i))], [TheftCallback (CheckLatestStatus (Some i))]],
         [[TheftCallback (ContactSupport (Some i))]]]
    \<and> readings subscribed_start_menu_keyboard
      = [[[TheftCallback (StreamLocation None)], [TheftCallback (CheckLatestStatus None)]],
         [[AnalyticsCallback \<lparr>aa_kind = Sessions, aa_range = Select\<rparr>],
          [AnalyticsCallback \<lparr>aa_kind = Metrics, aa_range = Select\<rparr>]]]
    \<and> readings engine_session_confirmation_keyboard = [[[SessionCallback Yes], [SessionCallback No]]]
    \<and> readings subscription_payment_keyboard = [[[PaymentCallback Subscribe]]]
    \<and> (\<forall>k. concat (readings (analytics_range_keyboard k)) = map (\<lambda>r. [AnalyticsCallback \<lparr>aa_kind = k, aa_range = r\<rparr>])
          (if k = Sessions then [Today, Yesterday, Custom] else [Today, Yesterday, Month, Custom]))
    \<and> list_all (list_all (\<lambda>button. 0 < length (snd button) \<and> length (snd button) \<le> 64))
        (theft_alert_keyboard (Some i) @ subscribed_start_menu_keyboard
         @ engine_session_confirmation_keyboard @ subscription_payment_keyboard
         @ analytics_range_keyboard Sessions @ analytics_range_keyboard Metrics)
    \<and> (\<forall>data. length (callback_actions data) \<le> 1)"
proof (intro conjI allI)
  show "readings (theft_alert_keyboard (Some i))
      = [[[TheftCallback (StreamLocation (Some i))], [TheftCallback (CheckLatestStatus (Some i))]],
         [[TheftCallback (ContactSupport (Some i))]]]"
    using callback_actions_theft [of "StreamLocation (Some i)"] callback_actions_theft [of "CheckLatestStatus (Some i)"]
      callback_actions_theft [of "ContactSupport (Some i)"] assms
    by (simp add: theft_alert_keyboard_def theft_action_def theft_session_def)
  show "readings subscribed_start_menu_keyboard
      = [[[TheftCallback (StreamLocation None)], [TheftCallback (CheckLatestStatus None)]],
         [[AnalyticsCallback \<lparr>aa_kind = Sessions, aa_range = Select\<rparr>],
          [AnalyticsCallback \<lparr>aa_kind = Metrics, aa_range = Select\<rparr>]]]"
    using callback_actions_theft [of "StreamLocation None"] callback_actions_theft [of "CheckLatestStatus None"]
    by (simp add: subscribed_start_menu_keyboard_def theft_action_def theft_session_def)
  show "readings engine_session_confirmation_keyboard = [[[SessionCallback Yes], [SessionCallback No]]]"
    by code_simp
  show "readings subscription_payment_keyboard = [[[PaymentCallback Subscribe]]]" by code_simp
  show "concat (readings (analytics_range_keyboard k)) = map (\<lambda>r. [AnalyticsCallback \<lparr>aa_kind = k, aa_range = r\<rparr>])
          (if k = Sessions then [Today, Yesterday, Custom] else [Today, Yesterday, Month, Custom])" for k
    by (simp add: analytics_range_keyboard_def range_button_def)
  show "list_all (list_all (\<lambda>button. 0 < length (snd button) \<and> length (snd button) \<le> 64))
        (theft_alert_keyboard (Some i) @ subscribed_start_menu_keyboard
         @ engine_session_confirmation_keyboard @ subscription_payment_keyboard
         @ analytics_range_keyboard Sessions @ analytics_range_keyboard Metrics)"
    using length_show_int [OF assms]
    by (simp add: theft_alert_keyboard_def subscribed_start_menu_keyboard_def theft_alert_callback_data_def
        analytics_callback_data_def engine_session_confirmation_keyboard_def subscription_payment_keyboard_def
        CALLBACK_1_PAYMENT_SUBSCRIBE_def analytics_range_keyboard_def range_button_def)
  show "length (callback_actions data) \<le> 1" for data
    using callback_actions_cases [of data] by auto
qed

lemma keyboards_understood_witness:
  "readings (theft_alert_keyboard (Some 42))
      = [[[TheftCallback (StreamLocation (Some 42))], [TheftCallback (CheckLatestStatus (Some 42))]],
         [[TheftCallback (ContactSupport (Some 42))]]]"
  using keyboards_understood [of 42] by simp

end
