(* ===== verification/Payment.thy ===== *)
theory Payment
  imports Subscription
begin

text \<open>
  Payments through Midtrans, \<open>src/midtrans.rs\<close>: pricing tiers and plans, the Snap transaction, the
  signature check, the pending payment and the webhook that turns it into a paid subscription
  period. The SHA-512 digest (of the \<open>sha2\<close> crate) and the reply of the provider are parameters.
\<close>

section \<open>Data\<close>

definition MIDTRANS_PERIOD_DAYS :: int where "MIDTRANS_PERIOD_DAYS = 30"
definition MIDTRANS_BREAKDOWN_BASE_TOTAL_IDR :: int where "MIDTRANS_BREAKDOWN_BASE_TOTAL_IDR = 45000"

datatype midtrans_error =
    MissingServerKey | InvalidPricingTier string | Http | Json | Query db_error | MissingPaymentUrl string

record midtrans_client =
  mc_server_key :: string
  mc_snap_base_url :: string
  mc_basic_price_idr :: int
  mc_ojol_price_idr :: int
  mc_expiry_hours :: int

record midtrans_created_payment =
  cp_order_id :: string
  cp_transaction_id :: "string option"
  cp_payment_type :: "string option"
  cp_payment_url :: string
  cp_raw_response :: string
  cp_expires_at :: int

record midtrans_subscription_record =
  ms_id :: int
  ms_telegram_user_id :: int
  ms_chat_id :: int
  ms_plan_code :: string
  ms_current_period_end_at :: "int option"

datatype webhook_outcome = Paid midtrans_subscription_record | IgnoredNotification | UnknownOrder

record webhook_notification =
  wn_order_id :: string
  wn_status_code :: string
  wn_gross_amount :: string
  wn_signature_key :: string
  wn_transaction_status :: string
  wn_transaction_id :: "string option"
  wn_payment_type :: "string option"
  wn_fraud_status :: "string option"

datatype payment_status = StPending | StPaid | StExpired | StFailed | StRefunded

record item_detail =
  it_id :: string
  it_price :: int
  it_quantity :: int
  it_name :: string

record snap_request =
  sr_order_id :: string
  sr_gross_amount :: int
  sr_item_details :: "item_detail list"
  sr_start_time :: int
  sr_duration_hours :: int

section \<open>Plans\<close>

definition parse_tier :: "string \<Rightarrow> pricing_tier option" where
  "parse_tier value = (if value = ''basic'' then Some Basic else if value = ''ojol'' then Some Ojol else None)"

fun tier_as_str :: "pricing_tier \<Rightarrow> string" where
  "tier_as_str Basic = ''basic''"
| "tier_as_str Ojol = ''ojol''"

fun tier_label :: "pricing_tier \<Rightarrow> string" where
  "tier_label Basic = ''Heartbeats Basic''"
| "tier_label Ojol = ''Heartbeats Ojol''"

definition parse_pricing_tier :: "string \<Rightarrow> midtrans_error + pricing_tier" where
  "parse_pricing_tier value =
     (case parse_tier value of Some t \<Rightarrow> Inr t | None \<Rightarrow> Inl (InvalidPricingTier value))"

fun subscription_plan_for_tier :: "midtrans_client \<Rightarrow> pricing_tier \<Rightarrow> subscription_plan" where
  "subscription_plan_for_tier mc Basic =
     \<lparr>pl_tier = Basic, pl_plan_code = MIDTRANS_BASIC_PLAN_CODE, pl_price_idr = mc_basic_price_idr mc\<rparr>"
| "subscription_plan_for_tier mc Ojol =
     \<lparr>pl_tier = Ojol, pl_plan_code = MIDTRANS_OJOL_PLAN_CODE, pl_price_idr = mc_ojol_price_idr mc\<rparr>"

section \<open>The Snap transaction\<close>

definition item :: "string \<Rightarrow> int \<Rightarrow> string \<Rightarrow> item_detail" where
  "item i price name = \<lparr>it_id = i, it_price = price, it_quantity = 1, it_name = name\<rparr>"

definition snap_items :: "subscription_plan \<Rightarrow> int \<Rightarrow> int \<Rightarrow> int \<Rightarrow> item_detail list" where
  "snap_items plan effective_base_amount_idr shipment_fee_idr fine_amount_idr =
     (let base =
        (if effective_base_amount_idr \<ge> MIDTRANS_BREAKDOWN_BASE_TOTAL_IDR
         then let details = [item ''internet_data'' 10000 ''Data internet'',
                             item ''sewa_alat'' 20000 ''Sewa alat'',
                             item ''server dan biaya layanan'' 5000 ''Server''];
                  breakdown_total = 35000;
                  remainder = effective_base_amount_idr - breakdown_total
              in if remainder > 0
                 then details @ [item ''heartbeats_service'' remainder ''Layanan Heartbeats'']
                 else details
         else [item (pl_plan_code plan) effective_base_amount_idr
                 (''Akses '' @ tier_label (pl_tier plan) @ '' 30 Hari'')])
      in base
         @ (if fine_amount_idr > 0
            then [item ''late_payment_sanction'' fine_amount_idr ''Denda keterlambatan''] else [])
         @ (if shipment_fee_idr > 0
            then [item ''device_shipment_fee'' shipment_fee_idr ''Biaya pengiriman perangkat''] else []))"

text \<open>What the provider answers: an error, a body that is no Snap response, or a Snap response.\<close>

datatype snap_reply = ReplyError | ReplyNoJson | SnapResponse string string string

definition is_blank :: "string \<Rightarrow> bool" where
  "is_blank s = list_all (\<lambda>c. c \<in> {CHR '' '', CHR 0x09, CHR 0x0A, CHR 0x0B, CHR 0x0C, CHR 0x0D}) s"

definition snap_request_for ::
  "midtrans_client \<Rightarrow> subscription_plan \<Rightarrow> string \<Rightarrow> int \<Rightarrow> int \<Rightarrow> int \<Rightarrow> int \<Rightarrow> int \<Rightarrow> snap_request" where
  "snap_request_for mc plan order_id created_at base shipment gross fine =
     \<lparr>sr_order_id = order_id, sr_gross_amount = gross,
      sr_item_details = snap_items plan base shipment fine,
      sr_start_time = created_at, sr_duration_hours = mc_expiry_hours mc\<rparr>"

definition create_snap_transaction ::
  "(snap_request \<Rightarrow> snap_reply) \<Rightarrow> midtrans_client \<Rightarrow> subscription_plan \<Rightarrow> string \<Rightarrow> int \<Rightarrow> int \<Rightarrow> int
   \<Rightarrow> int \<Rightarrow> int \<Rightarrow> midtrans_error + midtrans_created_payment" where
  "create_snap_transaction post mc plan order_id created_at effective_base_amount_idr shipment_fee_idr
     gross_amount_idr fine_amount_idr =
     (case post (snap_request_for mc plan order_id created_at effective_base_amount_idr
                   shipment_fee_idr gross_amount_idr fine_amount_idr) of
        ReplyError \<Rightarrow> Inl Http
      | ReplyNoJson \<Rightarrow> Inl Json
      | SnapResponse token redirect_url raw_response \<Rightarrow>
          if is_blank redirect_url then Inl (MissingPaymentUrl raw_response)
          else Inr \<lparr>cp_order_id = order_id, cp_transaction_id = Some token,
                    cp_payment_type = Some ''snap'', cp_payment_url = redirect_url,
                    cp_raw_response = raw_response,
                    cp_expires_at = created_at + mc_expiry_hours mc * 3600 * SECOND\<rparr>)"

definition build_midtrans_order_id :: "int \<Rightarrow> int \<Rightarrow> string" where
  "build_midtrans_order_id telegram_user_id created_at =
     ''hb-'' @ show_int telegram_user_id @ ''-'' @ show_int (created_at div 1000)"

section \<open>Notifications\<close>

definition ascii_lower :: "char \<Rightarrow> char" where
  "ascii_lower c = (let n = of_char c in if 65 \<le> n \<and> n \<le> (90 :: nat) then char_of (n + 32) else c)"

definition eq_ignore_ascii_case :: "string \<Rightarrow> string \<Rightarrow> bool" where
  "eq_ignore_ascii_case s t = (map ascii_lower s = map ascii_lower t)"

definition verify_midtrans_signature ::
  "(string \<Rightarrow> string) \<Rightarrow> string \<Rightarrow> string \<Rightarrow> string \<Rightarrow> string \<Rightarrow> string \<Rightarrow> bool" where
  "verify_midtrans_signature sha512_hex server_key order_id status_code gross_amount signature_key =
     eq_ignore_ascii_case (sha512_hex (order_id @ status_code @ gross_amount @ server_key)) signature_key"

definition map_midtrans_status :: "string \<Rightarrow> payment_status option" where
  "map_midtrans_status transaction_status =
     (if transaction_status \<in> {''settlement'', ''capture''} then Some StPaid
      else if transaction_status = ''pending'' then Some StPending
      else if transaction_status = ''expire'' then Some StExpired
      else if transaction_status \<in> {''deny'', ''cancel'', ''failure''} then Some StFailed
      else if transaction_status \<in> {''refund'', ''partial_refund''} then Some StRefunded
      else None)"

fun status_text :: "payment_status \<Rightarrow> string" where
  "status_text StPending = ''pending''"
| "status_text StPaid = ''paid''"
| "status_text StExpired = ''expired''"
| "status_text StFailed = ''failed''"
| "status_text StRefunded = ''refunded''"

section \<open>Pending payments\<close>

definition create_pending_midtrans_payment ::
  "int \<Rightarrow> int \<Rightarrow> int \<Rightarrow> string \<Rightarrow> string \<Rightarrow> string \<Rightarrow> int \<Rightarrow> int \<Rightarrow> ('z store_scheme, db_error, int) io" where
  "create_pending_midtrans_payment telegram_user_id chat_id device_id imei plan_code order_id
     gross_amount_idr expires_at =
     query (\<lambda>i s.
       if telegram_user_id \<notin> set (map tu_telegram_user_id (telegram_users s))
          \<or> device_id \<notin> set (map dv_id (devices s)) then Inl ForeignKeyViolation
       else if gross_amount_idr \<le> 0 then Inl CheckViolation
       else if order_id \<in> set (map pm_provider_order_id (telegram_payment_events s)) then Inl UniqueViolation
       else Inr (i, s\<lparr>telegram_payment_events := telegram_payment_events s @
          [\<lparr>pm_id = i, pm_telegram_user_id = telegram_user_id, pm_chat_id = chat_id,
            pm_device_id = Some device_id, pm_imei = Some imei, pm_subscription_id = None,
            pm_payment_status = ''pending'', pm_plan_code = plan_code,
            pm_gross_amount_idr = gross_amount_idr, pm_period_days = MIDTRANS_PERIOD_DAYS,
            pm_provider_order_id = order_id, pm_provider_transaction_id = None,
            pm_payment_type = None, pm_payment_url = None, pm_expires_at = Some expires_at,
            pm_paid_at = None\<rparr>]\<rparr>))"

text \<open>\<open>provider_transaction_id\<close> is unique; a \<open>NULL\<close> never conflicts.\<close>

definition transaction_id_taken :: "int \<Rightarrow> string option \<Rightarrow> payment_row list \<Rightarrow> bool" where
  "transaction_id_taken i tid rows \<longleftrightarrow>
     tid \<noteq> None \<and> (\<exists>p \<in> set rows. pm_id p \<noteq> i \<and> pm_provider_transaction_id p = tid)"

definition mark_midtrans_payment_created ::
  "string \<Rightarrow> midtrans_created_payment \<Rightarrow> ('z store_scheme, db_error, unit) io" where
  "mark_midtrans_payment_created order_id created =
     query (\<lambda>_ s.
       if \<exists>p \<in> set (telegram_payment_events s). pm_provider_order_id p = order_id
            \<and> transaction_id_taken (pm_id p) (cp_transaction_id created) (telegram_payment_events s)
       then Inl UniqueViolation
       else Inr ((), s\<lparr>telegram_payment_events :=
         update_where (\<lambda>p. pm_provider_order_id p = order_id)
           (\<lambda>p. p\<lparr>pm_provider_transaction_id := cp_transaction_id created,
                  pm_payment_type := cp_payment_type created,
                  pm_payment_url := Some (cp_payment_url created)\<rparr>) (telegram_payment_events s)\<rparr>))"

section \<open>Reading an amount\<close>

text \<open>
  \<open>str::parse::<f64>\<close>: an optional sign, then \<open>inf\<close>, \<open>infinity\<close> or \<open>nan\<close> in any case, or
  decimal digits with an optional point and exponent; the value is the exact one, rounded once.
\<close>

fun span_digits :: "string \<Rightarrow> string \<times> string" where
  "span_digits [] = ([], [])"
| "span_digits (c # cs) =
     (if c \<in> set ''0123456789'' then let (ds, rest) = span_digits cs in (c # ds, rest) else ([], c # cs))"

definition digits_value :: "string \<Rightarrow> int" where
  "digits_value ds = (case read_nat 0 ds of Some n \<Rightarrow> int n | None \<Rightarrow> 0)"

definition split_sign :: "string \<Rightarrow> bool \<times> string" where
  "split_sign s = (if take 1 s = ''-'' then (True, drop 1 s)
                   else if take 1 s = ''+'' then (False, drop 1 s) else (False, s))"

definition parse_exponent :: "string \<Rightarrow> int option" where
  "parse_exponent s =
     (if s = [] then Some 0
      else if hd s \<in> {CHR ''e'', CHR ''E''}
      then let (neg, t) = split_sign (tl s); (ds, rest) = span_digits t
           in if ds = [] \<or> rest \<noteq> [] then None
              else Some (if neg then - digits_value ds else digits_value ds)
      else None)"

definition parse_f64 :: "string \<Rightarrow> f64 option" where
  "parse_f64 s =
     (let (neg, t) = split_sign s; low = map ascii_lower t
      in if low \<in> {''inf'', ''infinity''} then Some (Inf neg)
         else if low = ''nan'' then Some NaN
         else let (whole, rest) = span_digits t;
                  (frac, rest) = (if take 1 rest = ''.'' then span_digits (drop 1 rest) else ([], rest))
              in if whole = [] \<and> frac = [] then None
                 else map_option (\<lambda>e. round64 ((if neg then -1 else 1) * of_int (digits_value (whole @ frac))
                        * power_int 10 (e - int (length frac)))) (parse_exponent rest))"

section \<open>The webhook\<close>

record subscription_values =
  su_id :: int
  su_chat_id :: int
  su_plan_code :: string
  su_period_start :: int
  su_period_end :: int

definition fresh_subscription :: "int \<Rightarrow> subscription_values \<Rightarrow> subscription_row" where
  "fresh_subscription telegram_user_id v =
     \<lparr>sb_id = su_id v, sb_telegram_user_id = telegram_user_id, sb_chat_id = su_chat_id v,
      sb_plan_code = su_plan_code v, sb_status = ''active'',
      sb_current_period_start_at = Some (su_period_start v),
      sb_current_period_end_at = Some (su_period_end v)\<rparr>"

definition merge_subscription :: "subscription_values \<Rightarrow> subscription_row \<Rightarrow> subscription_row" where
  "merge_subscription v b =
     b\<lparr>sb_chat_id := su_chat_id v, sb_plan_code := su_plan_code v, sb_status := ''active'',
       sb_current_period_start_at := Some (su_period_start v),
       sb_current_period_end_at := Some (su_period_end v)\<rparr>"

definition new_period :: "subscription_row option \<Rightarrow> int \<Rightarrow> int \<Rightarrow> int \<times> int" where
  "new_period existing received_at period_days =
     (case Option.bind existing sb_current_period_end_at of
        Some current_period_end_at \<Rightarrow>
          if current_period_end_at > received_at
          then (case Option.bind existing sb_current_period_start_at of Some t \<Rightarrow> t | None \<Rightarrow> received_at,
                current_period_end_at + period_days * DAY)
          else (received_at, received_at + period_days * DAY)
      | None \<Rightarrow> (received_at, received_at + period_days * DAY))"

definition update_payment ::
  "int \<Rightarrow> webhook_notification \<Rightarrow> (payment_row \<Rightarrow> payment_row) \<Rightarrow> ('z store_scheme, db_error, unit) io" where
  "update_payment payment_id notification f =
     query (\<lambda>_ s.
       if transaction_id_taken payment_id (wn_transaction_id notification) (telegram_payment_events s)
       then Inl UniqueViolation
       else Inr ((), s\<lparr>telegram_payment_events := update_where (\<lambda>p. pm_id p = payment_id)
         (\<lambda>p. f (p\<lparr>pm_provider_transaction_id :=
                     coalesce (wn_transaction_id notification) (pm_provider_transaction_id p),
                   pm_payment_type := coalesce (wn_payment_type notification) (pm_payment_type p)\<rparr>))
         (telegram_payment_events s)\<rparr>))"

definition upsert_subscription ::
  "payment_row \<Rightarrow> int \<Rightarrow> int \<Rightarrow> ('z store_scheme, db_error, subscription_row) io" where
  "upsert_subscription payment period_start period_end =
     query (\<lambda>i s.
       let v = \<lparr>su_id = i, su_chat_id = pm_chat_id payment, su_plan_code = pm_plan_code payment,
                su_period_start = period_start, su_period_end = period_end\<rparr>;
           u = pm_telegram_user_id payment;
           rows = upsert sb_telegram_user_id u (fresh_subscription u v) (merge_subscription v)
                    (telegram_subscriptions s)
       in case lookup sb_telegram_user_id u rows of
            None \<Rightarrow> Inl RowNotFound
          | Some row \<Rightarrow> Inr (row, s\<lparr>telegram_subscriptions := rows\<rparr>))"

definition apply_paid ::
  "payment_row \<Rightarrow> webhook_notification \<Rightarrow> int \<Rightarrow> int \<Rightarrow> ('z store_scheme, db_error, webhook_outcome) io" where
  "apply_paid payment notification received_at sql_now =
     io_bind (select (\<lambda>s. lookup sb_telegram_user_id (pm_telegram_user_id payment)
                            (telegram_subscriptions s))) (\<lambda>existing_subscription.
     let (period_start, period_end) = new_period existing_subscription received_at (pm_period_days payment) in
     io_bind (upsert_subscription payment period_start period_end) (\<lambda>row.
     io_bind (update_payment (pm_id payment) notification
                (\<lambda>p. p\<lparr>pm_subscription_id := Some (sb_id row), pm_payment_status := ''paid'',
                       pm_paid_at := Some received_at\<rparr>)) (\<lambda>_.
     io_bind (resolve_subscription_sanction sql_now (sb_id row)) (\<lambda>_.
     io_return (Paid \<lparr>ms_id = sb_id row, ms_telegram_user_id = sb_telegram_user_id row,
                      ms_chat_id = sb_chat_id row, ms_plan_code = pm_plan_code payment,
                      ms_current_period_end_at = sb_current_period_end_at row\<rparr>)))))"

definition apply_to_payment ::
  "payment_row \<Rightarrow> webhook_notification \<Rightarrow> payment_status \<Rightarrow> int \<Rightarrow> int
   \<Rightarrow> ('z store_scheme, db_error, webhook_outcome) io" where
  "apply_to_payment payment notification mapped_status received_at sql_now =
     (if pm_payment_status payment = ''paid'' then io_return IgnoredNotification
      else if pm_payment_status payment \<noteq> ''pending''
      then io_bind (update_payment (pm_id payment) notification (\<lambda>p. p)) (\<lambda>_. io_return IgnoredNotification)
      else if mapped_status \<noteq> StPaid
      then io_bind (update_payment (pm_id payment) notification
             (\<lambda>p. p\<lparr>pm_payment_status := status_text mapped_status\<rparr>)) (\<lambda>_. io_return IgnoredNotification)
      else case parse_f64 (wn_gross_amount notification) of
             None \<Rightarrow> io_throw RowNotFound
           | Some value \<Rightarrow>
               let notified_gross_amount = f64_as_i64 (f64_round value)
               in if notified_gross_amount < pm_gross_amount_idr payment then io_return IgnoredNotification
                  else apply_paid payment notification received_at sql_now)"

definition apply_midtrans_webhook ::
  "webhook_notification \<Rightarrow> payment_status \<Rightarrow> int \<Rightarrow> int \<Rightarrow> ('z store_scheme, db_error, webhook_outcome) io" where
  "apply_midtrans_webhook notification mapped_status received_at sql_now =
     transaction (
       io_bind (select (\<lambda>s. lookup pm_provider_order_id (wn_order_id notification)
                              (telegram_payment_events s))) (\<lambda>payment_row.
       case payment_row of
         None \<Rightarrow> io_return UnknownOrder
       | Some payment \<Rightarrow> apply_to_payment payment notification mapped_status received_at sql_now))"

interpretation subscription: upsert_contract sb_telegram_user_id fresh_subscription merge_subscription
  by unfold_locales (auto simp: fresh_subscription_def merge_subscription_def)

section \<open>What a webhook does\<close>

text \<open>
  When a notification settles a payment: it is still pending, the provider says paid, and the
  amount that it names, rounded, is at least the amount asked for.
\<close>

definition settles :: "webhook_notification \<Rightarrow> payment_status \<Rightarrow> payment_row \<Rightarrow> bool" where
  "settles n st p \<longleftrightarrow> pm_payment_status p = ''pending'' \<and> st = StPaid
     \<and> (\<exists>v. parse_f64 (wn_gross_amount n) = Some v \<and> pm_gross_amount_idr p \<le> f64_as_i64 (f64_round v))"

definition noted :: "webhook_notification \<Rightarrow> payment_row \<Rightarrow> payment_row" where
  "noted n p = p\<lparr>pm_provider_transaction_id := coalesce (wn_transaction_id n) (pm_provider_transaction_id p),
                 pm_payment_type := coalesce (wn_payment_type n) (pm_payment_type p)\<rparr>"

definition settled :: "webhook_notification \<Rightarrow> int \<Rightarrow> int \<Rightarrow> payment_row \<Rightarrow> payment_row" where
  "settled n received_at subscription_id p = (noted n p)\<lparr>pm_subscription_id := Some subscription_id,
     pm_payment_status := ''paid'', pm_paid_at := Some received_at\<rparr>"

definition sanction_cleared :: "int \<Rightarrow> sanction_row \<Rightarrow> sanction_row" where
  "sanction_cleared now r = r\<lparr>sn_last_pre_expiry_reminded_for_period_end_at := None,
     sn_last_pre_expiry_reminded_day := None, sn_last_overdue_reminded_day := None,
     sn_fine_amount_idr := 0, sn_withdrawal_required := False,
     sn_withdrawal_required_at := None, sn_resolved_at := Some now\<rparr>"

lemma noted_fields [simp]:
  "pm_id (noted n p) = pm_id p" "pm_provider_order_id (noted n p) = pm_provider_order_id p"
  "pm_payment_status (noted n p) = pm_payment_status p"
  by (simp_all add: noted_def)

lemma settled_fields [simp]:
  "pm_id (settled n t i p) = pm_id p" "pm_provider_order_id (settled n t i p) = pm_provider_order_id p"
  "pm_payment_status (settled n t i p) = ''paid''"
  by (simp_all add: settled_def)

lemma update_payment_ok:
  "update_payment i n f w = (Inr x, w') \<Longrightarrow>
   wdb w' = (wdb w)\<lparr>telegram_payment_events :=
     update_where (\<lambda>p. pm_id p = i) (\<lambda>p. f (noted n p)) (telegram_payment_events (wdb w))\<rparr>"
  unfolding update_payment_def by (drule query_ok) (auto simp: noted_def split: if_splits)

lemma upsert_subscription_ok:
  assumes "upsert_subscription p a b w = (Inr row, w')"
  shows "\<exists>i. let v = \<lparr>su_id = i, su_chat_id = pm_chat_id p, su_plan_code = pm_plan_code p,
                su_period_start = a, su_period_end = b\<rparr>;
             u = pm_telegram_user_id p;
             rows = upsert sb_telegram_user_id u (fresh_subscription u v) (merge_subscription v)
                      (telegram_subscriptions (wdb w))
         in wdb w' = (wdb w)\<lparr>telegram_subscriptions := rows\<rparr> \<and> lookup sb_telegram_user_id u rows = Some row"
  using query_ok [OF assms [unfolded upsert_subscription_def]]
  by (intro exI [of _ "wseq w"]) (simp add: Let_def split: option.splits)

lemma resolve_ok:
  "resolve_subscription_sanction now i w = (Inr x, w') \<Longrightarrow>
   wdb w' = (wdb w)\<lparr>telegram_subscription_sanctions :=
     update_where (\<lambda>r. sn_subscription_id r = i) (sanction_cleared now) (telegram_subscription_sanctions (wdb w))\<rparr>"
  unfolding resolve_subscription_sanction_def by (drule execute_ok) (simp add: sanction_cleared_def [abs_def])

lemma apply_paid_ok:
  assumes "apply_paid p n rcv now w = (Inr out, w')"
  shows "\<exists>row rows i. out = Paid \<lparr>ms_id = sb_id row, ms_telegram_user_id = sb_telegram_user_id row,
        ms_chat_id = sb_chat_id row, ms_plan_code = pm_plan_code p,
        ms_current_period_end_at = sb_current_period_end_at row\<rparr>
     \<and> (let u = pm_telegram_user_id p;
            (a, b) = new_period (lookup sb_telegram_user_id u (telegram_subscriptions (wdb w))) rcv (pm_period_days p);
            v = \<lparr>su_id = i, su_chat_id = pm_chat_id p, su_plan_code = pm_plan_code p,
                su_period_start = a, su_period_end = b\<rparr>
        in rows = upsert sb_telegram_user_id u (fresh_subscription u v) (merge_subscription v)
                    (telegram_subscriptions (wdb w))
           \<and> lookup sb_telegram_user_id u rows = Some row)
     \<and> wdb w' = (wdb w)\<lparr>telegram_subscriptions := rows,
          telegram_payment_events := update_where (\<lambda>q. pm_id q = pm_id p) (settled n rcv (sb_id row))
            (telegram_payment_events (wdb w)),
          telegram_subscription_sanctions := update_where (\<lambda>r. sn_subscription_id r = sb_id row)
            (sanction_cleared now) (telegram_subscription_sanctions (wdb w))\<rparr>"
proof -
  let ?u = "pm_telegram_user_id p"
  let ?old = "lookup sb_telegram_user_id ?u (telegram_subscriptions (wdb w))"
  obtain a b where ab: "new_period ?old rcv (pm_period_days p) = (a, b)" by force
  from assms obtain old w1 where
    1: "select (\<lambda>s. lookup sb_telegram_user_id ?u (telegram_subscriptions s)) w = (Inr old, w1)"
    and rest: "(let (period_start, period_end) = new_period old rcv (pm_period_days p) in
       io_bind (upsert_subscription p period_start period_end) (\<lambda>row.
       io_bind (update_payment (pm_id p) n (\<lambda>p. p\<lparr>pm_subscription_id := Some (sb_id row),
           pm_payment_status := ''paid'', pm_paid_at := Some rcv\<rparr>)) (\<lambda>_.
       io_bind (resolve_subscription_sanction now (sb_id row)) (\<lambda>_.
       io_return (Paid \<lparr>ms_id = sb_id row, ms_telegram_user_id = sb_telegram_user_id row,
           ms_chat_id = sb_chat_id row, ms_plan_code = pm_plan_code p,
           ms_current_period_end_at = sb_current_period_end_at row\<rparr>))))) w1 = (Inr out, w')"
    unfolding apply_paid_def bind_ok by blast
  have old: "old = ?old" "wdb w1 = wdb w" using select_ok [OF 1] by simp_all
  from rest obtain row w2 x w3 y where
    2: "upsert_subscription p a b w1 = (Inr row, w2)"
    and 3: "update_payment (pm_id p) n (\<lambda>p. p\<lparr>pm_subscription_id := Some (sb_id row),
           pm_payment_status := ''paid'', pm_paid_at := Some rcv\<rparr>) w2 = (Inr x, w3)"
    and 4: "resolve_subscription_sanction now (sb_id row) w3 = (Inr y, w')"
    and out: "out = Paid \<lparr>ms_id = sb_id row, ms_telegram_user_id = sb_telegram_user_id row,
           ms_chat_id = sb_chat_id row, ms_plan_code = pm_plan_code p,
           ms_current_period_end_at = sb_current_period_end_at row\<rparr>"
    unfolding old(1) ab by (auto simp: bind_ok)
  from upsert_subscription_ok [OF 2] update_payment_ok [OF 3] resolve_ok [OF 4] show ?thesis
    unfolding ab Let_def prod.case out old(2) by (fastforce simp: settled_def [abs_def])
qed

text \<open>The cases of a notification that goes through.\<close>

lemma webhook_cases:
  assumes "apply_midtrans_webhook n st rcv now w = (Inr out, w')"
  obtains (unknown) "lookup pm_provider_order_id (wn_order_id n) (telegram_payment_events (wdb w)) = None"
      "out = UnknownOrder" "wdb w' = wdb w"
  | (ignored) p g where "lookup pm_provider_order_id (wn_order_id n) (telegram_payment_events (wdb w)) = Some p"
      "\<not> settles n st p" "out = IgnoredNotification"
      "\<And>q. pm_id (g q) = pm_id q" "\<And>q. pm_provider_order_id (g q) = pm_provider_order_id q"
      "pm_payment_status p \<noteq> ''pending'' \<Longrightarrow> \<forall>q. pm_payment_status (g q) = pm_payment_status q"
      "pm_payment_status p = ''paid'' \<Longrightarrow> \<forall>q. g q = q"
      "\<And>q. pm_payment_status (g q) \<in> {pm_payment_status q, status_text st}"
      "\<And>q. st = StPaid \<Longrightarrow> pm_payment_status (g q) = pm_payment_status q"
      "wdb w' = (wdb w)\<lparr>telegram_payment_events :=
         update_where (\<lambda>q. pm_id q = pm_id p) g (telegram_payment_events (wdb w))\<rparr>"
  | (settled) p w1 w2 where
      "lookup pm_provider_order_id (wn_order_id n) (telegram_payment_events (wdb w)) = Some p"
      "settles n st p" "apply_paid p n rcv now w1 = (Inr out, w2)" "wdb w1 = wdb w" "wdb w' = wdb w2"
proof -
  obtain w0 w3 where w0: "wdb w0 = wdb w" and w3: "wdb w' = wdb w3" and
    m: "io_bind (select (\<lambda>s. lookup pm_provider_order_id (wn_order_id n) (telegram_payment_events s)))
          (\<lambda>payment_row. case payment_row of None \<Rightarrow> io_return UnknownOrder
             | Some payment \<Rightarrow> apply_to_payment payment n st rcv now) w0 = (Inr out, w3)"
    using transaction_commits [OF assms [unfolded apply_midtrans_webhook_def]] by metis
  from m obtain row w1 where 1: "select (\<lambda>s. lookup pm_provider_order_id (wn_order_id n) (telegram_payment_events s)) w0 = (Inr row, w1)"
    and 2: "(case row of None \<Rightarrow> io_return UnknownOrder
             | Some payment \<Rightarrow> apply_to_payment payment n st rcv now) w1 = (Inr out, w3)"
    unfolding bind_ok by blast
  have row: "row = lookup pm_provider_order_id (wn_order_id n) (telegram_payment_events (wdb w))"
    and w1: "wdb w1 = wdb w" using select_ok [OF 1] w0 by simp_all
  have same: "(wdb w)\<lparr>telegram_payment_events := update_where (\<lambda>q. pm_id q = i) (\<lambda>q. q) (telegram_payment_events (wdb w))\<rparr>
      = wdb w" for i by (simp add: update_where_def)
  show thesis
  proof (cases row)
    case None
    with 2 w3 w1 row show thesis by (intro unknown) auto
  next
    case (Some p)
    from 2 Some have 3: "apply_to_payment p n st rcv now w1 = (Inr out, w3)" by simp
    consider (paid) "pm_payment_status p = ''paid''"
      | (closed) "pm_payment_status p \<noteq> ''paid''" "pm_payment_status p \<noteq> ''pending''"
      | (other) "pm_payment_status p = ''pending''" "st \<noteq> StPaid"
      | (short) "pm_payment_status p = ''pending''" "st = StPaid" "\<not> settles n st p"
      | (full) "settles n st p" by (auto simp: settles_def)
    then show thesis
    proof cases
      case paid
      with 3 show thesis using same [of "pm_id p"] w3 w1 row Some
        by (intro ignored [of p "\<lambda>q. q"]) (auto simp: apply_to_payment_def settles_def)
    next
      case closed
      then obtain x where x: "update_payment (pm_id p) n (\<lambda>p. p) w1 = (Inr x, w3)" "out = IgnoredNotification"
        using 3 by (auto simp: apply_to_payment_def bind_ok)
      with closed show thesis using update_payment_ok [OF x(1)] w3 w1 row Some
        by (intro ignored [of p "noted n"]) (auto simp: settles_def)
    next
      case other
      then obtain x where x: "update_payment (pm_id p) n (\<lambda>p. p\<lparr>pm_payment_status := status_text st\<rparr>) w1 = (Inr x, w3)"
          "out = IgnoredNotification"
        using 3 by (auto simp: apply_to_payment_def bind_ok)
      with other show thesis using update_payment_ok [OF x(1)] w3 w1 row Some
        by (intro ignored [of p "\<lambda>q. (noted n q)\<lparr>pm_payment_status := status_text st\<rparr>"])
           (auto simp: settles_def)
    next
      case short
      with 3 show thesis using same [of "pm_id p"] w3 w1 row Some
        by (intro ignored [of p "\<lambda>q. q"])
           (auto simp: apply_to_payment_def settles_def Let_def io_throw_def split: option.splits if_splits)
    next
      case full
      then have "apply_paid p n rcv now w1 = (Inr out, w3)"
        using 3 by (auto simp: apply_to_payment_def settles_def Let_def)
      with full show thesis using w3 w1 row Some by (intro settled [of p w1 w3]) auto
    qed
  qed
qed

section \<open>Paying once\<close>

definition payment_keys :: "'z store_scheme \<Rightarrow> bool" where
  "payment_keys s \<longleftrightarrow> distinct (map pm_id (telegram_payment_events s))
     \<and> distinct (map pm_provider_order_id (telegram_payment_events s))"

definition pending_order :: "'z store_scheme \<Rightarrow> string \<Rightarrow> bool" where
  "pending_order s order_id \<longleftrightarrow> (\<exists>p. lookup pm_provider_order_id order_id (telegram_payment_events s) = Some p
     \<and> pm_payment_status p = ''pending'')"

lemma payment_keys_update:
  "payment_keys s \<Longrightarrow> (\<And>q. pm_id (g q) = pm_id q) \<Longrightarrow>
   (\<And>q. pm_provider_order_id (g q) = pm_provider_order_id q) \<Longrightarrow> telegram_payment_events s'
     = update_where P g (telegram_payment_events s) \<Longrightarrow> payment_keys s'"
  by (simp add: payment_keys_def map_update_where)

text \<open>An update of the row of \<open>p\<close> reaches the row of another order only if it is the same row.\<close>

lemma same_payment:
  assumes keys: "payment_keys s"
    and p: "lookup pm_provider_order_id j (telegram_payment_events s) = Some p"
    and q: "lookup pm_provider_order_id k (telegram_payment_events s) = Some q" and i: "pm_id q = pm_id p"
  shows "q = p"
proof -
  have "inj_on pm_id (set (telegram_payment_events s))"
    using keys by (simp add: payment_keys_def distinct_map)
  from inj_onD [OF this i] lookup_SomeD [OF p] lookup_SomeD [OF q] show ?thesis by simp
qed

lemma apply_paid_events:
  assumes "apply_paid p n rcv now w = (Inr out, w')"
  shows "\<exists>i. telegram_payment_events (wdb w')
     = update_where (\<lambda>q. pm_id q = pm_id p) (settled n rcv i) (telegram_payment_events (wdb w))"
  using apply_paid_ok [OF assms]
proof (elim exE conjE)
  fix row rows
  assume "wdb w' = (wdb w)\<lparr>telegram_subscriptions := rows,
          telegram_payment_events := update_where (\<lambda>q. pm_id q = pm_id p) (settled n rcv (sb_id row))
            (telegram_payment_events (wdb w)),
          telegram_subscription_sanctions := update_where (\<lambda>r. sn_subscription_id r = sb_id row)
            (sanction_cleared now) (telegram_subscription_sanctions (wdb w))\<rparr>"
  then show ?thesis by (intro exI [of _ "sb_id row"]) simp
qed

lemma webhook_step:
  assumes "apply_midtrans_webhook n st rcv now w = (r, w')" and keys: "payment_keys (wdb w)"
  shows "payment_keys (wdb w') \<and> (\<forall>i. pending_order (wdb w') i \<longrightarrow> pending_order (wdb w) i)
    \<and> ((\<exists>x. r = Inr (Paid x)) \<longrightarrow> pending_order (wdb w) (wn_order_id n) \<and> \<not> pending_order (wdb w') (wn_order_id n))"
proof (cases r)
  case (Inl e)
  with assms have "wdb w' = wdb w" by (simp add: apply_midtrans_webhook_def transaction_rolls_back)
  with Inl keys show ?thesis by simp
next
  case (Inr out)
  with assms(1) have a: "apply_midtrans_webhook n st rcv now w = (Inr out, w')" by simp
  show ?thesis
  proof (cases rule: webhook_cases [OF a])
    case 1
    with keys Inr show ?thesis by simp
  next
    case (2 p g)
    have ev: "telegram_payment_events (wdb w')
        = update_where (\<lambda>q. pm_id q = pm_id p) g (telegram_payment_events (wdb w))" using 2(10) by simp
    have "pending_order (wdb w) i" if i: "pending_order (wdb w') i" for i
    proof -
      from i obtain q where q: "lookup pm_provider_order_id i (telegram_payment_events (wdb w)) = Some q"
        and pend: "pm_payment_status (if pm_id q = pm_id p then g q else q) = ''pending''"
        unfolding pending_order_def ev lookup_update_where [where key = pm_provider_order_id, OF 2(5)] by auto
      have "pm_payment_status q = ''pending''"
        using pend same_payment [OF keys 2(1) q] 2(6) by (metis (full_types))
      with q show ?thesis by (simp add: pending_order_def)
    qed
    moreover have "payment_keys (wdb w')" using payment_keys_update [OF keys 2(4,5) ev] .
    ultimately show ?thesis using Inr 2(3) by simp
  next
    case (3 p w1 w2)
    from apply_paid_events [OF 3(3)] obtain j where
      ev: "telegram_payment_events (wdb w')
        = update_where (\<lambda>q. pm_id q = pm_id p) (settled n rcv j) (telegram_payment_events (wdb w))"
      using 3(4,5) by auto
    have "pending_order (wdb w) i \<and> i \<noteq> wn_order_id n" if i: "pending_order (wdb w') i" for i
    proof -
      from i obtain q where q: "lookup pm_provider_order_id i (telegram_payment_events (wdb w)) = Some q"
        "pm_payment_status (if pm_id q = pm_id p then settled n rcv j q else q) = ''pending''"
        unfolding pending_order_def ev
          lookup_update_where [where key = pm_provider_order_id and f = "settled n rcv j", OF settled_fields(2)]
        by auto
      then have "pm_id q \<noteq> pm_id p" "pm_payment_status q = ''pending''" by (auto split: if_splits)
      with q(1) 3(1) show ?thesis by (auto simp: pending_order_def)
    qed
    moreover have "payment_keys (wdb w')" by (rule payment_keys_update [OF keys _ _ ev]) simp_all
    moreover have "pending_order (wdb w) (wn_order_id n)"
      using 3(1,2) by (simp add: pending_order_def settles_def)
    ultimately show ?thesis by blast
  qed
qed

text \<open>A sequence of notifications as the provider delivers them, each with its receipt.\<close>

fun deliver ::
  "(webhook_notification \<times> payment_status \<times> int \<times> int) list \<Rightarrow> 'z store_scheme world
   \<Rightarrow> (db_error + webhook_outcome) list \<times> 'z store_scheme world" where
  "deliver [] w = ([], w)"
| "deliver ((n, st, rcv, now) # ns) w =
     (let (r, w1) = apply_midtrans_webhook n st rcv now w; (rs, w2) = deliver ns w1 in (r # rs, w2))"

fun is_paid :: "db_error + webhook_outcome \<Rightarrow> bool" where
  "is_paid (Inr (Paid _)) = True"
| "is_paid _ = False"

definition paid_orders ::
  "(webhook_notification \<times> payment_status \<times> int \<times> int) list \<Rightarrow> (db_error + webhook_outcome) list \<Rightarrow> string list" where
  "paid_orders ns rs = map (\<lambda>(n, _). wn_order_id (fst n)) (filter (\<lambda>(_, r). is_paid r) (zip ns rs))"

lemma is_paid_iff: "is_paid r \<longleftrightarrow> (\<exists>x. r = Inr (Paid x))"
  by (cases r rule: is_paid.cases) auto

lemma paid_orders_deliver:
  "payment_keys (wdb w) \<Longrightarrow> distinct (paid_orders ns (fst (deliver ns w)))
     \<and> (\<forall>i \<in> set (paid_orders ns (fst (deliver ns w))). pending_order (wdb w) i)"
proof (induction ns w rule: deliver.induct)
  case (2 n st rcv now ns w)
  obtain r w1 where r: "apply_midtrans_webhook n st rcv now w = (r, w1)" by force
  from webhook_step [OF this 2(2)] have k: "payment_keys (wdb w1)"
    and before: "\<And>i. pending_order (wdb w1) i \<Longrightarrow> pending_order (wdb w) i"
    and paid: "is_paid r \<Longrightarrow> pending_order (wdb w) (wn_order_id n) \<and> \<not> pending_order (wdb w1) (wn_order_id n)"
    by (auto simp: is_paid_iff)
  have ih: "distinct (paid_orders ns (fst (deliver ns w1)))"
    "\<And>i. i \<in> set (paid_orders ns (fst (deliver ns w1))) \<Longrightarrow> pending_order (wdb w1) i"
    using 2(1) [OF r [symmetric] refl k] by auto
  have "paid_orders ((n, st, rcv, now) # ns) (fst (deliver ((n, st, rcv, now) # ns) w))
      = (if is_paid r then [wn_order_id n] else []) @ paid_orders ns (fst (deliver ns w1))"
    using r by (simp add: paid_orders_def split_def Let_def)
  then show ?case using ih before paid by auto
qed (simp add: paid_orders_def)

text \<open>The payments after one of them, found by its order, has been updated.\<close>

lemma lookup_settled:
  assumes keys: "payment_keys s"
    and p: "lookup pm_provider_order_id k (telegram_payment_events s) = Some p"
    and g: "\<And>q. pm_provider_order_id (g q) = pm_provider_order_id q"
  shows "lookup pm_provider_order_id j (update_where (\<lambda>q. pm_id q = pm_id p) g (telegram_payment_events s))
     = (if j = k then Some (g p) else lookup pm_provider_order_id j (telegram_payment_events s))"
proof (cases "lookup pm_provider_order_id j (telegram_payment_events s)")
  case None
  with p have "j \<noteq> k" by auto
  with None show ?thesis by (simp add: lookup_update_where g)
next
  case (Some q)
  have order: "pm_provider_order_id q = j" "pm_provider_order_id p = k"
    using lookup_SomeD [OF Some] lookup_SomeD [OF p] by simp_all
  show ?thesis
  proof (cases "j = k")
    case True
    with Some p have "q = p" by simp
    with Some True show ?thesis by (simp add: lookup_update_where [where key = pm_provider_order_id] g)
  next
    case False
    then have "pm_id q \<noteq> pm_id p" using order same_payment [OF keys p Some] by blast
    with Some False show ?thesis by (simp add: lookup_update_where [where key = pm_provider_order_id] g)
  qed
qed

lemma new_period_end:
  "snd (new_period old rcv d) =
     (case Option.bind old sb_current_period_end_at of Some e \<Rightarrow> max e rcv | None \<Rightarrow> rcv) + d * DAY"
  by (simp add: new_period_def max_def split: option.split)

text \<open>
  C13. A successful payment, when a notification settles it: the payment was pending and the amount
  paid covers the amount asked for. The user's subscription becomes active under the plan of the
  payment and ends the paid days after the later of its old end and the receipt; the payment is
  marked paid and linked to it; fines and reminders of the subscription are sanction_cleared. The rows of
  all other users, orders and subscriptions stay as they are, and so does every other table.
\<close>

theorem webhook_paid_effects:
  assumes "apply_midtrans_webhook n st rcv now w = (Inr (Paid r), w')" and "payment_keys (wdb w)"
  shows "\<exists>p b. let s = wdb w; s' = wdb w'; u = pm_telegram_user_id p;
       old = Option.bind (lookup sb_telegram_user_id u (telegram_subscriptions s)) sb_current_period_end_at;
       new = (case old of Some e \<Rightarrow> max e rcv | None \<Rightarrow> rcv) + pm_period_days p * DAY
     in lookup pm_provider_order_id (wn_order_id n) (telegram_payment_events s) = Some p \<and> settles n st p
      \<and> lookup sb_telegram_user_id u (telegram_subscriptions s') = Some b
      \<and> sb_status b = ''active'' \<and> sb_plan_code b = pm_plan_code p \<and> sb_current_period_end_at b = Some new
      \<and> ms_id r = sb_id b \<and> ms_telegram_user_id r = u \<and> ms_current_period_end_at r = Some new
      \<and> (\<forall>v. v \<noteq> u \<longrightarrow> lookup sb_telegram_user_id v (telegram_subscriptions s')
                       = lookup sb_telegram_user_id v (telegram_subscriptions s))
      \<and> (\<forall>i. lookup pm_provider_order_id i (telegram_payment_events s') =
           (if i = wn_order_id n then Some (settled n rcv (sb_id b) p)
            else lookup pm_provider_order_id i (telegram_payment_events s)))
      \<and> telegram_subscription_sanctions s' = update_where (\<lambda>x. sn_subscription_id x = sb_id b) (sanction_cleared now)
           (telegram_subscription_sanctions s)
      \<and> s'\<lparr>telegram_payment_events := telegram_payment_events s,
            telegram_subscriptions := telegram_subscriptions s,
            telegram_subscription_sanctions := telegram_subscription_sanctions s\<rparr> = s"
  using assms(1)
proof (cases rule: webhook_cases)
  case (settled p w1 w2)
  let ?u = "pm_telegram_user_id p" and ?s = "wdb w"
  let ?old = "lookup sb_telegram_user_id ?u (telegram_subscriptions ?s)"
  let ?new = "(case Option.bind ?old sb_current_period_end_at of Some e \<Rightarrow> max e rcv | None \<Rightarrow> rcv)
      + pm_period_days p * DAY"
  define a where "a = fst (new_period ?old rcv (pm_period_days p))"
  have ab: "new_period ?old rcv (pm_period_days p) = (a, ?new)"
    by (simp add: prod_eq_iff new_period_end a_def)
  define v where "v i = \<lparr>su_id = i, su_chat_id = pm_chat_id p, su_plan_code = pm_plan_code p,
      su_period_start = a, su_period_end = ?new\<rparr>" for i
  obtain row rows i where out: "Paid r = Paid \<lparr>ms_id = sb_id row, ms_telegram_user_id = sb_telegram_user_id row,
        ms_chat_id = sb_chat_id row, ms_plan_code = pm_plan_code p,
        ms_current_period_end_at = sb_current_period_end_at row\<rparr>"
    and rows: "rows = upsert sb_telegram_user_id ?u (fresh_subscription ?u (v i)) (merge_subscription (v i))
        (telegram_subscriptions ?s)"
    and row: "lookup sb_telegram_user_id ?u rows = Some row"
    and s': "wdb w' = ?s\<lparr>telegram_subscriptions := rows,
          telegram_payment_events := update_where (\<lambda>q. pm_id q = pm_id p) (settled n rcv (sb_id row))
            (telegram_payment_events ?s),
          telegram_subscription_sanctions := update_where (\<lambda>x. sn_subscription_id x = sb_id row)
            (sanction_cleared now) (telegram_subscription_sanctions ?s)\<rparr>"
    using apply_paid_ok [OF settled(3)] unfolding settled(4) settled(5) [symmetric] ab Let_def prod.case v_def
    by (elim exE conjE) (rule that [unfolded v_def])
  have b: "row = (case ?old of None \<Rightarrow> fresh_subscription ?u (v i) | Some b \<Rightarrow> merge_subscription (v i) b)"
    using row unfolding rows subscription.lookup_same by simp
  have fields: "sb_status row = ''active'' \<and> sb_plan_code row = pm_plan_code p
      \<and> sb_current_period_end_at row = Some ?new \<and> sb_telegram_user_id row = ?u"
    using lookup_SomeD [OF row] unfolding b
    by (cases ?old) (simp_all add: fresh_subscription_def merge_subscription_def v_def)
  have others: "lookup sb_telegram_user_id x rows = lookup sb_telegram_user_id x (telegram_subscriptions ?s)"
    if "x \<noteq> ?u" for x using that unfolding rows by (rule subscription.lookup_other)
  note orders = lookup_settled [OF assms(2) settled(1), of "settled n rcv (sb_id row)"]
  show ?thesis
    by (intro exI [of _ p] exI [of _ row])
       (use out fields row others orders settled(1,2) s' in \<open>simp add: Let_def\<close>)
qed simp_all

text \<open>A user whose subscription has run out and one pending payment.\<close>

definition sample_payment :: payment_row where
  "sample_payment = \<lparr>pm_id = 5, pm_telegram_user_id = 10, pm_chat_id = 20, pm_device_id = Some 1,
     pm_imei = Some ''1'', pm_subscription_id = None, pm_payment_status = ''pending'',
     pm_plan_code = ''monthly_basic'', pm_gross_amount_idr = 45000, pm_period_days = 30,
     pm_provider_order_id = ''hb-10-7'', pm_provider_transaction_id = None, pm_payment_type = None,
     pm_payment_url = None, pm_expires_at = None, pm_paid_at = None\<rparr>"

definition sample_payment_store :: store where
  "sample_payment_store = empty_store\<lparr>telegram_subscriptions := [sample_subscription],
     telegram_payment_events := [sample_payment]\<rparr>"

definition sample_notification :: webhook_notification where
  "sample_notification = \<lparr>wn_order_id = ''hb-10-7'', wn_status_code = ''200'', wn_gross_amount = ''45000.00'',
     wn_signature_key = [], wn_transaction_status = ''settlement'', wn_transaction_id = Some ''t'',
     wn_payment_type = Some ''qris'', wn_fraud_status = None\<rparr>"

abbreviation sample_webhook :: "(store, db_error, webhook_outcome) io" where
  "sample_webhook \<equiv> apply_midtrans_webhook sample_notification StPaid (40 * DAY) (40 * DAY)"

abbreviation sample_payment_world :: "store world" where
  "sample_payment_world \<equiv> \<lparr>wdb = sample_payment_store, wseq = 6, wsched = []\<rparr>"

lemma sample_amount: "parse_f64 ''45000.00'' = Some (Fin 45000)"
proof -
  have "read_nat 0 ''4500000'' = Some 4500000" by (simp add: of_char_def)
  then have "digits_value ''4500000'' = 4500000" by (simp add: digits_value_def)
  moreover have "power_int (10 :: rat) (- 2) = 1 / 100" by (simp add: power_int_minus_divide)
  moreover have "round64 45000 = Fin 45000" using round64_of_int [of 45000] by simp
  moreover have "split_sign ''45000.00'' = (False, ''45000.00'')"
    "map ascii_lower ''45000.00'' \<notin> {''inf'', ''infinity'', ''nan''}"
    "span_digits ''45000.00'' = (''45000'', ''.00'')" "span_digits ''00'' = (''00'', [])" by code_simp+
  ultimately show ?thesis by (simp add: parse_f64_def parse_exponent_def)
qed

lemma sample_webhook_run:
  "\<exists>r w1. sample_webhook sample_payment_world = (Inr (Paid r), w1) \<and> ms_current_period_end_at r = Some (70 * DAY)"
  by (simp add: apply_midtrans_webhook_def apply_to_payment_def apply_paid_def io_run
      sample_payment_store_def sample_notification_def sample_payment_def sample_subscription_def
      sample_amount lookup_Cons clamp_i64_def update_payment_def transaction_id_taken_def
      upsert_subscription_def resolve_subscription_sanction_def new_period_def upsert_def update_where_def
      merge_subscription_def Let_def)

lemma sample_payment_keys: "payment_keys sample_payment_store"
  by (simp add: payment_keys_def sample_payment_store_def)

lemma webhook_paid_effects_witness:
  "\<exists>r w1 b. sample_webhook sample_payment_world = (Inr (Paid r), w1)
     \<and> lookup sb_telegram_user_id 10 (telegram_subscriptions (wdb w1)) = Some b
     \<and> sb_status b = ''active'' \<and> sb_current_period_end_at b = Some (70 * DAY)"
proof -
  obtain r w1 where run: "sample_webhook sample_payment_world = (Inr (Paid r), w1)"
    and e: "ms_current_period_end_at r = Some (70 * DAY)" using sample_webhook_run by blast
  have "payment_keys (wdb sample_payment_world)" by (simp add: sample_payment_keys)
  from webhook_paid_effects [OF run this] obtain p b where
    p: "lookup pm_provider_order_id ''hb-10-7'' (telegram_payment_events sample_payment_store) = Some p"
    and b: "lookup sb_telegram_user_id (pm_telegram_user_id p) (telegram_subscriptions (wdb w1)) = Some b"
      "sb_status b = ''active''" "ms_current_period_end_at r = sb_current_period_end_at b"
    by (auto simp: Let_def sample_notification_def)
  have "pm_telegram_user_id p = 10"
    using p by (auto simp: sample_payment_store_def sample_payment_def lookup_Cons)
  with run b e show ?thesis by auto
qed

text \<open>
  C12. No order is paid twice: for every sequence of notifications that the provider delivers, in
  any order, repeated or contradictory, and whichever of the queries fail, each order that comes out
  paid does so once, and was pending before. A subscription is never extended twice for a payment.
\<close>

theorem webhook_pays_once:
  assumes "payment_keys (wdb w)"
  shows "distinct (paid_orders ns (fst (deliver ns w)))
    \<and> (\<forall>i \<in> set (paid_orders ns (fst (deliver ns w))). pending_order (wdb w) i)"
  using assms by (rule paid_orders_deliver)

lemma webhook_pays_once_witness:
  "distinct (paid_orders [(sample_notification, StPaid, 40 * DAY, 40 * DAY), (sample_notification, StPaid, 41 * DAY, 41 * DAY)]
      (fst (deliver [(sample_notification, StPaid, 40 * DAY, 40 * DAY), (sample_notification, StPaid, 41 * DAY, 41 * DAY)]
         sample_payment_world)))"
  by (rule conjunct1 [OF webhook_pays_once]) (simp add: sample_payment_keys)

text \<open>
  A notification that does not come out paid, an error included, changes no subscription and no
  sanction, and marks no payment as paid: the payments keep their identity, and each keeps its status
  or, if it was pending, takes the one that the provider reported. On an error nothing changes.
\<close>

theorem webhook_without_payment:
  assumes "apply_midtrans_webhook n st rcv now w = (r, w')" and "\<not> is_paid r" and "payment_keys (wdb w)"
  shows "telegram_subscriptions (wdb w') = telegram_subscriptions (wdb w)
    \<and> telegram_subscription_sanctions (wdb w') = telegram_subscription_sanctions (wdb w)
    \<and> (\<forall>i. case lookup pm_provider_order_id i (telegram_payment_events (wdb w)) of
         None \<Rightarrow> lookup pm_provider_order_id i (telegram_payment_events (wdb w')) = None
       | Some p \<Rightarrow> \<exists>p'. lookup pm_provider_order_id i (telegram_payment_events (wdb w')) = Some p'
           \<and> (pm_payment_status p' = pm_payment_status p
              \<or> i = wn_order_id n \<and> pm_payment_status p = ''pending'' \<and> st \<noteq> StPaid
                \<and> pm_payment_status p' = status_text st))
    \<and> (isl r \<longrightarrow> wdb w' = wdb w)"
proof (cases r)
  case (Inl e)
  with assms(1) have "wdb w' = wdb w" by (simp add: apply_midtrans_webhook_def transaction_rolls_back)
  with Inl show ?thesis by (simp split: option.splits)
next
  case (Inr out)
  with assms(1) have "apply_midtrans_webhook n st rcv now w = (Inr out, w')" by simp
  then show ?thesis
  proof (cases rule: webhook_cases)
    case unknown
    with Inr show ?thesis by (simp split: option.splits)
  next
    case (ignored p g)
    have ev: "telegram_payment_events (wdb w')
        = update_where (\<lambda>q. pm_id q = pm_id p) g (telegram_payment_events (wdb w))" using ignored(10) by simp
    have "pm_payment_status (if pm_id q = pm_id p then g q else q) = pm_payment_status q
        \<or> i = wn_order_id n \<and> pm_payment_status q = ''pending'' \<and> st \<noteq> StPaid
          \<and> pm_payment_status (if pm_id q = pm_id p then g q else q) = status_text st"
      if "lookup pm_provider_order_id i (telegram_payment_events (wdb w)) = Some q" for i q
    proof (cases "pm_id q = pm_id p")
      case True
      then have "q = p" "i = wn_order_id n"
        using same_payment [OF assms(3) ignored(1) that] lookup_SomeD [OF that] lookup_SomeD [OF ignored(1)] by auto
      then show ?thesis using ignored(6) ignored(8,9) [of p] by (cases "st = StPaid") auto
    qed simp
    then show ?thesis
      using ignored(10) Inr unfolding ev lookup_update_where [where key = pm_provider_order_id, OF ignored(5)]
      by (simp split: option.split)
  next
    case (settled p w1 w2)
    with apply_paid_ok [OF settled(3)] assms(2) Inr show ?thesis by auto
  qed
qed

lemma webhook_without_payment_witness:
  "telegram_subscriptions (wdb (snd (apply_midtrans_webhook sample_notification StExpired 0 0 sample_payment_world)))
     = [sample_subscription]"
proof -
  obtain r w' where r: "apply_midtrans_webhook sample_notification StExpired 0 0 sample_payment_world = (r, w')" by force
  have "\<not> is_paid r"
    using arg_cong [OF r, of fst]
    by (auto simp: apply_midtrans_webhook_def apply_to_payment_def io_run update_payment_def transaction_id_taken_def
        sample_payment_store_def sample_notification_def sample_payment_def lookup_Cons Let_def)
  from webhook_without_payment [OF r this] r sample_payment_keys show ?thesis
    by (simp add: sample_payment_store_def)
qed

section \<open>The items of a Snap transaction\<close>

text \<open>
  The item details of a Snap transaction always add up: quantities are one, the prices sum to
  the base amount plus the shipment fee and the fine where these are positive (the breakdown of a
  base of at least 45000 included), and every price is positive exactly when the base amount is.
\<close>

theorem snap_items_total:
  "sum_list (map (\<lambda>i. it_price i * it_quantity i) (snap_items plan base shipment fine))
     = base + max 0 shipment + max 0 fine
   \<and> list_all (\<lambda>i. it_quantity i = 1) (snap_items plan base shipment fine)
   \<and> (list_all (\<lambda>i. 0 < it_price i) (snap_items plan base shipment fine) \<longleftrightarrow> 0 < base)"
  by (auto simp: snap_items_def item_def Let_def MIDTRANS_BREAKDOWN_BASE_TOTAL_IDR_def)

end
