(* ===== verification/Analytics.thy ===== *)
theory Analytics
  imports Store Calendar "HOL-Library.Product_Lexorder" "HOL-Library.Sublist"
begin

text \<open>
  Rides and analytics, the computations of \<open>src/bot.rs\<close> on stored locations and engine sessions:
  route distance with its spike filter, riding time, ride summaries and their sum over the sessions
  of a range.
\<close>

section \<open>Constants and data\<close>

definition RIDING_TIME_MOVING_SPEED_KPH :: int where "RIDING_TIME_MOVING_SPEED_KPH = 3"
definition RIDING_TIME_MAX_POINT_GAP_SECS :: int where "RIDING_TIME_MAX_POINT_GAP_SECS = 5 * 60"

record ride_summary =
  rs_total_distance_km :: f64
  rs_riding_seconds :: int
  rs_average_speed_kph :: f64

record analytics_date_range =
  ar_label :: string
  ar_started_at :: int
  ar_ended_at :: int

record analytics_session =
  as_id :: int
  as_session_status :: string
  as_created_at :: int
  as_resolved_at :: "int option"

section \<open>Distance\<close>

definition haversine_distance_km :: "libm \<Rightarrow> f64 \<times> f64 \<Rightarrow> f64 \<times> f64 \<Rightarrow> f64" where
  "haversine_distance_km lm p q =
     (let earth_radius_km = Fin 6371;
          start_latitude = to_radians (fst p);
          end_latitude = to_radians (fst q);
          delta_latitude = fabs (fsub end_latitude start_latitude);
          delta_longitude = fabs (to_radians (fsub (snd q) (snd p)));
          square = (\<lambda>x. fmul x x);
          a = fadd (square (fsin lm (fdiv delta_latitude (Fin 2))))
                (fmul (fmul (fcos lm start_latitude) (fcos lm end_latitude))
                   (square (fsin lm (fdiv delta_longitude (Fin 2)))));
          c = fmul (Fin 2) (fatan2 lm (fsqrt lm a) (fsqrt lm (fsub (Fin 1) a)))
      in fmul earth_radius_km c)"

definition SPIKE_KM :: f64 where "SPIKE_KM = round64 (8 / 100)"

definition is_spike :: "libm \<Rightarrow> f64 \<times> f64 \<Rightarrow> f64 \<times> f64 \<Rightarrow> f64 \<times> f64 \<Rightarrow> bool" where
  "is_spike lm previous current following =
     (let distance_from_previous = haversine_distance_km lm previous current;
          distance_to_next = haversine_distance_km lm current following;
          neighbour_distance = haversine_distance_km lm previous following
      in flt SPIKE_KM distance_from_previous \<and> flt SPIKE_KM distance_to_next
         \<and> flt neighbour_distance (fmul (fmax distance_from_previous distance_to_next) (Fin (1 / 2))))"

text \<open>The loop of the filter from the second point on, given the point before it.\<close>

fun filter_interior :: "libm \<Rightarrow> f64 \<times> f64 \<Rightarrow> (f64 \<times> f64) list \<Rightarrow> (f64 \<times> f64) list" where
  "filter_interior lm previous (current # following # rest) =
     (if is_spike lm previous current following then filter_interior lm current (following # rest)
      else current # filter_interior lm current (following # rest))"
| "filter_interior lm previous points = points"

definition filter_gps_spike_outliers :: "libm \<Rightarrow> (f64 \<times> f64) list \<Rightarrow> (f64 \<times> f64) list" where
  "filter_gps_spike_outliers lm points =
     (if length points < 3 then points else hd points # filter_interior lm (hd points) (tl points))"

text \<open>\<open>points.windows(2)\<close>.\<close>

definition pairs :: "'a list \<Rightarrow> ('a \<times> 'a) list" where
  "pairs points = zip points (tl points)"

definition total_route_distance_km :: "libm \<Rightarrow> (f64 \<times> f64) list \<Rightarrow> f64" where
  "total_route_distance_km lm points =
     foldl (\<lambda>total (p, q). fadd total (haversine_distance_km lm p q)) (Fin 0)
       (pairs (filter_gps_spike_outliers lm points))"

section \<open>Riding time\<close>

definition riding_gap :: "(int \<times> int) \<times> (int \<times> int) \<Rightarrow> int option" where
  "riding_gap window =
     (let ((previous_time, previous_speed), (current_time, current_speed)) = window in
      if previous_speed < RIDING_TIME_MOVING_SPEED_KPH \<or> current_speed < RIDING_TIME_MOVING_SPEED_KPH
      then None
      else let gap_seconds = num_seconds (current_time - previous_time) in
        if \<not> (1 \<le> gap_seconds \<and> gap_seconds \<le> RIDING_TIME_MAX_POINT_GAP_SECS) then None
        else Some gap_seconds)"

definition total_riding_seconds :: "(int \<times> int) list \<Rightarrow> int" where
  "total_riding_seconds points = sum_list (List.map_filter riding_gap (pairs points))"

section \<open>Ride summaries\<close>

definition summary_of :: "f64 \<Rightarrow> int \<Rightarrow> ride_summary" where
  "summary_of total_distance_km riding_seconds =
     (let riding_hours = fdiv (f64_of_int riding_seconds) (Fin 3600)
      in \<lparr>rs_total_distance_km = total_distance_km, rs_riding_seconds = riding_seconds,
          rs_average_speed_kph =
            (if flt (Fin 0) riding_hours then fdiv total_distance_km riding_hours else Fin 0)\<rparr>)"

definition locations_between :: "string \<Rightarrow> int \<Rightarrow> int \<Rightarrow> 'z store_scheme \<Rightarrow> location_row list" where
  "locations_between imei started_at ended_at s =
     order_by (\<lambda>r. (lr_server_received_at r, lr_id r))
       (filter (\<lambda>r. lr_imei r = imei \<and> started_at \<le> lr_server_received_at r
                  \<and> lr_server_received_at r \<le> ended_at) (device_locations s))"

definition ride_summary_of_rows :: "libm \<Rightarrow> location_row list \<Rightarrow> ride_summary" where
  "ride_summary_of_rows lm rows =
     (if length rows < 2
      then \<lparr>rs_total_distance_km = Fin 0, rs_riding_seconds = 0, rs_average_speed_kph = Fin 0\<rparr>
      else summary_of
        (total_route_distance_km lm
           (map (\<lambda>r. (lk_latitude (lr_columns r), lk_longitude (lr_columns r))) rows))
        (total_riding_seconds (map (\<lambda>r. (lr_server_received_at r, lk_speed_kph (lr_columns r))) rows)))"

definition fetch_ride_summary ::
  "libm \<Rightarrow> string \<Rightarrow> int \<Rightarrow> int \<Rightarrow> ('z store_scheme, db_error, ride_summary option) io" where
  "fetch_ride_summary lm imei started_at ended_at =
     io_bind (select (locations_between imei started_at ended_at)) (\<lambda>rows.
       io_return (Some (ride_summary_of_rows lm rows)))"

definition should_send_ride_summary :: "ride_summary option \<Rightarrow> bool" where
  "should_send_ride_summary summary =
     (case summary of None \<Rightarrow> False
      | Some r \<Rightarrow> flt (Fin 0) (rs_total_distance_km r) \<and> 0 < rs_riding_seconds r)"

section \<open>The sessions of a range\<close>

definition fetch_analytics_sessions ::
  "string \<Rightarrow> int \<Rightarrow> int \<Rightarrow> int \<Rightarrow> int \<Rightarrow> ('z store_scheme, db_error, analytics_session list) io" where
  "fetch_analytics_sessions imei chat_id started_at ended_at reference_time =
     select (\<lambda>s. map (\<lambda>e. \<lparr>as_id = es_id e, as_session_status = es_session_status e,
                        as_created_at = es_created_at e, as_resolved_at = es_resolved_at e\<rparr>)
       (order_by (\<lambda>e. (es_created_at e, es_id e))
         (filter (\<lambda>e. es_imei e = imei \<and> es_chat_id e = chat_id \<and> es_created_at e < ended_at
            \<and> started_at < (case es_resolved_at e of Some t \<Rightarrow> t | None \<Rightarrow> reference_time))
           (telegram_engine_sessions s))))"

text \<open>The part of a session inside a range that ends at \<open>range_end\<close>.\<close>

definition clipped :: "int \<Rightarrow> int \<Rightarrow> analytics_session \<Rightarrow> int \<times> int" where
  "clipped range_start range_end session =
     (max (as_created_at session) range_start,
      min (case as_resolved_at session of Some t \<Rightarrow> t | None \<Rightarrow> range_end) range_end)"

fun sum_summaries ::
  "libm \<Rightarrow> string \<Rightarrow> int \<Rightarrow> int \<Rightarrow> analytics_session list \<Rightarrow> f64 \<times> int
   \<Rightarrow> ('z store_scheme, db_error, f64 \<times> int) io" where
  "sum_summaries lm imei range_start range_end [] totals = io_return totals"
| "sum_summaries lm imei range_start range_end (session # sessions) totals =
     (let (clipped_start, clipped_end) = clipped range_start range_end session in
      if clipped_start \<ge> clipped_end then sum_summaries lm imei range_start range_end sessions totals
      else io_bind (fetch_ride_summary lm imei clipped_start clipped_end) (\<lambda>summary.
        sum_summaries lm imei range_start range_end sessions
          (fadd (fst totals) (case summary of Some r \<Rightarrow> rs_total_distance_km r | None \<Rightarrow> Fin 0),
           snd totals + (case summary of Some r \<Rightarrow> rs_riding_seconds r | None \<Rightarrow> 0))))"

definition fetch_analytics_ride_summary ::
  "libm \<Rightarrow> string \<Rightarrow> analytics_session list \<Rightarrow> int \<Rightarrow> int \<Rightarrow> ('z store_scheme, db_error, ride_summary) io" where
  "fetch_analytics_ride_summary lm imei sessions range_start range_end =
     io_bind (sum_summaries lm imei range_start range_end sessions (Fin 0, 0)) (\<lambda>totals.
       io_return (summary_of (fst totals) (snd totals)))"

section \<open>The spike filter\<close>

lemma subseq_filter_interior: "subseq (filter_interior lm p points) points"
  by (induction lm p points rule: filter_interior.induct) auto

lemma last_filter_interior: "points \<noteq> [] \<Longrightarrow> filter_interior lm p points \<noteq> [] \<and> last (filter_interior lm p points) = last points"
  by (induction lm p points rule: filter_interior.induct) auto

lemma take_1_rev: "take 1 (rev xs) = (if xs = [] then [] else [last xs])"
  by (cases xs rule: rev_cases) auto

text \<open>
  The spike filter only drops points: what it returns is a subsequence of the route, in the same
  order, with the same first and last point.
\<close>

theorem spike_filter_keeps_ends:
  "subseq (filter_gps_spike_outliers lm points) points
   \<and> take 1 (filter_gps_spike_outliers lm points) = take 1 points
   \<and> take 1 (rev (filter_gps_spike_outliers lm points)) = take 1 (rev points)"
proof (cases "length points < 3")
  case False
  then obtain p q r rest where points: "points = p # q # r # rest"
    by (metis One_nat_def Suc_leI length_Suc_conv linorder_not_less numeral_3_eq_3 Suc_le_length_iff)
  show ?thesis
    unfolding points filter_gps_spike_outliers_def take_1_rev
    using subseq_filter_interior [of lm p "q # r # rest"] last_filter_interior [of "q # r # rest" lm p]
    by (simp del: filter_interior.simps)
qed (simp add: filter_gps_spike_outliers_def)

section \<open>Riding time\<close>

lemma riding_gap_bounds:
  assumes "riding_gap ((t, a), (u, b)) = Some g"
  shows "1 \<le> g \<and> g * SECOND \<le> u - t"
proof -
  have g: "g = num_seconds (u - t)" "1 \<le> g"
    using assms by (auto simp: riding_gap_def Let_def split: if_splits)
  then have "g * SECOND \<le> u - t"
    using tdiv_ge_iff [of SECOND g "u - t"] by (simp add: num_seconds_def)
  with g show ?thesis by simp
qed

lemma pairs_Cons2: "pairs (x # y # zs) = (x, y) # pairs (y # zs)"
  by (simp add: pairs_def)

lemma riding_seconds_bound:
  "sorted (map fst points) \<Longrightarrow> points \<noteq> [] \<Longrightarrow>
   0 \<le> total_riding_seconds points
   \<and> total_riding_seconds points * SECOND \<le> fst (last points) - fst (hd points)"
proof (induction points rule: induct_list012)
  case (3 x y zs)
  have ih: "0 \<le> total_riding_seconds (y # zs)"
    "total_riding_seconds (y # zs) * SECOND \<le> fst (last (y # zs)) - fst y"
    using 3(2,3) by auto
  obtain t a u b where xy: "x = (t, a)" "y = (u, b)" by (cases x, cases y)
  have "t \<le> u" using 3(3) xy by simp
  moreover have "total_riding_seconds (x # y # zs)
      = (case riding_gap (x, y) of None \<Rightarrow> 0 | Some g \<Rightarrow> g) + total_riding_seconds (y # zs)"
    by (simp add: total_riding_seconds_def pairs_Cons2 List.map_filter_simps split: option.split)
  ultimately show ?case
    using ih riding_gap_bounds [of t a u b] xy by (cases "riding_gap (x, y)") (auto simp: algebra_simps)
qed (auto simp: total_riding_seconds_def pairs_def List.map_filter_simps)

lemma locations_between_sorted:
  "sorted (map lr_server_received_at (locations_between imei a b s))"
proof -
  have "sorted_wrt (\<lambda>x y. (lr_server_received_at x, lr_id x) \<le> (lr_server_received_at y, lr_id y))
      (locations_between imei a b s)"
    using sorted_sort_key [of "\<lambda>r. (lr_server_received_at r, lr_id r)"]
    by (simp add: locations_between_def order_by_def sorted_map)
  then show ?thesis unfolding sorted_map
    by (rule sorted_wrt_mono_rel [rotated]) (auto simp: less_eq_prod_def)
qed

lemma locations_between_range:
  "r \<in> set (locations_between imei a b s) \<Longrightarrow> lr_imei r = imei \<and> a \<le> lr_server_received_at r \<and> lr_server_received_at r \<le> b"
  by (auto simp: locations_between_def order_by_def)

lemma summary_riding_seconds [simp]: "rs_riding_seconds (summary_of d t) = t"
  by (simp add: summary_of_def Let_def)

text \<open>The riding time of a ride is at most the time between its first and last instant.\<close>

lemma ride_summary_bound:
  assumes "fetch_ride_summary lm imei a b w = (Inr summary, w')"
  shows "\<exists>r. summary = Some r \<and> 0 \<le> rs_riding_seconds r \<and> rs_riding_seconds r * SECOND \<le> max 0 (b - a)
    \<and> wdb w' = wdb w"
proof -
  let ?rows = "locations_between imei a b (wdb w)"
  let ?times = "map (\<lambda>r. (lr_server_received_at r, lk_speed_kph (lr_columns r))) ?rows"
  from assms have s: "summary = Some (ride_summary_of_rows lm ?rows)" "wdb w' = wdb w"
    unfolding fetch_ride_summary_def bind_ok return_ok by (auto dest: select_ok)
  show ?thesis
  proof (cases "length ?rows < 2")
    case False
    then have ne: "?rows \<noteq> []" by auto
    have "fst (last ?times) \<le> b" "a \<le> fst (hd ?times)"
      using ne locations_between_range [OF last_in_set [OF ne]] locations_between_range [OF hd_in_set [OF ne]]
      by (simp_all add: last_map hd_map)
    moreover have "sorted (map fst ?times)" using locations_between_sorted by (simp add: comp_def)
    ultimately show ?thesis
      using riding_seconds_bound [of ?times] ne s False by (auto simp: ride_summary_of_rows_def)
  qed (use s in \<open>simp add: ride_summary_of_rows_def\<close>)
qed

lemma sum_summaries_bound:
  "sum_summaries lm imei a b sessions totals w = (Inr result, w') \<Longrightarrow>
   wdb w' = wdb w \<and> snd totals \<le> snd result
   \<and> (snd result - snd totals) * SECOND
       \<le> sum_list (map (\<lambda>e. max 0 (snd (clipped a b e) - fst (clipped a b e))) sessions)"
proof (induction sessions arbitrary: totals w)
  case (Cons e sessions)
  obtain t u where c: "clipped a b e = (t, u)" by force
  show ?case
  proof (cases "t \<ge> u")
    case True
    then have "sum_summaries lm imei a b sessions totals w = (Inr result, w')" using Cons.prems c by simp
    from Cons.IH [OF this] c show ?thesis using True by (simp add: algebra_simps max_def)
  next
    case False
    with Cons.prems c obtain summary w1 where
      1: "fetch_ride_summary lm imei t u w = (Inr summary, w1)" and
      2: "sum_summaries lm imei a b sessions
           (fadd (fst totals) (case summary of Some r \<Rightarrow> rs_total_distance_km r | None \<Rightarrow> Fin 0),
            snd totals + (case summary of Some r \<Rightarrow> rs_riding_seconds r | None \<Rightarrow> 0)) w1 = (Inr result, w')"
      by (auto simp: bind_ok)
    from ride_summary_bound [OF 1] obtain r where r: "summary = Some r" "0 \<le> rs_riding_seconds r"
      "rs_riding_seconds r * SECOND \<le> max 0 (u - t)" "wdb w1 = wdb w" by blast
    from Cons.IH [OF 2] r c show ?thesis by (simp add: algebra_simps)
  qed
qed simp

text \<open>
  C23. Riding time is bounded by the clock: the riding time reported for a range is never negative
  and at most the total length of its sessions, each cut to the range; computing it changes nothing.
\<close>

theorem riding_time_within_sessions:
  assumes "fetch_analytics_ride_summary lm imei sessions a b w = (Inr r, w')"
  shows "wdb w' = wdb w \<and> 0 \<le> rs_riding_seconds r
    \<and> rs_riding_seconds r * SECOND
       \<le> sum_list (map (\<lambda>e. max 0 (snd (clipped a b e) - fst (clipped a b e))) sessions)"
proof -
  from assms obtain totals where t: "sum_summaries lm imei a b sessions (Fin 0, 0) w = (Inr totals, w')"
    and r: "r = summary_of (fst totals) (snd totals)"
    unfolding fetch_analytics_ride_summary_def bind_ok return_ok by blast
  from sum_summaries_bound [OF t] show ?thesis by (simp add: r)
qed

definition sample_ride_row :: "int \<Rightarrow> int \<Rightarrow> location_row" where
  "sample_ride_row i t = \<lparr>lr_id = i, lr_device_id = 1, lr_imei = ''1'', lr_server_received_at = t,
     lr_columns = \<lparr>lk_gps_timestamp = t, lk_protocol_number = 18, lk_packet_family = ''location'',
       lk_latitude = Fin 1, lk_longitude = Fin 1, lk_speed_kph = 20, lk_course = 0,
       lk_course_status = 0, lk_satellite_count = 8, lk_gps_info_length = 12,
       lk_extra_data_hex = []\<rparr>, lr_peer_addr = ''p''\<rparr>"

definition sample_session :: analytics_session where
  "sample_session = \<lparr>as_id = 1, as_session_status = ''finished'', as_created_at = 0,
     as_resolved_at = Some (600 * SECOND)\<rparr>"

abbreviation sample_ride_world :: "store world" where
  "sample_ride_world \<equiv> \<lparr>wdb = empty_store\<lparr>device_locations := [sample_ride_row 2 0, sample_ride_row 3 (200 * SECOND)]\<rparr>,
     wseq = 4, wsched = []\<rparr>"

lemma riding_time_within_sessions_witness:
  "\<forall>lm. \<exists>r. fst (fetch_analytics_ride_summary lm ''1'' [sample_session] 0 (300 * SECOND) sample_ride_world) = Inr r
     \<and> rs_riding_seconds r = 200 \<and> rs_riding_seconds r * SECOND \<le> 300 * SECOND"
proof
  fix lm
  let ?m = "fetch_analytics_ride_summary lm ''1'' [sample_session] 0 (300 * SECOND) sample_ride_world"
  have "\<exists>r w'. ?m = (Inr r, w') \<and> rs_riding_seconds r = 200"
    by (simp add: fetch_analytics_ride_summary_def sample_session_def clipped_def fetch_ride_summary_def
        locations_between_def order_by_def sample_ride_row_def empty_store_def io_run ride_summary_of_rows_def
        total_riding_seconds_def pairs_def List.map_filter_simps riding_gap_def num_seconds_def tdiv_def
        RIDING_TIME_MOVING_SPEED_KPH_def RIDING_TIME_MAX_POINT_GAP_SECS_def less_eq_prod_def)
  then obtain r w' where m: "?m = (Inr r, w')" "rs_riding_seconds r = 200" by blast
  from riding_time_within_sessions [OF m(1)] m
  show "\<exists>r. fst ?m = Inr r \<and> rs_riding_seconds r = 200 \<and> rs_riding_seconds r * SECOND \<le> 300 * SECOND"
    by (simp add: sample_session_def clipped_def)
qed

end
