(* ===== verification/Triples.thy ===== *)
theory Triples
  imports Effects
begin

text \<open>
  Pre- and postconditions of effectful programs. Assertions see the next identifier and the state,
  as the invariants of \<open>keeps\<close> do; the last assertion of a triple is what an error leaves behind,
  so that a triple says what holds whichever operations fail. An operation that works on another
  part of the state, a view that it leaves \<open>untouched\<close>, keeps every assertion on that view.
\<close>

section \<open>Triples\<close>

definition triple ::
  "(int \<Rightarrow> 's \<Rightarrow> bool) \<Rightarrow> ('s, 'e, 'a) io \<Rightarrow> ('a \<Rightarrow> int \<Rightarrow> 's \<Rightarrow> bool) \<Rightarrow> (int \<Rightarrow> 's \<Rightarrow> bool) \<Rightarrow> bool" where
  "triple P m Q E \<longleftrightarrow> (\<forall>w. P (wseq w) (wdb w) \<longrightarrow>
     (case m w of (Inr x, w') \<Rightarrow> Q x (wseq w') (wdb w') | (Inl _, w') \<Rightarrow> E (wseq w') (wdb w')))"

lemma tripleI:
  "(\<And>w x w'. P (wseq w) (wdb w) \<Longrightarrow> m w = (Inr x, w') \<Longrightarrow> Q x (wseq w') (wdb w')) \<Longrightarrow>
   (\<And>w e w'. P (wseq w) (wdb w) \<Longrightarrow> m w = (Inl e, w') \<Longrightarrow> E (wseq w') (wdb w')) \<Longrightarrow> triple P m Q E"
  by (auto simp: triple_def split: prod.splits sum.splits)

lemma triple_ok: "triple P m Q E \<Longrightarrow> P (wseq w) (wdb w) \<Longrightarrow> m w = (Inr x, w') \<Longrightarrow> Q x (wseq w') (wdb w')"
  by (auto simp: triple_def dest!: spec [of _ w])

lemma triple_error: "triple P m Q E \<Longrightarrow> P (wseq w) (wdb w) \<Longrightarrow> m w = (Inl e, w') \<Longrightarrow> E (wseq w') (wdb w')"
  by (auto simp: triple_def dest!: spec [of _ w])

lemma triple_snd:
  "triple P m (\<lambda>_. Q) Q \<Longrightarrow> P (wseq w) (wdb w) \<Longrightarrow> Q (wseq (snd (m w))) (wdb (snd (m w)))"
  by (cases "m w"; cases "fst (m w)") (auto dest: triple_ok triple_error)

lemma triple_weaken:
  "triple P' m Q' E' \<Longrightarrow> (\<And>n s. P n s \<Longrightarrow> P' n s) \<Longrightarrow> (\<And>x n s. Q' x n s \<Longrightarrow> Q x n s) \<Longrightarrow>
   (\<And>n s. E' n s \<Longrightarrow> E n s) \<Longrightarrow> triple P m Q E"
  by (rule tripleI) (blast dest: triple_ok triple_error)+

lemma triple_return: "(\<And>n s. P n s \<Longrightarrow> Q x n s) \<Longrightarrow> triple P (io_return x) Q E"
  by (simp add: triple_def io_return_def)

lemma triple_throw: "(\<And>n s. P n s \<Longrightarrow> E n s) \<Longrightarrow> triple P (io_throw e) Q E"
  by (simp add: triple_def io_throw_def)

lemma bind_error:
  "io_bind m f w = (Inl e, w') \<longleftrightarrow> m w = (Inl e, w') \<or> (\<exists>x w1. m w = (Inr x, w1) \<and> f x w1 = (Inl e, w'))"
  by (auto simp: io_bind_def split: prod.splits sum.splits)

lemma try_result: "io_try m f w = f (fst (m w)) (snd (m w))"
  by (simp add: io_try_def split: prod.split)

lemma triple_bind:
  fixes m :: "('s, 'e, 'a) io" and f :: "'a \<Rightarrow> ('s, 'e, 'b) io"
  assumes m: "triple P m R E" and f: "\<And>x. triple (R x) (f x) Q E"
  shows "triple P (io_bind m f) Q E"
proof (rule tripleI)
  fix w :: "'s world" and y w'
  assume p: "P (wseq w) (wdb w)"
  show "Q y (wseq w') (wdb w')" if "io_bind m f w = (Inr y, w')"
    using that triple_ok [OF m p] triple_ok [OF f] by (auto simp: bind_ok)
next
  fix w :: "'s world" and e w'
  assume p: "P (wseq w) (wdb w)"
  show "E (wseq w') (wdb w')" if "io_bind m f w = (Inl e, w')"
    using that triple_ok [OF m p] triple_error [OF m p] triple_error [OF f] by (auto simp: bind_error)
qed

lemma triple_try:
  assumes m: "triple P m R R'" and f: "\<And>x. triple (R x) (f (Inr x)) Q E" and g: "\<And>e. triple R' (f (Inl e)) Q E"
  shows "triple P (io_try m f) Q E"
proof -
  have "(case io_try m f w of (Inr x, w') \<Rightarrow> Q x (wseq w') (wdb w') | (Inl _, w') \<Rightarrow> E (wseq w') (wdb w'))"
    if p: "P (wseq w) (wdb w)" for w
  proof (cases "m w")
    case (Pair r w1)
    then show ?thesis
      using triple_ok [OF m p] triple_error [OF m p] f g
      by (cases r) (auto simp: try_result triple_def)
  qed
  then show ?thesis by (simp add: triple_def)
qed

lemma triple_map_error: "triple P m Q E \<Longrightarrow> triple P (io_map_error g m) Q E"
  by (auto simp: triple_def io_map_error_def split: prod.splits sum.splits) (metis+)

lemma triple_if:
  "(b \<Longrightarrow> triple P m Q E) \<Longrightarrow> (\<not> b \<Longrightarrow> triple P n Q E) \<Longrightarrow> triple P (if b then m else n) Q E"
  by simp

lemma triple_case_option:
  "(x = None \<Longrightarrow> triple P m Q E) \<Longrightarrow> (\<And>y. x = Some y \<Longrightarrow> triple P (f y) Q E) \<Longrightarrow>
   triple P (case x of None \<Rightarrow> m | Some y \<Rightarrow> f y) Q E"
  by (cases x) auto

text \<open>A loop whose invariant speaks about the elements that remain.\<close>

lemma triple_for:
  assumes "\<And>x xs. triple (J (x # xs)) (f x) (\<lambda>_. J xs) E"
  shows "triple (J xs) (io_for xs f) (\<lambda>_. J []) E"
proof (induction xs)
  case (Cons x xs)
  show ?case unfolding io_for.simps by (rule triple_bind [OF assms Cons.IH])
qed (simp add: triple_return)

lemma triple_operation:
  assumes "\<And>n s. P n s \<Longrightarrow> E (n + 1) s"
    and "\<And>n s e. P n s \<Longrightarrow> f n s = Inl e \<Longrightarrow> E (n + 1) s"
    and "\<And>n s x s'. P n s \<Longrightarrow> f n s = Inr (x, s') \<Longrightarrow> Q x (n + 1) s'"
  shows "triple P (operation failed f) Q E"
  using assms
  by (auto simp: triple_def operation_def Let_def split: prod.splits sum.splits)

lemma triple_query:
  "(\<And>n s. P n s \<Longrightarrow> E (n + 1) s) \<Longrightarrow>
   (\<And>n s x s'. P n s \<Longrightarrow> f n s = Inr (x, s') \<Longrightarrow> Q x (n + 1) s') \<Longrightarrow> triple P (query f) Q E"
  unfolding query_def by (rule triple_operation) auto

lemma triple_execute:
  "(\<And>n s. P n s \<Longrightarrow> E (n + 1) s) \<Longrightarrow> (\<And>n s. P n s \<Longrightarrow> Q () (n + 1) (f s)) \<Longrightarrow> triple P (execute f) Q E"
  unfolding execute_def by (rule triple_query) auto

lemma triple_select:
  "(\<And>n s. P n s \<Longrightarrow> E (n + 1) s) \<Longrightarrow> (\<And>n s. P n s \<Longrightarrow> Q (f s) (n + 1) s) \<Longrightarrow> triple P (select f) Q E"
  unfolding select_def by (rule triple_query) auto

lemma keeps_triple: "keeps I m \<Longrightarrow> triple I m (\<lambda>_. I) I"
  by (rule tripleI) (metis keepsD snd_conv)+

lemma keeps_of_triple:
  assumes "triple I m (\<lambda>_. I) I" and "advances m"
  shows "keeps I m"
proof (rule keepsI)
  fix w
  show "wseq w \<le> wseq (snd (m w))" using assms(2) by (simp add: keeps_def)
  show "I (wseq w) (wdb w) \<Longrightarrow> I (wseq (snd (m w))) (wdb (snd (m w)))" using triple_snd [OF assms(1)] .
qed

text \<open>What a triple gives for a fold over a list of independent programs with one invariant.\<close>

lemma triple_for_const: "(\<And>x. triple I (f x) (\<lambda>_. I) I) \<Longrightarrow> triple I (io_for xs f) (\<lambda>_. I) I"
  by (rule triple_for [where J = "\<lambda>_. I"])

section \<open>Untouched views\<close>

definition untouched :: "('s \<Rightarrow> 'v) \<Rightarrow> ('s, 'e, 'a) io \<Rightarrow> bool" where
  "untouched view m \<longleftrightarrow> (\<forall>w. view (wdb (snd (m w))) = view (wdb w) \<and> wseq w \<le> wseq (snd (m w)))"

lemma untouched_keeps:
  "untouched view m \<Longrightarrow> keeps (\<lambda>_ s. view s = v) m"
  by (simp add: untouched_def keeps_def)

lemma untouchedI_keeps:
  assumes "\<And>v. keeps (\<lambda>_ s. view s = v) m"
  shows "untouched view m"
  using assms by (auto simp: untouched_def keeps_def)

lemma persistent_view: "persistent (\<lambda>_ s. view s = v)"
  by (simp add: persistent_def)

lemma untouched_return [io_intros]: "untouched view (io_return x)"
  by (simp add: untouched_def io_return_def)

lemma untouched_throw [io_intros]: "untouched view (io_throw e)"
  by (simp add: untouched_def io_throw_def)

lemma untouched_bind [io_intros]:
  "untouched view m \<Longrightarrow> (\<And>x. untouched view (f x)) \<Longrightarrow> untouched view (io_bind m f)"
  by (rule untouchedI_keeps) (intro keeps_bind untouched_keeps)

lemma untouched_try [io_intros]:
  "untouched view m \<Longrightarrow> (\<And>r. untouched view (f r)) \<Longrightarrow> untouched view (io_try m f)"
  by (rule untouchedI_keeps) (intro keeps_try untouched_keeps)

lemma untouched_map_error [io_intros]: "untouched view m \<Longrightarrow> untouched view (io_map_error g m)"
  by (simp add: untouched_def)

lemma untouched_for [io_intros]: "(\<And>x. x \<in> set xs \<Longrightarrow> untouched view (f x)) \<Longrightarrow> untouched view (io_for xs f)"
  by (rule untouchedI_keeps) (blast intro: keeps_for untouched_keeps)

lemma untouched_if [io_intros]:
  "(b \<Longrightarrow> untouched view m) \<Longrightarrow> (\<not> b \<Longrightarrow> untouched view n) \<Longrightarrow> untouched view (if b then m else n)"
  by simp

lemma untouched_case_option [io_intros]:
  "(x = None \<Longrightarrow> untouched view m) \<Longrightarrow> (\<And>y. x = Some y \<Longrightarrow> untouched view (f y)) \<Longrightarrow>
   untouched view (case x of None \<Rightarrow> m | Some y \<Rightarrow> f y)"
  by (cases x) auto

lemma untouched_operation:
  "(\<And>n s x s'. f n s = Inr (x, s') \<Longrightarrow> view s' = view s) \<Longrightarrow> untouched view (operation e f)"
  by (auto simp: untouched_def operation_def Let_def split: sum.splits)

lemma untouched_query:
  "(\<And>n s x s'. f n s = Inr (x, s') \<Longrightarrow> view s' = view s) \<Longrightarrow> untouched view (query f)"
  unfolding query_def by (rule untouched_operation)

lemma untouched_select [io_intros]: "untouched view (select f)"
  unfolding select_def by (rule untouched_query) auto

lemma untouched_execute: "(\<And>s. view (f s) = view s) \<Longrightarrow> untouched view (execute f)"
  unfolding execute_def by (rule untouched_query) auto

text \<open>An assertion on the view survives, whatever happens.\<close>

lemma triple_untouched:
  assumes "untouched view m" and "\<And>n s. P n s \<Longrightarrow> I n (view s)" and "\<And>m n v. m \<le> n \<Longrightarrow> I m v \<Longrightarrow> I n v"
    and "\<And>x n s. I n (view s) \<Longrightarrow> Q x n s" and "\<And>n s. I n (view s) \<Longrightarrow> E n s"
  shows "triple P m Q E"
proof (rule tripleI)
  fix w :: "'a world" and r w'
  assume p: "P (wseq w) (wdb w)"
  have i: "I (wseq (snd (m w))) (view (wdb (snd (m w))))"
    using assms(1,3) assms(2) [OF p] by (auto simp: untouched_def)
  show "Q x (wseq w') (wdb w')" if "m w = (Inr x, w')" for x w' using i assms(4) that by simp
  show "E (wseq w') (wdb w')" if "m w = (Inl e, w')" for e w' using i assms(5) that by simp
qed

end
