(* ===== verification/Telegram.thy ===== *)
theory Telegram
  imports Buttons Payment Analytics Triples
begin

text \<open>
  What the Telegram bot of \<open>src/bot.rs\<close> stands on: its error type, the requests it makes to the Bot
  API, and its key-value state. The state of the bot is the database and the list of requests that
  Telegram and the payment provider have received.
\<close>

section \<open>Errors and requests\<close>

text \<open>\<open>Panicked\<close> stands for an \<open>expect\<close> that fails: it is no error that the code could handle.\<close>

datatype bot_error =
    MissingToken | MissingDatabase | BotDatabase database_error | BotQuery db_error | BotHttp
  | MissingMidtransConfig | BotMidtrans midtrans_error | Panicked

text \<open>What Telegram reports: users and chats by their identifiers.\<close>

record telegram_message =
  tg_chat :: int
  tg_from :: "int option"
  tg_text :: "string option"
  tg_message_id :: "int option"

record telegram_callback_query =
  cq_id :: string
  cq_from :: int
  cq_data :: "string option"
  cq_message :: "telegram_message option"

record telegram_update =
  up_update_id :: int
  up_message :: "telegram_message option"
  up_callback_query :: "telegram_callback_query option"

text \<open>
  The parameters: the clock, the identifiers of sent messages and the updates that Telegram answers,
  by the number of the operation; the replies of the payment provider; the mathematical library and
  \<open>NaiveDate::parse_from_str(_, "%Y-%m-%d")\<close>, as a number of days.
\<close>

record bot =
  bt_clock :: "int \<Rightarrow> int"
  bt_message_id :: "int \<Rightarrow> int option"
  bt_updates :: "int \<Rightarrow> int option \<Rightarrow> telegram_update list"
  bt_midtrans :: "midtrans_client option"
  bt_snap :: "snap_request \<Rightarrow> snap_reply"
  bt_libm :: libm
  bt_parse_date :: "string \<Rightarrow> int option"

record stored_heartbeat =
  sh_id :: int
  sh_imei :: string
  sh_server_received_at :: int
  sh_terminal_info_raw :: int
  sh_terminal_info_bits :: string
  sh_gps_tracking_on :: bool
  sh_acc_high :: "bool option"
  sh_vibration_detected :: bool
  sh_engine_status_guess :: string
  sh_voltage_level :: int
  sh_gsm_signal_strength :: int

record stored_location =
  sl_imei :: string
  sl_last_seen_at :: "int option"
  sl_gps_timestamp :: "int option"
  sl_latitude :: "f64 option"
  sl_longitude :: "f64 option"
  sl_speed_kph :: "int option"
  sl_course :: "int option"
  sl_satellite_count :: "int option"

record analytics_session_report =
  ap_session :: analytics_session
  ap_clipped_start :: int
  ap_clipped_end :: int
  ap_total_distance_km :: f64
  ap_riding_seconds :: int

text \<open>\<open>EngineSession\<close> has the columns of the row, and \<open>NotificationState\<close> those of its own.\<close>

type_synonym engine_session = session_row
type_synonym notification_state = notification_row

text \<open>
  The text of a message by its number in \<open>src/telegram_messages.rs\<close>, with the data it is made from;
  the links in it are determined by the IMEI and the instants.
\<close>

datatype bot_text =
    Fixed nat
  | Toast nat
  | NoText
  | BindSuccess string
  | UnknownCommand string
  | EngineStatusText stored_heartbeat string
  | InactiveEngineStatus string
  | TheftEngineOff "stored_location option" int
  | StreamLocationText string "int option"
  | RideSummaryText engine_session int "ride_summary option" "stored_location option"
  | LatestStatus engine_session "stored_heartbeat option" "stored_location option" int
  | ChooseRange string
  | SessionsReport string analytics_date_range "analytics_session_report list"
  | TotalKmReport analytics_date_range ride_summary
  | MetricsReport analytics_date_range ride_summary
  | DrivingTimeReport analytics_date_range int
  | PaymentLink subscription_plan string int int int int int

datatype bot_call =
    SendMessage int bot_text "keyboard option" "string option"
  | SendSticker int nat
  | EditReplyMarkup int int "keyboard option"
  | DeleteMessage int int
  | AnswerCallback string bot_text bool
  | GetUpdates "int option"
  | SnapTransaction snap_request

record bot_store = store +
  requests :: "bot_call list"

type_synonym 'a bot_io = "(bot_store, bot_error, 'a) io"

section \<open>The Bot API\<close>

abbreviation db :: "(bot_store, db_error, 'a) io \<Rightarrow> 'a bot_io" where
  "db \<equiv> io_map_error BotQuery"

text \<open>\<open>Utc::now()\<close>.\<close>

definition clock_now :: "bot \<Rightarrow> int bot_io" where
  "clock_now b w = (Inr (bt_clock b (wseq w)), w)"

text \<open>
  A request may fail before Telegram has it, and reading the response may fail after. The value is
  the number of the request.
\<close>

definition call_api :: "bot_call \<Rightarrow> int bot_io" where
  "call_api c =
     io_bind (operation BotHttp (\<lambda>i s. Inr (i, s\<lparr>requests := requests s @ [c]\<rparr>))) (\<lambda>i.
     io_bind (operation BotHttp (\<lambda>_ s. Inr ((), s))) (\<lambda>_. io_return i))"

definition send_message_internal ::
  "bot \<Rightarrow> int \<Rightarrow> bot_text \<Rightarrow> keyboard option \<Rightarrow> string option \<Rightarrow> int bot_io" where
  "send_message_internal b chat_id text reply_markup parse_mode =
     io_bind (call_api (SendMessage chat_id text reply_markup parse_mode)) (\<lambda>i.
       io_return (case bt_message_id b i of Some m \<Rightarrow> m | None \<Rightarrow> 0))"

definition send_message :: "bot \<Rightarrow> int \<Rightarrow> bot_text \<Rightarrow> int bot_io" where
  "send_message b chat_id text = send_message_internal b chat_id text None None"

definition send_message_html :: "bot \<Rightarrow> int \<Rightarrow> bot_text \<Rightarrow> int bot_io" where
  "send_message_html b chat_id text = send_message_internal b chat_id text None (Some ''HTML'')"

definition io_unit :: "('s, 'e, 'a) io \<Rightarrow> ('s, 'e, unit) io" where
  "io_unit m = io_bind m (\<lambda>_. io_return ())"

text \<open>\<open>if let Err(error) = m \<dots>\<close> with a warning, after which the code goes on.\<close>

definition io_warn :: "('s, 'e, 'a) io \<Rightarrow> ('s, 'e, unit) io" where
  "io_warn m = io_try m (\<lambda>_. io_return ())"

definition edit_message_reply_markup :: "int \<Rightarrow> int \<Rightarrow> keyboard option \<Rightarrow> unit bot_io" where
  "edit_message_reply_markup chat_id message_id reply_markup =
     io_unit (call_api (EditReplyMarkup chat_id message_id reply_markup))"

definition clear_inline_keyboard :: "int \<Rightarrow> int \<Rightarrow> unit bot_io" where
  "clear_inline_keyboard chat_id message_id = edit_message_reply_markup chat_id message_id None"

definition delete_message :: "int \<Rightarrow> int \<Rightarrow> unit bot_io" where
  "delete_message chat_id message_id = io_unit (call_api (DeleteMessage chat_id message_id))"

definition answer_callback_query :: "string \<Rightarrow> bot_text \<Rightarrow> bool \<Rightarrow> unit bot_io" where
  "answer_callback_query callback_query_id text show_alert =
     io_unit (call_api (AnswerCallback callback_query_id text show_alert))"

definition get_updates :: "bot \<Rightarrow> int option \<Rightarrow> telegram_update list bot_io" where
  "get_updates b offset = io_bind (call_api (GetUpdates offset)) (\<lambda>i. io_return (bt_updates b i offset))"

definition send_engine_on_sticker :: "int \<Rightarrow> unit bot_io" where
  "send_engine_on_sticker chat_id = io_unit (call_api (SendSticker chat_id 1))"

definition send_bind_success_sticker :: "int \<Rightarrow> unit bot_io" where
  "send_bind_success_sticker chat_id = io_unit (call_api (SendSticker chat_id 2))"

definition send_not_subscribed_sticker :: "int \<Rightarrow> unit bot_io" where
  "send_not_subscribed_sticker chat_id = io_unit (call_api (SendSticker chat_id 3))"

definition send_theft_warning_sticker :: "int \<Rightarrow> unit bot_io" where
  "send_theft_warning_sticker chat_id = io_unit (call_api (SendSticker chat_id 4))"

section \<open>The state of the bot\<close>

definition get_state_string :: "string \<Rightarrow> ('z store_scheme, db_error, string option) io" where
  "get_state_string k = select (\<lambda>s. map_option snd (lookup fst k (telegram_bot_state s)))"

definition get_state_i64 :: "string \<Rightarrow> ('z store_scheme, db_error, int option) io" where
  "get_state_i64 k = select (\<lambda>s. Option.bind (lookup fst k (telegram_bot_state s)) (\<lambda>r. parse_i64 (snd r)))"

definition set_state_string :: "string \<Rightarrow> string \<Rightarrow> ('z store_scheme, db_error, unit) io" where
  "set_state_string k v = execute (\<lambda>s. s\<lparr>telegram_bot_state :=
     upsert fst k (k, v) (\<lambda>r. (fst r, v)) (telegram_bot_state s)\<rparr>)"

definition set_state_i64 :: "string \<Rightarrow> int \<Rightarrow> ('z store_scheme, db_error, unit) io" where
  "set_state_i64 k value = set_state_string k (show_int value)"

definition delete_state_key :: "string \<Rightarrow> ('z store_scheme, db_error, unit) io" where
  "delete_state_key k = execute (\<lambda>s. s\<lparr>telegram_bot_state :=
     filter (\<lambda>r. fst r \<noteq> k) (telegram_bot_state s)\<rparr>)"

interpretation bot_state: upsert_contract "fst :: string \<times> string \<Rightarrow> string" "\<lambda>k v. (k, v)" "\<lambda>v r. (fst r, v)"
  by unfold_locales auto

section \<open>What requests leave alone\<close>

lemma untouched_call_api [io_intros]:
  "(\<And>s c. view (s\<lparr>requests := c\<rparr>) = view s) \<Longrightarrow> untouched view (call_api c)"
  unfolding call_api_def by (intro io_intros untouched_operation) auto

lemma untouched_clock [io_intros]: "untouched view (clock_now b)"
  by (simp add: untouched_def clock_now_def)

lemma untouched_unit [io_intros]: "untouched view m \<Longrightarrow> untouched view (io_unit m)"
  unfolding io_unit_def by (intro io_intros)

lemma untouched_warn [io_intros]: "untouched view m \<Longrightarrow> untouched view (io_warn m)"
  unfolding io_warn_def by (intro io_intros)

lemma untouched_send_internal [io_intros]:
  "(\<And>s c. view (s\<lparr>requests := c\<rparr>) = view s) \<Longrightarrow> untouched view (send_message_internal b c t k p)"
  unfolding send_message_internal_def by (intro io_intros)

lemma untouched_requests [io_intros]:
  assumes "\<And>s c. view (s\<lparr>requests := c\<rparr>) = view s"
  shows "untouched view (send_message b c t)" "untouched view (send_message_html b c t)"
    "untouched view (edit_message_reply_markup c i k)" "untouched view (clear_inline_keyboard c i)"
    "untouched view (get_updates b u)" "untouched view (delete_message c i)" "untouched view (answer_callback_query q t a)"
    "untouched view (send_engine_on_sticker c)" "untouched view (send_bind_success_sticker c)"
    "untouched view (send_not_subscribed_sticker c)" "untouched view (send_theft_warning_sticker c)"
  using assms
  by (auto simp: send_message_def send_message_html_def edit_message_reply_markup_def clear_inline_keyboard_def
      delete_message_def answer_callback_query_def send_engine_on_sticker_def send_bind_success_sticker_def
      send_not_subscribed_sticker_def send_theft_warning_sticker_def get_updates_def intro!: io_intros)

lemma untouched_state [io_intros]:
  assumes "\<And>s c. view (s\<lparr>telegram_bot_state := c\<rparr>) = view s"
  shows "untouched view (get_state_string k)" "untouched view (get_state_i64 k)"
    "untouched view (set_state_string k v)" "untouched view (set_state_i64 k i)"
    "untouched view (delete_state_key k)"
  using assms
  by (auto simp: get_state_string_def get_state_i64_def set_state_string_def set_state_i64_def
      delete_state_key_def intro!: io_intros untouched_execute)

lemma triple_clock: "(\<And>x n s. P n s \<Longrightarrow> Q x n s) \<Longrightarrow> triple P (clock_now b) Q E"
  by (simp add: triple_def clock_now_def)

lemma triple_warn: "triple P m Q R \<Longrightarrow> (\<And>x n s. Q x n s \<Longrightarrow> S () n s) \<Longrightarrow> (\<And>n s. R n s \<Longrightarrow> S () n s) \<Longrightarrow> triple P (io_warn m) S E"
  unfolding io_warn_def by (rule triple_try) (auto intro: triple_return)

lemma triple_unit: "triple P m (\<lambda>_. Q ()) E \<Longrightarrow> triple P (io_unit m) Q E"
  unfolding io_unit_def by (rule triple_bind [where R = "\<lambda>_. Q ()"]) (auto intro: triple_return)

end
