(* ===== verification/Users.thy ===== *)
theory Users
  imports Telegram
begin

text \<open>
  The users of the bot in \<open>src/bot.rs\<close>: their rows, how one is registered and bound to a device, and
  the subscription plan that follows from it. The identifiers are unique in the table and so are the
  bound devices, as the migrations declare; \<open>chat_id\<close> is not, and of several rows the query has the
  first.
\<close>

section \<open>Queries\<close>

record user_record =
  ur_telegram_user_id :: int
  ur_chat_id :: int
  ur_bound_imei :: "string option"
  ur_registration_status :: registration_status

definition user_record_of :: "user_row \<Rightarrow> user_record option" where
  "user_record_of r = map_option (\<lambda>st.
     \<lparr>ur_telegram_user_id = tu_telegram_user_id r, ur_chat_id = tu_chat_id r,
      ur_bound_imei = tu_bound_imei r, ur_registration_status = st\<rparr>)
     (parse_registration_status (tu_registration_status r))"

definition fetch_telegram_user_by_user_id ::
  "int \<Rightarrow> ('z store_scheme, db_error, user_record option) io" where
  "fetch_telegram_user_by_user_id telegram_user_id =
     select (\<lambda>s. Option.bind (lookup tu_telegram_user_id telegram_user_id (telegram_users s)) user_record_of)"

definition fetch_telegram_user_by_chat_id :: "int \<Rightarrow> ('z store_scheme, db_error, user_record option) io" where
  "fetch_telegram_user_by_chat_id chat_id =
     select (\<lambda>s. Option.bind (lookup tu_chat_id chat_id (telegram_users s)) user_record_of)"

definition fresh_user :: "int \<Rightarrow> int \<times> string \<Rightarrow> user_row" where
  "fresh_user telegram_user_id v = \<lparr>tu_telegram_user_id = telegram_user_id, tu_chat_id = fst v,
     tu_bound_imei = None, tu_registration_status = snd v\<rparr>"

definition merge_user :: "int \<times> string \<Rightarrow> user_row \<Rightarrow> user_row" where
  "merge_user v r = r\<lparr>tu_chat_id := fst v,
     tu_registration_status := (if tu_bound_imei r = None then snd v else tu_registration_status r)\<rparr>"

interpretation user: upsert_contract tu_telegram_user_id fresh_user merge_user
  by unfold_locales (auto simp: fresh_user_def merge_user_def)

definition upsert_telegram_user_registration_state ::
  "int \<Rightarrow> int \<Rightarrow> registration_status \<Rightarrow> ('z store_scheme, db_error, unit) io" where
  "upsert_telegram_user_registration_state telegram_user_id chat_id registration_status =
     execute (\<lambda>s. let v = (chat_id, registration_status_value registration_status) in
       s\<lparr>telegram_users := upsert tu_telegram_user_id telegram_user_id
          (fresh_user telegram_user_id v) (merge_user v) (telegram_users s)\<rparr>)"

text \<open>Another row with the device violates the \<open>UNIQUE\<close> constraint.\<close>

definition bind_telegram_user_to_imei ::
  "int \<Rightarrow> int \<Rightarrow> string \<Rightarrow> ('z store_scheme, db_error, unit) io" where
  "bind_telegram_user_to_imei telegram_user_id chat_id imei =
     query (\<lambda>_ s.
       if list_ex (\<lambda>r. tu_telegram_user_id r = telegram_user_id) (telegram_users s)
          \<and> list_ex (\<lambda>r. tu_bound_imei r = Some imei \<and> tu_telegram_user_id r \<noteq> telegram_user_id) (telegram_users s)
       then Inl UniqueViolation
       else Inr ((), s\<lparr>telegram_users := update_where (\<lambda>r. tu_telegram_user_id r = telegram_user_id)
              (\<lambda>r. r\<lparr>tu_chat_id := chat_id, tu_bound_imei := Some imei, tu_registration_status := ''bound''\<rparr>)
              (telegram_users s)\<rparr>))"

definition device_exists :: "string \<Rightarrow> ('z store_scheme, db_error, bool) io" where
  "device_exists imei = select (\<lambda>s. list_ex (\<lambda>d. dv_imei d = imei) (devices s))"

definition is_device_bound_to_another_user ::
  "string \<Rightarrow> int \<Rightarrow> ('z store_scheme, db_error, bool) io" where
  "is_device_bound_to_another_user imei telegram_user_id =
     select (\<lambda>s. list_ex (\<lambda>r. tu_bound_imei r = Some imei \<and> tu_telegram_user_id r \<noteq> telegram_user_id)
       (telegram_users s))"

section \<open>The plan of a user\<close>

record bound_device_record =
  bd_id :: int
  bd_imei :: string

definition resolve_bound_device_for_user :: "user_record \<Rightarrow> bound_device_record bot_io" where
  "resolve_bound_device_for_user user =
     (case ur_bound_imei user of
        None \<Rightarrow> io_throw (BotMidtrans (InvalidPricingTier ''missing_bound_device''))
      | Some imei \<Rightarrow>
          io_bind (db (select (\<lambda>s. lookup dv_imei imei (devices s)))) (\<lambda>row.
          case row of
            None \<Rightarrow> io_throw (BotMidtrans (InvalidPricingTier (''missing_bound_device_record:'' @ imei)))
          | Some d \<Rightarrow> io_return \<lparr>bd_id = dv_id d, bd_imei = dv_imei d\<rparr>))"

definition resolve_subscription_plan_for_user ::
  "midtrans_client \<Rightarrow> user_record \<Rightarrow> subscription_plan bot_io" where
  "resolve_subscription_plan_for_user midtrans user =
     io_bind (resolve_bound_device_for_user user) (\<lambda>bound_device.
     io_bind (db (select (\<lambda>s. map_option dv_pricing_tier (lookup dv_imei (bd_imei bound_device) (devices s))))) (\<lambda>row.
     case row of
       None \<Rightarrow> io_throw (BotMidtrans (InvalidPricingTier (''missing_device_pricing_tier:'' @ bd_imei bound_device)))
     | Some pricing_tier \<Rightarrow>
         (case parse_pricing_tier pricing_tier of
            Inl e \<Rightarrow> io_throw (BotMidtrans e)
          | Inr tier \<Rightarrow> io_return (subscription_plan_for_tier midtrans tier))))"

section \<open>What the queries leave alone\<close>

lemma untouched_users [io_intros]:
  "untouched view (fetch_telegram_user_by_user_id u)" "untouched view (fetch_telegram_user_by_chat_id c)"
  "untouched view (device_exists imei)" "untouched view (is_device_bound_to_another_user imei u)"
  by (auto simp: fetch_telegram_user_by_user_id_def fetch_telegram_user_by_chat_id_def device_exists_def
      is_device_bound_to_another_user_def intro!: io_intros)

lemma untouched_registration [io_intros]:
  assumes "\<And>s c. view (s\<lparr>telegram_users := c\<rparr>) = view s"
  shows "untouched view (upsert_telegram_user_registration_state u c st)"
    "untouched view (bind_telegram_user_to_imei u c imei)"
  using assms
  by (auto simp: upsert_telegram_user_registration_state_def bind_telegram_user_to_imei_def Let_def
      intro!: untouched_execute untouched_query split: if_splits)

lemma untouched_bound_device [io_intros]: "untouched view (resolve_bound_device_for_user u)"
  unfolding resolve_bound_device_for_user_def by (auto split: option.split intro!: io_intros)

lemma untouched_plan [io_intros]: "untouched view (resolve_subscription_plan_for_user mc u)"
  unfolding resolve_subscription_plan_for_user_def
  by (auto split: option.split sum.split intro!: io_intros)

section \<open>Registration\<close>

text \<open>
  Users are unique, and so are the bound devices; a user is bound exactly when the status says so, to
  a registered device. From one time to another, no user is lost and no binding changes.
\<close>

definition user_ok :: "string set \<Rightarrow> user_row \<Rightarrow> bool" where
  "user_ok registered r \<longleftrightarrow> (case tu_bound_imei r of
      None \<Rightarrow> tu_registration_status r = ''awaiting_imei''
    | Some imei \<Rightarrow> tu_registration_status r = ''bound'' \<and> is_valid_imei imei \<and> imei \<in> registered)"

definition users_ok :: "user_row list \<Rightarrow> string set \<Rightarrow> bool" where
  "users_ok T registered \<longleftrightarrow> distinct (map tu_telegram_user_id T)
     \<and> (\<forall>r \<in> set T. \<forall>q \<in> set T. tu_bound_imei r = tu_bound_imei q \<and> tu_bound_imei r \<noteq> None \<longrightarrow>
          tu_telegram_user_id r = tu_telegram_user_id q)
     \<and> (\<forall>r \<in> set T. user_ok registered r)"

definition users_step :: "user_row list \<Rightarrow> user_row list \<Rightarrow> bool" where
  "users_step T T' \<longleftrightarrow> (\<forall>r \<in> set T. \<exists>q \<in> set T'. tu_telegram_user_id q = tu_telegram_user_id r
     \<and> (tu_bound_imei r = None \<or> tu_bound_imei q = tu_bound_imei r))"

definition users_inv :: "user_row list \<Rightarrow> user_row list \<times> string set \<Rightarrow> bool" where
  "users_inv T0 v \<longleftrightarrow> users_ok (fst v) (snd v) \<and> users_step T0 (fst v)"

definition user_view :: "'z store_scheme \<Rightarrow> user_row list \<times> string set" where
  "user_view s = (telegram_users s, dv_imei ` set (devices s))"

lemma users_step_refl [simp]: "users_step T T"
  by (auto simp: users_step_def)

lemma users_step_trans: "users_step T U \<Longrightarrow> users_step U V \<Longrightarrow> users_step T V"
  by (fastforce simp: users_step_def)

lemma users_inv_devices: "users_inv T0 (T, D) \<Longrightarrow> D \<subseteq> D' \<Longrightarrow> users_inv T0 (T, D')"
  by (auto simp: users_inv_def users_ok_def user_ok_def split: option.splits)

lemma users_unique:
  "users_ok T D \<Longrightarrow> r \<in> set T \<Longrightarrow> q \<in> set T \<Longrightarrow> tu_bound_imei r = tu_bound_imei q \<Longrightarrow>
   tu_bound_imei r \<noteq> None \<Longrightarrow> tu_telegram_user_id r = tu_telegram_user_id q"
  unfolding users_ok_def by blast

lemma users_row: "users_ok T D \<Longrightarrow> r \<in> set T \<Longrightarrow> user_ok D r"
  unfolding users_ok_def by blast

lemma users_distinct: "users_ok T D \<Longrightarrow> distinct (map tu_telegram_user_id T)"
  unfolding users_ok_def by blast

lemma users_inv_update:
  assumes inv: "users_inv T0 (T, D)"
    and row: "\<And>r. r \<in> set T \<Longrightarrow> tu_telegram_user_id r = u \<Longrightarrow> tu_telegram_user_id (f r) = u \<and> user_ok D (f r)
       \<and> (tu_bound_imei r = None \<or> tu_bound_imei (f r) = tu_bound_imei r)"
    and free: "\<And>r q. r \<in> set T \<Longrightarrow> tu_telegram_user_id r = u \<Longrightarrow> q \<in> set T \<Longrightarrow> tu_telegram_user_id q \<noteq> u \<Longrightarrow>
       tu_bound_imei (f r) = None \<or> tu_bound_imei q \<noteq> tu_bound_imei (f r)"
  shows "users_inv T0 (update_where (\<lambda>r. tu_telegram_user_id r = u) f T, D)"
proof -
  define g where "g r = (if tu_telegram_user_id r = u then f r else r)" for r
  have ok: "users_ok T D" and step: "users_step T0 T" using inv by (simp_all add: users_inv_def)
  have T': "update_where (\<lambda>r. tu_telegram_user_id r = u) f T = map g T" by (simp add: update_where_def g_def)
  have same: "tu_telegram_user_id (g r) = tu_telegram_user_id r" if "r \<in> set T" for r
    using row that by (simp add: g_def)
  have bound: "tu_bound_imei r = None \<or> tu_bound_imei (g r) = tu_bound_imei r" if "r \<in> set T" for r
    using row that by (simp add: g_def)
  have unique: "tu_telegram_user_id r = tu_telegram_user_id q"
    if "r \<in> set T" "q \<in> set T" "tu_bound_imei (g r) = tu_bound_imei (g q)" "tu_bound_imei (g r) \<noteq> None" for r q
  proof (cases "tu_telegram_user_id r = u"; cases "tu_telegram_user_id q = u")
    assume "tu_telegram_user_id r \<noteq> u" "tu_telegram_user_id q \<noteq> u"
    then show ?thesis using users_unique [OF ok that(1,2)] that(3,4) by (simp add: g_def)
  next
    assume "tu_telegram_user_id r = u" "tu_telegram_user_id q \<noteq> u"
    then show ?thesis using that free [of r q] by (simp add: g_def)
  next
    assume "tu_telegram_user_id r \<noteq> u" "tu_telegram_user_id q = u"
    then show ?thesis using that free [of q r] by (simp add: g_def)
  qed simp
  have "users_ok (map g T) D"
    unfolding users_ok_def
  proof (intro conjI ballI impI)
    have "map tu_telegram_user_id (map g T) = map tu_telegram_user_id T" using same by simp
    then show "distinct (map tu_telegram_user_id (map g T))" using users_distinct [OF ok] by (simp only:)
  next
    fix q q' assume q: "q \<in> set (map g T)" and q': "q' \<in> set (map g T)"
      and b: "tu_bound_imei q = tu_bound_imei q' \<and> tu_bound_imei q \<noteq> None"
    obtain r where r: "r \<in> set T" "q = g r" using q by auto
    obtain r' where r': "r' \<in> set T" "q' = g r'" using q' by auto
    have "tu_telegram_user_id r = tu_telegram_user_id r'"
      using b unfolding r(2) r'(2) by (intro unique r(1) r'(1)) blast+
    then show "tu_telegram_user_id q = tu_telegram_user_id q'" using same r r' by simp
  next
    fix q assume "q \<in> set (map g T)"
    then obtain r where r: "r \<in> set T" "q = g r" by auto
    then show "user_ok D q" using users_row [OF ok] row by (simp add: g_def)
  qed
  moreover have "users_step T (map g T)"
    unfolding users_step_def using same bound by auto
  ultimately show ?thesis
    unfolding T' using users_step_trans [OF step] by (simp add: users_inv_def)
qed

lemma users_inv_append:
  assumes inv: "users_inv T0 (T, D)" and new: "tu_telegram_user_id r \<notin> tu_telegram_user_id ` set T"
    and r: "tu_bound_imei r = None" "user_ok D r"
  shows "users_inv T0 (T @ [r], D)"
proof -
  have ok: "users_ok T D" using inv by (simp add: users_inv_def)
  have "users_step T (T @ [r])" by (auto simp: users_step_def)
  moreover have "users_ok (T @ [r]) D"
    unfolding users_ok_def
  proof (intro conjI ballI impI)
    show "distinct (map tu_telegram_user_id (T @ [r]))" using users_distinct [OF ok] new by simp
    show "tu_telegram_user_id p = tu_telegram_user_id q" if "p \<in> set (T @ [r])" "q \<in> set (T @ [r])"
      "tu_bound_imei p = tu_bound_imei q \<and> tu_bound_imei p \<noteq> None" for p q
      using users_unique [OF ok, of p q] that r by (cases "p = r"; cases "q = r") simp_all
    show "user_ok D p" if "p \<in> set (T @ [r])" for p using users_row [OF ok, of p] that r by auto
  qed
  ultimately show ?thesis using inv users_step_trans by (auto simp: users_inv_def)
qed

lemma users_inv_upsert:
  assumes inv: "users_inv T0 (T, D)"
  shows "users_inv T0 (upsert tu_telegram_user_id u (fresh_user u (c, ''awaiting_imei''))
     (merge_user (c, ''awaiting_imei'')) T, D)"
proof (cases "u \<in> set (map tu_telegram_user_id T)")
  case True
  have ok: "users_ok T D" using inv by (simp add: users_inv_def)
  have "users_inv T0 (update_where (\<lambda>r. tu_telegram_user_id r = u) (merge_user (c, ''awaiting_imei'')) T, D)"
  proof (rule users_inv_update [OF inv])
    fix r assume "r \<in> set T" "tu_telegram_user_id r = u"
    moreover from this have "user_ok D r" by (simp add: users_row [OF ok])
    ultimately show "tu_telegram_user_id (merge_user (c, ''awaiting_imei'') r) = u
        \<and> user_ok D (merge_user (c, ''awaiting_imei'') r)
        \<and> (tu_bound_imei r = None \<or> tu_bound_imei (merge_user (c, ''awaiting_imei'') r) = tu_bound_imei r)"
      by (simp add: merge_user_def user_ok_def split: option.splits)
  next
    fix r q assume "r \<in> set T" "q \<in> set T" "tu_telegram_user_id r = u" "tu_telegram_user_id q \<noteq> u"
    then show "tu_bound_imei (merge_user (c, ''awaiting_imei'') r) = None
        \<or> tu_bound_imei q \<noteq> tu_bound_imei (merge_user (c, ''awaiting_imei'') r)"
      using users_unique [OF ok, of q r] by (auto simp: merge_user_def)
  qed
  with True show ?thesis by (simp add: upsert_def)
next
  case False
  then show ?thesis
    using inv by (simp add: upsert_def fresh_user_def user_ok_def users_inv_append)
qed

end
