(* ===== verification/Ranges.thy ===== *)
theory Ranges
  imports Telegram
begin

text \<open>
  The date ranges of the ride analytics in \<open>src/bot.rs\<close>: the presets behind the buttons and the
  dates a user types. A day is a WIB day; a range runs from its first instant to its last, which is
  not part of it. Text is its bytes, and white space the one of ASCII.
\<close>

section \<open>Text\<close>

definition trim :: "string \<Rightarrow> string" where
  "trim s = rev (dropWhile white (rev (dropWhile white s)))"

fun split_once :: "string \<Rightarrow> string \<Rightarrow> (string \<times> string) option" where
  "split_once sep [] = (if sep = [] then Some ([], []) else None)"
| "split_once sep (c # cs) =
     (if take (length sep) (c # cs) = sep then Some ([], drop (length sep) (c # cs))
      else map_option (\<lambda>(a, z). (c # a, z)) (split_once sep cs))"

section \<open>Ranges\<close>

text \<open>\<open>expect\<close> on an option, and the rest of the function.\<close>

definition expect :: "'a option \<Rightarrow> ('a \<Rightarrow> bot_error + 'b) \<Rightarrow> bot_error + 'b" where
  "expect x f = (case x of None \<Rightarrow> Inl Panicked | Some y \<Rightarrow> f y)"

text \<open>
  A local time has no instant when seven hours before it is before the first that chrono has.
\<close>

definition wib_datetime_to_utc :: "int \<Rightarrow> bot_error + int" where
  "wib_datetime_to_utc value =
     expect (let t = value - WIB_OFFSET_SECONDS * SECOND
             in if NAIVE_DATE_MIN * DAY \<le> t then Some t else None) Inr"

definition analytics_single_day_range :: "int \<Rightarrow> string \<Rightarrow> bot_error + analytics_date_range" where
  "analytics_single_day_range date label =
     expect (and_hms_opt date 0 0 0) (\<lambda>start. case wib_datetime_to_utc start of Inl e \<Rightarrow> Inl e | Inr started_at \<Rightarrow>
     expect (checked_add_days date 1) (\<lambda>next_day. expect (and_hms_opt next_day 0 0 0) (\<lambda>finish.
     case wib_datetime_to_utc finish of Inl e \<Rightarrow> Inl e | Inr ended_at \<Rightarrow>
       Inr \<lparr>ar_label = label, ar_started_at = started_at, ar_ended_at = ended_at\<rparr>)))"

definition parse_custom_analytics_single_date ::
  "(string \<Rightarrow> int option) \<Rightarrow> string \<Rightarrow> bot_error + analytics_date_range option" where
  "parse_custom_analytics_single_date parse_date value =
     (case parse_date (trim value) of
        None \<Rightarrow> Inr None
      | Some date \<Rightarrow> map_sum id Some (analytics_single_day_range date ''Tanggal custom''))"

definition parse_wib_date_start :: "(string \<Rightarrow> int option) \<Rightarrow> string \<Rightarrow> bot_error + int option" where
  "parse_wib_date_start parse_date value =
     (case Option.bind (parse_date value) (\<lambda>parsed. and_hms_opt parsed 0 0 0) of
        None \<Rightarrow> Inr None
      | Some start \<Rightarrow> map_sum id Some (wib_datetime_to_utc start))"

definition parse_wib_date_end :: "(string \<Rightarrow> int option) \<Rightarrow> string \<Rightarrow> bot_error + int option" where
  "parse_wib_date_end parse_date value =
     (case Option.bind (parse_date value) (\<lambda>parsed.
             Option.bind (checked_add_days parsed 1) (\<lambda>next_day. and_hms_opt next_day 0 0 0)) of
        None \<Rightarrow> Inr None
      | Some finish \<Rightarrow> map_sum id Some (wib_datetime_to_utc finish))"

definition parse_custom_analytics_range ::
  "(string \<Rightarrow> int option) \<Rightarrow> analytics_kind \<Rightarrow> string \<Rightarrow> bot_error + analytics_date_range option" where
  "parse_custom_analytics_range parse_date kind value =
     (if kind = Sessions then parse_custom_analytics_single_date parse_date value
      else case split_once '' to '' (trim value) of
             None \<Rightarrow> Inr None
           | Some (start, finish) \<Rightarrow>
               (case parse_wib_date_start parse_date (trim start) of
                  Inl e \<Rightarrow> Inl e
                | Inr None \<Rightarrow> Inr None
                | Inr (Some started_at) \<Rightarrow>
                    (case parse_wib_date_end parse_date (trim finish) of
                       Inl e \<Rightarrow> Inl e
                     | Inr None \<Rightarrow> Inr None
                     | Inr (Some ended_at) \<Rightarrow>
                         Inr (Some \<lparr>ar_label = ''Rentang custom'', ar_started_at = started_at,
                                    ar_ended_at = ended_at\<rparr>))))"

definition resolve_preset_analytics_range ::
  "analytics_range \<Rightarrow> int \<Rightarrow> bot_error + analytics_date_range option" where
  "resolve_preset_analytics_range which reference_time =
     (let today = wib_date reference_time in
      case and_hms_opt today 0 0 0 of None \<Rightarrow> Inr None | Some midnight \<Rightarrow>
      case wib_datetime_to_utc midnight of Inl e \<Rightarrow> Inl e | Inr today_start \<Rightarrow>
      (case which of
         Today \<Rightarrow> Inr (Some \<lparr>ar_label = ''Hari ini'', ar_started_at = today_start, ar_ended_at = reference_time\<rparr>)
       | Yesterday \<Rightarrow>
           (case Option.bind (checked_add_days today (-1)) (\<lambda>yesterday. and_hms_opt yesterday 0 0 0) of
              None \<Rightarrow> Inr None
            | Some start \<Rightarrow> map_sum id (\<lambda>started_at. Some \<lparr>ar_label = ''Kemarin'', ar_started_at = started_at,
                ar_ended_at = today_start\<rparr>) (wib_datetime_to_utc start))
       | Month \<Rightarrow>
           (case Option.bind (from_ymd_opt (year_of today) (month_of today) 1)
                   (\<lambda>month_start_date. and_hms_opt month_start_date 0 0 0) of
              None \<Rightarrow> Inr None
            | Some start \<Rightarrow> map_sum id (\<lambda>started_at. Some \<lparr>ar_label = ''Bulan ini'', ar_started_at = started_at,
                ar_ended_at = reference_time\<rparr>) (wib_datetime_to_utc start))
       | _ \<Rightarrow> Inr None))"

section \<open>The presets\<close>

definition in_range :: "analytics_date_range \<Rightarrow> int \<Rightarrow> bool" where
  "in_range r u \<longleftrightarrow> ar_started_at r \<le> u \<and> u < ar_ended_at r"

lemma days_before_year_mono: "y \<le> z \<Longrightarrow> days_before_year y \<le> days_before_year z"
proof -
  assume "y \<le> z"
  then have "(y - 1) div m \<le> (z - 1) div m" if "0 < m" for m using that by (simp add: zdiv_mono1)
  from this [of 4] this [of 400] have q: "(y - 1) div 4 \<le> (z - 1) div 4" "(y - 1) div 400 \<le> (z - 1) div 400" by simp_all
  have "(z - 1) div 100 - (y - 1) div 100 \<le> z - y"
  proof -
    have "(z - 1) div 100 \<le> ((y - 1) + 100 * (z - y)) div 100" using \<open>y \<le> z\<close> by (intro zdiv_mono1) simp_all
    then show ?thesis by simp
  qed
  moreover have "365 * (y - 1) + a - c + e - k \<le> 365 * (z - 1) + a' - c' + e' - k"
    if "a \<le> a'" "e \<le> e'" "c' - c \<le> z - y" for a c e a' c' e' k :: int using that \<open>y \<le> z\<close> by (simp add: algebra_simps)
  ultimately show ?thesis unfolding days_before_year_def using q by blast
qed

lemma year_of_iff: "year_of d = y \<longleftrightarrow> days_before_year y \<le> d \<and> d < days_before_year (y + 1)"
proof
  assume d: "days_before_year y \<le> d \<and> d < days_before_year (y + 1)"
  have "\<not> year_of d + 1 \<le> y" "\<not> y + 1 \<le> year_of d"
    using d year_of_days [of d] days_before_year_mono [of "year_of d + 1" y]
      days_before_year_mono [of "y + 1" "year_of d"] by linarith+
  then show "year_of d = y" by simp
qed (use year_of_days in blast)

lemma days_in_month_pos: "0 < days_in_month y m"
  by (simp add: days_in_month_def)

lemma days_before_month_Suc:
  "days_before_month y (int (Suc m)) = days_before_month y (int m) + (if m = 0 then 0 else days_in_month y (int m))"
  by (cases m) (simp_all add: days_before_month_def del: of_nat_Suc)

lemma days_before_month_mono: "i \<le> j \<Longrightarrow> days_before_month y (int i) \<le> days_before_month y (int j)"
proof (induction j)
  case (Suc j)
  then show ?case using days_in_month_pos [of y "int j"] by (cases "i = Suc j") (auto simp: days_before_month_Suc simp del: of_nat_Suc)
qed simp

lemma filter_prefix:
  assumes "\<And>i j. i \<le> j \<Longrightarrow> P j \<Longrightarrow> P i"
  shows "filter P [1..<n] = [1..<Suc (length (filter P [1..<n]))]"
proof (induction n)
  case (Suc n)
  show ?case
  proof (cases "n = 0 \<or> \<not> P n")
    case True
    then have "filter P [1..<Suc n] = filter P [1..<n]" by (cases "n = 0") simp_all
    with Suc show ?thesis by (simp only:)
  next
    case False
    have "P i" if "i \<le> n" for i using assms [OF that] False by blast
    then have "filter P [1..<n] = [1..<n]" by (simp add: filter_id_conv)
    with False show ?thesis by simp
  qed
qed simp

lemma month_of_iff:
  "month_of d = month_of e \<longleftrightarrow> days_before_year (year_of e) + days_before_month (year_of e) (month_of e) \<le> d"
  if de: "d \<le> e" and y: "year_of d = year_of e"
proof -
  let ?P = "\<lambda>d m. days_before_year (year_of e) + days_before_month (year_of e) (int m) \<le> d"
  let ?k = "\<lambda>d. length (filter (?P d) [1..<13])"
  have anti: "?P d j \<Longrightarrow> ?P d i" if "i \<le> j" for d i j
    using days_before_month_mono [OF that, of "year_of e"] by linarith
  have mem: "?P d m \<longleftrightarrow> m \<le> ?k d" if "1 \<le> m" "m < 13" for d m
  proof -
    have "m \<in> set (filter (?P d) [1..<13]) \<longleftrightarrow> m \<in> set [1..<Suc (?k d)]"
      using filter_prefix [of "?P d" 13, OF anti] by simp
    with that show ?thesis by auto
  qed
  have k: "month_of d = int (?k d)" "month_of e = int (?k e)" using y by (simp_all add: month_of_def Let_def)
  have "?P e 1" using year_of_days [of e] by (simp add: days_before_month_def)
  with mem [of 1 e] have 1: "1 \<le> ?k e" by simp
  have "?k e \<le> length [1..<(13::nat)]" by (rule length_filter_le)
  then have 13: "?k e < 13" by simp
  have "?k d \<le> length [1..<(13::nat)]" by (rule length_filter_le)
  then have "?k d < 13" by simp
  have "?k d \<le> ?k e"
  proof (cases "?k d = 0")
    case False
    then have "?P d (?k d)" using mem [of "?k d" d] \<open>?k d < 13\<close> by linarith
    with de have "?P e (?k d)" by linarith
    with mem [of "?k d" e] False \<open>?k d < 13\<close> show ?thesis by linarith
  qed simp
  with mem [OF 1 13, of d] k show ?thesis by auto
qed

lemma days_before_month_of: "0 \<le> days_before_month (year_of e) (month_of e)"
  using days_before_month_mono [of 0 "nat (month_of e)" "year_of e"]
  by (simp add: days_before_month_def month_of_def Let_def)

lemma month_range:
  "days_before_year (year_of e) + days_before_month (year_of e) (month_of e) \<le> d \<longleftrightarrow>
   year_of d = year_of e \<and> month_of d = month_of e" if "d \<le> e"
proof -
  have "0 \<le> days_before_month (year_of e) (month_of e)" by (rule days_before_month_of)
  then show ?thesis using month_of_iff [OF that] year_of_iff [of d "year_of e"] year_of_days [of e] that by auto
qed

lemma NAIVE_DATE_bounds: "NAIVE_DATE_MIN < - 90000001" "90000000 < NAIVE_DATE_MAX"
  by (simp_all add: NAIVE_DATE_MIN_def NAIVE_DATE_MAX_def days_before_year_def)

lemma start_of_day: "and_hms_opt d 0 0 0 = Some (d * DAY)"
  by (simp add: and_hms_opt_def)

lemma wib_datetime_midnight: "NAIVE_DATE_MIN < d \<Longrightarrow> wib_datetime_to_utc (d * DAY) = Inr (wib_midnight d)"
  by (simp add: wib_datetime_to_utc_def expect_def Let_def wib_midnight_def WIB_OFFSET_SECONDS_def)

lemma in_range_days:
  "in_range \<lparr>ar_label = l, ar_started_at = wib_midnight a, ar_ended_at = wib_midnight z\<rparr> u \<longleftrightarrow>
   a \<le> wib_date u \<and> wib_date u < z"
  by (simp add: in_range_def wib_date_le_iff not_le [symmetric])

lemma in_range_until:
  "in_range \<lparr>ar_label = l, ar_started_at = wib_midnight a, ar_ended_at = t\<rparr> u \<longleftrightarrow> a \<le> wib_date u \<and> u < t"
  by (simp add: in_range_def wib_date_le_iff)

lemma month_of_bounds: "1 \<le> month_of d \<and> month_of d \<le> 12"
proof -
  let ?P = "\<lambda>m. days_before_year (year_of d) + days_before_month (year_of d) (int m) \<le> d"
  have "?P 1" using year_of_days [of d] by (simp add: days_before_month_def)
  then have "1 \<in> set (filter ?P [1..<13])" by simp
  then have "filter ?P [1..<13] \<noteq> []" by (metis empty_iff empty_set)
  moreover have "length (filter ?P [1..<13]) \<le> length [1..<(13::nat)]" by (rule length_filter_le)
  ultimately show ?thesis by (simp add: month_of_def Let_def Suc_le_eq)
qed

lemma first_of_month:
  "from_ymd_opt (year_of d) (month_of d) 1 = Some (days_before_year (year_of d) + days_before_month (year_of d) (month_of d))"
  using month_of_bounds [of d] days_in_month_pos [of "year_of d" "month_of d"] by (simp add: from_ymd_opt_def)

text \<open>
  C30. The presets mean days of the WIB calendar: whatever the time of day, today's range has exactly
  the instants of the current WIB day before now, yesterday's exactly those of the day before, and the
  month's exactly those before now whose WIB date is in the same month of the same year. The other two
  buttons have no range.
\<close>

theorem preset_ranges_cover_days:
  assumes "- 90000000 \<le> wib_date now" and "wib_date now \<le> 90000000"
  shows "(\<exists>r. resolve_preset_analytics_range Today now = Inr (Some r)
            \<and> (\<forall>u. in_range r u \<longleftrightarrow> wib_date u = wib_date now \<and> u < now))
    \<and> (\<exists>r. resolve_preset_analytics_range Yesterday now = Inr (Some r)
            \<and> (\<forall>u. in_range r u \<longleftrightarrow> wib_date u = wib_date now - 1))
    \<and> (\<exists>r. resolve_preset_analytics_range Month now = Inr (Some r)
            \<and> (\<forall>u. in_range r u \<longleftrightarrow> year_of (wib_date u) = year_of (wib_date now)
                  \<and> month_of (wib_date u) = month_of (wib_date now) \<and> u < now))
    \<and> resolve_preset_analytics_range Select now = Inr None
    \<and> resolve_preset_analytics_range Custom now = Inr None"
proof -
  let ?d = "wib_date now"
  let ?m = "days_before_year (year_of ?d) + days_before_month (year_of ?d) (month_of ?d)"
  have le: "wib_date u \<le> ?d" if "u < now" for u using that by (simp add: wib_date_mono)
  have month: "?m \<le> wib_date u \<longleftrightarrow> year_of (wib_date u) = year_of ?d \<and> month_of (wib_date u) = month_of ?d"
    if "u < now" for u by (rule month_range [OF le [OF that]])
  have "NAIVE_DATE_MIN < days_before_year (year_of ?d)"
  proof (cases "year_of ?d + 1 \<le> - 262142")
    case True
    from days_before_year_mono [OF True] year_of_days [of ?d] assms show ?thesis
      by (simp add: days_before_year_def)
  next
    case False
    then have "days_before_year (- 262142) \<le> days_before_year (year_of ?d)" by (intro days_before_year_mono) simp
    then show ?thesis by (simp add: NAIVE_DATE_MIN_def days_before_year_def)
  qed
  then have m: "NAIVE_DATE_MIN < ?m" using days_before_month_of [of ?d] by linarith
  have d: "NAIVE_DATE_MIN < ?d" "NAIVE_DATE_MIN < ?d - 1" "?d - 1 \<le> NAIVE_DATE_MAX"
    using NAIVE_DATE_bounds assms by linarith+
  have today: "wib_datetime_to_utc (?d * DAY) = Inr (wib_midnight ?d)" using d(1) by (rule wib_datetime_midnight)
  note simps = resolve_preset_analytics_range_def Let_def start_of_day today
  show ?thesis
  proof (intro conjI)
    have "resolve_preset_analytics_range Today now
        = Inr (Some \<lparr>ar_label = ''Hari ini'', ar_started_at = wib_midnight ?d, ar_ended_at = now\<rparr>)"
      by (simp add: simps)
    then show "\<exists>r. resolve_preset_analytics_range Today now = Inr (Some r)
        \<and> (\<forall>u. in_range r u \<longleftrightarrow> wib_date u = ?d \<and> u < now)"
      using le by (auto simp: in_range_until intro: order_antisym)
    have "resolve_preset_analytics_range Yesterday now = Inr (Some
        \<lparr>ar_label = ''Kemarin'', ar_started_at = wib_midnight (?d - 1), ar_ended_at = wib_midnight ?d\<rparr>)"
      using d wib_datetime_midnight [OF d(2)] by (simp add: simps checked_add_days_def)
    then show "\<exists>r. resolve_preset_analytics_range Yesterday now = Inr (Some r)
        \<and> (\<forall>u. in_range r u \<longleftrightarrow> wib_date u = ?d - 1)" by (auto simp: in_range_days)
    have "resolve_preset_analytics_range Month now
        = Inr (Some \<lparr>ar_label = ''Bulan ini'', ar_started_at = wib_midnight ?m, ar_ended_at = now\<rparr>)"
      using wib_datetime_midnight [OF m] by (simp add: simps first_of_month)
    then show "\<exists>r. resolve_preset_analytics_range Month now = Inr (Some r)
        \<and> (\<forall>u. in_range r u \<longleftrightarrow> year_of (wib_date u) = year_of ?d \<and> month_of (wib_date u) = month_of ?d \<and> u < now)"
      using month by (auto simp: in_range_until)
  qed (simp_all add: simps)
qed

lemma preset_ranges_cover_days_witness:
  "\<exists>r. resolve_preset_analytics_range Month (20589 * DAY) = Inr (Some r)
     \<and> (\<forall>u. in_range r u \<longleftrightarrow> year_of (wib_date u) = 2026 \<and> month_of (wib_date u) = 5 \<and> u < 20589 * DAY)"
proof -
  have "wib_date (20589 * DAY) = 20589" "year_of 20589 = 2026" "month_of 20589 = 5" by code_simp+
  with preset_ranges_cover_days [of "20589 * DAY"] show ?thesis by simp
qed

section \<open>Typed dates\<close>

definition typed_days :: "(string \<Rightarrow> int option) \<Rightarrow> analytics_kind \<Rightarrow> string \<Rightarrow> (int \<times> int) option" where
  "typed_days parse_date kind value =
     (if kind = Sessions then map_option (\<lambda>d. (d, d)) (parse_date (trim value))
      else Option.bind (split_once '' to '' (trim value)) (\<lambda>(a, z).
             Option.bind (parse_date (trim a)) (\<lambda>d. map_option (\<lambda>e. (d, e)) (parse_date (trim z)))))"

text \<open>The first date that was typed, which is read before anything else.\<close>

definition typed_start :: "(string \<Rightarrow> int option) \<Rightarrow> analytics_kind \<Rightarrow> string \<Rightarrow> int option" where
  "typed_start parse_date kind value =
     (if kind = Sessions then parse_date (trim value)
      else Option.bind (split_once '' to '' (trim value)) (\<lambda>(a, _). parse_date (trim a)))"

lemma wib_datetime_outcome:
  assumes "NAIVE_DATE_MIN \<le> d"
  shows "wib_datetime_to_utc (d * DAY) = (if d = NAIVE_DATE_MIN then Inl Panicked else Inr (wib_midnight d))"
proof (cases "d = NAIVE_DATE_MIN")
  case True
  then show ?thesis by (simp add: wib_datetime_to_utc_def expect_def Let_def WIB_OFFSET_SECONDS_def)
next
  case False
  then show ?thesis using assms by (simp add: wib_datetime_midnight)
qed

text \<open>
  C31. A typed range has exactly the WIB days that were typed, both ends included, and no text is read
  as a range otherwise. Typing ends the bot in a panic exactly when the first date is the first day that
  chrono knows, whose midnight in WIB is before all instants, whatever is typed after it, or when it
  is a day of its own and the last that chrono knows, which has no day after it; as the end of a range
  the last day is refused.
\<close>

theorem custom_range_covers_days:
  assumes dates: "\<forall>s d. parse_date s = Some d \<longrightarrow> NAIVE_DATE_MIN \<le> d \<and> d \<le> NAIVE_DATE_MAX"
  shows "if typed_start parse_date kind value = Some NAIVE_DATE_MIN
      \<or> kind = Sessions \<and> typed_start parse_date kind value = Some NAIVE_DATE_MAX
    then parse_custom_analytics_range parse_date kind value = Inl Panicked
    else case typed_days parse_date kind value of
        None \<Rightarrow> parse_custom_analytics_range parse_date kind value = Inr None
      | Some (d, e) \<Rightarrow>
          if e < NAIVE_DATE_MAX
          then \<exists>r. parse_custom_analytics_range parse_date kind value = Inr (Some r)
                 \<and> (\<forall>u. in_range r u \<longleftrightarrow> d \<le> wib_date u \<and> wib_date u \<le> e)
          else parse_custom_analytics_range parse_date kind value = Inr None"
proof -
  have range: "NAIVE_DATE_MIN < NAIVE_DATE_MAX" using NAIVE_DATE_bounds by linarith
  have start: "parse_wib_date_start parse_date s = (case parse_date s of None \<Rightarrow> Inr None
      | Some d \<Rightarrow> if d = NAIVE_DATE_MIN then Inl Panicked else Inr (Some (wib_midnight d)))" for s
    using dates by (cases "parse_date s") (auto simp: parse_wib_date_start_def start_of_day wib_datetime_outcome)
  have finish: "parse_wib_date_end parse_date s = Inr (Option.bind (parse_date s)
      (\<lambda>d. if d = NAIVE_DATE_MAX then None else Some (wib_midnight (d + 1))))" for s
  proof (cases "parse_date s")
    case (Some d)
    with dates have "NAIVE_DATE_MIN \<le> d" "d \<le> NAIVE_DATE_MAX" by blast+
    then show ?thesis
      using wib_datetime_midnight [of "d + 1"]
      by (auto simp: Some parse_wib_date_end_def checked_add_days_def start_of_day distrib_right)
  qed (simp add: parse_wib_date_end_def)
  have single: "analytics_single_day_range d label = (if d = NAIVE_DATE_MIN \<or> d = NAIVE_DATE_MAX then Inl Panicked
      else Inr \<lparr>ar_label = label, ar_started_at = wib_midnight d, ar_ended_at = wib_midnight (d + 1)\<rparr>)"
    if "parse_date s = Some d" for s d label
  proof -
    have d: "NAIVE_DATE_MIN \<le> d" "d \<le> NAIVE_DATE_MAX" using dates that by blast+
    then show ?thesis
      using wib_datetime_midnight [of "d + 1"]
      by (auto simp: analytics_single_day_range_def expect_def start_of_day wib_datetime_outcome checked_add_days_def
          distrib_right)
  qed
  have max: "d < NAIVE_DATE_MAX \<longleftrightarrow> d \<noteq> NAIVE_DATE_MAX" if "parse_date s = Some d" for s d
    using dates that by force
  show ?thesis
  proof (cases "kind = Sessions")
    case True
    then show ?thesis
      unfolding typed_days_def typed_start_def parse_custom_analytics_range_def parse_custom_analytics_single_date_def
      by (cases "parse_date (trim value)") (auto simp: single max in_range_days)
  next
    case False
    show ?thesis
    proof (cases "split_once '' to '' (trim value)")
      case (Some p)
      obtain a z where p: "p = (a, z)" by (cases p)
      show ?thesis
        using False Some unfolding typed_days_def typed_start_def parse_custom_analytics_range_def start finish
        by (cases "parse_date (trim a)"; cases "parse_date (trim z)") (auto simp: p max in_range_days)
    qed (simp add: False typed_days_def typed_start_def parse_custom_analytics_range_def)
  qed
qed

lemma custom_range_covers_days_witness:
  "\<exists>r. parse_custom_analytics_range (\<lambda>s. if s = ''2026-05-16'' then Some 20589 else None) Sessions '' 2026-05-16 '' = Inr (Some r)
     \<and> (\<forall>u. in_range r u \<longleftrightarrow> wib_date u = 20589)"
proof -
  let ?p = "\<lambda>s. if s = ''2026-05-16'' then Some 20589 else None"
  have typed: "typed_days ?p Sessions '' 2026-05-16 '' = Some (20589, 20589)"
    "typed_start ?p Sessions '' 2026-05-16 '' = Some 20589"
    by (simp_all add: typed_days_def typed_start_def trim_def white_def)
  have dates: "\<forall>s d. ?p s = Some d \<longrightarrow> NAIVE_DATE_MIN \<le> d \<and> d \<le> NAIVE_DATE_MAX"
    using NAIVE_DATE_bounds by auto
  have "20589 \<noteq> NAIVE_DATE_MIN" "20589 < NAIVE_DATE_MAX" using NAIVE_DATE_bounds by linarith+
  moreover have "20589 \<le> d \<and> d \<le> 20589 \<longleftrightarrow> d = 20589" for d :: int by auto
  ultimately show ?thesis
    using custom_range_covers_days [OF dates, of Sessions "'' 2026-05-16 ''"] by (simp add: typed)
qed

end
