(* ===== verification/Sessions.thy ===== *)
theory Sessions
  imports Telegram "HOL-Library.List_Lexorder" "HOL-Library.Char_ord"
begin

text \<open>
  Engine sessions and heartbeat notifications, the polling half of the bot (\<open>src/bot.rs\<close>): each new
  heartbeat of a bound device is shown to its chats, an engine that comes on opens a session and asks
  for confirmation, one that goes off or falls silent ends it with a ride summary.
\<close>

section \<open>Constants\<close>

definition ENGINE_ON_ALERT_COOLDOWN_SECS :: int where "ENGINE_ON_ALERT_COOLDOWN_SECS = 10 * 60"
definition STALE_ENGINE_SESSION_TIMEOUT_SECS :: int where
  "STALE_ENGINE_SESSION_TIMEOUT_SECS = ENGINE_ON_ALERT_COOLDOWN_SECS"

section \<open>Queries\<close>

definition stored_heartbeat_of :: "heartbeat_row \<Rightarrow> stored_heartbeat" where
  "stored_heartbeat_of r = (let h = hr_columns r in
     \<lparr>sh_id = hr_id r, sh_imei = hr_imei r, sh_server_received_at = hr_server_received_at r,
      sh_terminal_info_raw = hk_terminal_info_raw h, sh_terminal_info_bits = hk_terminal_info_bits h,
      sh_gps_tracking_on = hk_gps_tracking_on h, sh_acc_high = hk_acc_high h,
      sh_vibration_detected = hk_vibration_detected h,
      sh_engine_status_guess = hk_engine_status_guess h, sh_voltage_level = hk_voltage_level h,
      sh_gsm_signal_strength = hk_gsm_signal_strength h\<rparr>)"

definition notification_status :: "stored_heartbeat \<Rightarrow> string option" where
  "notification_status h =
     (if sh_engine_status_guess h = ''on'' then Some ''on''
      else if sh_engine_status_guess h = ''off'' then Some ''off'' else None)"

definition stored_location_of :: "device_row \<Rightarrow> stored_location" where
  "stored_location_of d = (let k = dv_latest_location d in
     \<lparr>sl_imei = dv_imei d, sl_last_seen_at = Some (dv_last_seen_at d),
      sl_gps_timestamp = map_option lk_gps_timestamp k, sl_latitude = map_option lk_latitude k,
      sl_longitude = map_option lk_longitude k, sl_speed_kph = map_option lk_speed_kph k,
      sl_course = map_option lk_course k, sl_satellite_count = map_option lk_satellite_count k\<rparr>)"

definition fetch_new_heartbeats :: "int \<Rightarrow> ('z store_scheme, db_error, stored_heartbeat list) io" where
  "fetch_new_heartbeats after_id =
     select (\<lambda>s. map stored_heartbeat_of
       (take 100 (order_by hr_id (filter (\<lambda>r. hr_id r > after_id) (device_heartbeats s)))))"

definition fetch_heartbeat_server_received_at_by_id :: "int \<Rightarrow> ('z store_scheme, db_error, int option) io" where
  "fetch_heartbeat_server_received_at_by_id heartbeat_id =
     select (\<lambda>s. map_option hr_server_received_at (lookup hr_id heartbeat_id (device_heartbeats s)))"

definition fetch_latest_heartbeat_for_imei :: "string \<Rightarrow> ('z store_scheme, db_error, stored_heartbeat option) io" where
  "fetch_latest_heartbeat_for_imei imei =
     select (\<lambda>s. map_option stored_heartbeat_of
       (latest_by hr_id (filter (\<lambda>r. hr_imei r = imei) (device_heartbeats s))))"

definition fetch_latest_location_for_imei :: "string \<Rightarrow> ('z store_scheme, db_error, stored_location option) io" where
  "fetch_latest_location_for_imei imei =
     select (\<lambda>s. map_option stored_location_of (lookup dv_imei imei (devices s)))"

definition notification_key :: "notification_row \<Rightarrow> string \<times> int" where
  "notification_key r = (nt_imei r, nt_chat_id r)"

definition fetch_notification_state ::
  "string \<Rightarrow> int \<Rightarrow> ('z store_scheme, db_error, notification_state option) io" where
  "fetch_notification_state imei chat_id =
     select (\<lambda>s. lookup notification_key (imei, chat_id) (telegram_device_notifications s))"

record notification_values =
  nv_last_status :: string
  nv_last_message_id :: int
  nv_last_heartbeat_id :: int

definition fresh_notification :: "string \<times> int \<Rightarrow> notification_values \<Rightarrow> notification_row" where
  "fresh_notification k v = \<lparr>nt_imei = fst k, nt_chat_id = snd k, nt_last_status = nv_last_status v,
     nt_last_message_id = nv_last_message_id v, nt_last_heartbeat_id = nv_last_heartbeat_id v\<rparr>"

definition merge_notification :: "notification_values \<Rightarrow> notification_row \<Rightarrow> notification_row" where
  "merge_notification v r = r\<lparr>nt_last_status := nv_last_status v,
     nt_last_message_id := nv_last_message_id v, nt_last_heartbeat_id := nv_last_heartbeat_id v\<rparr>"

definition upsert_notification_state ::
  "string \<Rightarrow> int \<Rightarrow> string \<Rightarrow> int \<Rightarrow> int \<Rightarrow> ('z store_scheme, db_error, unit) io" where
  "upsert_notification_state imei chat_id last_status last_message_id last_heartbeat_id =
     execute (\<lambda>s.
       let v = \<lparr>nv_last_status = last_status, nv_last_message_id = last_message_id,
                nv_last_heartbeat_id = last_heartbeat_id\<rparr>
       in s\<lparr>telegram_device_notifications :=
            upsert notification_key (imei, chat_id) (fresh_notification (imei, chat_id) v)
              (merge_notification v) (telegram_device_notifications s)\<rparr>)"

interpretation notification: upsert_contract notification_key fresh_notification merge_notification
  by unfold_locales (auto simp: notification_key_def fresh_notification_def merge_notification_def)

text \<open>The plans and the period that make a subscription active, as \<open>NOW()\<close> reads the clock.\<close>

definition subscription_active :: "'z store_scheme \<Rightarrow> int \<Rightarrow> int \<Rightarrow> bool" where
  "subscription_active s telegram_user_id reference_time \<longleftrightarrow>
     list_ex (\<lambda>b. sb_telegram_user_id b = telegram_user_id
        \<and> sb_plan_code b \<in> {MIDTRANS_BASIC_PLAN_CODE, MIDTRANS_OJOL_PLAN_CODE} \<and> sb_status b = ''active''
        \<and> (case sb_current_period_end_at b of Some t \<Rightarrow> t > reference_time | None \<Rightarrow> False))
       (telegram_subscriptions s)"

definition has_active_subscription :: "int \<Rightarrow> int \<Rightarrow> ('z store_scheme, db_error, bool) io" where
  "has_active_subscription telegram_user_id reference_time =
     select (\<lambda>s. subscription_active s telegram_user_id reference_time)"

record notification_recipient =
  rc_chat_id :: int
  rc_has_active_subscription :: bool

definition fetch_notification_recipients_for_imei ::
  "bot \<Rightarrow> string \<Rightarrow> ('z store_scheme, db_error, notification_recipient list) io" where
  "fetch_notification_recipients_for_imei b imei =
     query (\<lambda>i s. Inr (map (\<lambda>u. \<lparr>rc_chat_id = tu_chat_id u,
           rc_has_active_subscription = subscription_active s (tu_telegram_user_id u) (bt_clock b i)\<rparr>)
         (order_by tu_chat_id
           (filter (\<lambda>u. tu_bound_imei u = Some imei \<and> tu_registration_status u = ''bound'')
             (telegram_users s))), s))"

section \<open>The session table\<close>

definition active_status :: "string \<Rightarrow> bool" where
  "active_status st = (st \<in> {''pending_confirmation'', ''confirmed_safe'', ''reported_theft''})"

definition create_engine_session ::
  "string \<Rightarrow> int \<Rightarrow> int \<Rightarrow> int \<Rightarrow> int \<Rightarrow> ('z store_scheme, db_error, int) io" where
  "create_engine_session imei chat_id trigger_heartbeat_id prompt_message_id created_at =
     query (\<lambda>i s. Inr (i, s\<lparr>telegram_engine_sessions := telegram_engine_sessions s @
       [\<lparr>es_id = i, es_imei = imei, es_chat_id = chat_id, es_trigger_heartbeat_id = trigger_heartbeat_id,
         es_prompt_message_id = prompt_message_id, es_ride_status_message_id = None,
         es_session_status = ''pending_confirmation'', es_created_at = created_at,
         es_resolved_at = None\<rparr>]\<rparr>))"

definition update_session :: "int \<Rightarrow> (session_row \<Rightarrow> session_row) \<Rightarrow> ('z store_scheme, db_error, unit) io" where
  "update_session session_id f = execute (\<lambda>s. s\<lparr>telegram_engine_sessions :=
     update_where (\<lambda>r. es_id r = session_id) f (telegram_engine_sessions s)\<rparr>)"

definition update_engine_session_status :: "int \<Rightarrow> string \<Rightarrow> ('z store_scheme, db_error, unit) io" where
  "update_engine_session_status session_id session_status =
     update_session session_id (\<lambda>r. r\<lparr>es_session_status := session_status\<rparr>)"

definition resolve_engine_session_at :: "int \<Rightarrow> string \<Rightarrow> int \<Rightarrow> ('z store_scheme, db_error, unit) io" where
  "resolve_engine_session_at session_id session_status resolved_at =
     update_session session_id (\<lambda>r. r\<lparr>es_session_status := session_status, es_resolved_at := Some resolved_at\<rparr>)"

definition resolve_engine_session :: "bot \<Rightarrow> int \<Rightarrow> string \<Rightarrow> unit bot_io" where
  "resolve_engine_session b session_id session_status =
     io_bind (clock_now b) (\<lambda>now. db (resolve_engine_session_at session_id session_status now))"

definition set_engine_session_ride_status_message_id :: "int \<Rightarrow> int \<Rightarrow> ('z store_scheme, db_error, unit) io" where
  "set_engine_session_ride_status_message_id session_id ride_status_message_id =
     update_session session_id (\<lambda>r. r\<lparr>es_ride_status_message_id := Some ride_status_message_id\<rparr>)"

definition fetch_active_engine_sessions ::
  "string \<Rightarrow> int \<Rightarrow> ('z store_scheme, db_error, engine_session list) io" where
  "fetch_active_engine_sessions imei chat_id =
     select (\<lambda>s. order_by (\<lambda>r. (es_created_at r, es_id r))
       (filter (\<lambda>r. es_imei r = imei \<and> es_chat_id r = chat_id \<and> active_status (es_session_status r))
         (telegram_engine_sessions s)))"

definition fetch_all_active_engine_sessions :: "('z store_scheme, db_error, engine_session list) io" where
  "fetch_all_active_engine_sessions =
     select (\<lambda>s. order_by (\<lambda>r. (es_imei r, es_chat_id r, es_created_at r, es_id r))
       (filter (\<lambda>r. active_status (es_session_status r)) (telegram_engine_sessions s)))"

definition fetch_engine_session_by_prompt_message ::
  "int \<Rightarrow> int \<Rightarrow> ('z store_scheme, db_error, engine_session option) io" where
  "fetch_engine_session_by_prompt_message chat_id prompt_message_id =
     select (\<lambda>s. latest_by es_id (filter (\<lambda>r. es_chat_id r = chat_id
       \<and> es_prompt_message_id r = prompt_message_id) (telegram_engine_sessions s)))"

definition fetch_engine_session_by_id :: "int \<Rightarrow> ('z store_scheme, db_error, engine_session option) io" where
  "fetch_engine_session_by_id session_id =
     select (\<lambda>s. lookup es_id session_id (telegram_engine_sessions s))"

definition fetch_latest_engine_session_for_imei_chat ::
  "string \<Rightarrow> int \<Rightarrow> ('z store_scheme, db_error, engine_session option) io" where
  "fetch_latest_engine_session_for_imei_chat imei chat_id =
     select (\<lambda>s. latest_by (\<lambda>r. (es_created_at r, es_id r))
       (filter (\<lambda>r. es_imei r = imei \<and> es_chat_id r = chat_id) (telegram_engine_sessions s)))"

section \<open>Ending sessions\<close>

definition finish_ride_session_and_send_summary ::
  "bot \<Rightarrow> int \<Rightarrow> string \<Rightarrow> engine_session \<Rightarrow> int \<Rightarrow> bool \<Rightarrow> int bot_io" where
  "finish_ride_session_and_send_summary b chat_id imei session ended_at send_theft_engine_off_alert =
     (case es_ride_status_message_id session of
        Some message_id \<Rightarrow>
          io_bind (db (resolve_engine_session_at (es_id session) ''finished'' ended_at)) (\<lambda>_.
            io_return message_id)
      | None \<Rightarrow>
          io_bind (send_message b chat_id (Fixed 24)) (\<lambda>session_finished_message_id.
          io_bind (db (fetch_ride_summary (bt_libm b) imei (es_created_at session) ended_at)) (\<lambda>ride_summary.
          io_bind (db (fetch_latest_location_for_imei imei)) (\<lambda>latest_location.
          io_bind (if send_theft_engine_off_alert \<and> es_session_status session = ''reported_theft''
                   then io_unit (send_message b chat_id (TheftEngineOff latest_location ended_at))
                   else io_return ()) (\<lambda>_.
          io_bind (if should_send_ride_summary ride_summary
                   then io_bind (send_message b chat_id
                                  (RideSummaryText session ended_at ride_summary latest_location)) (\<lambda>message_id.
                        io_bind (db (set_engine_session_ride_status_message_id (es_id session) message_id)) (\<lambda>_.
                        io_return message_id))
                   else io_return session_finished_message_id) (\<lambda>message_id.
          io_bind (resolve_engine_session b (es_id session) ''finished'') (\<lambda>_.
            io_return message_id)))))))"

definition clear_pending_keyboard :: "int \<Rightarrow> engine_session \<Rightarrow> unit bot_io" where
  "clear_pending_keyboard chat_id session =
     (if es_session_status session = ''pending_confirmation''
      then io_warn (clear_inline_keyboard chat_id (es_prompt_message_id session)) else io_return ())"

fun finish_sessions ::
  "bot \<Rightarrow> int \<Rightarrow> string \<Rightarrow> int \<Rightarrow> bool \<Rightarrow> engine_session list \<Rightarrow> int option \<Rightarrow> int option bot_io" where
  "finish_sessions b chat_id imei ended_at alert [] last_message_id = io_return last_message_id"
| "finish_sessions b chat_id imei ended_at alert (session # sessions) last_message_id =
     io_bind (clear_pending_keyboard chat_id session) (\<lambda>_.
     io_bind (finish_ride_session_and_send_summary b chat_id imei session ended_at alert) (\<lambda>message_id.
     finish_sessions b chat_id imei ended_at alert sessions (Some message_id)))"

definition finish_active_engine_sessions ::
  "bot \<Rightarrow> int \<Rightarrow> string \<Rightarrow> engine_session list \<Rightarrow> int \<Rightarrow> bool \<Rightarrow> int option bot_io" where
  "finish_active_engine_sessions b chat_id imei sessions ended_at send_theft_engine_off_alert =
     finish_sessions b chat_id imei ended_at send_theft_engine_off_alert sessions None"

definition finish_inactive_subscription_sessions :: "string \<Rightarrow> int \<Rightarrow> int \<Rightarrow> unit bot_io" where
  "finish_inactive_subscription_sessions imei chat_id ended_at =
     io_bind (db (fetch_active_engine_sessions imei chat_id)) (\<lambda>sessions.
     io_for sessions (\<lambda>session.
       io_bind (clear_pending_keyboard chat_id session) (\<lambda>_.
         db (resolve_engine_session_at (es_id session) ''finished'' ended_at))))"

section \<open>Notifications\<close>

definition should_start_new_engine_on_session :: "int \<Rightarrow> int option \<Rightarrow> bool" where
  "should_start_new_engine_on_session heartbeat_time previous_on_heartbeat_time =
     (case previous_on_heartbeat_time of
        None \<Rightarrow> True
      | Some t \<Rightarrow> num_seconds (heartbeat_time - t) \<ge> ENGINE_ON_ALERT_COOLDOWN_SECS)"

definition should_finish_stale_engine_session :: "int \<Rightarrow> int \<Rightarrow> bool" where
  "should_finish_stale_engine_session reference_time latest_heartbeat_time =
     (num_seconds (reference_time - latest_heartbeat_time) \<ge> STALE_ENGINE_SESSION_TIMEOUT_SECS)"

definition process_inactive_subscription_notification_for_chat ::
  "bot \<Rightarrow> stored_heartbeat \<Rightarrow> string \<Rightarrow> int \<Rightarrow> unit bot_io" where
  "process_inactive_subscription_notification_for_chat b heartbeat status chat_id =
     io_bind (db (fetch_notification_state (sh_imei heartbeat) chat_id)) (\<lambda>existing.
     if (case existing of Some st \<Rightarrow> nt_last_status st = status | None \<Rightarrow> False)
     then db (upsert_notification_state (sh_imei heartbeat) chat_id status
                (case existing of Some st \<Rightarrow> nt_last_message_id st | None \<Rightarrow> 0) (sh_id heartbeat))
     else io_bind (send_message_internal b chat_id (InactiveEngineStatus status)
                     (Some subscription_payment_keyboard) None) (\<lambda>message_id.
          db (upsert_notification_state (sh_imei heartbeat) chat_id status message_id (sh_id heartbeat))))"

definition send_engine_on_confirmation :: "bot \<Rightarrow> int \<Rightarrow> stored_heartbeat \<Rightarrow> int bot_io" where
  "send_engine_on_confirmation b chat_id heartbeat =
     send_message_internal b chat_id (Fixed 22) (Some engine_session_confirmation_keyboard) None"

definition process_engine_on_notification_for_chat ::
  "bot \<Rightarrow> stored_heartbeat \<Rightarrow> int \<Rightarrow> notification_state option \<Rightarrow> unit bot_io" where
  "process_engine_on_notification_for_chat b heartbeat chat_id existing =
     io_bind (db (fetch_active_engine_sessions (sh_imei heartbeat) chat_id)) (\<lambda>active_sessions.
     let latest_pending = find (\<lambda>session. es_session_status session = ''pending_confirmation'') (rev active_sessions)
     in
     io_bind (case existing of
                Some st \<Rightarrow> if nt_last_status st = ''on''
                           then db (fetch_heartbeat_server_received_at_by_id (nt_last_heartbeat_id st))
                           else io_return None
              | None \<Rightarrow> io_return None) (\<lambda>last_on_heartbeat_at.
     if \<not> should_start_new_engine_on_session (sh_server_received_at heartbeat) last_on_heartbeat_at
     then let message_id = (case latest_pending of
                 Some session \<Rightarrow> es_prompt_message_id session
               | None \<Rightarrow> (case existing of Some st \<Rightarrow> nt_last_message_id st | None \<Rightarrow> 0))
          in db (upsert_notification_state (sh_imei heartbeat) chat_id ''on'' message_id (sh_id heartbeat))
     else
       io_bind (finish_active_engine_sessions b chat_id (sh_imei heartbeat) active_sessions
                  (sh_server_received_at heartbeat) False) (\<lambda>_.
       io_bind (send_engine_on_confirmation b chat_id heartbeat) (\<lambda>message_id.
       io_bind (db (create_engine_session (sh_imei heartbeat) chat_id (sh_id heartbeat) message_id
                  (sh_server_received_at heartbeat))) (\<lambda>_.
       db (upsert_notification_state (sh_imei heartbeat) chat_id ''on'' message_id (sh_id heartbeat)))))))"

definition process_heartbeat_notification_for_chat ::
  "bot \<Rightarrow> stored_heartbeat \<Rightarrow> string \<Rightarrow> int \<Rightarrow> unit bot_io" where
  "process_heartbeat_notification_for_chat b heartbeat status chat_id =
     io_bind (db (fetch_notification_state (sh_imei heartbeat) chat_id)) (\<lambda>existing.
     if status = ''on'' then process_engine_on_notification_for_chat b heartbeat chat_id existing
     else if (case existing of Some st \<Rightarrow> nt_last_status st = status | None \<Rightarrow> False)
     then db (upsert_notification_state (sh_imei heartbeat) chat_id status
                (case existing of Some st \<Rightarrow> nt_last_message_id st | None \<Rightarrow> 0) (sh_id heartbeat))
     else
       io_bind (db (fetch_active_engine_sessions (sh_imei heartbeat) chat_id)) (\<lambda>active_sessions.
       io_bind (io_bind (finish_active_engine_sessions b chat_id (sh_imei heartbeat) active_sessions
                           (sh_server_received_at heartbeat) True) (\<lambda>finished.
                case finished of
                  Some message_id \<Rightarrow> io_return message_id
                | None \<Rightarrow> send_message b chat_id (EngineStatusText heartbeat status))) (\<lambda>message_id.
       db (upsert_notification_state (sh_imei heartbeat) chat_id status message_id (sh_id heartbeat)))))"

definition notify_recipient :: "bot \<Rightarrow> stored_heartbeat \<Rightarrow> string \<Rightarrow> notification_recipient \<Rightarrow> unit bot_io" where
  "notify_recipient b heartbeat status recipient =
     (if rc_has_active_subscription recipient
      then io_warn (process_heartbeat_notification_for_chat b heartbeat status (rc_chat_id recipient))
      else if status = ''off''
      then io_bind (io_warn (process_inactive_subscription_notification_for_chat b heartbeat status
                               (rc_chat_id recipient))) (\<lambda>_.
           finish_inactive_subscription_sessions (sh_imei heartbeat) (rc_chat_id recipient)
             (sh_server_received_at heartbeat))
      else io_warn (process_inactive_subscription_notification_for_chat b heartbeat status
                      (rc_chat_id recipient)))"

definition set_last_notified :: "int \<Rightarrow> unit bot_io" where
  "set_last_notified heartbeat_id = db (set_state_i64 ''last_notified_heartbeat_id'' heartbeat_id)"

definition process_heartbeat :: "bot \<Rightarrow> stored_heartbeat \<Rightarrow> unit bot_io" where
  "process_heartbeat b heartbeat =
     io_bind (db (fetch_notification_recipients_for_imei b (sh_imei heartbeat))) (\<lambda>notification_recipients.
     if notification_recipients = [] then set_last_notified (sh_id heartbeat)
     else
       io_bind (case notification_status heartbeat of
                  Some status \<Rightarrow> io_for notification_recipients (notify_recipient b heartbeat status)
                | None \<Rightarrow> io_return ()) (\<lambda>_.
       set_last_notified (sh_id heartbeat)))"

definition process_heartbeat_notifications :: "bot \<Rightarrow> unit bot_io" where
  "process_heartbeat_notifications b =
     io_bind (db (get_state_i64 ''last_notified_heartbeat_id'')) (\<lambda>last_notified.
     io_bind (db (fetch_new_heartbeats (case last_notified of Some n \<Rightarrow> n | None \<Rightarrow> 0))) (\<lambda>heartbeats.
     io_for heartbeats (process_heartbeat b)))"

section \<open>Stale sessions\<close>

text \<open>
  The groups of the map, in the order of its keys; each holds its sessions in the order of the query.
\<close>

definition session_groups :: "engine_session list \<Rightarrow> ((string \<times> int) \<times> engine_session list) list" where
  "session_groups sessions =
     map (\<lambda>k. (k, filter (\<lambda>r. (es_imei r, es_chat_id r) = k) sessions))
       (sort (remdups (map (\<lambda>r. (es_imei r, es_chat_id r)) sessions)))"

definition finish_stale_group :: "bot \<Rightarrow> int \<Rightarrow> (string \<times> int) \<times> engine_session list \<Rightarrow> unit bot_io" where
  "finish_stale_group b reference_time entry =
     (let ((imei, chat_id), sessions) = entry in
      io_bind (db (fetch_latest_heartbeat_for_imei imei)) (\<lambda>latest_heartbeat.
      case latest_heartbeat of
        None \<Rightarrow> io_return ()
      | Some h \<Rightarrow>
          if \<not> should_finish_stale_engine_session reference_time (sh_server_received_at h) then io_return ()
          else io_unit (finish_active_engine_sessions b chat_id imei sessions (sh_server_received_at h) False)))"

definition process_stale_engine_sessions :: "bot \<Rightarrow> unit bot_io" where
  "process_stale_engine_sessions b =
     io_bind (db fetch_all_active_engine_sessions) (\<lambda>sessions.
     io_bind (clock_now b) (\<lambda>reference_time.
     io_for (session_groups sessions) (finish_stale_group b reference_time)))"

section \<open>The life of a session\<close>

definition session_key :: "session_row \<Rightarrow> string \<times> int" where
  "session_key r = (es_imei r, es_chat_id r)"

definition is_active :: "session_row \<Rightarrow> bool" where
  "is_active r = active_status (es_session_status r)"

text \<open>At most one session of a device is open in a chat; identifiers are unique and were issued.\<close>

definition sessions_ok :: "int \<Rightarrow> session_row list \<Rightarrow> bool" where
  "sessions_ok n T \<longleftrightarrow> distinct (map es_id T) \<and> (\<forall>r \<in> set T. es_id r < n)
     \<and> distinct (map session_key (filter is_active T))"

text \<open>
  What may become of a row: nothing, or, while it is active, another status that its own allows; what
  identifies it stays, and a row that is no longer active never changes.
\<close>

definition status_step :: "string \<Rightarrow> string \<Rightarrow> bool" where
  "status_step a c \<longleftrightarrow> c \<in> {a, ''finished''}
     \<or> a = ''pending_confirmation'' \<and> c \<in> {''confirmed_safe'', ''reported_theft''}"

definition row_step :: "session_row \<Rightarrow> session_row \<Rightarrow> bool" where
  "row_step r q \<longleftrightarrow> q = r \<or> is_active r \<and> es_id q = es_id r \<and> session_key q = session_key r
     \<and> es_trigger_heartbeat_id q = es_trigger_heartbeat_id r \<and> es_prompt_message_id q = es_prompt_message_id r
     \<and> es_created_at q = es_created_at r \<and> status_step (es_session_status r) (es_session_status q)"

definition sessions_step :: "session_row list \<Rightarrow> session_row list \<Rightarrow> bool" where
  "sessions_step T T' \<longleftrightarrow> (\<forall>r \<in> set T. \<exists>q \<in> set T'. row_step r q)"

definition session_inv :: "session_row list \<Rightarrow> int \<Rightarrow> session_row list \<Rightarrow> bool" where
  "session_inv T0 n T \<longleftrightarrow> sessions_ok n T \<and> sessions_step T0 T"

lemma status_step_active: "status_step a c \<Longrightarrow> active_status c \<Longrightarrow> active_status a"
  by (auto simp: status_step_def active_status_def)

lemma row_step_refl [simp]: "row_step r r"
  by (simp add: row_step_def)

lemma status_step_trans: "status_step a c \<Longrightarrow> active_status c \<Longrightarrow> status_step c d \<Longrightarrow> status_step a d"
  by (auto simp: status_step_def active_status_def)

lemma row_step_trans:
  assumes "row_step r q" and "row_step q p"
  shows "row_step r p"
proof (cases "q = r \<or> p = q")
  case False
  with assms show ?thesis
    using status_step_trans [of "es_session_status r" "es_session_status q" "es_session_status p"]
    by (simp add: row_step_def is_active_def)
qed (use assms in auto)

lemma sessions_step_refl [simp]: "sessions_step T T"
  unfolding sessions_step_def using row_step_refl by blast

lemma sessions_step_trans: "sessions_step T U \<Longrightarrow> sessions_step U V \<Longrightarrow> sessions_step T V"
  unfolding sessions_step_def using row_step_trans by blast

lemma session_inv_mono: "session_inv T0 m T \<Longrightarrow> m \<le> n \<Longrightarrow> session_inv T0 n T"
  by (force simp: session_inv_def sessions_ok_def)

lemma distinct_subseq: "subseq xs ys \<Longrightarrow> distinct ys \<Longrightarrow> distinct xs"
  by (induction rule: list_emb.induct) (auto dest: list_emb_set)

lemma active_keys_update:
  assumes "\<And>r. r \<in> set T \<Longrightarrow> p r \<Longrightarrow> session_key (f r) = session_key r \<and> (is_active (f r) \<longrightarrow> is_active r)"
  shows "subseq (map session_key (filter is_active (update_where p f T))) (map session_key (filter is_active T))"
  using assms
proof (induction T)
  case (Cons r T)
  have "subseq (map session_key (filter is_active (update_where p f T))) (map session_key (filter is_active T))"
    by (rule Cons.IH) (simp add: Cons.prems)
  then show ?case using Cons.prems [of r] by (auto simp: update_where_def)
qed (simp add: update_where_def)

lemma session_inv_update:
  assumes inv: "session_inv T0 n T"
    and step: "\<And>r. r \<in> set T \<Longrightarrow> es_id r = i \<Longrightarrow> row_step r (f r)"
  shows "session_inv T0 n (update_where (\<lambda>r. es_id r = i) f T)"
proof -
  let ?T = "update_where (\<lambda>r. es_id r = i) f T"
  have same: "es_id (f r) = es_id r \<and> session_key (f r) = session_key r \<and> (is_active (f r) \<longrightarrow> is_active r)"
    if "r \<in> set T" "es_id r = i" for r
    using step [OF that] status_step_active by (auto simp: row_step_def is_active_def)
  have ids: "map es_id ?T = map es_id T" by (rule map_update_where) (simp add: same)
  have "subseq (map session_key (filter is_active ?T)) (map session_key (filter is_active T))"
    by (rule active_keys_update) (simp add: same)
  then have "distinct (map session_key (filter is_active ?T))"
    using inv by (auto simp: session_inv_def sessions_ok_def intro: distinct_subseq)
  moreover have "\<forall>r \<in> set ?T. es_id r < n"
    using inv same by (auto simp: set_update_where session_inv_def sessions_ok_def)
  moreover have "sessions_step T ?T"
    unfolding sessions_step_def
  proof
    fix r assume "r \<in> set T"
    with step show "\<exists>q \<in> set ?T. row_step r q"
      by (intro bexI [of _ "if es_id r = i then f r else r"]) (auto simp: set_update_where)
  qed
  moreover have "sessions_step T0 T" "distinct (map es_id T)"
    using inv by (simp_all add: session_inv_def sessions_ok_def)
  ultimately show ?thesis
    using ids sessions_step_trans [of T0 T ?T] by (simp add: session_inv_def sessions_ok_def)
qed

text \<open>A new session needs that none of its device and chat is open.\<close>

lemma session_inv_create:
  assumes inv: "session_inv T0 n T" and free: "\<forall>q \<in> set T. is_active q \<longrightarrow> session_key q \<noteq> session_key r"
    and "es_id r = n"
  shows "session_inv T0 (n + 1) (T @ [r])"
proof -
  have "sessions_step T0 (T @ [r])"
    using inv by (auto simp: session_inv_def sessions_step_def)
  moreover have "sessions_ok (n + 1) (T @ [r])"
    using inv free \<open>es_id r = n\<close> by (fastforce simp: session_inv_def sessions_ok_def)
  ultimately show ?thesis by (simp add: session_inv_def)
qed

section \<open>The session loops\<close>

text \<open>
  Assertions on the session table that time does not spoil and that imply the invariant; the error
  assertion of every triple below is the invariant itself.
\<close>

definition stable :: "session_row list \<Rightarrow> (int \<Rightarrow> session_row list \<Rightarrow> bool) \<Rightarrow> bool" where
  "stable T0 I \<longleftrightarrow> (\<forall>m n T. m \<le> n \<longrightarrow> I m T \<longrightarrow> I n T) \<and> (\<forall>n T. I n T \<longrightarrow> session_inv T0 n T)"

abbreviation on_sessions :: "(int \<Rightarrow> session_row list \<Rightarrow> bool) \<Rightarrow> int \<Rightarrow> bot_store \<Rightarrow> bool" where
  "on_sessions I \<equiv> \<lambda>n s. I n (telegram_engine_sessions s)"

definition session_triple ::
  "session_row list \<Rightarrow> (int \<Rightarrow> session_row list \<Rightarrow> bool) \<Rightarrow> 'a bot_io \<Rightarrow> ('a \<Rightarrow> int \<Rightarrow> session_row list \<Rightarrow> bool) \<Rightarrow> bool" where
  "session_triple T0 I m J \<longleftrightarrow>
     triple (on_sessions I) m (\<lambda>x. on_sessions (J x)) (on_sessions (session_inv T0))"

lemma stable_inv [simp]: "stable T0 (session_inv T0)"
  by (auto simp: stable_def intro: session_inv_mono)

lemma stable_later: "stable T0 I \<Longrightarrow> I m T \<Longrightarrow> m \<le> n \<Longrightarrow> I n T"
  by (auto simp: stable_def)

lemma stable_implies: "stable T0 I \<Longrightarrow> I n T \<Longrightarrow> session_inv T0 n T"
  by (auto simp: stable_def)

lemma session_bind:
  "session_triple T0 I m R \<Longrightarrow> (\<And>x. session_triple T0 (R x) (f x) J) \<Longrightarrow> session_triple T0 I (io_bind m f) J"
  unfolding session_triple_def by (rule triple_bind)

lemma session_quiet:
  assumes "stable T0 I" and "untouched telegram_engine_sessions m"
  shows "session_triple T0 I m (\<lambda>_. I)"
  unfolding session_triple_def
  using assms(1) by (intro triple_untouched [OF assms(2), where I = I]) (auto simp: stable_def)

lemma session_quiet_bind:
  "stable T0 I \<Longrightarrow> untouched telegram_engine_sessions m \<Longrightarrow> (\<And>x. session_triple T0 I (f x) J) \<Longrightarrow>
   session_triple T0 I (io_bind m f) J"
  by (rule session_bind [OF session_quiet])

lemma session_return: "(\<And>n T. I n T \<Longrightarrow> J x n T) \<Longrightarrow> session_triple T0 I (io_return x) J"
  unfolding session_triple_def by (rule triple_return)

lemma session_weaken:
  "session_triple T0 I m J \<Longrightarrow> (\<And>n T. I' n T \<Longrightarrow> I n T) \<Longrightarrow> (\<And>x n T. J x n T \<Longrightarrow> J' x n T) \<Longrightarrow>
   session_triple T0 I' m J'"
  unfolding session_triple_def by (erule triple_weaken) auto

lemma session_select:
  assumes "stable T0 I" and "\<And>n s. I n (telegram_engine_sessions s) \<Longrightarrow> J (f s) n (telegram_engine_sessions s)"
    and "\<And>x m n T. m \<le> n \<Longrightarrow> J x m T \<Longrightarrow> J x n T"
  shows "session_triple T0 I (db (select f)) J"
  unfolding session_triple_def
proof (intro triple_map_error triple_select)
  fix n and s :: bot_store
  assume i: "I n (telegram_engine_sessions s)"
  then have "I (n + 1) (telegram_engine_sessions s)" by (rule stable_later [OF assms(1)]) simp
  then show "session_inv T0 (n + 1) (telegram_engine_sessions s)" by (rule stable_implies [OF assms(1)])
  show "J (f s) (n + 1) (telegram_engine_sessions s)" using assms(2) [OF i] assms(3) [of n "n + 1"] by simp
qed

lemma session_update:
  assumes "stable T0 I" and "\<And>n T. I n T \<Longrightarrow> J () n (update_where (\<lambda>r. es_id r = i) f T)"
    and "\<And>m n T. m \<le> n \<Longrightarrow> J () m T \<Longrightarrow> J () n T"
  shows "session_triple T0 I (db (update_session i f)) J"
  unfolding session_triple_def update_session_def
proof (intro triple_map_error triple_execute)
  fix n and s :: bot_store
  assume i: "I n (telegram_engine_sessions s)"
  then have "I (n + 1) (telegram_engine_sessions s)" by (rule stable_later [OF assms(1)]) simp
  then show "session_inv T0 (n + 1) (telegram_engine_sessions s)" by (rule stable_implies [OF assms(1)])
  show "J () (n + 1) (telegram_engine_sessions (s\<lparr>telegram_engine_sessions :=
      update_where (\<lambda>r. es_id r = i) f (telegram_engine_sessions s)\<rparr>))"
    using assms(2) [OF i] assms(3) [of n "n + 1"] by simp
qed

text \<open>
  The invariant of a loop that ends the sessions \<open>xs\<close>: these and those in \<open>A\<close> are still active, and
  the active sessions of the key \<open>k\<close> are among \<open>xs\<close> and \<open>B\<close>.
\<close>

definition ending ::
  "session_row list \<Rightarrow> int set \<Rightarrow> string \<times> int \<Rightarrow> int set \<Rightarrow> session_row list \<Rightarrow> int \<Rightarrow> session_row list \<Rightarrow> bool" where
  "ending T0 A k B xs n T \<longleftrightarrow> session_inv T0 n T
     \<and> distinct (map es_id xs) \<and> A \<inter> es_id ` set xs = {}
     \<and> (\<forall>r \<in> set T. es_id r \<in> A \<union> es_id ` set xs \<longrightarrow> is_active r)
     \<and> (\<forall>r \<in> set T. is_active r \<and> session_key r = k \<longrightarrow> es_id r \<in> B \<union> es_id ` set xs)"

lemma ending_mono: "m \<le> n \<Longrightarrow> ending T0 A k B xs m T \<Longrightarrow> ending T0 A k B xs n T"
  using session_inv_mono [of T0 m T n] by (simp add: ending_def)

lemma ending_inv: "ending T0 A k B xs n T \<Longrightarrow> session_inv T0 n T"
  by (simp add: ending_def)

lemma stable_ending [simp]: "stable T0 (ending T0 A k B xs)"
  using ending_mono ending_inv by (auto simp: stable_def)

lemma finished_inactive [simp]: "\<not> active_status ''finished''"
  by (simp add: active_status_def)

lemma finish_row_step:
  "is_active r \<Longrightarrow> row_step r (r\<lparr>es_session_status := ''finished'', es_resolved_at := t\<rparr>)"
  by (simp add: row_step_def session_key_def status_step_def)

lemma ball_update_where:
  "(\<forall>r \<in> set (update_where p f T). P r) \<longleftrightarrow> (\<forall>r \<in> set T. P (if p r then f r else r))"
  by (auto simp: update_where_def)

lemma endingD:
  assumes "ending T0 A k B xs n T"
  shows "session_inv T0 n T" "distinct (map es_id xs)" "A \<inter> es_id ` set xs = {}"
    "\<And>r. r \<in> set T \<Longrightarrow> es_id r \<in> A \<union> es_id ` set xs \<Longrightarrow> is_active r"
    "\<And>r. r \<in> set T \<Longrightarrow> is_active r \<Longrightarrow> session_key r = k \<Longrightarrow> es_id r \<in> B \<union> es_id ` set xs"
  using assms unfolding ending_def by blast+

lemma ending_resolve:
  assumes e: "ending T0 A k B (x # xs) n T"
  shows "ending T0 A k B xs n (update_where (\<lambda>r. es_id r = es_id x)
     (\<lambda>r. r\<lparr>es_session_status := ''finished'', es_resolved_at := Some t\<rparr>) T)"
  unfolding ending_def ball_update_where
proof (intro conjI ballI impI)
  let ?f = "\<lambda>r. r\<lparr>es_session_status := ''finished'', es_resolved_at := Some t\<rparr>"
  show "session_inv T0 n (update_where (\<lambda>r. es_id r = es_id x) ?f T)"
    using endingD(4) [OF e] by (intro session_inv_update [OF endingD(1) [OF e]] finish_row_step) simp
  show "distinct (map es_id xs)" "A \<inter> es_id ` set xs = {}" using endingD(2,3) [OF e] by auto
  fix r assume r: "r \<in> set T"
  let ?r = "if es_id r = es_id x then ?f r else r"
  show "is_active ?r" if "es_id ?r \<in> A \<union> es_id ` set xs"
  proof -
    have "es_id x \<notin> A \<union> es_id ` set xs" using endingD(2,3) [OF e] by auto
    with that have "es_id r \<noteq> es_id x" by auto
    with that show ?thesis using endingD(4) [OF e r] by simp
  qed
  show "es_id ?r \<in> B \<union> es_id ` set xs" if "is_active ?r \<and> session_key ?r = k"
  proof -
    have "es_id r \<noteq> es_id x" using that by (auto simp: is_active_def)
    with that show ?thesis using endingD(5) [OF e r] by simp
  qed
qed

lemma ending_ride_status:
  assumes e: "ending T0 A k B (x # xs) n T"
  shows "ending T0 A k B (x # xs) n (update_where (\<lambda>r. es_id r = es_id x)
     (\<lambda>r. r\<lparr>es_ride_status_message_id := m\<rparr>) T)"
  unfolding ending_def ball_update_where
proof (intro conjI ballI impI)
  let ?f = "\<lambda>r. r\<lparr>es_ride_status_message_id := m\<rparr>"
  have same: "is_active (?f r) = is_active r" "session_key (?f r) = session_key r" "es_id (?f r) = es_id r" for r
    by (simp_all add: is_active_def session_key_def)
  show "session_inv T0 n (update_where (\<lambda>r. es_id r = es_id x) ?f T)"
  proof (rule session_inv_update [OF endingD(1) [OF e]])
    fix r assume "r \<in> set T" "es_id r = es_id x"
    then have "is_active r" using endingD(4) [OF e] by simp
    then show "row_step r (?f r)" by (simp add: row_step_def session_key_def status_step_def)
  qed
  show "distinct (map es_id (x # xs))" "A \<inter> es_id ` set (x # xs) = {}" using endingD(2,3) [OF e] .
  fix r assume r: "r \<in> set T"
  let ?r = "if es_id r = es_id x then ?f r else r"
  show "is_active ?r" if "es_id ?r \<in> A \<union> es_id ` set (x # xs)"
    using that endingD(4) [OF e r] by (auto simp: same split: if_splits)
  show "es_id ?r \<in> B \<union> es_id ` set (x # xs)" if "is_active ?r \<and> session_key ?r = k"
    using that endingD(5) [OF e r] by (auto simp: same split: if_splits)
qed

lemma session_resolve:
  "session_triple T0 (ending T0 A k B (x # xs)) (db (resolve_engine_session_at (es_id x) ''finished'' t))
     (\<lambda>_. ending T0 A k B xs)"
  unfolding resolve_engine_session_at_def
  by (intro session_update stable_ending ending_resolve) (auto intro: ending_mono)

lemma session_resolve_now:
  "session_triple T0 (ending T0 A k B (x # xs)) (resolve_engine_session b (es_id x) ''finished'')
     (\<lambda>_. ending T0 A k B xs)"
  unfolding resolve_engine_session_def
  by (intro session_quiet_bind stable_ending session_resolve io_intros)

lemma session_ride_status:
  "session_triple T0 (ending T0 A k B (x # xs)) (db (set_engine_session_ride_status_message_id (es_id x) m))
     (\<lambda>_. ending T0 A k B (x # xs))"
  unfolding set_engine_session_ride_status_message_id_def
  by (intro session_update stable_ending ending_ride_status) (auto intro: ending_mono)

lemma untouched_fetch [io_intros]:
  "untouched view (fetch_ride_summary lm imei a c)" "untouched view (fetch_latest_location_for_imei imei)"
  "untouched view (fetch_latest_heartbeat_for_imei imei)" "untouched view (fetch_notification_state imei c)"
  "untouched view (fetch_heartbeat_server_received_at_by_id i)" "untouched view (fetch_new_heartbeats i)"
  "untouched view (has_active_subscription u t)" "untouched view (fetch_active_engine_sessions imei c)"
  by (auto simp: fetch_ride_summary_def fetch_latest_location_for_imei_def fetch_latest_heartbeat_for_imei_def
      fetch_notification_state_def fetch_heartbeat_server_received_at_by_id_def fetch_new_heartbeats_def
      has_active_subscription_def fetch_active_engine_sessions_def intro!: io_intros)

lemma untouched_recipients [io_intros]: "untouched view (fetch_notification_recipients_for_imei b imei)"
  unfolding fetch_notification_recipients_for_imei_def by (rule untouched_query) auto

lemma untouched_upsert_notification [io_intros]:
  "(\<And>s c. view (s\<lparr>telegram_device_notifications := c\<rparr>) = view s) \<Longrightarrow>
   untouched view (upsert_notification_state imei c st m h)"
  unfolding upsert_notification_state_def by (rule untouched_execute) (simp add: Let_def)

lemma session_finish_ride:
  "session_triple T0 (ending T0 A k B (x # xs)) (finish_ride_session_and_send_summary b c imei x t alert)
     (\<lambda>_. ending T0 A k B xs)"
proof (cases "es_ride_status_message_id x")
  case None
  have "session_triple T0 (ending T0 A k B (x # xs))
     (if should_send_ride_summary summary
      then io_bind (send_message b c (RideSummaryText x t summary location)) (\<lambda>message_id.
           io_bind (db (set_engine_session_ride_status_message_id (es_id x) message_id)) (\<lambda>_. io_return message_id))
      else io_return fallback) (\<lambda>_. ending T0 A k B (x # xs))" for summary location fallback
    by (cases "should_send_ride_summary summary")
       (auto intro!: session_quiet_bind session_bind [OF session_ride_status] session_return io_intros)
  note summary = session_bind [OF this]
  show ?thesis
    unfolding finish_ride_session_and_send_summary_def None option.case
    by (intro session_quiet_bind stable_ending summary session_bind [OF session_resolve_now] io_intros session_return) auto
next
  case (Some m)
  then show ?thesis
    by (simp add: finish_ride_session_and_send_summary_def)
       (intro session_bind [OF session_resolve] session_return)
qed

lemma untouched_clear_pending [io_intros]:
  "(\<And>s c. view (s\<lparr>requests := c\<rparr>) = view s) \<Longrightarrow> untouched view (clear_pending_keyboard c x)"
  unfolding clear_pending_keyboard_def by (intro io_intros)

lemma session_finish_sessions:
  "session_triple T0 (ending T0 A k B xs) (finish_sessions b c imei t alert xs m) (\<lambda>_. ending T0 A k B [])"
proof (induction xs arbitrary: m)
  case (Cons x xs)
  show ?case
    unfolding finish_sessions.simps
    by (intro session_quiet_bind stable_ending session_bind [OF session_finish_ride] Cons.IH io_intros) simp
qed (simp add: session_return)

lemma session_finish_active:
  "session_triple T0 (ending T0 A k B xs) (finish_active_engine_sessions b c imei xs t alert) (\<lambda>_. ending T0 A k B [])"
  unfolding finish_active_engine_sessions_def by (rule session_finish_sessions)

text \<open>The sessions that a query finds to be open are open, and there are no others.\<close>

lemma distinct_map_order_by [simp]: "distinct (map g (order_by f xs)) \<longleftrightarrow> distinct (map g xs)"
  by (simp add: order_by_def distinct_map)

lemma set_order_by [simp]: "set (order_by f xs) = set xs"
  by (simp add: order_by_def)

lemma active_by_id:
  assumes "session_inv T0 n T" and "r \<in> set T" and "es_id r \<in> es_id ` set (filter P T)" and "\<And>q. P q \<Longrightarrow> is_active q"
  shows "is_active r"
proof -
  from assms(3) obtain q where q: "q \<in> set T" "P q" "es_id r = es_id q" by auto
  have "inj_on es_id (set T)" using assms(1) by (simp add: session_inv_def sessions_ok_def distinct_map)
  with q assms(2) have "r = q" by (simp add: inj_on_def)
  with q assms(4) show ?thesis by simp
qed

lemma ending_fetched:
  assumes "session_inv T0 n T"
  shows "ending T0 {} (imei, c) {} (order_by f (filter (\<lambda>r. es_imei r = imei \<and> es_chat_id r = c
     \<and> active_status (es_session_status r)) T)) n T"
proof -
  have "distinct (map es_id T)" using assms by (simp add: session_inv_def sessions_ok_def)
  then have "distinct (map es_id (filter P T))" for P by (simp add: distinct_map_filter)
  then show ?thesis
    using assms active_by_id [OF assms] unfolding ending_def
    by (intro conjI) (simp_all add: is_active_def session_key_def)
qed

section \<open>Every handler keeps the sessions safe\<close>

named_theorems safe_intros

definition session_safe :: "session_row list \<Rightarrow> 'a bot_io \<Rightarrow> bool" where
  "session_safe T0 m \<longleftrightarrow> session_triple T0 (session_inv T0) m (\<lambda>_. session_inv T0)"

lemma safe_untouched: "untouched telegram_engine_sessions m \<Longrightarrow> session_safe T0 m"
  unfolding session_safe_def by (intro session_quiet stable_inv)

lemma safe_bind [safe_intros]: "session_safe T0 m \<Longrightarrow> (\<And>x. session_safe T0 (f x)) \<Longrightarrow> session_safe T0 (io_bind m f)"
  unfolding session_safe_def by (rule session_bind)

lemma safe_if [safe_intros]:
  "(c \<Longrightarrow> session_safe T0 m) \<Longrightarrow> (\<not> c \<Longrightarrow> session_safe T0 n) \<Longrightarrow> session_safe T0 (if c then m else n)"
  by simp

lemma safe_case_option [safe_intros]:
  "(x = None \<Longrightarrow> session_safe T0 m) \<Longrightarrow> (\<And>y. x = Some y \<Longrightarrow> session_safe T0 (f y)) \<Longrightarrow>
   session_safe T0 (case x of None \<Rightarrow> m | Some y \<Rightarrow> f y)"
  by (cases x) auto

lemma safe_for [safe_intros]: "(\<And>x. session_safe T0 (f x)) \<Longrightarrow> session_safe T0 (io_for xs f)"
  unfolding session_safe_def session_triple_def by (rule triple_for_const)

lemma safe_warn [safe_intros]: "session_safe T0 m \<Longrightarrow> session_safe T0 (io_warn m)"
  unfolding session_safe_def session_triple_def by (erule triple_warn)

lemma safe_unit [safe_intros]: "session_safe T0 m \<Longrightarrow> session_safe T0 (io_unit m)"
  unfolding session_safe_def session_triple_def by (rule triple_unit)

lemma session_fetch_active:
  "session_triple T0 (session_inv T0) (db (fetch_active_engine_sessions imei c)) (ending T0 {} (imei, c) {})"
  unfolding fetch_active_engine_sessions_def
  by (intro session_select stable_inv ending_fetched) (auto intro: ending_mono)

lemma session_done: "session_triple T0 (session_inv T0) m J \<Longrightarrow> session_triple T0 (ending T0 A k B xs) m J"
  by (erule session_weaken) (auto dest: ending_inv)

lemma session_create:
  "session_triple T0 (ending T0 A (imei, c) {} []) (db (create_engine_session imei c h p t)) (\<lambda>_. session_inv T0)"
  unfolding session_triple_def create_engine_session_def
proof (intro triple_map_error triple_query)
  fix n and s :: bot_store
  assume e: "ending T0 A (imei, c) {} [] n (telegram_engine_sessions s)"
  show "session_inv T0 (n + 1) (telegram_engine_sessions s)"
    using session_inv_mono [OF ending_inv [OF e]] by simp
  fix x s'
  let ?r = "\<lparr>es_id = n, es_imei = imei, es_chat_id = c, es_trigger_heartbeat_id = h, es_prompt_message_id = p,
      es_ride_status_message_id = None, es_session_status = ''pending_confirmation'', es_created_at = t,
      es_resolved_at = None\<rparr>"
  assume "Inr (n, s\<lparr>telegram_engine_sessions := telegram_engine_sessions s @ [?r]\<rparr>) = Inr (x, s')"
  then have s': "telegram_engine_sessions s' = telegram_engine_sessions s @ [?r]" by auto
  have "\<forall>q \<in> set (telegram_engine_sessions s). is_active q \<longrightarrow> session_key q \<noteq> session_key ?r"
    using endingD(5) [OF e] by (auto simp: session_key_def)
  then show "session_inv T0 (n + 1) (telegram_engine_sessions s')"
    unfolding s' by (intro session_inv_create [OF ending_inv [OF e]]) simp_all
qed

lemma safe_engine_on [safe_intros]: "session_safe T0 (process_engine_on_notification_for_chat b h c existing)"
proof -
  have on: "session_triple T0 (ending T0 {} (sh_imei h, c) {} xs)
     (io_bind (finish_active_engine_sessions b c (sh_imei h) xs (sh_server_received_at h) False) (\<lambda>_.
       io_bind (send_engine_on_confirmation b c h) (\<lambda>message_id.
       io_bind (db (create_engine_session (sh_imei h) c (sh_id h) message_id (sh_server_received_at h))) (\<lambda>_.
       db (upsert_notification_state (sh_imei h) c ''on'' message_id (sh_id h)))))) (\<lambda>_. session_inv T0)" for xs
    unfolding send_engine_on_confirmation_def
    by (intro session_bind [OF session_finish_active] session_quiet_bind [where I = "ending T0 {} (sh_imei h, c) {} []"]
          session_bind [OF session_create] session_quiet stable_ending stable_inv io_intros) simp_all
  show ?thesis
    unfolding session_safe_def process_engine_on_notification_for_chat_def Let_def
  proof (intro session_bind [OF session_fetch_active] session_quiet_bind stable_ending)
    fix xs last
    show "untouched telegram_engine_sessions
      (case existing of None \<Rightarrow> io_return None
       | Some st \<Rightarrow> if nt_last_status st = ''on''
            then db (fetch_heartbeat_server_received_at_by_id (nt_last_heartbeat_id st)) else io_return None)"
      by (intro io_intros)
    show "session_triple T0 (ending T0 {} (sh_imei h, c) {} xs)
      (if \<not> should_start_new_engine_on_session (sh_server_received_at h) last
       then db (upsert_notification_state (sh_imei h) c ''on''
              (case find (\<lambda>session. es_session_status session = ''pending_confirmation'') (rev xs) of
                 None \<Rightarrow> case existing of None \<Rightarrow> 0 | Some st \<Rightarrow> nt_last_message_id st
               | Some session \<Rightarrow> es_prompt_message_id session) (sh_id h))
       else io_bind (finish_active_engine_sessions b c (sh_imei h) xs (sh_server_received_at h) False) (\<lambda>_.
         io_bind (send_engine_on_confirmation b c h) (\<lambda>message_id.
         io_bind (db (create_engine_session (sh_imei h) c (sh_id h) message_id (sh_server_received_at h))) (\<lambda>_.
         db (upsert_notification_state (sh_imei h) c ''on'' message_id (sh_id h)))))) (\<lambda>_. session_inv T0)"
      using on by (auto intro!: session_done session_quiet io_intros)
  qed
qed

lemma safe_finish_fetched:
  "session_safe T0 (io_bind (db (fetch_active_engine_sessions imei c)) (\<lambda>xs.
     io_bind (io_bind (finish_active_engine_sessions b c imei xs t alert) (f xs)) (g xs)))"
  if "\<And>xs y. session_safe T0 (f xs y)" and "\<And>xs y. session_safe T0 (g xs y)"
proof -
  have fg: "session_triple T0 (ending T0 A k B []) (f xs y) (\<lambda>_. session_inv T0)"
    "session_triple T0 (session_inv T0) (g xs z) (\<lambda>_. session_inv T0)" for A k B xs y z
    using that unfolding session_safe_def by (blast intro: session_done)+
  have "session_triple T0 (ending T0 {} (imei, c) {} xs)
      (io_bind (io_bind (finish_active_engine_sessions b c imei xs t alert) (f xs)) (g xs)) (\<lambda>_. session_inv T0)" for xs
    by (rule session_bind [OF session_bind [OF session_finish_active fg(1)] fg(2)])
  then show ?thesis
    unfolding session_safe_def by (rule session_bind [OF session_fetch_active])
qed

lemma safe_notification [safe_intros]: "session_safe T0 (process_heartbeat_notification_for_chat b h status c)"
  unfolding process_heartbeat_notification_for_chat_def
  by (intro safe_intros safe_finish_fetched) (auto intro!: safe_untouched io_intros)

lemma safe_inactive_notification [safe_intros]:
  "session_safe T0 (process_inactive_subscription_notification_for_chat b h status c)"
  unfolding process_inactive_subscription_notification_for_chat_def
  by (auto intro!: safe_untouched io_intros)

lemma session_finish_silently:
  "session_triple T0 (ending T0 A k B xs) (io_for xs (\<lambda>session.
       io_bind (clear_pending_keyboard c session) (\<lambda>_.
         db (resolve_engine_session_at (es_id session) ''finished'' t)))) (\<lambda>_. ending T0 A k B [])"
proof (induction xs)
  case (Cons x xs)
  show ?case
    unfolding io_for.simps
    by (intro session_bind [OF _ Cons.IH] session_quiet_bind stable_ending session_resolve io_intros) simp
qed (simp add: session_return)

lemma safe_finish_inactive [safe_intros]: "session_safe T0 (finish_inactive_subscription_sessions imei c t)"
  unfolding session_safe_def finish_inactive_subscription_sessions_def
  by (intro session_bind [OF session_fetch_active] session_weaken [OF session_finish_silently])
     (auto dest: ending_inv)

lemma safe_notify [safe_intros]: "session_safe T0 (notify_recipient b h status r)"
  unfolding notify_recipient_def by (intro safe_intros)

lemma safe_heartbeat [safe_intros]: "session_safe T0 (process_heartbeat b h)"
  unfolding process_heartbeat_def set_last_notified_def
  by (intro safe_intros) (auto intro!: safe_untouched io_intros)

lemma safe_heartbeats [safe_intros]: "session_safe T0 (process_heartbeat_notifications b)"
  unfolding process_heartbeat_notifications_def
  by (intro safe_intros) (auto intro!: safe_untouched io_intros)

text \<open>The stale sessions are ended group by group; all that remain stay active meanwhile.\<close>

lemma ending_split:
  assumes "ending T0 {} k UNIV (xs @ ys) n T"
  shows "ending T0 (es_id ` set ys) k' UNIV xs n T" "distinct (map es_id ys)"
  using assms by (auto simp: ending_def)

lemma ending_join:
  "ending T0 (es_id ` set ys) k' UNIV [] n T \<Longrightarrow> distinct (map es_id ys) \<Longrightarrow> ending T0 {} k UNIV ys n T"
  by (simp add: ending_def)

lemma ending_skip: "ending T0 {} k UNIV (xs @ ys) n T \<Longrightarrow> ending T0 {} k UNIV ys n T"
  by (auto simp: ending_def)

lemma distinct_groups:
  "distinct ks \<Longrightarrow> distinct (map g xs) \<Longrightarrow> distinct (map g (concat (map (\<lambda>k. filter (\<lambda>r. key r = k) xs) ks)))"
proof (induction ks)
  case (Cons k ks)
  have inj: "inj_on g (set xs)" using Cons.prems(2) by (simp add: distinct_map)
  have "g r \<noteq> g q" if "r \<in> set xs" "key r = k" "q \<in> set xs" "key q \<in> set ks" for r q
    using that Cons.prems(1) inj_onD [OF inj, of r q] by auto
  then show ?case using Cons by (auto simp: distinct_map_filter)
qed simp

lemma session_groups_sessions:
  "set (concat (map snd (session_groups xs))) \<subseteq> set xs"
  "distinct (map es_id xs) \<Longrightarrow> distinct (map es_id (concat (map snd (session_groups xs))))"
  using distinct_groups [of "sort (remdups (map (\<lambda>r. (es_imei r, es_chat_id r)) xs))" es_id xs "\<lambda>r. (es_imei r, es_chat_id r)"]
  by (auto simp: session_groups_def comp_def)

lemma session_stale_group:
  "session_triple T0 (ending T0 {} k UNIV (snd g @ ys)) (finish_stale_group b t g) (\<lambda>_. ending T0 {} k UNIV ys)"
proof -
  obtain imei c xs where g: "g = ((imei, c), xs)" by (cases g) auto
  show ?thesis
  proof (cases "distinct (map es_id ys)")
    case False
    then have "\<not> ending T0 {} k UNIV (snd g @ ys) n T" for n T using ending_split(2) by blast
    then show ?thesis by (simp add: session_triple_def triple_def)
  next
    case True
    have all: "session_triple T0 (ending T0 (es_id ` set ys) (imei, c) UNIV xs)
        (finish_active_engine_sessions b c imei xs u False) (\<lambda>_. ending T0 {} k UNIV ys)" for u
      using session_finish_active by (rule session_weaken) (auto intro: ending_join True)
    then have finish: "session_triple T0 (ending T0 {} k UNIV (xs @ ys))
        (io_unit (finish_active_engine_sessions b c imei xs u False)) (\<lambda>_. ending T0 {} k UNIV ys)" for u
      unfolding session_triple_def
      by (intro triple_unit triple_weaken [OF all [unfolded session_triple_def]]) (auto intro: ending_split)
    show ?thesis
      unfolding finish_stale_group_def g Let_def prod.case snd_conv
    proof (intro session_quiet_bind stable_ending io_intros)
      fix h :: "stored_heartbeat option"
      show "session_triple T0 (ending T0 {} k UNIV (xs @ ys))
        (case h of None \<Rightarrow> io_return ()
         | Some h \<Rightarrow> if \<not> should_finish_stale_engine_session t (sh_server_received_at h) then io_return ()
             else io_unit (finish_active_engine_sessions b c imei xs (sh_server_received_at h) False))
        (\<lambda>_. ending T0 {} k UNIV ys)"
        using finish by (auto intro: session_return ending_skip split: option.split)
    qed
  qed
qed

lemma safe_stale [safe_intros]: "session_safe T0 (process_stale_engine_sessions b)"
proof -
  have loop: "session_triple T0 (ending T0 {} ([], 0) UNIV (concat (map snd groups)))
      (io_for groups (finish_stale_group b t)) (\<lambda>_. ending T0 {} ([], 0) UNIV [])" for t groups
  proof (induction groups)
    case (Cons g gs)
    show ?case unfolding io_for.simps using session_bind [OF session_stale_group Cons.IH] by simp
  qed (simp add: session_return)
  have fetched: "ending T0 {} ([], 0) UNIV (concat (map snd (session_groups (order_by f (filter is_active T))))) n T"
    if inv: "session_inv T0 n T" for n T and f :: "session_row \<Rightarrow> string \<times> int \<times> int \<times> int"
  proof -
    let ?xs = "order_by f (filter is_active T)"
    have "distinct (map es_id T)" using inv by (simp add: session_inv_def sessions_ok_def)
    then have d: "distinct (map es_id ?xs)" by (simp add: distinct_map_filter)
    have ids: "es_id ` set (concat (map snd (session_groups ?xs))) \<subseteq> es_id ` set (filter is_active T)"
      using image_mono [OF session_groups_sessions(1)] by (metis set_order_by)
    show ?thesis
      unfolding ending_def
    proof (intro conjI ballI impI)
      show "is_active r" if "r \<in> set T" "es_id r \<in> {} \<union> es_id ` set (concat (map snd (session_groups ?xs)))" for r
        using that ids by (intro active_by_id [OF inv that(1), of is_active]) auto
    qed (use inv session_groups_sessions(2) [OF d] in simp_all)
  qed
  let ?J = "\<lambda>xs. ending T0 {} ([], 0) UNIV (concat (map snd (session_groups xs)))"
  have fetch: "session_triple T0 (session_inv T0) (db fetch_all_active_engine_sessions) ?J"
    unfolding fetch_all_active_engine_sessions_def is_active_def [symmetric, abs_def]
    by (rule session_select [OF stable_inv]) (auto intro: fetched ending_mono)
  have "session_triple T0 (?J xs) (io_for (session_groups xs) (finish_stale_group b t)) (\<lambda>_. session_inv T0)" for xs t
    using loop by (rule session_weaken) (auto dest: ending_inv)
  then show ?thesis
    unfolding session_safe_def process_stale_engine_sessions_def
    by (intro session_bind [OF fetch] session_quiet_bind stable_ending io_intros)
qed

section \<open>What the alerts leave alone\<close>

lemma untouched_sessions [io_intros]:
  assumes "\<And>s c. view (s\<lparr>telegram_engine_sessions := c\<rparr>) = view s"
  shows "untouched view (update_session i f)" "untouched view (resolve_engine_session_at i st t)"
    "untouched view (set_engine_session_ride_status_message_id i m)"
    "untouched view (create_engine_session imei c h p t)"
  using assms
  by (auto simp: update_session_def resolve_engine_session_at_def set_engine_session_ride_status_message_id_def
      create_engine_session_def intro!: untouched_execute untouched_query)

lemma untouched_finish_sessions [io_intros]:
  assumes "\<And>s c. view (s\<lparr>requests := c\<rparr>) = view s" and "\<And>s c. view (s\<lparr>telegram_engine_sessions := c\<rparr>) = view s"
  shows "untouched view (finish_sessions b c imei t alert xs m)"
  using assms
  by (induction xs arbitrary: m)
     (auto simp: finish_ride_session_and_send_summary_def resolve_engine_session_def intro!: io_intros)

lemma untouched_notify [io_intros]:
  assumes "\<And>s c. view (s\<lparr>requests := c\<rparr>) = view s" and "\<And>s c. view (s\<lparr>telegram_engine_sessions := c\<rparr>) = view s"
    and "\<And>s c. view (s\<lparr>telegram_device_notifications := c\<rparr>) = view s"
  shows "untouched view (notify_recipient b h st r)"
  unfolding notify_recipient_def process_heartbeat_notification_for_chat_def
    process_engine_on_notification_for_chat_def Let_def send_engine_on_confirmation_def
    process_inactive_subscription_notification_for_chat_def finish_inactive_subscription_sessions_def
    finish_active_engine_sessions_def
  using assms by (auto intro!: io_intros)

lemma untouched_alerts [io_intros]:
  assumes "\<And>s c. view (s\<lparr>requests := c\<rparr>) = view s" and "\<And>s c. view (s\<lparr>telegram_engine_sessions := c\<rparr>) = view s"
    and "\<And>s c. view (s\<lparr>telegram_device_notifications := c\<rparr>) = view s"
    and "\<And>s c. view (s\<lparr>telegram_bot_state := c\<rparr>) = view s"
  shows "untouched view (process_heartbeat_notifications b)"
  unfolding process_heartbeat_notifications_def process_heartbeat_def set_last_notified_def
  using assms by (auto intro!: io_intros)

lemma untouched_stale [io_intros]:
  assumes "\<And>s c. view (s\<lparr>requests := c\<rparr>) = view s" and "\<And>s c. view (s\<lparr>telegram_engine_sessions := c\<rparr>) = view s"
  shows "untouched view (process_stale_engine_sessions b)"
  unfolding process_stale_engine_sessions_def finish_stale_group_def fetch_all_active_engine_sessions_def
    finish_active_engine_sessions_def Let_def
  using assms by (auto intro!: io_intros split: prod.split)

end
