(* ===== verification/Bot.thy ===== *)
theory Bot
  imports Users Ranges Sessions
begin

text \<open>
  The interactive half of the Telegram bot, \<open>src/bot.rs\<close>: messages, commands, buttons, analytics
  reports and payments, and the loop that polls for them. A text is the number of its message in
  \<open>src/telegram_messages.rs\<close> with the data in it.
\<close>

section \<open>Remembered messages\<close>

datatype analytics_message_slot = Selector | Report

fun slot_value :: "analytics_message_slot \<Rightarrow> string" where
  "slot_value Selector = ''selector''"
| "slot_value Report = ''report''"

definition pending_analytics_state_key :: "int \<Rightarrow> string" where
  "pending_analytics_state_key chat_id = ''analytics_pending:'' @ show_int chat_id"

definition should_remember_analytics_message :: "analytics_kind \<Rightarrow> bool" where
  "should_remember_analytics_message kind = (kind \<in> {Sessions, Metrics})"

definition analytics_message_state_key :: "int \<Rightarrow> analytics_kind \<Rightarrow> analytics_message_slot \<Rightarrow> string" where
  "analytics_message_state_key chat_id kind slot =
     ''analytics_message:'' @ show_int chat_id @ '':'' @ kind_value kind @ '':'' @ slot_value slot"

definition set_last_analytics_message_id ::
  "int \<Rightarrow> analytics_kind \<Rightarrow> analytics_message_slot \<Rightarrow> int \<Rightarrow> ('z store_scheme, db_error, unit) io" where
  "set_last_analytics_message_id chat_id kind slot message_id =
     set_state_i64 (analytics_message_state_key chat_id kind slot) message_id"

definition get_last_analytics_message_id ::
  "int \<Rightarrow> analytics_kind \<Rightarrow> analytics_message_slot \<Rightarrow> ('z store_scheme, db_error, int option) io" where
  "get_last_analytics_message_id chat_id kind slot =
     get_state_i64 (analytics_message_state_key chat_id kind slot)"

definition clear_last_analytics_message_id ::
  "int \<Rightarrow> analytics_kind \<Rightarrow> analytics_message_slot \<Rightarrow> ('z store_scheme, db_error, unit) io" where
  "clear_last_analytics_message_id chat_id kind slot =
     delete_state_key (analytics_message_state_key chat_id kind slot)"

definition get_pending_analytics_kind :: "int \<Rightarrow> ('z store_scheme, db_error, analytics_kind option) io" where
  "get_pending_analytics_kind chat_id =
     io_bind (get_state_string (pending_analytics_state_key chat_id)) (\<lambda>value.
       io_return (Option.bind value parse_kind))"

definition set_pending_analytics_kind :: "int \<Rightarrow> analytics_kind \<Rightarrow> ('z store_scheme, db_error, unit) io" where
  "set_pending_analytics_kind chat_id kind =
     set_state_string (pending_analytics_state_key chat_id) (kind_value kind)"

definition clear_pending_analytics_kind :: "int \<Rightarrow> ('z store_scheme, db_error, unit) io" where
  "clear_pending_analytics_kind chat_id = delete_state_key (pending_analytics_state_key chat_id)"

definition delete_remembered_analytics_message ::
  "int \<Rightarrow> analytics_kind \<Rightarrow> analytics_message_slot \<Rightarrow> unit bot_io" where
  "delete_remembered_analytics_message chat_id kind slot =
     io_bind (db (get_last_analytics_message_id chat_id kind slot)) (\<lambda>message_id.
     case message_id of
       None \<Rightarrow> io_return ()
     | Some message_id \<Rightarrow>
         io_bind (io_warn (delete_message chat_id message_id)) (\<lambda>_.
         db (clear_last_analytics_message_id chat_id kind slot)))"

definition send_remembered_analytics_message ::
  "bot \<Rightarrow> int \<Rightarrow> analytics_kind \<Rightarrow> analytics_message_slot \<Rightarrow> bot_text \<Rightarrow> keyboard option \<Rightarrow> unit bot_io" where
  "send_remembered_analytics_message b chat_id kind slot text reply_markup =
     io_bind (delete_remembered_analytics_message chat_id kind slot) (\<lambda>_.
     io_bind (send_message_internal b chat_id text reply_markup None) (\<lambda>message_id.
     db (set_last_analytics_message_id chat_id kind slot message_id)))"

section \<open>Reports\<close>

fun analytics_session_reports ::
  "libm \<Rightarrow> string \<Rightarrow> analytics_date_range \<Rightarrow> int \<Rightarrow> analytics_session list
   \<Rightarrow> ('z store_scheme, db_error, analytics_session_report list) io" where
  "analytics_session_reports lm imei dates effective_range_end [] = io_return []"
| "analytics_session_reports lm imei dates effective_range_end (session # sessions) =
     (let (clipped_start, clipped_end) = clipped (ar_started_at dates) effective_range_end session in
      io_bind (if clipped_start < clipped_end then fetch_ride_summary lm imei clipped_start clipped_end
               else io_return (Some \<lparr>rs_total_distance_km = Fin 0, rs_riding_seconds = 0,
                                     rs_average_speed_kph = Fin 0\<rparr>)) (\<lambda>summary.
      io_bind (analytics_session_reports lm imei dates effective_range_end sessions) (\<lambda>session_reports.
      io_return (\<lparr>ap_session = session, ap_clipped_start = clipped_start, ap_clipped_end = clipped_end,
          ap_total_distance_km = (case summary of Some r \<Rightarrow> rs_total_distance_km r | None \<Rightarrow> Fin 0),
          ap_riding_seconds = (case summary of Some r \<Rightarrow> rs_riding_seconds r | None \<Rightarrow> 0)\<rparr> # session_reports))))"

definition analytics_report_text ::
  "bot \<Rightarrow> int \<Rightarrow> string \<Rightarrow> analytics_kind \<Rightarrow> analytics_date_range \<Rightarrow> int \<Rightarrow> bot_text bot_io" where
  "analytics_report_text b chat_id imei kind dates reference_time =
     io_bind (db (fetch_analytics_sessions imei chat_id (ar_started_at dates) (ar_ended_at dates) reference_time)) (\<lambda>sessions.
     let effective_range_end = min reference_time (ar_ended_at dates);
         summary = db (fetch_analytics_ride_summary (bt_libm b) imei sessions (ar_started_at dates) effective_range_end)
     in case kind of
          Sessions \<Rightarrow>
            io_bind (db (analytics_session_reports (bt_libm b) imei dates effective_range_end sessions)) (\<lambda>reports.
              io_return (SessionsReport imei dates reports))
        | Metrics \<Rightarrow> io_bind summary (\<lambda>r. io_return (MetricsReport dates r))
        | TotalKm \<Rightarrow> io_bind summary (\<lambda>r. io_return (TotalKmReport dates r))
        | TotalDrivingTime \<Rightarrow> io_bind summary (\<lambda>r. io_return (DrivingTimeReport dates (rs_riding_seconds r))))"

definition send_analytics_report ::
  "bot \<Rightarrow> int \<Rightarrow> string \<Rightarrow> analytics_kind \<Rightarrow> analytics_date_range \<Rightarrow> int \<Rightarrow> unit bot_io" where
  "send_analytics_report b chat_id imei kind dates reference_time =
     io_bind (analytics_report_text b chat_id imei kind dates reference_time) (\<lambda>text.
     if should_remember_analytics_message kind
     then io_bind (delete_remembered_analytics_message chat_id kind Selector) (\<lambda>_.
          send_remembered_analytics_message b chat_id kind Report text None)
     else io_unit (send_message b chat_id text))"

section \<open>Guards\<close>

definition send_subscription_required_menu :: "bot \<Rightarrow> int \<Rightarrow> unit bot_io" where
  "send_subscription_required_menu b chat_id =
     io_unit (send_message_internal b chat_id (Fixed 15) (Some subscription_payment_keyboard) None)"

definition ensure_active_subscription_for_callback ::
  "bot \<Rightarrow> string \<Rightarrow> int \<Rightarrow> int \<Rightarrow> int option \<Rightarrow> bool bot_io" where
  "ensure_active_subscription_for_callback b callback_query_id chat_id telegram_user_id message_id =
     io_bind (clock_now b) (\<lambda>now.
     io_bind (db (has_active_subscription telegram_user_id now)) (\<lambda>active.
     if active then io_return True
     else
       io_bind (answer_callback_query callback_query_id (Toast 2) False) (\<lambda>_.
       io_bind (case message_id of
                  Some message_id \<Rightarrow> io_warn (clear_inline_keyboard chat_id message_id)
                | None \<Rightarrow> io_return ()) (\<lambda>_.
       io_bind (send_subscription_required_menu b chat_id) (\<lambda>_.
       io_return False)))))"

definition ensure_bound_for_payment :: "string \<Rightarrow> int \<Rightarrow> bool bot_io" where
  "ensure_bound_for_payment callback_query_id telegram_user_id =
     io_bind (db (fetch_telegram_user_by_user_id telegram_user_id)) (\<lambda>user.
     let is_bound = (case user of
           Some user \<Rightarrow> ur_bound_imei user \<noteq> None \<and> ur_registration_status user = Bound
         | None \<Rightarrow> False)
     in io_bind (if \<not> is_bound then answer_callback_query callback_query_id (Toast 3) False
                 else io_return ()) (\<lambda>_.
        io_return is_bound))"

section \<open>Messages\<close>

definition handle_custom_analytics_input ::
  "bot \<Rightarrow> int \<Rightarrow> int \<Rightarrow> user_record \<Rightarrow> analytics_kind \<Rightarrow> string \<Rightarrow> unit bot_io" where
  "handle_custom_analytics_input b chat_id telegram_user_id user kind text =
     (case ur_bound_imei user of
        None \<Rightarrow>
          io_bind (db (clear_pending_analytics_kind chat_id)) (\<lambda>_.
          io_unit (send_message b chat_id (Fixed 6)))
      | Some imei \<Rightarrow>
          io_bind (clock_now b) (\<lambda>now.
          io_bind (db (has_active_subscription telegram_user_id now)) (\<lambda>active.
          if \<not> active
          then io_bind (db (clear_pending_analytics_kind chat_id)) (\<lambda>_.
               send_subscription_required_menu b chat_id)
          else
            (case parse_custom_analytics_range (bt_parse_date b) kind text of
               Inl e \<Rightarrow> io_throw e
             | Inr parsed \<Rightarrow>
                 (case (case parsed of
                          Some dates \<Rightarrow> if ar_started_at dates < ar_ended_at dates then Some dates else None
                        | None \<Rightarrow> None) of
                    None \<Rightarrow> io_unit (send_message b chat_id (Fixed (if kind = Sessions then 7 else 8)))
                  | Some dates \<Rightarrow>
                      io_bind (db (clear_pending_analytics_kind chat_id)) (\<lambda>_.
                      io_bind (clock_now b) (\<lambda>now.
                      send_analytics_report b chat_id imei kind dates now)))))))"

definition handle_command :: "bot \<Rightarrow> int \<Rightarrow> int \<Rightarrow> bot_command \<Rightarrow> unit bot_io" where
  "handle_command b chat_id telegram_user_id command =
     io_bind (db (fetch_telegram_user_by_user_id telegram_user_id)) (\<lambda>user.
     case command of
       Start \<Rightarrow>
         (case (case user of
                  Some user \<Rightarrow> if ur_bound_imei user \<noteq> None then Some user else None
                | None \<Rightarrow> None) of
            Some user \<Rightarrow>
              io_bind (clock_now b) (\<lambda>now.
              io_bind (db (has_active_subscription (ur_telegram_user_id user) now)) (\<lambda>is_active.
              if is_active
              then io_unit (send_message_internal b chat_id (Fixed 14) (Some subscribed_start_menu_keyboard) None)
              else io_bind (io_warn (send_not_subscribed_sticker chat_id)) (\<lambda>_.
                   send_subscription_required_menu b chat_id)))
          | None \<Rightarrow>
              io_bind (db (upsert_telegram_user_registration_state telegram_user_id chat_id AwaitingImei)) (\<lambda>_.
              io_unit (send_message b chat_id (Fixed 9))))
     | Help \<Rightarrow> io_unit (send_message b chat_id (Fixed 10))
     | PaySupport \<Rightarrow> io_unit (send_message b chat_id (Fixed 11))
     | Terms \<Rightarrow> io_unit (send_message b chat_id (Fixed 12))
     | Unknown command \<Rightarrow> io_unit (send_message b chat_id (UnknownCommand command)))"

definition register_device :: "bot \<Rightarrow> int \<Rightarrow> int \<Rightarrow> user_record \<Rightarrow> string \<Rightarrow> unit bot_io" where
  "register_device b chat_id telegram_user_id user imei =
     (if \<not> is_valid_imei imei then io_unit (send_message b chat_id (Fixed 1))
      else if ur_bound_imei user \<noteq> None then io_unit (send_message b chat_id (Fixed 2))
      else
        io_bind (db (device_exists imei)) (\<lambda>known.
        if \<not> known then io_unit (send_message b chat_id (Fixed 3))
        else
          io_bind (db (is_device_bound_to_another_user imei telegram_user_id)) (\<lambda>taken.
          if taken then io_unit (send_message b chat_id (Fixed 4))
          else
            io_bind (db (bind_telegram_user_to_imei telegram_user_id chat_id imei)) (\<lambda>_.
            io_bind (io_unit (send_message b chat_id (BindSuccess imei))) (\<lambda>_.
            io_bind (io_warn (send_bind_success_sticker chat_id)) (\<lambda>_.
            send_subscription_required_menu b chat_id))))))"

definition handle_message :: "bot \<Rightarrow> telegram_message \<Rightarrow> unit bot_io" where
  "handle_message b message =
     (case tg_from message of None \<Rightarrow> io_return () | Some telegram_user_id \<Rightarrow>
      case tg_text message of None \<Rightarrow> io_return () | Some text \<Rightarrow>
      let chat_id = tg_chat message in
      case parse_command text of
        Some command \<Rightarrow> handle_command b chat_id telegram_user_id command
      | None \<Rightarrow>
          io_bind (db (fetch_telegram_user_by_user_id telegram_user_id)) (\<lambda>user.
          case user of None \<Rightarrow> io_return () | Some user \<Rightarrow>
          io_bind (db (get_pending_analytics_kind chat_id)) (\<lambda>pending.
          case pending of
            Some kind \<Rightarrow> handle_custom_analytics_input b chat_id telegram_user_id user kind text
          | None \<Rightarrow>
              if ur_registration_status user \<noteq> AwaitingImei then io_return ()
              else register_device b chat_id telegram_user_id user (trim text))))"

section \<open>Payments\<close>

definition create_payment_link ::
  "bot \<Rightarrow> midtrans_client \<Rightarrow> subscription_plan \<Rightarrow> string \<Rightarrow> int \<Rightarrow> subscription_payment_quote
   \<Rightarrow> midtrans_created_payment bot_io" where
  "create_payment_link b midtrans plan order_id created_at quote =
     (let base = qt_base_amount_idr quote + qt_customer_reference_fee_idr quote;
          request = snap_request_for midtrans plan order_id created_at base (qt_shipment_fee_idr quote)
                      (qt_total_amount_idr quote) (qt_fine_amount_idr quote)
      in io_bind (operation (BotMidtrans Http) (\<lambda>_ s. Inr ((), s\<lparr>requests := requests s @ [SnapTransaction request]\<rparr>))) (\<lambda>_.
         case create_snap_transaction (bt_snap b) midtrans plan order_id created_at base
                (qt_shipment_fee_idr quote) (qt_total_amount_idr quote) (qt_fine_amount_idr quote) of
           Inl e \<Rightarrow> io_throw (BotMidtrans e)
         | Inr created \<Rightarrow> io_return created))"

definition checkout ::
  "bot \<Rightarrow> telegram_callback_query \<Rightarrow> telegram_message \<Rightarrow> midtrans_client \<Rightarrow> user_record \<Rightarrow> unit bot_io" where
  "checkout b callback_query message midtrans user =
     (let chat_id = tg_chat message; telegram_user_id = cq_from callback_query;
          payment_menu_message_id = (case tg_message_id message of Some i \<Rightarrow> i | None \<Rightarrow> 0)
      in
      io_bind (resolve_bound_device_for_user user) (\<lambda>bound_device.
      io_bind (resolve_subscription_plan_for_user midtrans user) (\<lambda>plan.
      io_bind (clock_now b) (\<lambda>created_at.
      let order_id = build_midtrans_order_id telegram_user_id created_at;
          expires_at = created_at + mc_expiry_hours midtrans * 3600 * SECOND
      in
      io_bind (db (build_subscription_payment_quote telegram_user_id plan created_at)) (\<lambda>quote.
      io_bind (db (create_pending_midtrans_payment telegram_user_id chat_id (bd_id bound_device)
                 (bd_imei bound_device) (pl_plan_code plan) order_id (qt_total_amount_idr quote) expires_at)) (\<lambda>_.
      io_bind (create_payment_link b midtrans plan order_id created_at quote) (\<lambda>created.
      io_bind (db (mark_midtrans_payment_created order_id created)) (\<lambda>_.
      io_bind (answer_callback_query (cq_id callback_query) NoText False) (\<lambda>_.
      io_bind (send_message_html b chat_id
                 (PaymentLink plan (cp_payment_url created) (cp_expires_at created)
                   (qt_base_amount_idr quote + qt_customer_reference_fee_idr quote)
                   (qt_shipment_fee_idr quote) (qt_fine_amount_idr quote) (qt_total_amount_idr quote))) (\<lambda>_.
      io_warn (clear_inline_keyboard chat_id payment_menu_message_id)))))))))))"

definition handle_payment_action :: "bot \<Rightarrow> telegram_callback_query \<Rightarrow> payment_action \<Rightarrow> unit bot_io" where
  "handle_payment_action b callback_query action =
     (case cq_message callback_query of
        None \<Rightarrow> answer_callback_query (cq_id callback_query) (Toast 1) False
      | Some message \<Rightarrow>
          io_bind (ensure_bound_for_payment (cq_id callback_query) (cq_from callback_query)) (\<lambda>is_bound.
          if \<not> is_bound then io_return ()
          else
            case bt_midtrans b of None \<Rightarrow> io_throw MissingMidtransConfig | Some midtrans \<Rightarrow>
            io_bind (db (fetch_telegram_user_by_user_id (cq_from callback_query))) (\<lambda>user.
            case user of
              None \<Rightarrow> io_throw (BotMidtrans (InvalidPricingTier ''missing_user''))
            | Some user \<Rightarrow> checkout b callback_query message midtrans user)))"

section \<open>Buttons\<close>

definition handle_analytics_action :: "bot \<Rightarrow> int \<Rightarrow> int \<Rightarrow> analytics_action \<Rightarrow> unit bot_io" where
  "handle_analytics_action b chat_id telegram_user_id action =
     io_bind (db (fetch_telegram_user_by_user_id telegram_user_id)) (\<lambda>user.
     case user of None \<Rightarrow> io_unit (send_message b chat_id (Fixed 6)) | Some user \<Rightarrow>
     case ur_bound_imei user of None \<Rightarrow> io_unit (send_message b chat_id (Fixed 6)) | Some imei \<Rightarrow>
     let kind = aa_kind action in
     if aa_range action = Select
     then let text = ChooseRange (kind_label kind); keyboard = Some (analytics_range_keyboard kind)
          in if should_remember_analytics_message kind
             then send_remembered_analytics_message b chat_id kind Selector text keyboard
             else io_unit (send_message_internal b chat_id text keyboard None)
     else if aa_range action = Custom
     then io_bind (db (set_pending_analytics_kind chat_id kind)) (\<lambda>_.
          let message = Fixed (if kind = Sessions then 37 else 38)
          in if should_remember_analytics_message kind
             then send_remembered_analytics_message b chat_id kind Selector message None
             else io_unit (send_message b chat_id message))
     else if kind = Sessions \<and> aa_range action = Month
     then send_remembered_analytics_message b chat_id kind Selector (Fixed 39) (Some (analytics_range_keyboard kind))
     else
       io_bind (clock_now b) (\<lambda>now.
       case resolve_preset_analytics_range (aa_range action) now of
         Inl e \<Rightarrow> io_throw e
       | Inr None \<Rightarrow> io_throw Panicked
       | Inr (Some dates) \<Rightarrow>
           io_bind (clock_now b) (\<lambda>now. send_analytics_report b chat_id imei kind dates now)))"

definition fetch_latest_location_received_at :: "string \<Rightarrow> ('z store_scheme, db_error, int option) io" where
  "fetch_latest_location_received_at imei =
     select (\<lambda>s. map_option lr_server_received_at
       (latest_by (\<lambda>r. (lr_server_received_at r, lr_id r)) (filter (\<lambda>r. lr_imei r = imei) (device_locations s))))"

definition build_status_session ::
  "bot \<Rightarrow> string \<Rightarrow> int \<Rightarrow> stored_heartbeat option \<Rightarrow> stored_location option \<Rightarrow> engine_session bot_io" where
  "build_status_session b imei chat_id heartbeat location =
     io_bind (case map_option sh_server_received_at heartbeat of
                Some t \<Rightarrow> io_return t
              | None \<Rightarrow> (case Option.bind location sl_last_seen_at of
                  Some t \<Rightarrow> io_return t | None \<Rightarrow> clock_now b)) (\<lambda>created_at.
     io_return \<lparr>es_id = 0, es_imei = imei, es_chat_id = chat_id,
       es_trigger_heartbeat_id = (case heartbeat of Some h \<Rightarrow> sh_id h | None \<Rightarrow> 0),
       es_prompt_message_id = 0, es_ride_status_message_id = None, es_session_status = ''bound'',
       es_created_at = created_at, es_resolved_at = None\<rparr>)"

definition check_latest_status :: "bot \<Rightarrow> int \<Rightarrow> string \<Rightarrow> engine_session option \<Rightarrow> unit bot_io" where
  "check_latest_status b chat_id imei session =
     io_bind (db (fetch_latest_location_for_imei imei)) (\<lambda>location.
     io_bind (db (fetch_latest_heartbeat_for_imei imei)) (\<lambda>latest_heartbeat.
     io_bind (case session of
                Some session \<Rightarrow> io_return session
              | None \<Rightarrow>
                  io_bind (db (fetch_latest_engine_session_for_imei_chat imei chat_id)) (\<lambda>latest.
                  case latest of
                    Some session \<Rightarrow> io_return session
                  | None \<Rightarrow> build_status_session b imei chat_id latest_heartbeat location)) (\<lambda>fallback_session.
     io_bind (clock_now b) (\<lambda>now.
     io_unit (send_message b chat_id (LatestStatus fallback_session latest_heartbeat location now))))))"

fun theft_session_id :: "theft_alert_action \<Rightarrow> int option" where
  "theft_session_id (StreamLocation session_id) = session_id"
| "theft_session_id (CheckLatestStatus session_id) = session_id"
| "theft_session_id (ContactSupport session_id) = session_id"

definition perform_theft_alert_action ::
  "bot \<Rightarrow> int \<Rightarrow> theft_alert_action \<Rightarrow> string \<Rightarrow> engine_session option \<Rightarrow> unit bot_io" where
  "perform_theft_alert_action b chat_id action imei session =
     (case action of
        StreamLocation _ \<Rightarrow>
          io_bind (db (fetch_latest_location_received_at imei)) (\<lambda>start_at.
          io_unit (send_message b chat_id (StreamLocationText imei start_at)))
      | CheckLatestStatus _ \<Rightarrow> check_latest_status b chat_id imei session
      | ContactSupport _ \<Rightarrow> io_unit (send_message b chat_id (Fixed 29)))"

definition handle_theft_alert_action :: "bot \<Rightarrow> telegram_message \<Rightarrow> theft_alert_action \<Rightarrow> unit bot_io" where
  "handle_theft_alert_action b message action =
     (let chat_id = tg_chat message in
      io_bind (db (fetch_telegram_user_by_chat_id chat_id)) (\<lambda>user.
      let bound_imei = Option.bind user ur_bound_imei in
      case theft_session_id action of
        Some session_id \<Rightarrow>
          io_bind (db (fetch_engine_session_by_id session_id)) (\<lambda>session.
          case session of None \<Rightarrow> io_return () | Some session \<Rightarrow>
          if es_chat_id session \<noteq> chat_id then io_return ()
          else perform_theft_alert_action b chat_id action (es_imei session) (Some session))
      | None \<Rightarrow>
          (case bound_imei of
             None \<Rightarrow> io_unit (send_message b chat_id (Fixed 6))
           | Some imei \<Rightarrow> perform_theft_alert_action b chat_id action imei None)))"

definition answer_session_prompt :: "bot \<Rightarrow> int \<Rightarrow> int \<Rightarrow> engine_session \<Rightarrow> session_action \<Rightarrow> unit bot_io" where
  "answer_session_prompt b chat_id prompt_message_id session action =
     io_bind (clear_inline_keyboard chat_id prompt_message_id) (\<lambda>_.
     case action of
       Yes \<Rightarrow>
         io_bind (io_unit (send_message b chat_id (Fixed 23))) (\<lambda>_.
         io_bind (io_warn (send_engine_on_sticker chat_id)) (\<lambda>_.
         db (update_engine_session_status (es_id session) ''confirmed_safe'')))
     | No \<Rightarrow>
         io_bind (io_unit (send_message_internal b chat_id (Fixed 25)
                             (Some (theft_alert_keyboard (Some (es_id session)))) None)) (\<lambda>_.
         io_bind (io_warn (send_theft_warning_sticker chat_id)) (\<lambda>_.
         db (update_engine_session_status (es_id session) ''reported_theft''))))"

definition handle_session_action ::
  "bot \<Rightarrow> telegram_callback_query \<Rightarrow> telegram_message \<Rightarrow> session_action \<Rightarrow> unit bot_io" where
  "handle_session_action b callback_query message action =
     (let chat_id = tg_chat message;
          prompt_message_id = (case tg_message_id message of Some i \<Rightarrow> i | None \<Rightarrow> 0);
          toast = (\<lambda>n. answer_callback_query (cq_id callback_query) (Toast n) False)
      in
      io_bind (ensure_active_subscription_for_callback b (cq_id callback_query) chat_id
                 (cq_from callback_query) (tg_message_id message)) (\<lambda>active.
      if \<not> active then io_return ()
      else
        io_bind (db (fetch_engine_session_by_prompt_message chat_id prompt_message_id)) (\<lambda>session.
        case session of None \<Rightarrow> toast 4 | Some session \<Rightarrow>
        if es_chat_id session \<noteq> chat_id \<or> es_prompt_message_id session \<noteq> prompt_message_id then toast 5
        else if es_session_status session \<noteq> ''pending_confirmation'' then toast 6
        else
          io_bind (answer_callback_query (cq_id callback_query) NoText False) (\<lambda>_.
          answer_session_prompt b chat_id prompt_message_id session action))))"

definition handle_callback_query :: "bot \<Rightarrow> telegram_callback_query \<Rightarrow> unit bot_io" where
  "handle_callback_query b callback_query =
     (let guard = (\<lambda>message. ensure_active_subscription_for_callback b (cq_id callback_query) (tg_chat message)
                     (cq_from callback_query) (tg_message_id message));
          answer = answer_callback_query (cq_id callback_query) NoText False
      in
      case cq_data callback_query of None \<Rightarrow> io_return () | Some data \<Rightarrow>
      case parse_payment_action data of Some action \<Rightarrow> handle_payment_action b callback_query action | None \<Rightarrow>
      case cq_message callback_query of None \<Rightarrow> io_return () | Some message \<Rightarrow>
      case parse_analytics_action data of
        Some action \<Rightarrow>
          io_bind (guard message) (\<lambda>active.
          if \<not> active then io_return ()
          else
            io_bind answer (\<lambda>_.
            io_bind (if aa_range action \<noteq> Select
                     then (case tg_message_id message of
                             Some message_id \<Rightarrow> io_warn (clear_inline_keyboard (tg_chat message) message_id)
                           | None \<Rightarrow> io_return ())
                     else io_return ()) (\<lambda>_.
            handle_analytics_action b (tg_chat message) (cq_from callback_query) action)))
      | None \<Rightarrow>
          (case parse_theft_alert_action data of
             Some action \<Rightarrow>
               io_bind (if requires_active_subscription action then guard message else io_return True) (\<lambda>active.
               if \<not> active then io_return ()
               else io_bind answer (\<lambda>_. handle_theft_alert_action b message action))
           | None \<Rightarrow>
               (case parse_session_action data of
                  None \<Rightarrow> io_return ()
                | Some action \<Rightarrow> handle_session_action b callback_query message action)))"

section \<open>The loop\<close>

definition handle_update :: "bot \<Rightarrow> telegram_update \<Rightarrow> unit bot_io" where
  "handle_update b update =
     io_bind (case up_message update of Some message \<Rightarrow> handle_message b message | None \<Rightarrow> io_return ()) (\<lambda>_.
     io_bind (case up_callback_query update of
                Some callback_query \<Rightarrow> handle_callback_query b callback_query | None \<Rightarrow> io_return ()) (\<lambda>_.
     db (set_state_i64 ''last_telegram_update_id'' (up_update_id update))))"

definition process_updates :: "bot \<Rightarrow> unit bot_io" where
  "process_updates b =
     io_bind (db (get_state_i64 ''last_telegram_update_id'')) (\<lambda>last_update.
     io_bind (get_updates b (map_option (\<lambda>value. value + 1) last_update)) (\<lambda>updates.
     io_for updates (handle_update b)))"

text \<open>The loop logs an error and goes on; a panic ends the program.\<close>

definition io_log :: "unit bot_io \<Rightarrow> unit bot_io" where
  "io_log m = io_try m (\<lambda>r. if r = Inl Panicked then io_throw Panicked else io_return ())"

definition bot_cycle :: "bot \<Rightarrow> unit bot_io" where
  "bot_cycle b =
     io_bind (io_log (process_updates b)) (\<lambda>_.
     io_bind (io_log (process_heartbeat_notifications b)) (\<lambda>_.
     io_log (process_stale_engine_sessions b)))"

text \<open>
  The first cycles of the endless loop; before each, while the bot sleeps, the other programs have
  changed the world.
\<close>

fun run :: "bot \<Rightarrow> (bot_store world \<Rightarrow> bot_store world) list \<Rightarrow> unit bot_io" where
  "run b [] = io_return ()"
| "run b (others # rest) = io_bind (\<lambda>w. (Inr (), others w)) (\<lambda>_. io_bind (bot_cycle b) (\<lambda>_. run b rest))"

section \<open>What the handlers leave alone\<close>

lemma untouched_case_sum [io_intros]:
  "(\<And>e. x = Inl e \<Longrightarrow> untouched view (f e)) \<Longrightarrow> (\<And>y. x = Inr y \<Longrightarrow> untouched view (g y)) \<Longrightarrow>
   untouched view (case x of Inl e \<Rightarrow> f e | Inr y \<Rightarrow> g y)"
  by (cases x) auto

lemma untouched_select_kind [io_intros]: "untouched view (get_pending_analytics_kind c)"
  unfolding get_pending_analytics_kind_def get_state_string_def by (intro io_intros)

lemma untouched_remembered [io_intros]:
  assumes "\<And>s c. view (s\<lparr>requests := c\<rparr>) = view s" and "\<And>s c. view (s\<lparr>telegram_bot_state := c\<rparr>) = view s"
  shows "untouched view (set_pending_analytics_kind c k)" "untouched view (clear_pending_analytics_kind c)"
    "untouched view (delete_remembered_analytics_message c k slot)"
    "untouched view (send_remembered_analytics_message b c k slot t m)"
  using assms
  by (auto simp: set_pending_analytics_kind_def clear_pending_analytics_kind_def
      delete_remembered_analytics_message_def send_remembered_analytics_message_def
      set_last_analytics_message_id_def get_last_analytics_message_id_def clear_last_analytics_message_id_def
      intro!: io_intros)

lemma untouched_session_reports [io_intros]: "untouched view (analytics_session_reports lm imei dates e xs)"
  by (induction lm imei dates e xs rule: analytics_session_reports.induct)
     (auto simp: Let_def fetch_ride_summary_def split: prod.split intro!: io_intros)

lemma untouched_sum_summaries [io_intros]: "untouched view (sum_summaries lm imei a e xs totals)"
  by (induction lm imei a e xs totals rule: sum_summaries.induct)
     (auto simp: Let_def fetch_ride_summary_def split: prod.split intro!: io_intros)

lemma untouched_report_text [io_intros]: "untouched view (analytics_report_text b c imei k dates t)"
  unfolding analytics_report_text_def fetch_analytics_sessions_def fetch_analytics_ride_summary_def Let_def
  by (auto split: analytics_kind.split intro!: io_intros)

lemma untouched_report [io_intros]:
  assumes "\<And>s c. view (s\<lparr>requests := c\<rparr>) = view s" and "\<And>s c. view (s\<lparr>telegram_bot_state := c\<rparr>) = view s"
  shows "untouched view (send_analytics_report b c imei k dates t)"
  unfolding send_analytics_report_def using assms by (auto intro!: io_intros)

lemma untouched_menu [io_intros]:
  assumes "\<And>s c. view (s\<lparr>requests := c\<rparr>) = view s"
  shows "untouched view (send_subscription_required_menu b c)"
    "untouched view (ensure_active_subscription_for_callback b q c u m)" "untouched view (ensure_bound_for_payment q u)"
    "untouched view (create_payment_link b mc plan i t quote)"
  using assms
  by (auto simp: send_subscription_required_menu_def ensure_active_subscription_for_callback_def Let_def
      ensure_bound_for_payment_def create_payment_link_def intro!: io_intros untouched_operation split: sum.split)

lemma untouched_quote [io_intros]: "untouched view (build_subscription_payment_quote u plan t)"
  unfolding build_subscription_payment_quote_def Let_def by (auto intro!: io_intros)

lemma untouched_payments [io_intros]:
  assumes "\<And>s c. view (s\<lparr>telegram_payment_events := c\<rparr>) = view s"
  shows "untouched view (create_pending_midtrans_payment u c d imei plan i g t)"
    "untouched view (mark_midtrans_payment_created i created)"
  using assms
  by (auto simp: create_pending_midtrans_payment_def mark_midtrans_payment_created_def
      intro!: untouched_query split: if_splits)

lemma untouched_custom_input [io_intros]:
  assumes "\<And>s c. view (s\<lparr>requests := c\<rparr>) = view s" and "\<And>s c. view (s\<lparr>telegram_bot_state := c\<rparr>) = view s"
  shows "untouched view (handle_custom_analytics_input b c u user k t)"
  unfolding handle_custom_analytics_input_def using assms by (auto intro!: io_intros split: sum.split)

lemma untouched_analytics_action [io_intros]:
  assumes "\<And>s c. view (s\<lparr>requests := c\<rparr>) = view s" and "\<And>s c. view (s\<lparr>telegram_bot_state := c\<rparr>) = view s"
  shows "untouched view (handle_analytics_action b c u action)"
  unfolding handle_analytics_action_def Let_def using assms by (auto intro!: io_intros split: sum.split)

lemma untouched_payment_action [io_intros]:
  assumes "\<And>s c. view (s\<lparr>requests := c\<rparr>) = view s" and "\<And>s c. view (s\<lparr>telegram_payment_events := c\<rparr>) = view s"
  shows "untouched view (handle_payment_action b q action)"
  unfolding handle_payment_action_def checkout_def Let_def using assms by (auto intro!: io_intros)

lemma untouched_theft_perform [io_intros]:
  assumes "\<And>s c. view (s\<lparr>requests := c\<rparr>) = view s"
  shows "untouched view (perform_theft_alert_action b c action imei session)"
  using assms
  by (cases action) (auto simp: perform_theft_alert_action_def check_latest_status_def
      fetch_latest_location_received_at_def fetch_latest_engine_session_for_imei_chat_def
      build_status_session_def intro!: io_intros)

lemma untouched_theft_action [io_intros]:
  assumes "\<And>s c. view (s\<lparr>requests := c\<rparr>) = view s"
  shows "untouched view (handle_theft_alert_action b m action)"
  unfolding handle_theft_alert_action_def fetch_engine_session_by_id_def Let_def
  using assms by (auto intro!: io_intros)

lemma untouched_command [io_intros]:
  assumes "\<And>s c. view (s\<lparr>requests := c\<rparr>) = view s" and "\<And>s c. view (s\<lparr>telegram_users := c\<rparr>) = view s"
  shows "untouched view (handle_command b c u command)"
  unfolding handle_command_def using assms by (cases command) (auto intro!: io_intros)

lemma untouched_register [io_intros]:
  assumes "\<And>s c. view (s\<lparr>requests := c\<rparr>) = view s" and "\<And>s c. view (s\<lparr>telegram_users := c\<rparr>) = view s"
  shows "untouched view (register_device b c u user imei)"
  unfolding register_device_def using assms by (auto intro!: io_intros)

lemma untouched_message [io_intros]:
  assumes "\<And>s c. view (s\<lparr>requests := c\<rparr>) = view s" and "\<And>s c. view (s\<lparr>telegram_users := c\<rparr>) = view s"
    and "\<And>s c. view (s\<lparr>telegram_bot_state := c\<rparr>) = view s"
  shows "untouched view (handle_message b m)"
  unfolding handle_message_def Let_def using assms by (auto intro!: io_intros)

lemma untouched_session_action [io_intros]:
  assumes "\<And>s c. view (s\<lparr>requests := c\<rparr>) = view s" and "\<And>s c. view (s\<lparr>telegram_engine_sessions := c\<rparr>) = view s"
  shows "untouched view (handle_session_action b q m action)"
  unfolding handle_session_action_def answer_session_prompt_def update_engine_session_status_def update_session_def
    fetch_engine_session_by_prompt_message_def Let_def
  using assms by (cases action) (auto intro!: io_intros untouched_execute)

lemma untouched_callback [io_intros]:
  assumes "\<And>s c. view (s\<lparr>requests := c\<rparr>) = view s" and "\<And>s c. view (s\<lparr>telegram_engine_sessions := c\<rparr>) = view s"
    and "\<And>s c. view (s\<lparr>telegram_bot_state := c\<rparr>) = view s" and "\<And>s c. view (s\<lparr>telegram_payment_events := c\<rparr>) = view s"
  shows "untouched view (handle_callback_query b q)"
  unfolding handle_callback_query_def Let_def using assms by (auto intro!: io_intros)

section \<open>Sessions are safe in the loop\<close>

lemma safe_log [safe_intros]: "session_safe T0 m \<Longrightarrow> session_safe T0 (io_log m)"
  unfolding session_safe_def session_triple_def io_log_def
  by (erule triple_try) (auto intro: triple_return triple_throw)

lemma safe_answer: "session_safe T0 (handle_session_action b q m action)"
proof -
  obtain i where i: "(case tg_message_id m of Some i \<Rightarrow> i | None \<Rightarrow> 0) = i" by simp
  let ?c = "tg_chat m"
  let ?pending = "\<lambda>x n T. session_inv T0 n T \<and> (\<forall>r \<in> set T. case x of None \<Rightarrow> True
      | Some y \<Rightarrow> es_id r = es_id y \<longrightarrow> r = y)"
  have stable: "stable T0 (?pending x)" for x by (auto simp: stable_def intro: session_inv_mono)
  have update: "session_triple T0 (?pending (Some x)) (db (update_engine_session_status (es_id x) st)) (\<lambda>_. session_inv T0)"
    if "es_session_status x = ''pending_confirmation''" "st \<in> {''confirmed_safe'', ''reported_theft''}" for x st
    unfolding update_engine_session_status_def
  proof (rule session_update [OF stable])
    fix n T assume p: "?pending (Some x) n T"
    have step: "row_step x (x\<lparr>es_session_status := st\<rparr>)"
      using that by (auto simp: row_step_def is_active_def active_status_def session_key_def status_step_def)
    show "session_inv T0 n (update_where (\<lambda>r. es_id r = es_id x) (\<lambda>r. r\<lparr>es_session_status := st\<rparr>) T)"
      using p step by (intro session_inv_update) auto
  qed (rule session_inv_mono)
  have perform: "session_triple T0 (?pending (Some x)) (answer_session_prompt b ?c i x action) (\<lambda>_. session_inv T0)"
    if "es_session_status x = ''pending_confirmation''" for x
    unfolding answer_session_prompt_def
    by (cases action; simp only: session_action.case;
        intro session_quiet_bind [OF stable] update [OF that] io_intros; simp)
  have fetch: "session_triple T0 (session_inv T0) (db (fetch_engine_session_by_prompt_message ?c i)) ?pending"
    unfolding fetch_engine_session_by_prompt_message_def
  proof (intro session_select)
    fix n and s :: bot_store
    assume inv: "session_inv T0 n (telegram_engine_sessions s)"
    then have "inj_on es_id (set (telegram_engine_sessions s))"
      by (simp add: session_inv_def sessions_ok_def distinct_map)
    with inv show "?pending (latest_by es_id (filter (\<lambda>r. es_chat_id r = ?c \<and> es_prompt_message_id r = i)
        (telegram_engine_sessions s))) n (telegram_engine_sessions s)"
      by (auto split: option.split dest!: latest_by_max dest: inj_onD)
  qed (auto intro: session_inv_mono)
  have quiet: "session_triple T0 (?pending x) k (\<lambda>_. session_inv T0)" if "untouched telegram_engine_sessions k" for x and k :: "unit bot_io"
    using session_quiet [OF stable that] by (rule session_weaken) auto
  show ?thesis
    unfolding session_safe_def handle_session_action_def Let_def i
  proof (intro session_quiet_bind stable_inv)
    fix active
    show "session_triple T0 (session_inv T0)
      (if \<not> active then io_return ()
       else io_bind (db (fetch_engine_session_by_prompt_message ?c i)) (\<lambda>session.
        case session of None \<Rightarrow> answer_callback_query (cq_id q) (Toast 4) False | Some session \<Rightarrow>
        if es_chat_id session \<noteq> ?c \<or> es_prompt_message_id session \<noteq> i
        then answer_callback_query (cq_id q) (Toast 5) False
        else if es_session_status session \<noteq> ''pending_confirmation''
        then answer_callback_query (cq_id q) (Toast 6) False
        else io_bind (answer_callback_query (cq_id q) NoText False) (\<lambda>_.
             answer_session_prompt b ?c i session action))) (\<lambda>_. session_inv T0)"
    proof (cases active)
      case True
      have "session_triple T0 (?pending (Some x))
         (if es_chat_id x \<noteq> ?c \<or> es_prompt_message_id x \<noteq> i then answer_callback_query (cq_id q) (Toast 5) False
          else if es_session_status x \<noteq> ''pending_confirmation'' then answer_callback_query (cq_id q) (Toast 6) False
          else io_bind (answer_callback_query (cq_id q) NoText False) (\<lambda>_.
             answer_session_prompt b ?c i x action)) (\<lambda>_. session_inv T0)" for x
        using quiet [of "answer_callback_query (cq_id q) (Toast 5) False" "Some x"]
          quiet [of "answer_callback_query (cq_id q) (Toast 6) False" "Some x"]
          session_quiet_bind [OF stable untouched_requests(7) perform, of x "cq_id q" NoText False]
        by (simp add: untouched_requests)
      with quiet [of _ None] show ?thesis
        by (simp add: True) (intro session_bind [OF fetch], simp add: untouched_requests split: option.split)
    qed (simp add: session_return)
  qed (auto intro!: io_intros)
qed

lemma safe_callback [safe_intros]: "session_safe T0 (handle_callback_query b q)"
proof -
  note guards = safe_untouched [OF untouched_menu(2)] safe_untouched [OF untouched_payment_action]
    safe_untouched [OF untouched_theft_action] safe_untouched [OF untouched_analytics_action]
  show ?thesis
    unfolding handle_callback_query_def Let_def
    by (intro safe_intros safe_answer guards) (auto intro!: safe_untouched io_intros)
qed

lemma safe_cycle [safe_intros]: "session_safe T0 (bot_cycle b)"
  unfolding bot_cycle_def process_updates_def handle_update_def
  by (intro safe_intros) (auto intro!: safe_untouched io_intros)

end
