(* ===== verification/Distance.thy ===== *)
theory Distance
  imports Store Calendar "HOL-Library.List_Lexorder" "HOL-Library.Char_ord"
begin

text \<open>
  Distance tracking, \<open>src/service_distance.rs\<close>: the acceptance of a segment between two
  successive location points, the transactional update of the odometer and the daily totals, and
  the backfill that recomputes both from the stored locations. The mathematical library is the
  parameter \<open>lm\<close>. Every SQL statement is one operation of the world; the foreign keys, the check
  constraints and the overflow of a \<open>DOUBLE PRECISION\<close> sum are its possible errors.
\<close>

section \<open>Constants and data\<close>

definition MIN_SEGMENT_METERS :: f64 where "MIN_SEGMENT_METERS = Fin 5"
definition MAX_POINT_GAP_SECONDS :: int where "MAX_POINT_GAP_SECONDS = 5 * 60"
definition MAX_PLAUSIBLE_SPEED_KPH :: f64 where "MAX_PLAUSIBLE_SPEED_KPH = Fin 180"
definition MIN_REPORTED_MOVING_SPEED_KPH :: int where "MIN_REPORTED_MOVING_SPEED_KPH = 2"

record distance_location_point =
  dp_id :: int
  dp_server_received_at :: int
  dp_latitude :: f64
  dp_longitude :: f64
  dp_speed_kph :: int

record previous_distance_point =
  pp_id :: int
  pp_server_received_at :: int
  pp_latitude :: f64
  pp_longitude :: f64
  pp_speed_kph :: int

section \<open>Accepting a segment\<close>

definition haversine_distance_meters :: "libm \<Rightarrow> f64 \<Rightarrow> f64 \<Rightarrow> f64 \<Rightarrow> f64 \<Rightarrow> f64" where
  "haversine_distance_meters lm start_latitude start_longitude end_latitude end_longitude =
     (let earth_radius_meters = Fin 6371000;
          start_latitude = to_radians start_latitude;
          end_latitude = to_radians end_latitude;
          delta_latitude = fsub end_latitude start_latitude;
          delta_longitude = to_radians (fsub end_longitude start_longitude);
          square = (\<lambda>x. fmul x x);
          a = fadd (square (fsin lm (fdiv delta_latitude (Fin 2))))
                (fmul (fmul (fcos lm start_latitude) (fcos lm end_latitude))
                   (square (fsin lm (fdiv delta_longitude (Fin 2)))));
          c = fmul (Fin 2) (fatan2 lm (fsqrt lm a) (fsqrt lm (fsub (Fin 1) a)))
      in fmul earth_radius_meters c)"

definition valid_coordinates :: "f64 \<Rightarrow> f64 \<Rightarrow> bool" where
  "valid_coordinates latitude longitude =
     (is_finite latitude \<and> is_finite longitude
      \<and> (fle (Fin (-90)) latitude \<and> fle latitude (Fin 90))
      \<and> (fle (Fin (-180)) longitude \<and> fle longitude (Fin 180)))"

definition accepted_segment_meters ::
  "libm \<Rightarrow> previous_distance_point \<Rightarrow> distance_location_point \<Rightarrow> f64 option" where
  "accepted_segment_meters lm previous current =
     (if \<not> valid_coordinates (pp_latitude previous) (pp_longitude previous)
         \<or> \<not> valid_coordinates (dp_latitude current) (dp_longitude current) then None
      else let gap_seconds = num_seconds (dp_server_received_at current - pp_server_received_at previous) in
      if \<not> (1 \<le> gap_seconds \<and> gap_seconds \<le> MAX_POINT_GAP_SECONDS) then None
      else if pp_speed_kph previous < MIN_REPORTED_MOVING_SPEED_KPH
              \<and> dp_speed_kph current < MIN_REPORTED_MOVING_SPEED_KPH then None
      else let distance_meters = haversine_distance_meters lm (pp_latitude previous)
                 (pp_longitude previous) (dp_latitude current) (dp_longitude current) in
      if flt distance_meters MIN_SEGMENT_METERS then None
      else let implied_speed_kph = fdiv (fdiv distance_meters (Fin 1000))
                 (fdiv (f64_of_int gap_seconds) (Fin 3600)) in
      if flt MAX_PLAUSIBLE_SPEED_KPH implied_speed_kph then None
      else Some distance_meters)"

section \<open>The odometer\<close>

text \<open>The last processed point, present when none of its columns is \<open>NULL\<close>.\<close>

definition previous_point :: "odometer_row \<Rightarrow> previous_distance_point option" where
  "previous_point row =
     (case (od_last_processed_location_id row, od_last_server_received_at row,
            od_last_latitude row, od_last_longitude row, od_last_speed_kph row) of
        (Some i, Some t, Some lat, Some lon, Some speed) \<Rightarrow>
          Some \<lparr>pp_id = i, pp_server_received_at = t, pp_latitude = lat, pp_longitude = lon,
                pp_speed_kph = speed\<rparr>
      | _ \<Rightarrow> None)"

text \<open>
  \<open>DOUBLE PRECISION\<close> addition raises an error where a finite sum overflows, and \<open>CHECK (x >= 0)\<close>
  holds of a NaN, which PostgreSQL orders above every number.
\<close>

definition pg_add :: "f64 \<Rightarrow> f64 \<Rightarrow> f64 option" where
  "pg_add a b = (let c = fadd a b in if is_finite a \<and> is_finite b \<and> \<not> is_finite c then None else Some c)"

definition pg_non_negative :: "f64 \<Rightarrow> bool" where
  "pg_non_negative a = (a = NaN \<or> fle (Fin 0) a)"

definition fresh_odometer :: "string \<Rightarrow> f64 \<times> distance_location_point \<Rightarrow> odometer_row" where
  "fresh_odometer imei = (\<lambda>(meters, point).
     \<lparr>od_imei = imei, od_total_distance_meters = meters,
      od_last_processed_location_id = Some (dp_id point),
      od_last_server_received_at = Some (dp_server_received_at point),
      od_last_latitude = Some (dp_latitude point),
      od_last_longitude = Some (dp_longitude point),
      od_last_speed_kph = Some (dp_speed_kph point)\<rparr>)"

definition merge_odometer :: "f64 \<times> distance_location_point \<Rightarrow> odometer_row \<Rightarrow> odometer_row" where
  "merge_odometer = (\<lambda>(meters, point) row.
     \<lparr>od_imei = od_imei row,
      od_total_distance_meters = fadd (od_total_distance_meters row) meters,
      od_last_processed_location_id = Some (dp_id point),
      od_last_server_received_at = Some (dp_server_received_at point),
      od_last_latitude = Some (dp_latitude point),
      od_last_longitude = Some (dp_longitude point),
      od_last_speed_kph = Some (dp_speed_kph point)\<rparr>)"

definition upsert_odometer ::
  "string \<Rightarrow> f64 \<Rightarrow> distance_location_point \<Rightarrow> 'z store_scheme \<Rightarrow> db_error + unit \<times> 'z store_scheme" where
  "upsert_odometer imei meters point s =
     (if imei \<notin> set (map dv_imei (devices s)) \<or> dp_id point \<notin> set (map lr_id (device_locations s))
      then Inl ForeignKeyViolation
      else case (case lookup od_imei imei (device_distance_odometer s) of
                   None \<Rightarrow> Some meters
                 | Some row \<Rightarrow> pg_add (od_total_distance_meters row) meters) of
             None \<Rightarrow> Inl NumericOverflow
           | Some stored \<Rightarrow>
               if \<not> pg_non_negative meters \<or> \<not> pg_non_negative stored then Inl CheckViolation
               else Inr ((), s\<lparr>device_distance_odometer :=
                      upsert od_imei imei (fresh_odometer imei (meters, point))
                        (merge_odometer (meters, point)) (device_distance_odometer s)\<rparr>))"

definition daily_key :: "daily_row \<Rightarrow> string \<times> int" where
  "daily_key row = (dd_imei row, dd_distance_date row)"

definition fresh_daily :: "string \<times> int \<Rightarrow> f64 \<Rightarrow> daily_row" where
  "fresh_daily k meters = \<lparr>dd_imei = fst k, dd_distance_date = snd k, dd_distance_meters = meters\<rparr>"

definition merge_daily :: "f64 \<Rightarrow> daily_row \<Rightarrow> daily_row" where
  "merge_daily meters row = row\<lparr>dd_distance_meters := fadd (dd_distance_meters row) meters\<rparr>"

definition upsert_daily ::
  "string \<Rightarrow> int \<Rightarrow> f64 \<Rightarrow> 'z store_scheme \<Rightarrow> db_error + unit \<times> 'z store_scheme" where
  "upsert_daily imei date meters s =
     (if imei \<notin> set (map dv_imei (devices s)) then Inl ForeignKeyViolation
      else case (case lookup daily_key (imei, date) (device_distance_daily s) of
                   None \<Rightarrow> Some meters
                 | Some row \<Rightarrow> pg_add (dd_distance_meters row) meters) of
             None \<Rightarrow> Inl NumericOverflow
           | Some stored \<Rightarrow>
               if \<not> pg_non_negative meters \<or> \<not> pg_non_negative stored then Inl CheckViolation
               else Inr ((), s\<lparr>device_distance_daily :=
                      upsert daily_key (imei, date) (fresh_daily (imei, date) meters)
                        (merge_daily meters) (device_distance_daily s)\<rparr>))"

definition process_location_distance ::
  "libm \<Rightarrow> string \<Rightarrow> distance_location_point \<Rightarrow> ('z store_scheme, db_error, f64) io" where
  "process_location_distance lm imei point =
     io_bind (execute (\<lambda>s. s)) (\<lambda>_.
     io_bind (select (\<lambda>s. lookup od_imei imei (device_distance_odometer s))) (\<lambda>row.
     let previous = Option.bind row previous_point in
     if (case previous of Some p \<Rightarrow> dp_id point \<le> pp_id p | None \<Rightarrow> False) then io_return (Fin 0)
     else
       let accepted_meters =
             (case Option.bind previous (\<lambda>p. accepted_segment_meters lm p point) of
                Some meters \<Rightarrow> meters | None \<Rightarrow> Fin 0)
       in io_bind (query (\<lambda>_. upsert_odometer imei accepted_meters point)) (\<lambda>_.
          io_bind (if flt (Fin 0) accepted_meters
                   then query (\<lambda>_. upsert_daily imei (wib_date (dp_server_received_at point)) accepted_meters)
                   else io_return ()) (\<lambda>_.
          io_return accepted_meters))))"

section \<open>Backfill\<close>

definition point_of_location :: "location_row \<Rightarrow> distance_location_point" where
  "point_of_location row =
     \<lparr>dp_id = lr_id row, dp_server_received_at = lr_server_received_at row,
      dp_latitude = lk_latitude (lr_columns row), dp_longitude = lk_longitude (lr_columns row),
      dp_speed_kph = lk_speed_kph (lr_columns row)\<rparr>"

text \<open>The points of a device in \<open>ORDER BY id ASC\<close>.\<close>

definition stored_points :: "string \<Rightarrow> 'z store_scheme \<Rightarrow> distance_location_point list" where
  "stored_points imei s =
     map point_of_location (order_by lr_id (filter (\<lambda>r. lr_imei r = imei) (device_locations s)))"

definition backfill_device_distance :: "libm \<Rightarrow> string \<Rightarrow> ('z store_scheme, db_error, unit) io" where
  "backfill_device_distance lm imei =
     io_bind (select (stored_points imei)) (\<lambda>points.
       transaction (
         io_bind (execute (\<lambda>s. s\<lparr>device_distance_daily :=
                    filter (\<lambda>r. dd_imei r \<noteq> imei) (device_distance_daily s)\<rparr>)) (\<lambda>_.
         io_bind (execute (\<lambda>s. s\<lparr>device_distance_odometer :=
                    filter (\<lambda>r. od_imei r \<noteq> imei) (device_distance_odometer s)\<rparr>)) (\<lambda>_.
         io_for points (\<lambda>point.
           io_bind (process_location_distance lm imei point) (\<lambda>_. io_return ()))))))"

definition backfill_all_device_distances :: "libm \<Rightarrow> ('z store_scheme, db_error, unit) io" where
  "backfill_all_device_distances lm =
     io_bind (select (\<lambda>s. sort (map dv_imei (devices s)))) (\<lambda>imeis.
       io_for imeis (backfill_device_distance lm))"

section \<open>Interpretations of the upserts\<close>

interpretation odometer: upsert_contract od_imei fresh_odometer merge_odometer
  by unfold_locales (auto simp: fresh_odometer_def merge_odometer_def split: prod.splits)

interpretation daily: upsert_contract daily_key fresh_daily merge_daily
  by unfold_locales (auto simp: fresh_daily_def merge_daily_def daily_key_def)

section \<open>Abstract distance tracking\<close>

text \<open>
  What the tables say about one device: its odometer row and its distance per day. \<open>distance_step\<close>
  processes one point on this view, \<open>replay\<close> a sequence of points from nothing.
\<close>

type_synonym distances = "odometer_row option \<times> (int \<Rightarrow> f64 option)"

definition distances :: "string \<Rightarrow> 'z store_scheme \<Rightarrow> distances" where
  "distances imei s =
     (lookup od_imei imei (device_distance_odometer s),
      \<lambda>d. map_option dd_distance_meters (lookup daily_key (imei, d) (device_distance_daily s)))"

definition segment :: "libm \<Rightarrow> odometer_row option \<Rightarrow> distance_location_point \<Rightarrow> f64" where
  "segment lm odo point =
     (case Option.bind (Option.bind odo previous_point) (\<lambda>p. accepted_segment_meters lm p point) of
        Some meters \<Rightarrow> meters | None \<Rightarrow> Fin 0)"

definition replayed :: "odometer_row option \<Rightarrow> distance_location_point \<Rightarrow> bool" where
  "replayed odo point =
     (case Option.bind odo previous_point of Some p \<Rightarrow> dp_id point \<le> pp_id p | None \<Rightarrow> False)"

definition distance_step :: "libm \<Rightarrow> string \<Rightarrow> distances \<Rightarrow> distance_location_point \<Rightarrow> distances" where
  "distance_step lm imei ds point =
     (let (odo, days) = ds; meters = segment lm odo point;
          d = wib_date (dp_server_received_at point) in
      if replayed odo point then ds
      else (Some (case odo of None \<Rightarrow> fresh_odometer imei (meters, point)
                  | Some row \<Rightarrow> merge_odometer (meters, point) row),
            if flt (Fin 0) meters
            then days(d \<mapsto> (case days d of None \<Rightarrow> meters | Some old \<Rightarrow> fadd old meters))
            else days))"

definition replay :: "libm \<Rightarrow> string \<Rightarrow> distance_location_point list \<Rightarrow> distances" where
  "replay lm imei points = foldl (distance_step lm imei) (None, Map.empty) points"

section \<open>Processing refines the abstract step\<close>

definition same_inputs :: "'z store_scheme \<Rightarrow> 'z store_scheme \<Rightarrow> bool" where
  "same_inputs s t \<longleftrightarrow> devices t = devices s \<and> device_locations t = device_locations s
     \<and> device_heartbeats t = device_heartbeats s"

lemma same_inputs_refl [simp]: "same_inputs s s"
  by (simp add: same_inputs_def)

lemma same_inputs_trans: "same_inputs s t \<Longrightarrow> same_inputs t u \<Longrightarrow> same_inputs s u"
  by (simp add: same_inputs_def)

lemma upsert_odometer_ok:
  "upsert_odometer imei m p s = Inr (x, t) \<Longrightarrow>
   t = s\<lparr>device_distance_odometer := upsert od_imei imei (fresh_odometer imei (m, p))
            (merge_odometer (m, p)) (device_distance_odometer s)\<rparr>"
  by (auto simp: upsert_odometer_def split: if_splits option.splits)

lemma upsert_daily_ok:
  "upsert_daily imei d m s = Inr (x, t) \<Longrightarrow>
   t = s\<lparr>device_distance_daily := upsert daily_key (imei, d) (fresh_daily (imei, d) m)
            (merge_daily m) (device_distance_daily s)\<rparr>"
  by (auto simp: upsert_daily_def split: if_splits option.splits)

lemma distances_odometer:
  "distances j (s\<lparr>device_distance_odometer := upsert od_imei imei (fresh_odometer imei a)
       (merge_odometer a) (device_distance_odometer s)\<rparr>) =
   (if j = imei
    then (Some (case fst (distances imei s) of None \<Rightarrow> fresh_odometer imei a
                | Some row \<Rightarrow> merge_odometer a row), snd (distances imei s))
    else distances j s)"
  by (simp add: distances_def odometer.lookup_same odometer.lookup_other)

lemma distances_daily:
  "distances j (s\<lparr>device_distance_daily := upsert daily_key (imei, d) (fresh_daily (imei, d) m)
       (merge_daily m) (device_distance_daily s)\<rparr>) =
   (if j = imei
    then (fst (distances imei s), (snd (distances imei s))(d \<mapsto>
            (case snd (distances imei s) d of None \<Rightarrow> m | Some old \<Rightarrow> fadd old m)))
    else distances j s)"
proof -
  have "map_option dd_distance_meters (lookup daily_key (j, e) (upsert daily_key (imei, d)
          (fresh_daily (imei, d) m) (merge_daily m) (device_distance_daily s))) =
      (if j = imei \<and> e = d
       then Some (case map_option dd_distance_meters (lookup daily_key (imei, d) (device_distance_daily s)) of
               None \<Rightarrow> m | Some old \<Rightarrow> fadd old m)
       else map_option dd_distance_meters (lookup daily_key (j, e) (device_distance_daily s)))" for e
  proof (cases "j = imei \<and> e = d")
    case True
    then show ?thesis
      by (simp add: daily.lookup_same split: option.split) (simp add: fresh_daily_def merge_daily_def)
  next
    case False
    then have "(j, e) \<noteq> (imei, d)" by simp
    then show ?thesis using daily.lookup_other [of "(j, e)" "(imei, d)"] False by auto
  qed
  then show ?thesis by (auto simp: distances_def)
qed

lemma process_alt:
  "process_location_distance lm imei p =
     io_bind (execute (\<lambda>s. s)) (\<lambda>_.
     io_bind (select (\<lambda>s. lookup od_imei imei (device_distance_odometer s))) (\<lambda>odo.
     if replayed odo p then io_return (Fin 0)
     else io_bind (query (\<lambda>_. upsert_odometer imei (segment lm odo p) p)) (\<lambda>_.
          io_bind (if flt (Fin 0) (segment lm odo p)
                   then query (\<lambda>_. upsert_daily imei (wib_date (dp_server_received_at p)) (segment lm odo p))
                   else io_return ()) (\<lambda>_.
          io_return (segment lm odo p)))))"
  unfolding process_location_distance_def replayed_def segment_def Let_def by (rule refl)

abbreviation odometer_of :: "string \<Rightarrow> 'z store_scheme \<Rightarrow> odometer_row option" where
  "odometer_of imei s \<equiv> fst (distances imei s)"

lemma process_cases [consumes 1, case_names replayed step]:
  assumes "process_location_distance lm imei p w = (Inr x, w')"
  obtains "replayed (odometer_of imei (wdb w)) p" "x = Fin 0" "wdb w' = wdb w"
  | w2 where "\<not> replayed (odometer_of imei (wdb w)) p" "x = segment lm (odometer_of imei (wdb w)) p"
    "wdb w2 = wdb w"
    "io_bind (query (\<lambda>_. upsert_odometer imei x p)) (\<lambda>_.
       io_bind (if flt (Fin 0) x
                then query (\<lambda>_. upsert_daily imei (wib_date (dp_server_received_at p)) x)
                else io_return ()) (\<lambda>_.
       io_return x)) w2 = (Inr x, w')"
proof -
  from assms [unfolded process_alt bind_ok] obtain odo w1 w2 where
    1: "execute (\<lambda>s. s) w = (Inr (), w1)"
    and 2: "select (\<lambda>s. lookup od_imei imei (device_distance_odometer s)) w1 = (Inr odo, w2)"
    and rest: "(if replayed odo p then io_return (Fin 0)
      else io_bind (query (\<lambda>_. upsert_odometer imei (segment lm odo p) p)) (\<lambda>_.
           io_bind (if flt (Fin 0) (segment lm odo p)
                    then query (\<lambda>_. upsert_daily imei (wib_date (dp_server_received_at p)) (segment lm odo p))
                    else io_return ()) (\<lambda>_.
           io_return (segment lm odo p)))) w2 = (Inr x, w')" by auto
  have odo: "odo = odometer_of imei (wdb w)" and w2: "wdb w2 = wdb w"
    using execute_ok [OF 1] select_ok [OF 2] by (simp_all add: distances_def)
  show thesis
  proof (cases "replayed odo p")
    case True
    then show thesis using rest w2 odo that(1) by simp
  next
    case False
    then have neg: "\<not> replayed (odometer_of imei (wdb w)) p" using odo by simp
    from rest False have x: "x = segment lm (odometer_of imei (wdb w)) p"
      by (auto simp: bind_ok odo)
    show thesis
      using rest [unfolded odo] neg by (intro that(2) [OF neg x w2]) (simp only: if_False flip: x)
  qed
qed

lemma process_refines:
  assumes "process_location_distance lm imei p w = (Inr x, w')"
  shows "distances imei (wdb w') = distance_step lm imei (distances imei (wdb w)) p
    \<and> (\<forall>j. j \<noteq> imei \<longrightarrow> distances j (wdb w') = distances j (wdb w))
    \<and> same_inputs (wdb w) (wdb w')"
proof -
  let ?odo = "odometer_of imei (wdb w)"
  from assms show ?thesis
  proof (cases rule: process_cases)
    case replayed
    then show ?thesis by (simp add: distance_step_def Let_def split_def)
  next
    case (step w2)
    note False = step(1) and w2 = step(3) and rest = step(4) [unfolded step(2)]
    define m d where "m = segment lm ?odo p" and "d = wib_date (dp_server_received_at p)"
    define t where "t = (wdb w)\<lparr>device_distance_odometer := upsert od_imei imei
        (fresh_odometer imei (m, p)) (merge_odometer (m, p)) (device_distance_odometer (wdb w))\<rparr>"
    have t: "distances j t = (if j = imei
        then (Some (case ?odo of None \<Rightarrow> fresh_odometer imei (m, p) | Some row \<Rightarrow> merge_odometer (m, p) row),
              snd (distances imei (wdb w))) else distances j (wdb w))" for j
      unfolding t_def by (rule distances_odometer)
    have same: "same_inputs (wdb w) t" by (simp add: t_def same_inputs_def)
    from rest [folded m_def d_def] obtain w3 where 3: "wdb w3 = t" and
      4: "(if flt (Fin 0) m then query (\<lambda>_. upsert_daily imei d m) else io_return ()) w3 = (Inr (), w')"
      using w2 by (auto simp: bind_ok t_def dest!: query_ok upsert_odometer_ok)
    have step: "distance_step lm imei (distances imei (wdb w)) p =
        (Some (case ?odo of None \<Rightarrow> fresh_odometer imei (m, p) | Some row \<Rightarrow> merge_odometer (m, p) row),
         if flt (Fin 0) m
         then (snd (distances imei (wdb w)))(d \<mapsto> (case snd (distances imei (wdb w)) d of
                 None \<Rightarrow> m | Some old \<Rightarrow> fadd old m))
         else snd (distances imei (wdb w)))"
      unfolding distance_step_def Let_def m_def d_def split_def using False by simp
    show ?thesis
    proof (cases "flt (Fin 0) m")
      case True
      with 3 4 have w': "wdb w' = t\<lparr>device_distance_daily := upsert daily_key (imei, d)
          (fresh_daily (imei, d) m) (merge_daily m) (device_distance_daily t)\<rparr>"
        by (auto dest!: query_ok upsert_daily_ok)
      have "same_inputs t (wdb w')" by (simp add: w' same_inputs_def)
      then have "same_inputs (wdb w) (wdb w')" using same by (rule same_inputs_trans [rotated])
      then show ?thesis unfolding step using True by (simp add: w' distances_daily t)
    next
      case no: False
      with 3 4 have "wdb w' = t" by simp
      then show ?thesis unfolding step using no same by (simp add: t)
    qed
  qed
qed

section \<open>Backfill refines the replay of the stored points\<close>

lemma find_filter: "find p (filter q xs) = find (\<lambda>x. q x \<and> p x) xs"
  by (induction xs) auto

lemma lookup_filter_other:
  "(\<And>r. key r = k \<Longrightarrow> q r) \<Longrightarrow> lookup key k (filter q rows) = lookup key k rows"
  unfolding lookup_def find_filter by (rule arg_cong2 [where f = find]) auto

lemma lookup_filter_None:
  "(\<And>r. key r = k \<Longrightarrow> \<not> q r) \<Longrightarrow> lookup key k (filter q rows) = None"
  unfolding lookup_None_iff by auto

definition cleared :: "string \<Rightarrow> 'z store_scheme \<Rightarrow> 'z store_scheme" where
  "cleared imei s = s\<lparr>device_distance_daily := filter (\<lambda>r. dd_imei r \<noteq> imei) (device_distance_daily s),
     device_distance_odometer := filter (\<lambda>r. od_imei r \<noteq> imei) (device_distance_odometer s)\<rparr>"

lemma distances_cleared: "distances j (cleared imei s) = (if j = imei then (None, Map.empty) else distances j s)"
proof -
  have "lookup daily_key (j, d) (filter (\<lambda>r. dd_imei r \<noteq> imei) rows) =
      (if j = imei then None else lookup daily_key (j, d) rows)" for d and rows :: "daily_row list"
    by (auto simp: daily_key_def intro!: lookup_filter_other lookup_filter_None)
  moreover have "lookup od_imei j (filter (\<lambda>r. od_imei r \<noteq> imei) rows) =
      (if j = imei then None else lookup od_imei j rows)" for rows :: "odometer_row list"
    by (auto intro!: lookup_filter_other lookup_filter_None)
  ultimately show ?thesis by (simp add: distances_def cleared_def)
qed

lemma process_loop:
  fixes w :: "'z store_scheme world"
  assumes "io_for ps (\<lambda>p. io_bind (process_location_distance lm imei p) (\<lambda>_. io_return ())) w = (Inr (), w')"
  shows "distances imei (wdb w') = foldl (distance_step lm imei) (distances imei (wdb w)) ps
    \<and> (\<forall>j. j \<noteq> imei \<longrightarrow> distances j (wdb w') = distances j (wdb w)) \<and> same_inputs (wdb w) (wdb w')"
proof -
  have "distances imei (wdb w') = foldl (distance_step lm imei) (distances imei (wdb w)) ps
    \<and> ((\<forall>j. j \<noteq> imei \<longrightarrow> distances j (wdb w') = distances j (wdb w)) \<and> same_inputs (wdb w) (wdb w'))"
  proof (rule for_ok [OF _ assms, where P = "\<lambda>s. (\<forall>j. j \<noteq> imei \<longrightarrow> distances j s = distances j (wdb w))
      \<and> same_inputs (wdb w) s" and view = "distances imei"])
    fix p and y :: unit and v v' :: "'z store_scheme world"
    assume "io_bind (process_location_distance lm imei p) (\<lambda>_. io_return ()) v = (Inr y, v')"
    then obtain x where "process_location_distance lm imei p v = (Inr x, v')" by (auto simp: bind_ok)
    from process_refines [OF this]
    show "(\<forall>j. j \<noteq> imei \<longrightarrow> distances j (wdb v) = distances j (wdb w)) \<and> same_inputs (wdb w) (wdb v) \<Longrightarrow>
        distances imei (wdb v') = distance_step lm imei (distances imei (wdb v)) p
        \<and> (\<forall>j. j \<noteq> imei \<longrightarrow> distances j (wdb v') = distances j (wdb w)) \<and> same_inputs (wdb w) (wdb v')"
      by (auto intro: same_inputs_trans)
  qed simp
  then show ?thesis by simp
qed

text \<open>The backfill reads the points before it begins its transaction.\<close>

definition rebuild_distances ::
  "libm \<Rightarrow> string \<Rightarrow> distance_location_point list \<Rightarrow> ('z store_scheme, db_error, unit) io" where
  "rebuild_distances lm imei points =
     transaction (
       io_bind (execute (\<lambda>s. s\<lparr>device_distance_daily :=
                  filter (\<lambda>r. dd_imei r \<noteq> imei) (device_distance_daily s)\<rparr>)) (\<lambda>_.
       io_bind (execute (\<lambda>s. s\<lparr>device_distance_odometer :=
                  filter (\<lambda>r. od_imei r \<noteq> imei) (device_distance_odometer s)\<rparr>)) (\<lambda>_.
       io_for points (\<lambda>point.
         io_bind (process_location_distance lm imei point) (\<lambda>_. io_return ())))))"

lemma backfill_parts:
  "backfill_device_distance lm imei = io_bind (select (stored_points imei)) (rebuild_distances lm imei)"
  by (simp add: backfill_device_distance_def rebuild_distances_def [abs_def])

lemma rebuild_refines:
  assumes "rebuild_distances lm imei points w = (Inr (), w')"
  shows "distances imei (wdb w') = replay lm imei points
    \<and> (\<forall>j. j \<noteq> imei \<longrightarrow> distances j (wdb w') = distances j (wdb w)) \<and> same_inputs (wdb w) (wdb w')"
proof -
  from assms obtain w2 w3 where
    w2: "wdb w2 = wdb w" and "wseq w2 = wseq w + 1" and body: "io_bind (execute (\<lambda>s. s\<lparr>device_distance_daily :=
                    filter (\<lambda>r. dd_imei r \<noteq> imei) (device_distance_daily s)\<rparr>)) (\<lambda>_.
         io_bind (execute (\<lambda>s. s\<lparr>device_distance_odometer :=
                    filter (\<lambda>r. od_imei r \<noteq> imei) (device_distance_odometer s)\<rparr>)) (\<lambda>_.
         io_for points (\<lambda>point.
           io_bind (process_location_distance lm imei point) (\<lambda>_. io_return ())))) w2 = (Inr (), w3)"
    and w3: "wdb w' = wdb w3" and "wseq w3 \<le> wseq w'"
    unfolding rebuild_distances_def by (rule transaction_commits)
  from body obtain w4 where w4: "wdb w4 = cleared imei (wdb w)" and
    loop: "io_for points (\<lambda>p. io_bind (process_location_distance lm imei p) (\<lambda>_. io_return ())) w4 = (Inr (), w3)"
    using w2 by (auto simp: bind_ok cleared_def dest!: execute_ok)
  have "same_inputs (wdb w) (wdb w4)" by (simp add: w4 cleared_def same_inputs_def)
  then have "same_inputs (wdb w) (wdb w')"
    using process_loop [OF loop] w3 by (metis same_inputs_trans)
  then show ?thesis
    using process_loop [OF loop] by (simp add: w3 w4 distances_cleared replay_def)
qed

lemma backfill_refines:
  assumes "backfill_device_distance lm imei w = (Inr (), w')"
  shows "distances imei (wdb w') = replay lm imei (stored_points imei (wdb w))
    \<and> (\<forall>j. j \<noteq> imei \<longrightarrow> distances j (wdb w') = distances j (wdb w)) \<and> same_inputs (wdb w) (wdb w')"
proof -
  from assms obtain points w1 where "select (stored_points imei) w = (Inr points, w1)"
    and "rebuild_distances lm imei points w1 = (Inr (), w')"
    unfolding backfill_parts bind_ok by blast
  then show ?thesis using select_ok rebuild_refines by metis
qed

lemma same_inputs_points: "same_inputs s t \<Longrightarrow> stored_points imei t = stored_points imei s"
  by (simp add: same_inputs_def stored_points_def)

section \<open>Bounds of an accepted segment\<close>

lemma round64_le: "x \<le> y \<Longrightarrow> round64 y = Fin y \<Longrightarrow> \<exists>v. (round64 x = Fin v \<and> v \<le> y) \<or> round64 x = Inf True"
  using round64_mono [of x y] by (cases "round64 x") auto

lemma round64_ge: "y \<le> x \<Longrightarrow> round64 y = Fin y \<Longrightarrow> fle (Fin y) (round64 x)"
  using round64_mono [of y x] by simp

lemma dyadic_exact:
  "\<bar>m\<bar> < 2 ^ 53 \<Longrightarrow> \<bar>of_int m / 2 ^ n\<bar> < (2 ^ 1024 :: rat) \<Longrightarrow> n \<le> 1074 \<Longrightarrow>
   round64 (of_int m / 2 ^ n) = Fin (of_int m / 2 ^ n)"
  by (rule round64_exact [where e = "- int n"]) (auto simp: power_int_def field_simps)

lemma hours_bounds:
  assumes "1 \<le> gap" and "gap \<le> 300"
  shows "\<exists>g. fdiv (f64_of_int gap) (Fin 3600) = Fin g \<and> 0 < g \<and> g \<le> 174763 / 2 ^ 21"
proof -
  have "fdiv (f64_of_int gap) (Fin 3600) = round64 (of_int gap / 3600)"
    using assms by (simp add: f64_of_int_exact)
  moreover have "of_int gap / 3600 \<le> (174763 / 2 ^ 21 :: rat)"
  proof -
    have "(of_int gap :: rat) \<le> 300" using assms(2) by (simp only: of_int_le_numeral_iff)
    then show ?thesis by simp
  qed
  moreover have "1 / 2 ^ 12 \<le> (of_int gap / 3600 :: rat)"
  proof -
    have "(1 :: rat) \<le> of_int gap" using assms(1) by (simp only: of_int_1_le_iff)
    then show ?thesis by simp
  qed
  moreover have "round64 (174763 / 2 ^ 21) = Fin (174763 / 2 ^ 21)" "round64 (1 / 2 ^ 12) = Fin (1 / 2 ^ 12)"
    using dyadic_exact [of 174763 21] dyadic_exact [of 1 12] by simp_all
  ultimately show ?thesis
    using round64_mono [of "of_int gap / 3600" "174763 / 2 ^ 21"] round64_mono [of "1 / 2 ^ 12" "of_int gap / 3600"]
    by (cases "round64 (of_int gap / 3600)") auto
qed

lemma implied_speed_bound:
  assumes "1 \<le> gap" and "gap \<le> 300" and "15001 \<le> x"
  shows "flt (Fin 180) (fdiv (fdiv (Fin x) (Fin 1000)) (fdiv (f64_of_int gap) (Fin 3600)))"
proof -
  obtain g where g: "fdiv (f64_of_int gap) (Fin 3600) = Fin g" "0 < g" "g \<le> 174763 / 2 ^ 21"
    using hours_bounds [OF assms(1,2)] by blast
  have "(30721 / 2 ^ 11 :: rat) \<le> x / 1000" using assms(3) by simp
  moreover have "round64 (30721 / 2 ^ 11) = Fin (30721 / 2 ^ 11)"
    using dyadic_exact [of 30721 11] by simp
  ultimately have km: "fle (Fin (30721 / 2 ^ 11)) (round64 (x / 1000))" by (rule round64_ge)
  show ?thesis
  proof (cases "round64 (x / 1000)")
    case (Fin r)
    with km have r: "30721 / 2 ^ 11 \<le> r" by simp
    have "(184321 / 2 ^ 10) * g \<le> (184321 / 2 ^ 10) * (174763 / 2 ^ 21 :: rat)"
      using g(3) by (intro mult_left_mono) auto
    also have "\<dots> \<le> 30721 / 2 ^ 11" by simp
    finally have "184321 / 2 ^ 10 \<le> r / g" using r g(2) by (simp add: le_divide_eq)
    moreover have "round64 (184321 / 2 ^ 10) = Fin (184321 / 2 ^ 10)"
      using dyadic_exact [of 184321 10] by simp
    ultimately have "fle (Fin (184321 / 2 ^ 10)) (round64 (r / g))" by (rule round64_ge)
    then show ?thesis using g(1,2) Fin by (cases "round64 (r / g)") auto
  next
    case NaN
    with km show ?thesis by simp
  next
    case (Inf b)
    with km g(1,2) show ?thesis by simp
  qed
qed

lemma accepted_segment_cases:
  assumes "accepted_segment_meters lm p q = Some meters"
  shows "valid_coordinates (pp_latitude p) (pp_longitude p) \<and> valid_coordinates (dp_latitude q) (dp_longitude q)
    \<and> 1 \<le> num_seconds (dp_server_received_at q - pp_server_received_at p)
    \<and> num_seconds (dp_server_received_at q - pp_server_received_at p) \<le> 300
    \<and> (2 \<le> pp_speed_kph p \<or> 2 \<le> dp_speed_kph q)
    \<and> meters = haversine_distance_meters lm (pp_latitude p) (pp_longitude p) (dp_latitude q) (dp_longitude q)
    \<and> \<not> flt meters (Fin 5)
    \<and> \<not> flt (Fin 180) (fdiv (fdiv meters (Fin 1000))
        (fdiv (f64_of_int (num_seconds (dp_server_received_at q - pp_server_received_at p))) (Fin 3600)))"
  using assms
  by (auto simp: accepted_segment_meters_def Let_def MAX_POINT_GAP_SECONDS_def MIN_SEGMENT_METERS_def
      MAX_PLAUSIBLE_SPEED_KPH_def MIN_REPORTED_MOVING_SPEED_KPH_def split: if_splits)

lemma accepted_meters:
  assumes "accepted_segment_meters lm p q = Some meters" and "meters \<noteq> NaN"
  shows "\<exists>x. meters = Fin x \<and> 5 \<le> x \<and> x < 15001"
proof -
  note c = accepted_segment_cases [OF assms(1)]
  obtain g where "fdiv (f64_of_int (num_seconds (dp_server_received_at q - pp_server_received_at p)))
      (Fin 3600) = Fin g" "0 < g"
    using c hours_bounds by blast
  then show ?thesis
  proof (cases meters)
    case (Fin x)
    then show ?thesis using c implied_speed_bound by (metis flt.simps(1) not_less)
  qed (use c assms(2) in auto)
qed

text \<open>A library whose angles are all \<open>2\<^sup>-\<^sup>2\<^sup>0\<close>, for concrete instances: about twelve metres.\<close>

definition sample_libm :: libm where
  "sample_libm = \<lparr>fsin = (\<lambda>_. Fin 0), fcos = (\<lambda>_. Fin 0), fatan2 = (\<lambda>_ _. Fin (1 / 2 ^ 20)),
                  fsqrt = (\<lambda>_. Fin 0)\<rparr>"

lemma sample_distance: "haversine_distance_meters sample_libm a b c d = Fin (6371000 / 2 ^ 19)"
  using dyadic_exact [of 1 19] dyadic_exact [of 796375 16]
  by (simp add: haversine_distance_meters_def sample_libm_def Let_def)

lemma sample_speed:
  "fdiv (fdiv (Fin (6371000 / 2 ^ 19)) (Fin 1000)) (fdiv (f64_of_int 225) (Fin 3600)) = Fin (6371 / 2 ^ 15)"
  using dyadic_exact [of 6371 19] dyadic_exact [of 1 4] dyadic_exact [of 6371 15]
  by (simp add: f64_of_int_exact)

lemma sample_accepted:
  "accepted_segment_meters sample_libm
     \<lparr>pp_id = i, pp_server_received_at = 0, pp_latitude = Fin 1, pp_longitude = Fin 1, pp_speed_kph = 20\<rparr>
     \<lparr>dp_id = j, dp_server_received_at = 225000000, dp_latitude = Fin 1, dp_longitude = Fin 1, dp_speed_kph = 20\<rparr>
   = Some (Fin (6371000 / 2 ^ 19))"
proof -
  have "num_seconds 225000000 = 225" by (simp add: num_seconds_def tdiv_nonneg)
  then show ?thesis
    using sample_speed
    by (simp add: accepted_segment_meters_def sample_distance valid_coordinates_def Let_def
        MAX_POINT_GAP_SECONDS_def MIN_SEGMENT_METERS_def MAX_PLAUSIBLE_SPEED_KPH_def
        MIN_REPORTED_MOVING_SPEED_KPH_def)
qed

section \<open>Properties of distance tracking\<close>

text \<open>
  C19. What an accepted segment is: both points have coordinates in range, the second was
  received 1 to 300 seconds after the first, at least one of them reported a moving speed, and the
  distance is the great-circle distance between them. Unless that is a NaN it is at least 5
  and below 15001 metres (180 km/h for five minutes, up to rounding).
\<close>

theorem accepted_segment_bounds:
  assumes "accepted_segment_meters lm p q = Some meters"
  shows "valid_coordinates (pp_latitude p) (pp_longitude p) \<and> valid_coordinates (dp_latitude q) (dp_longitude q)
    \<and> pp_server_received_at p + SECOND \<le> dp_server_received_at q
    \<and> dp_server_received_at q < pp_server_received_at p + 301 * SECOND
    \<and> (2 \<le> pp_speed_kph p \<or> 2 \<le> dp_speed_kph q)
    \<and> meters = haversine_distance_meters lm (pp_latitude p) (pp_longitude p) (dp_latitude q) (dp_longitude q)
    \<and> (meters = NaN \<or> (\<exists>x. meters = Fin x \<and> 5 \<le> x \<and> x < 15001))"
  using accepted_segment_cases [OF assms] accepted_meters [OF assms]
    num_seconds_range [of 300 1 "dp_server_received_at q - pp_server_received_at p"]
  by auto

lemma accepted_segment_bounds_witness:
  "valid_coordinates (Fin 1) (Fin 1)
    \<and> (Fin (6371000 / 2 ^ 19) = NaN \<or> (\<exists>x. Fin (6371000 / 2 ^ 19) = Fin x \<and> 5 \<le> x \<and> x < 15001))"
  using accepted_segment_bounds [OF sample_accepted] by (simp add: sample_distance)

text \<open>
  C16. The backfill recomputes exactly the replay of the stored locations: when it succeeds, the
  odometer and the daily distances of the device are what processing its locations one by one in
  the order of their identifiers gives, whatever the tables held before; no other device's
  distances change, and neither do the devices and locations.
\<close>

theorem backfill_recomputes:
  assumes "backfill_device_distance lm imei w = (Inr (), w')"
  shows "distances imei (wdb w') = replay lm imei (stored_points imei (wdb w))
    \<and> (\<forall>j. j \<noteq> imei \<longrightarrow> distances j (wdb w') = distances j (wdb w)) \<and> same_inputs (wdb w) (wdb w')"
  using assms by (rule backfill_refines)

lemma backfill_recomputes_witness:
  "\<exists>w' :: store world. backfill_device_distance sample_libm ''1'' \<lparr>wdb = empty_store, wseq = 1, wsched = []\<rparr> = (Inr (), w')
    \<and> distances ''1'' (wdb w') = (None, Map.empty)"
proof -
  have "\<exists>w'. backfill_device_distance sample_libm ''1'' \<lparr>wdb = empty_store, wseq = 1, wsched = []\<rparr> = (Inr (), w')"
    by (simp add: backfill_device_distance_def io_run empty_store_def stored_points_def order_by_def Let_def)
  then obtain w' :: "store world" where
    w': "backfill_device_distance sample_libm ''1'' \<lparr>wdb = empty_store, wseq = 1, wsched = []\<rparr> = (Inr (), w')" ..
  from backfill_recomputes [OF w'] have "distances ''1'' (wdb w') = (None, Map.empty)"
    by (simp add: stored_points_def empty_store_def order_by_def replay_def)
  with w' show ?thesis by blast
qed

lemma previous_after_step:
  "previous_point (fresh_odometer imei (m, p)) = Some \<lparr>pp_id = dp_id p,
      pp_server_received_at = dp_server_received_at p, pp_latitude = dp_latitude p,
      pp_longitude = dp_longitude p, pp_speed_kph = dp_speed_kph p\<rparr>"
  "previous_point (merge_odometer (m, p) row) = Some \<lparr>pp_id = dp_id p,
      pp_server_received_at = dp_server_received_at p, pp_latitude = dp_latitude p,
      pp_longitude = dp_longitude p, pp_speed_kph = dp_speed_kph p\<rparr>"
  by (simp_all add: previous_point_def fresh_odometer_def merge_odometer_def)

lemma replayed_after_step: "replayed (fst (distance_step lm imei ds p)) p"
  by (auto simp: distance_step_def Let_def split_def replayed_def previous_after_step split: option.split)

lemma process_result:
  "process_location_distance lm imei p w = (Inr x, w') \<Longrightarrow>
   x = (if replayed (odometer_of imei (wdb w)) p then Fin 0 else segment lm (odometer_of imei (wdb w)) p)"
  by (cases rule: process_cases) auto

lemma process_replayed:
  "process_location_distance lm imei p w = (Inr x, w') \<Longrightarrow> replayed (odometer_of imei (wdb w)) p \<Longrightarrow>
   x = Fin 0 \<and> wdb w' = wdb w"
  by (cases rule: process_cases) auto

lemma segment_nonneg: "segment lm odo p \<noteq> NaN \<Longrightarrow> fle (Fin 0) (segment lm odo p)"
proof (cases "Option.bind odo previous_point")
  case (Some q)
  assume "segment lm odo p \<noteq> NaN"
  with Some show ?thesis
    using accepted_meters [of lm q p]
    by (cases "accepted_segment_meters lm q p") (auto simp: segment_def)
qed (simp add: segment_def)

text \<open>
  Processing a location twice counts it once: after a successful processing, processing the
  same point again changes no table and returns zero metres.
\<close>

theorem process_twice:
  assumes "process_location_distance lm imei p w = (Inr x, w1)"
    and "process_location_distance lm imei p w1 = (Inr y, w2)"
  shows "y = Fin 0 \<and> wdb w2 = wdb w1"
proof -
  have "replayed (fst (distances imei (wdb w1))) p"
    using process_refines [OF assms(1)] replayed_after_step by metis
  from process_replayed [OF assms(2) this] show ?thesis .
qed

text \<open>A database with one device and one location, and what processing it does.\<close>

definition sample_device :: "string \<Rightarrow> device_row" where
  "sample_device imei = \<lparr>dv_id = 1, dv_imei = imei, dv_first_seen_at = 0, dv_last_seen_at = 0,
     dv_last_login_at = None, dv_last_heartbeat_at = None, dv_last_location_at = None,
     dv_latest_peer_addr = None, dv_latest_protocol_number = None, dv_latest_packet_family = None,
     dv_latest_location = None, dv_latest_heartbeat = None, dv_updated_at = 0, dv_sim_card = None,
     dv_sim_card_expiration_date = None, dv_referenced_by_customer_id = None,
     dv_pricing_tier = ''basic'', dv_shipment_fee_idr = None\<rparr>"

definition sample_location :: "int \<Rightarrow> int \<Rightarrow> location_row" where
  "sample_location i t = \<lparr>lr_id = i, lr_device_id = 1, lr_imei = ''1'', lr_server_received_at = t,
     lr_columns = \<lparr>lk_gps_timestamp = t, lk_protocol_number = 18, lk_packet_family = ''location'',
       lk_latitude = Fin 1, lk_longitude = Fin 1, lk_speed_kph = 20, lk_course = 0,
       lk_course_status = 0, lk_satellite_count = 8, lk_gps_info_length = 12,
       lk_extra_data_hex = []\<rparr>, lr_peer_addr = ''p''\<rparr>"

definition sample_world :: "store world" where
  "sample_world = \<lparr>wdb = empty_store\<lparr>devices := [sample_device ''1''],
     device_locations := [sample_location 2 0, sample_location 3 (225 * SECOND)]\<rparr>, wseq = 4, wsched = []\<rparr>"

lemma process_twice_witness:
  "\<exists>x w1 y w2. process_location_distance sample_libm ''1'' (point_of_location (sample_location 2 0)) sample_world
      = (Inr x, w1)
    \<and> process_location_distance sample_libm ''1'' (point_of_location (sample_location 2 0)) w1 = (Inr y, w2)
    \<and> y = Fin 0 \<and> wdb w2 = wdb w1"
proof -
  let ?p = "point_of_location (sample_location 2 0)"
  have "\<exists>x w1 y w2. process_location_distance sample_libm ''1'' ?p sample_world = (Inr x, w1)
      \<and> process_location_distance sample_libm ''1'' ?p w1 = (Inr y, w2)"
    by (simp add: process_location_distance_def io_run sample_world_def empty_store_def Let_def
        upsert_odometer_def sample_device_def sample_location_def point_of_location_def
        pg_non_negative_def upsert_def lookup_Cons fresh_odometer_def previous_point_def)
  then obtain x w1 y w2 where p: "process_location_distance sample_libm ''1'' ?p sample_world = (Inr x, w1)"
    "process_location_distance sample_libm ''1'' ?p w1 = (Inr y, w2)" by blast
  from process_twice [OF this] p show ?thesis by blast
qed

text \<open>
  The odometer never runs backwards: a successful processing that does not accept a NaN leaves
  a total that is at least the previous one, for every double the column can hold.
\<close>

theorem odometer_monotone:
  assumes "process_location_distance lm imei p w = (Inr x, w')" and "x \<noteq> NaN"
    and "lookup od_imei imei (device_distance_odometer (wdb w)) = Some row"
    and "is_f64 (od_total_distance_meters row)" and "fle (Fin 0) (od_total_distance_meters row)"
  shows "\<exists>row'. lookup od_imei imei (device_distance_odometer (wdb w')) = Some row'
    \<and> fle (od_total_distance_meters row) (od_total_distance_meters row')"
proof -
  have row: "fst (distances imei (wdb w)) = Some row" using assms(3) by (simp add: distances_def)
  have "fle (od_total_distance_meters row) (od_total_distance_meters row)"
    using assms(5) by (cases "od_total_distance_meters row") auto
  moreover have "fle (od_total_distance_meters row) (fadd (od_total_distance_meters row) x)"
    if "x = segment lm (Some row) p"
  proof (rule fadd_increasing)
    show "fle (Fin 0) x" using that assms(2) segment_nonneg by blast
  qed (use assms(4,5) in auto)
  moreover have "x = (if replayed (Some row) p then Fin 0 else segment lm (Some row) p)"
    using process_result [OF assms(1)] row by simp
  moreover have "fst (distances imei (wdb w')) = fst (distance_step lm imei (distances imei (wdb w)) p)"
    using process_refines [OF assms(1)] by simp
  ultimately show ?thesis
    using row by (auto simp: distance_step_def Let_def split_def distances_def merge_odometer_def
        split: if_splits)
qed

definition sample_world_2 :: "store world" where
  "sample_world_2 = sample_world\<lparr>wdb := (wdb sample_world)\<lparr>device_distance_odometer :=
     [fresh_odometer ''1'' (Fin 0, point_of_location (sample_location 2 0))]\<rparr>\<rparr>"

lemma odometer_monotone_witness:
  "\<exists>x w' row'. process_location_distance sample_libm ''1'' (point_of_location (sample_location 3 (225 * SECOND)))
      sample_world_2 = (Inr x, w')
    \<and> lookup od_imei ''1'' (device_distance_odometer (wdb w')) = Some row'
    \<and> fle (Fin 0) (od_total_distance_meters row')"
proof -
  let ?row = "fresh_odometer ''1'' (Fin 0, point_of_location (sample_location 2 0))"
  let ?p = "point_of_location (sample_location 3 (225 * SECOND))"
  have m: "segment sample_libm (Some ?row) ?p = Fin (6371000 / 2 ^ 19)"
    by (simp add: segment_def previous_after_step point_of_location_def sample_location_def
        sample_accepted)
  have r: "\<not> replayed (Some ?row) ?p"
    by (simp add: replayed_def previous_after_step point_of_location_def sample_location_def)
  have row: "lookup od_imei ''1'' (device_distance_odometer (wdb sample_world_2)) = Some ?row"
    by (simp add: sample_world_2_def lookup_Cons fresh_odometer_def)
  have "\<exists>w'. process_location_distance sample_libm ''1'' ?p sample_world_2 = (Inr (Fin (6371000 / 2 ^ 19)), w')"
    using m r dyadic_exact [of 796375 16]
    by (simp add: process_alt io_run sample_world_2_def sample_world_def empty_store_def lookup_Cons
        upsert_odometer_def upsert_daily_def sample_device_def pg_non_negative_def pg_add_def Let_def
        fresh_odometer_def point_of_location_def sample_location_def)
  then obtain w' where w': "process_location_distance sample_libm ''1'' ?p sample_world_2
      = (Inr (Fin (6371000 / 2 ^ 19)), w')" ..
  have "is_f64 (od_total_distance_meters ?row)" "fle (Fin 0) (od_total_distance_meters ?row)"
    by (simp_all add: fresh_odometer_def round64_def)
  from odometer_monotone [OF w' _ row this] w' show ?thesis by (auto simp: fresh_odometer_def)
qed

text \<open>
  A NaN passes both comparisons: for two points whose haversine term exceeds one by rounding, as it
  does for exactly antipodal points, the distance is a NaN and the segment is accepted.
\<close>

lemma nan_distance_is_accepted:
  assumes "haversine_distance_meters lm (pp_latitude p) (pp_longitude p) (dp_latitude q) (dp_longitude q) = NaN"
    and "valid_coordinates (pp_latitude p) (pp_longitude p)" "valid_coordinates (dp_latitude q) (dp_longitude q)"
    and "1 \<le> num_seconds (dp_server_received_at q - pp_server_received_at p)"
    and "num_seconds (dp_server_received_at q - pp_server_received_at p) \<le> 300" and "2 \<le> dp_speed_kph q"
  shows "accepted_segment_meters lm p q = Some NaN"
  using assms
  by (simp add: accepted_segment_meters_def Let_def MAX_POINT_GAP_SECONDS_def MIN_SEGMENT_METERS_def
      MAX_PLAUSIBLE_SPEED_KPH_def MIN_REPORTED_MOVING_SPEED_KPH_def)

end
