(* ===== verification/Api.thy ===== *)
theory Api
  imports Users Ranges Distance
begin

text \<open>
  What the handlers of the HTTP API, \<open>src/api.rs\<close>, share: the errors and their status codes, the
  state of the server, transactions whose body has errors of its own, and the bounds of a WIB day.
  A response is the record that the code serializes, with instants and dates as numbers where the
  code formats them.
\<close>

section \<open>Errors\<close>

text \<open>\<open>ApiPanicked\<close> stands for a failing \<open>expect\<close>: the connection ends without a response.\<close>

datatype api_error =
    ApiMissingDatabase | ApiDatabase database_error | ApiBind | InvalidStartAt | InvalidEndAt | InvalidDate
  | InvalidSortOrder | InvalidSimCardExpirationDate | InvalidFuelCalibration string
  | FuelCalibrationAlreadyActive | FuelCalibrationNotFound | DeviceNotFound | ApiQuery db_error
  | ApiHttp | MissingMidtransServerKey | InvalidMidtransSignature | UnsupportedMidtransStatus
  | ApiPanicked

fun error_status :: "api_error \<Rightarrow> nat option" where
  "error_status InvalidStartAt = Some 400"
| "error_status InvalidEndAt = Some 400"
| "error_status InvalidDate = Some 400"
| "error_status InvalidSortOrder = Some 400"
| "error_status InvalidSimCardExpirationDate = Some 400"
| "error_status (InvalidFuelCalibration _) = Some 400"
| "error_status InvalidMidtransSignature = Some 400"
| "error_status UnsupportedMidtransStatus = Some 400"
| "error_status DeviceNotFound = Some 404"
| "error_status FuelCalibrationNotFound = Some 404"
| "error_status FuelCalibrationAlreadyActive = Some 409"
| "error_status ApiPanicked = None"
| "error_status _ = Some 500"

section \<open>The server\<close>

text \<open>
  \<open>AppState\<close>, and what the handlers take from outside: the clocks of the server and of the
  database by the number of the operation, the mathematical library, SHA-512 in hexadecimal, and
  chrono's parsers of RFC 3339 instants and of dates; and the profile of the build, whose overflow
  checks decide what becomes of an \<open>i64\<close> operation that leaves its range.
\<close>

record api =
  ap_midtrans_server_key :: "string option"
  ap_telegram_bot_token :: "string option"
  ap_clock :: "int \<Rightarrow> int"
  ap_sql_clock :: "int \<Rightarrow> int"
  ap_libm :: libm
  ap_sha512_hex :: "string \<Rightarrow> string"
  ap_parse_date :: "string \<Rightarrow> int option"
  ap_parse_rfc3339 :: "string \<Rightarrow> int option"
  ap_overflow_checks :: bool

text \<open>The result of \<open>+\<close> or \<open>*\<close> on \<open>i64\<close>: out of range it panics in a debug build and wraps around in a release build.\<close>

definition i64_result :: "bool \<Rightarrow> int \<Rightarrow> api_error + int" where
  "i64_result overflow_checks x =
     (if as_i64 x = x then Inr x else if overflow_checks then Inl ApiPanicked else Inr (as_i64 x))"

lemma i64_result_id: "- (2 ^ 63) \<le> x \<Longrightarrow> x < 2 ^ 63 \<Longrightarrow> i64_result overflow_checks x = Inr x"
  by (simp add: i64_result_def as_i64_id)

lemma i64_result_range:
  "i64_result overflow_checks x = Inr y \<Longrightarrow> - (2 ^ 63) \<le> y \<and> y < 2 ^ 63"
  "i64_result overflow_checks x = Inl e \<Longrightarrow> e = ApiPanicked \<and> overflow_checks"
  using signed_take_bit_int_greater_eq_minus_exp [of 63 x] signed_take_bit_int_less_exp [of 63 x]
  by (auto simp: i64_result_def as_i64_def split: if_splits)

type_synonym ('z, 'a) api_io = "('z store_scheme, api_error, 'a) io"

abbreviation pool :: "('s, db_error, 'a) io \<Rightarrow> ('s, api_error, 'a) io" where
  "pool \<equiv> io_map_error ApiQuery"

definition api_now :: "api \<Rightarrow> ('s, api_error, int) io" where
  "api_now a w = (Inr (ap_clock a (wseq w)), w)"

definition sql_now :: "api \<Rightarrow> ('s, api_error, int) io" where
  "sql_now a w = (Inr (ap_sql_clock a (wseq w)), w)"

definition api_result :: "api_error + 'a \<Rightarrow> ('s, api_error, 'a) io" where
  "api_result r = (case r of Inl e \<Rightarrow> io_throw e | Inr x \<Rightarrow> io_return x)"

text \<open>A transaction that an early return drops, and so rolls back.\<close>

definition api_transaction :: "('s, api_error, 'a) io \<Rightarrow> ('s, api_error, 'a) io" where
  "api_transaction m w =
     (case pool (execute (\<lambda>s. s)) w of
        (Inl e, w1) \<Rightarrow> (Inl e, w1)
      | (Inr _, w1) \<Rightarrow>
          (case io_bind m (\<lambda>x. io_bind (pool (execute (\<lambda>s. s))) (\<lambda>_. io_return x)) w1 of
             (Inl e, w2) \<Rightarrow> (Inl e, w2\<lparr>wdb := wdb w1\<rparr>)
           | (Inr x, w2) \<Rightarrow> (Inr x, w2)))"

section \<open>Days\<close>

definition wib_day_bounds :: "(string \<Rightarrow> int option) \<Rightarrow> string \<Rightarrow> api_error + int \<times> int \<times> int" where
  "wib_day_bounds parse_date text =
     (case parse_date text of None \<Rightarrow> Inl InvalidDate | Some date \<Rightarrow>
      case and_hms_opt date 0 0 0 of None \<Rightarrow> Inl ApiPanicked | Some local_start \<Rightarrow>
      let start_at = local_start - WIB_OFFSET_SECONDS * SECOND in
      if start_at < NAIVE_DATE_MIN * DAY then Inl ApiPanicked
      else Inr (date, start_at, start_at + DAY))"

definition complete_subscribed_days :: "int \<Rightarrow> int \<Rightarrow> int" where
  "complete_subscribed_days first_subscribed_at now = max 0 (tdiv (now - first_subscribed_at) DAY)"

section \<open>Rules\<close>

lemma untouched_api_now [io_intros]: "untouched view (api_now a)"
  by (simp add: untouched_def api_now_def)

lemma untouched_sql_now [io_intros]: "untouched view (sql_now a)"
  by (simp add: untouched_def sql_now_def)

lemma untouched_api_result [io_intros]: "untouched view (api_result r)"
  unfolding api_result_def by (auto split: sum.split intro: io_intros)

lemma api_now_ok [simp]: "api_now a w = (Inr t, w') \<longleftrightarrow> t = ap_clock a (wseq w) \<and> w' = w"
  by (auto simp: api_now_def)

lemma sql_now_ok [simp]: "sql_now a w = (Inr t, w') \<longleftrightarrow> t = ap_sql_clock a (wseq w) \<and> w' = w"
  by (auto simp: sql_now_def)

lemma api_now_error [simp]: "api_now a w \<noteq> (Inl e, w')"
  by (simp add: api_now_def)

lemma sql_now_error [simp]: "sql_now a w \<noteq> (Inl e, w')"
  by (simp add: sql_now_def)

lemma pool_ok: "pool m w = (Inr x, w') \<longleftrightarrow> m w = (Inr x, w')"
  by (auto simp: io_map_error_def split: prod.splits sum.splits)

lemma pool_error: "pool m w = (Inl e, w') \<longleftrightarrow> (\<exists>d. m w = (Inl d, w') \<and> e = ApiQuery d)"
  by (auto simp: io_map_error_def split: prod.splits sum.splits)

lemma api_result_ok [simp]: "api_result r w = (Inr x, w') \<longleftrightarrow> r = Inr x \<and> w' = w"
  by (auto simp: api_result_def io_throw_def io_return_def split: sum.splits)

lemma api_result_error [simp]: "api_result r w = (Inl e, w') \<longleftrightarrow> r = Inl e \<and> w' = w"
  by (auto simp: api_result_def io_throw_def io_return_def split: sum.splits)

lemma pool_id_wdb: "pool (execute (\<lambda>s. s)) w = (r, w') \<Longrightarrow> wdb w' = wdb w"
  by (metis snd_conv snd_map_error wdb_execute_id)

lemma api_transaction_rolls_back: "api_transaction m w = (Inl e, w') \<Longrightarrow> wdb w' = wdb w"
  by (auto simp: api_transaction_def dest: pool_id_wdb split: prod.splits sum.splits)

lemma api_transaction_commits:
  assumes "api_transaction m w = (Inr x, w')"
  obtains w1 w2 where "wdb w1 = wdb w" "wseq w1 = wseq w + 1" "m w1 = (Inr x, w2)" "wdb w' = wdb w2"
    "wseq w' = wseq w2 + 1"
proof -
  obtain w1 where w1: "execute (\<lambda>s. s) w = (Inr (), w1)"
    and b: "io_bind m (\<lambda>x. io_bind (pool (execute (\<lambda>s. s))) (\<lambda>_. io_return x)) w1 = (Inr x, w')"
    using assms by (auto simp: api_transaction_def pool_ok split: prod.splits sum.splits)
  then obtain w2 where m: "m w1 = (Inr x, w2)" and e: "execute (\<lambda>s. s) w2 = (Inr (), w')"
    by (auto simp: bind_ok pool_ok)
  note id = w1 [unfolded execute_def] e [unfolded execute_def]
  show thesis
    using that [OF _ _ m] id [THEN query_ok] id [THEN query_ok_seq] by simp
qed

text \<open>The error of a transaction is that of its body, or of one of the two statements around it.\<close>

lemma api_transaction_error:
  fixes m :: "('s, api_error, 'a) io"
  assumes "api_transaction m w = (Inl e, w')"
  shows "e = ApiQuery QueryFailed \<or> (\<exists>w1 w2. wdb w1 = wdb w \<and> wseq w1 = wseq w + 1 \<and> m w1 = (Inl e, w2))"
proof -
  have id: "d = QueryFailed" if "execute (\<lambda>s. s) v = (Inl d, v')" for d v and v' :: "'s world"
    using that by (auto simp: execute_def query_def operation_def Let_def split: if_splits)
  have ok: "wdb v' = wdb v \<and> wseq v' = wseq v + 1" if "execute (\<lambda>s. s) v = (Inr x, v')" for x v and v' :: "'s world"
    using that [unfolded execute_def, THEN query_ok] that [unfolded execute_def, THEN query_ok_seq] by simp
  from assms show ?thesis
    by (auto simp: api_transaction_def bind_error pool_ok pool_error io_return_def
        split: prod.splits sum.splits dest: id ok)
qed

text \<open>A transaction keeps what its body keeps.\<close>

lemma keeps_api_transaction [io_intros]:
  fixes m :: "('s, api_error, 'a) io"
  assumes "persistent I" and "keeps I m"
  shows "keeps I (api_transaction m)"
proof (rule keepsI)
  fix w :: "'s world"
  have e: "keeps I (pool (execute (\<lambda>s. s)))" using assms(1) by (intro keeps_map_error keeps_execute)
  have b: "keeps I (io_bind m (\<lambda>x. io_bind (pool (execute (\<lambda>s. s))) (\<lambda>_. io_return x)))"
    by (intro keeps_bind keeps_return assms e)
  obtain r w1 where 1: "pool (execute (\<lambda>s. s)) w = (r, w1)" by force
  obtain r2 w2 where 2: "io_bind m (\<lambda>x. io_bind (pool (execute (\<lambda>s. s))) (\<lambda>_. io_return x)) w1 = (r2, w2)" by force
  have le: "wseq w \<le> wseq w1" "wseq w1 \<le> wseq w2" using keeps_seq [OF e, of w] keeps_seq [OF b, of w1] 1 2 by auto
  then show "wseq w \<le> wseq (snd (api_transaction m w))" using 1 2 by (cases r; cases r2) (auto simp: api_transaction_def)
  assume "I (wseq w) (wdb w)"
  then have i1: "I (wseq w1) (wdb w1)" using keepsD [OF e, of w] 1 by simp
  have i2: "I (wseq w2) (wdb w2)" using keepsD [OF b, of w1] i1 2 by simp
  have i3: "I (wseq w2) (wdb w1)" using persistentD [OF assms(1) i1] le by simp
  show "I (wseq (snd (api_transaction m w))) (wdb (snd (api_transaction m w)))"
    using 1 2 i1 i2 i3 by (cases r; cases r2) (auto simp: api_transaction_def)
qed

end
