(* ===== verification/Webhook.thy ===== *)
theory Webhook
  imports Api Payment "HOL-Library.Sublist"
begin

text \<open>
  The endpoint of \<open>src/api.rs\<close> that the payment provider notifies: it checks the signature, applies the
  notification and, when that has settled a payment, sends the user a sticker and a message. Beside the
  database its state is what it has sent to Telegram.
\<close>

section \<open>The endpoint\<close>

datatype delivery = PaymentSticker int | PaymentSuccess int "int option"

record api_store = store +
  deliveries :: "delivery list"

type_synonym 'a webhook_io = "(api_store, api_error, 'a) io"

text \<open>A request may fail before Telegram has it, and the response may fail after.\<close>

definition deliver_api :: "delivery \<Rightarrow> unit webhook_io" where
  "deliver_api c =
     io_bind (operation ApiHttp (\<lambda>_ s. Inr ((), s\<lparr>deliveries := deliveries s @ [c]\<rparr>))) (\<lambda>_.
     operation ApiHttp (\<lambda>_ s. Inr ((), s)))"

definition send_telegram_sticker :: "int \<Rightarrow> unit webhook_io" where
  "send_telegram_sticker chat_id = deliver_api (PaymentSticker chat_id)"

definition send_success_message :: "int \<Rightarrow> int option \<Rightarrow> unit webhook_io" where
  "send_success_message chat_id current_period_end_at = deliver_api (PaymentSuccess chat_id current_period_end_at)"

definition announce_payment :: "string option \<Rightarrow> midtrans_subscription_record \<Rightarrow> unit webhook_io" where
  "announce_payment telegram_bot_token subscription =
     (case telegram_bot_token of None \<Rightarrow> io_return () | Some _ \<Rightarrow>
        io_bind (send_telegram_sticker (ms_chat_id subscription)) (\<lambda>_.
        send_success_message (ms_chat_id subscription) (ms_current_period_end_at subscription)))"

definition post_midtrans_webhook :: "api \<Rightarrow> webhook_notification \<Rightarrow> string webhook_io" where
  "post_midtrans_webhook a notification =
     (case ap_midtrans_server_key a of None \<Rightarrow> io_throw MissingMidtransServerKey | Some server_key \<Rightarrow>
      if \<not> verify_midtrans_signature (ap_sha512_hex a) server_key (wn_order_id notification)
             (wn_status_code notification) (wn_gross_amount notification) (wn_signature_key notification)
      then io_throw InvalidMidtransSignature
      else
        case map_midtrans_status (wn_transaction_status notification) of
          None \<Rightarrow> io_throw UnsupportedMidtransStatus
        | Some mapped_status \<Rightarrow>
            io_bind (api_now a) (\<lambda>received_at.
            io_bind (sql_now a) (\<lambda>now.
            io_bind (pool (apply_midtrans_webhook notification mapped_status received_at now)) (\<lambda>outcome.
            case outcome of
              Paid subscription \<Rightarrow>
                io_bind (announce_payment (ap_telegram_bot_token a) subscription) (\<lambda>_. io_return ''paid'')
            | IgnoredNotification \<Rightarrow> io_return ''ignored''
            | UnknownOrder \<Rightarrow> io_return ''unknown_order''))))"

section \<open>Telling the user\<close>

lemma deliver_cases:
  assumes "deliver_api c w = (r, w')"
  shows "wdb w' = wdb w \<and> r = Inl ApiHttp
    \<or> wdb w' = (wdb w)\<lparr>deliveries := deliveries (wdb w) @ [c]\<rparr> \<and> (r = Inl ApiHttp \<or> r = Inr ())"
  using assms
  by (auto simp: deliver_api_def io_bind_def operation_def Let_def split: if_splits)

lemma announce_cases:
  assumes "announce_payment token sub w = (r, w')"
  shows "\<exists>ds \<in> {[], [PaymentSticker (ms_chat_id sub)],
        [PaymentSticker (ms_chat_id sub), PaymentSuccess (ms_chat_id sub) (ms_current_period_end_at sub)]}.
      wdb w' = (wdb w)\<lparr>deliveries := deliveries (wdb w) @ ds\<rparr>
    \<and> (r = Inr () \<and> (token \<noteq> None \<longrightarrow> length ds = 2) \<or> r = Inl ApiHttp)
    \<and> (token = None \<longrightarrow> ds = [] \<and> r = Inr ())"
proof (cases token)
  case None
  with assms show ?thesis by (auto simp: announce_payment_def io_return_def intro!: bexI [of _ "[]"])
next
  case (Some t)
  obtain r1 w1 where 1: "send_telegram_sticker (ms_chat_id sub) w = (r1, w1)" by force
  note sticker = deliver_cases [OF 1 [unfolded send_telegram_sticker_def]]
  show ?thesis
  proof (cases r1)
    case (Inl e)
    with assms 1 Some have "r = Inl e" "w' = w1" by (auto simp: announce_payment_def io_bind_def)
    with sticker Inl Some show ?thesis by auto
  next
    case (Inr u)
    with assms 1 Some have 2: "send_success_message (ms_chat_id sub) (ms_current_period_end_at sub) w1 = (r, w')"
      by (simp add: announce_payment_def io_bind_def)
    from deliver_cases [OF 2 [unfolded send_success_message_def]] sticker Inr Some show ?thesis by auto
  qed
qed

section \<open>What a post does\<close>

definition authentic :: "api \<Rightarrow> webhook_notification \<Rightarrow> bool" where
  "authentic a n \<longleftrightarrow> (\<exists>key. ap_midtrans_server_key a = Some key \<and> verify_midtrans_signature (ap_sha512_hex a) key
     (wn_order_id n) (wn_status_code n) (wn_gross_amount n) (wn_signature_key n))"

text \<open>The two ways of a post: rejected at the door, or applied and perhaps announced.\<close>

lemma post_cases:
  assumes "post_midtrans_webhook a n w = (r, w')"
  obtains (rejected) "\<not> authentic a n \<or> map_midtrans_status (wn_transaction_status n) = None"
      "r \<in> Inl ` {MissingMidtransServerKey, InvalidMidtransSignature, UnsupportedMidtransStatus}" "w' = w"
  | (failed) e st where "authentic a n"
      "apply_midtrans_webhook n st (ap_clock a (wseq w)) (ap_sql_clock a (wseq w)) w = (Inl e, w')" "r = Inl (ApiQuery e)"
  | (quiet) out st where "authentic a n" "map_midtrans_status (wn_transaction_status n) = Some st"
      "apply_midtrans_webhook n st (ap_clock a (wseq w)) (ap_sql_clock a (wseq w)) w = (Inr out, w')"
      "\<forall>sub. out \<noteq> Paid sub" "r = Inr (if out = UnknownOrder then ''unknown_order'' else ''ignored'')"
  | (paid) sub st w1 r1 where "authentic a n" "map_midtrans_status (wn_transaction_status n) = Some st"
      "apply_midtrans_webhook n st (ap_clock a (wseq w)) (ap_sql_clock a (wseq w)) w = (Inr (Paid sub), w1)"
      "announce_payment (ap_telegram_bot_token a) sub w1 = (r1, w')" "r = map_sum id (\<lambda>_. ''paid'') r1"
proof (cases "authentic a n \<and> map_midtrans_status (wn_transaction_status n) \<noteq> None")
  case False
  then have "r \<in> Inl ` {MissingMidtransServerKey, InvalidMidtransSignature, UnsupportedMidtransStatus} \<and> w' = w"
    using assms by (auto simp: post_midtrans_webhook_def authentic_def io_throw_def split: option.splits if_splits)
  with False show thesis by (intro rejected) auto
next
  case True
  then obtain st where st: "map_midtrans_status (wn_transaction_status n) = Some st" by auto
  let ?apply = "apply_midtrans_webhook n st (ap_clock a (wseq w)) (ap_sql_clock a (wseq w)) w"
  have post: "(r, w') = io_bind (pool (apply_midtrans_webhook n st (ap_clock a (wseq w)) (ap_sql_clock a (wseq w))))
      (\<lambda>outcome. case outcome of
              Paid subscription \<Rightarrow>
                io_bind (announce_payment (ap_telegram_bot_token a) subscription) (\<lambda>_. io_return ''paid'')
            | IgnoredNotification \<Rightarrow> io_return ''ignored''
            | UnknownOrder \<Rightarrow> io_return ''unknown_order'') w"
    using assms True st
    by (auto simp: post_midtrans_webhook_def authentic_def api_now_def sql_now_def io_bind_def)
  obtain x w1 where x: "?apply = (x, w1)" by force
  show thesis
  proof (cases x)
    case (Inl e)
    with post x have "r = Inl (ApiQuery e)" "w' = w1" by (auto simp: io_bind_def io_map_error_def)
    with x Inl True show thesis by (intro failed) auto
  next
    case (Inr out)
    show thesis
    proof (cases out)
      case (Paid sub)
      obtain r1 w2 where "announce_payment (ap_telegram_bot_token a) sub w1 = (r1, w2)" by force
      moreover with post x Inr Paid have "w' = w2" "r = map_sum id (\<lambda>_. ''paid'') r1"
        by (auto simp: io_bind_def io_map_error_def io_return_def split: sum.splits)
      ultimately show thesis using x Inr Paid True st by (intro paid) auto
    qed (use post x Inr True st in \<open>auto simp: io_bind_def io_map_error_def io_return_def intro: quiet\<close>)
  qed
qed

lemma settled_payment:
  assumes "apply_midtrans_webhook n st rcv now w = (Inr (Paid sub), w')" and keys: "payment_keys (wdb w)"
  shows "\<exists>p p' b. lookup pm_provider_order_id (wn_order_id n) (telegram_payment_events (wdb w)) = Some p
    \<and> settles n st p \<and> lookup pm_provider_order_id (wn_order_id n) (telegram_payment_events (wdb w')) = Some p'
    \<and> pm_payment_status p' = ''paid'' \<and> ms_chat_id sub = pm_chat_id p
    \<and> lookup sb_telegram_user_id (pm_telegram_user_id p) (telegram_subscriptions (wdb w')) = Some b
    \<and> ms_current_period_end_at sub = sb_current_period_end_at b"
  using assms(1)
proof (cases rule: webhook_cases)
  case (settled p w1 w2)
  let ?u = "pm_telegram_user_id p" and ?T = "telegram_subscriptions (wdb w)"
  obtain a b where ab: "new_period (lookup sb_telegram_user_id ?u ?T) rcv (pm_period_days p) = (a, b)" by force
  from apply_paid_ok [OF settled(3)] obtain row rows i where
    sub: "sub = \<lparr>ms_id = sb_id row, ms_telegram_user_id = sb_telegram_user_id row, ms_chat_id = sb_chat_id row,
      ms_plan_code = pm_plan_code p, ms_current_period_end_at = sb_current_period_end_at row\<rparr>"
    and rows: "rows = upsert sb_telegram_user_id ?u
      (fresh_subscription ?u \<lparr>su_id = i, su_chat_id = pm_chat_id p, su_plan_code = pm_plan_code p,
                su_period_start = a, su_period_end = b\<rparr>)
      (merge_subscription \<lparr>su_id = i, su_chat_id = pm_chat_id p, su_plan_code = pm_plan_code p,
                su_period_start = a, su_period_end = b\<rparr>) ?T"
    and row: "lookup sb_telegram_user_id ?u rows = Some row"
    and w': "wdb w2 = (wdb w1)\<lparr>telegram_subscriptions := rows,
          telegram_payment_events := update_where (\<lambda>q. pm_id q = pm_id p) (settled n rcv (sb_id row))
            (telegram_payment_events (wdb w1)),
          telegram_subscription_sanctions := update_where (\<lambda>r. sn_subscription_id r = sb_id row)
            (sanction_cleared now) (telegram_subscription_sanctions (wdb w1))\<rparr>"
    unfolding settled(4) ab Let_def by auto
  have chat: "sb_chat_id row = pm_chat_id p"
    using row unfolding rows subscription.lookup_same
    by (auto simp: fresh_subscription_def merge_subscription_def split: option.splits)
  have "lookup pm_provider_order_id (wn_order_id n) (telegram_payment_events (wdb w')) = Some (settled n rcv (sb_id row) p)"
    using lookup_settled [OF keys settled(1), of "settled n rcv (sb_id row)" "wn_order_id n"] by (simp add: settled(4,5) w')
  then show ?thesis using settled(1,2,4,5) sub row w' chat by auto
qed simp_all

lemma paid_is_final:
  assumes "apply_midtrans_webhook n st rcv now w = (r, w')"
    and "lookup pm_provider_order_id (wn_order_id n) (telegram_payment_events (wdb w)) = Some p"
    and "pm_payment_status p = ''paid''"
  shows "wdb w' = wdb w \<and> (isl r \<or> r = Inr IgnoredNotification)"
proof (cases r)
  case (Inl e)
  with assms(1) show ?thesis by (simp add: apply_midtrans_webhook_def transaction_rolls_back)
next
  case (Inr out)
  with assms(1) have "apply_midtrans_webhook n st rcv now w = (Inr out, w')" by simp
  then show ?thesis
  proof (cases rule: webhook_cases)
    case unknown
    with assms(2) show ?thesis by simp
  next
    case (ignored q g)
    with assms(2,3) have "\<forall>x. g x = x" by auto
    then have "update_where P g T = T" for P and T by (induction T) (auto simp: update_where_def)
    with ignored(3,10) Inr show ?thesis by simp
  next
    case (settled q w1 w2)
    with assms(2,3) show ?thesis by (simp add: settles_def)
  qed
qed

lemma untouched_transaction [io_intros]: "untouched view m \<Longrightarrow> untouched view (transaction m)"
  by (rule untouchedI_keeps) (intro keeps_transaction untouched_keeps persistent_view)

lemma untouched_payment_statements [io_intros]:
  "(\<And>s x. view (s\<lparr>telegram_subscriptions := x\<rparr>) = view s) \<Longrightarrow> untouched view (upsert_subscription p t u)"
  "(\<And>s x. view (s\<lparr>telegram_payment_events := x\<rparr>) = view s) \<Longrightarrow> untouched view (update_payment i n f)"
  "(\<And>s x. view (s\<lparr>telegram_subscription_sanctions := x\<rparr>) = view s) \<Longrightarrow> untouched view (resolve_subscription_sanction now i)"
  by (auto simp: upsert_subscription_def update_payment_def resolve_subscription_sanction_def Let_def
      intro!: untouched_query untouched_execute split: option.splits if_splits)

lemma untouched_webhook [io_intros]:
  assumes "\<And>s x. view (s\<lparr>telegram_subscriptions := x\<rparr>) = view s" "\<And>s x. view (s\<lparr>telegram_payment_events := x\<rparr>) = view s"
    and "\<And>s x. view (s\<lparr>telegram_subscription_sanctions := x\<rparr>) = view s"
  shows "untouched view (apply_to_payment p n st rcv now)" "untouched view (apply_midtrans_webhook n st rcv now)"
  unfolding apply_midtrans_webhook_def apply_to_payment_def apply_paid_def Let_def
  using assms by (auto split: prod.split intro!: io_intros)

lemma applied_deliveries:
  assumes "apply_midtrans_webhook n st rcv now w = (r, w')"
  shows "deliveries (wdb w') = deliveries (wdb w)"
  using untouched_webhook(2) [of deliveries n st rcv now] assms by (auto simp: untouched_def dest: spec [of _ w])

text \<open>
  C36. A notification is believed only with the provider's signature, and the user is told only about a
  payment: a post whose signature is not made with the server's key is answered with an error and
  changes and sends nothing; a sticker or a message is sent only when the post has just turned the
  pending payment of its order into a paid one, to the chat of that payment and with the end of the
  subscription that it bought; and a post that is answered with success as paid has sent both.
\<close>

theorem webhook_post_safe:
  assumes "post_midtrans_webhook a n w = (r, w')" and "payment_keys (wdb w)"
  shows "(\<not> authentic a n \<longrightarrow> isl r \<and> w' = w)
    \<and> (deliveries (wdb w') \<noteq> deliveries (wdb w) \<or> r = Inr ''paid'' \<longrightarrow> authentic a n
       \<and> (\<exists>p p' b ds. lookup pm_provider_order_id (wn_order_id n) (telegram_payment_events (wdb w)) = Some p
           \<and> pm_payment_status p = ''pending''
           \<and> lookup pm_provider_order_id (wn_order_id n) (telegram_payment_events (wdb w')) = Some p'
           \<and> pm_payment_status p' = ''paid''
           \<and> lookup sb_telegram_user_id (pm_telegram_user_id p) (telegram_subscriptions (wdb w')) = Some b
           \<and> deliveries (wdb w') = deliveries (wdb w) @ ds
           \<and> prefix ds [PaymentSticker (pm_chat_id p), PaymentSuccess (pm_chat_id p) (sb_current_period_end_at b)]
           \<and> (r = Inr ''paid'' \<and> ap_telegram_bot_token a \<noteq> None \<longrightarrow> length ds = 2)))"
  using assms(1)
proof (cases rule: post_cases)
  case (paid sub st w1 r1)
  from settled_payment [OF paid(3) assms(2)] obtain p p' b where
    p: "lookup pm_provider_order_id (wn_order_id n) (telegram_payment_events (wdb w)) = Some p" "settles n st p"
      "lookup pm_provider_order_id (wn_order_id n) (telegram_payment_events (wdb w1)) = Some p'"
      "pm_payment_status p' = ''paid''" "ms_chat_id sub = pm_chat_id p"
      "lookup sb_telegram_user_id (pm_telegram_user_id p) (telegram_subscriptions (wdb w1)) = Some b"
      "ms_current_period_end_at sub = sb_current_period_end_at b" by blast
  from announce_cases [OF paid(4)] obtain ds where
    ds: "ds \<in> {[], [PaymentSticker (ms_chat_id sub)],
        [PaymentSticker (ms_chat_id sub), PaymentSuccess (ms_chat_id sub) (ms_current_period_end_at sub)]}"
      "wdb w' = (wdb w1)\<lparr>deliveries := deliveries (wdb w1) @ ds\<rparr>"
      "r1 = Inr () \<and> (ap_telegram_bot_token a \<noteq> None \<longrightarrow> length ds = 2) \<or> r1 = Inl ApiHttp" by blast
  have "r = Inr ''paid'' \<and> ap_telegram_bot_token a \<noteq> None \<longrightarrow> length ds = 2" using ds(3) paid(5) by auto
  then show ?thesis
    using paid(1) p ds(1,2) applied_deliveries [OF paid(3)]
    by (intro conjI impI exI [of _ p] exI [of _ p'] exI [of _ b] exI [of _ ds]) (auto simp: settles_def)
qed (auto dest: applied_deliveries split: if_splits)

text \<open>
  C37. A lost confirmation is lost for good: when telling the user fails, the post is answered with an
  error although the payment is settled, and however often the provider then repeats the notification,
  each time it is ignored or fails, and nothing is sent and nothing changes.
\<close>

fun repost :: "api \<Rightarrow> webhook_notification \<Rightarrow> bool list list \<Rightarrow> api_store world
    \<Rightarrow> (api_error + string) list \<times> api_store world" where
  "repost a n [] w = ([], w)"
| "repost a n (sched # scheds) w =
     (let (r, w1) = post_midtrans_webhook a n (w\<lparr>wsched := sched\<rparr>); (rs, w2) = repost a n scheds w1 in (r # rs, w2))"

lemma repost_paid:
  assumes "lookup pm_provider_order_id (wn_order_id n) (telegram_payment_events (wdb w)) = Some p"
    and "pm_payment_status p = ''paid''"
  shows "wdb (snd (repost a n scheds w)) = wdb w \<and> (\<forall>r \<in> set (fst (repost a n scheds w)). isl r \<or> r = Inr ''ignored'')"
  using assms
proof (induction scheds arbitrary: w)
  case (Cons sched scheds)
  obtain r w1 where post: "post_midtrans_webhook a n (w\<lparr>wsched := sched\<rparr>) = (r, w1)" by force
  have "wdb w1 = wdb w \<and> (isl r \<or> r = Inr ''ignored'')"
    using post
  proof (cases rule: post_cases)
    case rejected
    then show ?thesis by auto
  next
    case (failed e st)
    then show ?thesis using paid_is_final [OF failed(2), of p] Cons.prems by auto
  next
    case (quiet out st)
    then show ?thesis using paid_is_final [OF quiet(3), of p] Cons.prems by auto
  next
    case (paid sub st w2 r1)
    then show ?thesis using paid_is_final [OF paid(3), of p] Cons.prems by auto
  qed
  with Cons.IH [of w1] Cons.prems post show ?case by (simp add: split_def Let_def)
qed simp

theorem webhook_confirmation_lost:
  assumes "post_midtrans_webhook a n w = (Inl ApiHttp, w')" and "payment_keys (wdb w)"
  shows "(\<exists>p. lookup pm_provider_order_id (wn_order_id n) (telegram_payment_events (wdb w')) = Some p
        \<and> pm_payment_status p = ''paid'')
    \<and> wdb (snd (repost a n scheds w')) = wdb w'
    \<and> (\<forall>r \<in> set (fst (repost a n scheds w')). isl r \<or> r = Inr ''ignored'')"
  using assms(1)
proof (cases rule: post_cases)
  case (paid sub st w1 r1)
  from settled_payment [OF paid(3) assms(2)] obtain p' where
    p: "lookup pm_provider_order_id (wn_order_id n) (telegram_payment_events (wdb w1)) = Some p'"
      "pm_payment_status p' = ''paid''" by blast
  from announce_cases [OF paid(4)] have "telegram_payment_events (wdb w') = telegram_payment_events (wdb w1)" by auto
  with p repost_paid [of n w' p' a scheds] show ?thesis by simp
qed (auto split: if_splits)


section \<open>A sample run\<close>

definition sample_webhook_api :: api where
  "sample_webhook_api = \<lparr>ap_midtrans_server_key = Some ''k'', ap_telegram_bot_token = Some ''t'', ap_clock = (\<lambda>n. 40 * DAY),
     ap_sql_clock = (\<lambda>n. 40 * DAY), ap_libm = sample_libm,
     ap_sha512_hex = (\<lambda>t. t), ap_parse_date = (\<lambda>t. Some 0), ap_parse_rfc3339 = (\<lambda>t. None),
     ap_overflow_checks = False\<rparr>"

definition signed_notification :: webhook_notification where
  "signed_notification = sample_notification\<lparr>wn_signature_key := ''hb-10-7'' @ ''200'' @ ''45000.00'' @ ''K''\<rparr>"

definition sample_webhook_store :: api_store where
  "sample_webhook_store = store.extend sample_payment_store \<lparr>deliveries = []\<rparr>"

lemma sample_signature: "authentic sample_webhook_api signed_notification"
proof -
  have "eq_ignore_ascii_case (''hb-10-7'' @ ''200'' @ ''45000.00'' @ ''k'') (''hb-10-7'' @ ''200'' @ ''45000.00'' @ ''K'')"
    by code_simp
  then show ?thesis
    by (simp add: authentic_def verify_midtrans_signature_def sample_webhook_api_def signed_notification_def
        sample_notification_def)
qed

abbreviation sample_webhook_world :: "bool list \<Rightarrow> api_store world" where
  "sample_webhook_world rest \<equiv> \<lparr>wdb = sample_webhook_store, wseq = 6,
     wsched = True # True # True # True # True # True # True # rest\<rparr>"

lemma sample_apply:
  "\<exists>w1 r. apply_midtrans_webhook signed_notification StPaid (40 * DAY) (40 * DAY) (sample_webhook_world rest)
      = (Inr (Paid r), w1)
    \<and> ms_chat_id r = 20 \<and> ms_current_period_end_at r = Some (70 * DAY) \<and> wsched w1 = rest"
  by (simp add: apply_midtrans_webhook_def apply_to_payment_def apply_paid_def io_run
      sample_webhook_store_def signed_notification_def
      sample_payment_store_def sample_notification_def sample_payment_def sample_subscription_def
      sample_amount lookup_Cons clamp_i64_def update_payment_def transaction_id_taken_def
      upsert_subscription_def resolve_subscription_sanction_def new_period_def upsert_def update_where_def
      merge_subscription_def Let_def store.defs)

lemma sample_post:
  assumes "rest \<in> {[], [False]}"
  shows "\<exists>w'. post_midtrans_webhook sample_webhook_api signed_notification (sample_webhook_world rest)
      = (if rest = [] then Inr ''paid'' else Inl ApiHttp, w')
    \<and> deliveries (wdb w') = (if rest = [] then [PaymentSticker 20, PaymentSuccess 20 (Some (70 * DAY))] else [])"
proof -
  obtain w1 r where run: "apply_midtrans_webhook signed_notification StPaid (40 * DAY) (40 * DAY)
      (sample_webhook_world rest) = (Inr (Paid r), w1)"
    and r: "ms_chat_id r = 20" "ms_current_period_end_at r = Some (70 * DAY)" "wsched w1 = rest"
    using sample_apply by blast
  have d: "deliveries (wdb w1) = []"
    using applied_deliveries [OF run] by (simp add: sample_webhook_store_def store.defs)
  have c: "ap_clock sample_webhook_api n = 40 * DAY" "ap_sql_clock sample_webhook_api n = 40 * DAY"
    "ap_telegram_bot_token sample_webhook_api = Some ''t''" for n
    by (simp_all add: sample_webhook_api_def)
  have st: "map_midtrans_status (wn_transaction_status signed_notification) = Some StPaid"
    by (simp add: signed_notification_def sample_notification_def map_midtrans_status_def)
  have post: "post_midtrans_webhook sample_webhook_api signed_notification (sample_webhook_world rest)
      = io_bind (announce_payment (Some ''t'') r) (\<lambda>_. io_return ''paid'') w1"
    using sample_signature run
    by (auto simp: post_midtrans_webhook_def authentic_def api_now_def sql_now_def io_bind_def io_map_error_def c st)
  show ?thesis
    unfolding post using assms r d
    by (auto simp: announce_payment_def send_telegram_sticker_def send_success_message_def deliver_api_def io_run Let_def)
qed

lemma sample_webhook_keys: "payment_keys (wdb (sample_webhook_world rest))"
  by (simp add: payment_keys_def sample_webhook_store_def sample_payment_store_def store.defs)

theorem webhook_post_safe_witness:
  "\<exists>w' p. post_midtrans_webhook sample_webhook_api signed_notification (sample_webhook_world []) = (Inr ''paid'', w')
     \<and> deliveries (wdb w') = [PaymentSticker 20, PaymentSuccess 20 (Some (70 * DAY))]
     \<and> lookup pm_provider_order_id ''hb-10-7'' (telegram_payment_events (wdb w')) = Some p
     \<and> pm_payment_status p = ''paid''"
proof -
  obtain w' where post: "post_midtrans_webhook sample_webhook_api signed_notification (sample_webhook_world []) = (Inr ''paid'', w')"
    and d: "deliveries (wdb w') = [PaymentSticker 20, PaymentSuccess 20 (Some (70 * DAY))]"
    using sample_post [of "[]"] by auto
  have "wn_order_id signed_notification = ''hb-10-7''" by (simp add: signed_notification_def sample_notification_def)
  with webhook_post_safe [OF post sample_webhook_keys] post d show ?thesis by auto
qed

theorem webhook_confirmation_lost_witness:
  "\<exists>w'. post_midtrans_webhook sample_webhook_api signed_notification (sample_webhook_world [False]) = (Inl ApiHttp, w')
     \<and> wdb (snd (repost sample_webhook_api signed_notification [[], [False], []] w')) = wdb w'
     \<and> deliveries (wdb w') = []"
proof -
  obtain w' where post: "post_midtrans_webhook sample_webhook_api signed_notification (sample_webhook_world [False]) = (Inl ApiHttp, w')"
    and d: "deliveries (wdb w') = []"
    using sample_post [of "[False]"] by auto
  from webhook_confirmation_lost [OF post sample_webhook_keys, of "[[], [False], []]"] post d show ?thesis by auto
qed

end
