(* ===== verification/Billing.thy ===== *)
theory Billing
  imports Bot Webhook
begin

text \<open>
  The life of a payment, as the bot (\<open>src/bot.rs\<close>), the API (\<open>src/api.rs\<close>) and the statements of
  \<open>src/midtrans.rs\<close> together leave it, with the subscriptions that settled payments belong to.
\<close>

section \<open>Payments and subscriptions\<close>

text \<open>
  A payment asks for something, and is paid exactly when it has a time of payment; a paid one belongs
  to the subscription of its user. Orders and the transactions of the provider are unique, a user has
  one subscription.
\<close>

definition payment_ok :: "subscription_row list \<Rightarrow> payment_row \<Rightarrow> bool" where
  "payment_ok S p \<longleftrightarrow> 0 < pm_gross_amount_idr p
     \<and> (pm_payment_status p = ''paid'' \<longleftrightarrow> pm_paid_at p \<noteq> None)
     \<and> (pm_payment_status p = ''paid'' \<longrightarrow> (\<exists>b \<in> set S. pm_subscription_id p = Some (sb_id b)
          \<and> sb_telegram_user_id b = pm_telegram_user_id p))"

definition distinct_transactions :: "payment_row list \<Rightarrow> bool" where
  "distinct_transactions P \<longleftrightarrow> (\<forall>p \<in> set P. \<forall>q \<in> set P. \<forall>t. pm_provider_transaction_id p = Some t
     \<longrightarrow> pm_provider_transaction_id q = Some t \<longrightarrow> pm_id p = pm_id q)"

definition billing_ok :: "int \<Rightarrow> payment_row list \<times> subscription_row list \<Rightarrow> bool" where
  "billing_ok n v \<longleftrightarrow> (case v of (P, S) \<Rightarrow>
     distinct (map pm_id P) \<and> distinct (map pm_provider_order_id P) \<and> distinct_transactions P
     \<and> (\<forall>p \<in> set P. pm_id p < n \<and> payment_ok S p) \<and> distinct (map sb_telegram_user_id S))"

text \<open>What a payment is for never changes, and what became of it is decided once.\<close>

definition payment_step :: "payment_row \<Rightarrow> payment_row \<Rightarrow> bool" where
  "payment_step p q \<longleftrightarrow> pm_id q = pm_id p \<and> pm_provider_order_id q = pm_provider_order_id p
     \<and> pm_telegram_user_id q = pm_telegram_user_id p \<and> pm_chat_id q = pm_chat_id p
     \<and> pm_device_id q = pm_device_id p \<and> pm_imei q = pm_imei p \<and> pm_plan_code q = pm_plan_code p
     \<and> pm_gross_amount_idr q = pm_gross_amount_idr p \<and> pm_period_days q = pm_period_days p
     \<and> (pm_payment_status p = ''pending'' \<or> pm_payment_status q = pm_payment_status p
          \<and> pm_paid_at q = pm_paid_at p \<and> pm_subscription_id q = pm_subscription_id p)"

definition payments_step :: "payment_row list \<Rightarrow> payment_row list \<Rightarrow> bool" where
  "payments_step P P' \<longleftrightarrow> (\<forall>p \<in> set P. \<exists>q \<in> set P'. payment_step p q)"

definition billing_inv :: "payment_row list \<Rightarrow> int \<Rightarrow> payment_row list \<times> subscription_row list \<Rightarrow> bool" where
  "billing_inv P0 n v \<longleftrightarrow> billing_ok n v \<and> payments_step P0 (fst v)"

definition billing_view :: "'z store_scheme \<Rightarrow> payment_row list \<times> subscription_row list" where
  "billing_view s = (telegram_payment_events s, telegram_subscriptions s)"

lemma payment_step_refl [simp]: "payment_step p p"
  by (simp add: payment_step_def)

lemma payment_step_trans: "payment_step p q \<Longrightarrow> payment_step q r \<Longrightarrow> payment_step p r"
  by (auto simp: payment_step_def)

lemma payments_step_refl [simp]: "payments_step P P"
  unfolding payments_step_def using payment_step_refl by blast

lemma payments_step_trans: "payments_step P Q \<Longrightarrow> payments_step Q R \<Longrightarrow> payments_step P R"
  unfolding payments_step_def by (meson payment_step_trans)

lemma billing_inv_mono: "billing_inv P0 m v \<Longrightarrow> m \<le> n \<Longrightarrow> billing_inv P0 n v"
  by (fastforce simp: billing_inv_def billing_ok_def)

lemma billing_okD:
  assumes "billing_ok n (P, S)"
  shows "distinct (map pm_id P)" "distinct (map pm_provider_order_id P)" "distinct_transactions P"
    "p \<in> set P \<Longrightarrow> pm_id p < n" "p \<in> set P \<Longrightarrow> payment_ok S p" "distinct (map sb_telegram_user_id S)"
  using assms by (simp_all add: billing_ok_def)

lemma billing_okI:
  assumes "distinct (map pm_id P)" "distinct (map pm_provider_order_id P)" "distinct_transactions P"
    "\<And>p. p \<in> set P \<Longrightarrow> pm_id p < n" "\<And>p. p \<in> set P \<Longrightarrow> payment_ok S p" "distinct (map sb_telegram_user_id S)"
  shows "billing_ok n (P, S)"
  using assms by (simp add: billing_ok_def)

lemma same_payment_id: "billing_ok n (P, S) \<Longrightarrow> p \<in> set P \<Longrightarrow> q \<in> set P \<Longrightarrow> pm_id q = pm_id p \<Longrightarrow> q = p"
  using billing_okD(1) by (fastforce simp: distinct_map dest: inj_onD)

lemma same_payment_order:
  "billing_ok n (P, S) \<Longrightarrow> p \<in> set P \<Longrightarrow> q \<in> set P \<Longrightarrow> pm_provider_order_id q = pm_provider_order_id p \<Longrightarrow> q = p"
  using billing_okD(2) by (fastforce simp: distinct_map dest: inj_onD)

text \<open>A new pending payment.\<close>

lemma billing_insert:
  assumes "billing_inv P0 n (P, S)" and "pm_id p = n" and "pm_provider_order_id p \<notin> pm_provider_order_id ` set P"
    and "pm_provider_transaction_id p = None" and "payment_ok S p"
  shows "billing_inv P0 (n + 1) (P @ [p], S)"
proof -
  have ok: "billing_ok n (P, S)" and st: "payments_step P0 P" using assms(1) by (simp_all add: billing_inv_def)
  note old = billing_okD [OF ok]
  have new: "pm_id p \<notin> pm_id ` set P" using old(4) assms(2) by fastforce
  have "billing_ok (n + 1) (P @ [p], S)"
  proof (rule billing_okI)
    show "distinct (map pm_id (P @ [p]))" using old(1) new by simp
    show "distinct (map pm_provider_order_id (P @ [p]))" using old(2) assms(3) by simp
    show "distinct_transactions (P @ [p])"
      unfolding distinct_transactions_def
    proof (intro ballI allI impI)
      fix x y t assume "x \<in> set (P @ [p])" "y \<in> set (P @ [p])"
        and t: "pm_provider_transaction_id x = Some t" "pm_provider_transaction_id y = Some t"
      then have "x \<in> set P" "y \<in> set P" using assms(4) by auto
      then show "pm_id x = pm_id y" using old(3) t unfolding distinct_transactions_def by blast
    qed
    show "pm_id q < n + 1" "payment_ok S q" if "q \<in> set (P @ [p])" for q
      using that old(4) [of q] old(5) [of q] assms(2,5) by auto
  qed (rule old(6))
  moreover have "payments_step P (P @ [p])"
    unfolding payments_step_def using payment_step_refl by (metis Un_iff set_append)
  ultimately show ?thesis using payments_step_trans [OF st] unfolding billing_inv_def fst_conv by blast
qed

text \<open>A change of one payment.\<close>

lemma billing_update:
  assumes inv: "billing_inv P0 n (P, S)" and p: "p \<in> set P"
    and one: "\<And>q. q \<in> set P \<Longrightarrow> c q \<longleftrightarrow> pm_id q = pm_id p"
    and f: "payment_step p (f p)" "payment_ok S (f p)"
    and free: "\<not> transaction_id_taken (pm_id p) (pm_provider_transaction_id (f p)) P"
  shows "billing_inv P0 n (update_where c f P, S)"
proof -
  have ok: "billing_ok n (P, S)" and st: "payments_step P0 P" using inv by (simp_all add: billing_inv_def)
  note old = billing_okD [OF ok]
  let ?g = "\<lambda>q. if q = p then f p else q"
  have only: "c q \<longleftrightarrow> q = p" if "q \<in> set P" for q using one [OF that] same_payment_id [OF ok p that] by blast
  have rows: "update_where c f P = map ?g P"
    unfolding update_where_def by (rule map_cong) (use only in auto)
  have same: "pm_id (?g q) = pm_id q" "pm_provider_order_id (?g q) = pm_provider_order_id q" for q
    using f(1) by (simp_all add: payment_step_def)
  have "distinct_transactions (map ?g P)"
    unfolding distinct_transactions_def
  proof (intro ballI allI impI)
    fix q r t assume "q \<in> set (map ?g P)" "r \<in> set (map ?g P)"
      and t: "pm_provider_transaction_id q = Some t" "pm_provider_transaction_id r = Some t"
    then obtain q0 r0 where q0: "q0 \<in> set P" "q = ?g q0" and r0: "r0 \<in> set P" "r = ?g r0" by auto
    have other: "pm_id x = pm_id p"
      if "x \<in> set P" "pm_provider_transaction_id x = Some t" "pm_provider_transaction_id (f p) = Some t" for x
      using free that unfolding transaction_id_taken_def by auto
    have fp: "pm_id (f p) = pm_id p" using f(1) by (simp add: payment_step_def)
    consider "q0 = p" "r0 = p" | "q0 = p" "r0 \<noteq> p" | "q0 \<noteq> p" "r0 = p" | "q0 \<noteq> p" "r0 \<noteq> p" by blast
    then show "pm_id q = pm_id r"
    proof cases
      case 2
      then have "q = f p" "r = r0" using q0 r0 by simp_all
      then show ?thesis using other [OF r0(1)] t fp by simp
    next
      case 3
      then have "q = q0" "r = f p" using q0 r0 by simp_all
      then show ?thesis using other [OF q0(1)] t fp by simp
    next
      case 4
      then have "q = q0" "r = r0" using q0 r0 by simp_all
      then show ?thesis using old(3) t q0 r0 unfolding distinct_transactions_def by blast
    qed (simp add: q0 r0)
  qed
  moreover have "payments_step P (map ?g P)"
    unfolding payments_step_def
  proof
    fix q assume "q \<in> set P"
    then have "?g q \<in> set (map ?g P)" unfolding set_map by (rule imageI)
    moreover have "payment_step q (?g q)" using f(1) by simp
    ultimately show "\<exists>r \<in> set (map ?g P). payment_step q r" by blast
  qed
  moreover have "billing_ok n (map ?g P, S)"
  proof (rule billing_okI)
    show "distinct (map pm_id (map ?g P))" "distinct (map pm_provider_order_id (map ?g P))"
      unfolding map_map comp_def same by (rule old)+
    show "pm_id q < n" "payment_ok S q" if "q \<in> set (map ?g P)" for q
      using that old(4,5) f p by (auto simp: payment_step_def split: if_splits)
  qed (fact calculation old(6))+
  ultimately show ?thesis using payments_step_trans [OF st] by (simp add: billing_inv_def rows)
qed

lemma payment_ok_more:
  assumes "payment_ok S p" and "\<And>b. b \<in> set S \<Longrightarrow> \<exists>b' \<in> set S'. sb_id b' = sb_id b \<and> sb_telegram_user_id b' = sb_telegram_user_id b"
  shows "payment_ok S' p"
  using assms unfolding payment_ok_def by metis

lemma billing_subscriptions:
  assumes "billing_inv P0 n (P, S)" and "distinct (map sb_telegram_user_id S')"
    and "\<And>b. b \<in> set S \<Longrightarrow> \<exists>b' \<in> set S'. sb_id b' = sb_id b \<and> sb_telegram_user_id b' = sb_telegram_user_id b"
  shows "billing_inv P0 n (P, S')"
  using assms(1,2) payment_ok_more [OF _ assms(3)] by (auto simp: billing_inv_def billing_ok_def)

section \<open>The statements\<close>

abbreviation billed :: "payment_row list \<Rightarrow> int \<Rightarrow> 'z store_scheme \<Rightarrow> bool" where
  "billed P0 n s \<equiv> billing_inv P0 n (billing_view s)"

lemma persistent_billed: "persistent (billed P0)"
  by (auto simp: persistent_def intro: billing_inv_mono)

lemma keeps_view:
  assumes "untouched view m" and "\<And>m n v. m \<le> n \<Longrightarrow> I m v \<Longrightarrow> I n v"
  shows "keeps (\<lambda>n s. I n (view s)) m"
  using assms by (auto simp: keeps_def untouched_def)

lemma billed_untouched: "untouched billing_view m \<Longrightarrow> keeps (billed P0) m"
  by (rule keeps_view) (auto intro: billing_inv_mono)

lemma billed_create:
  "keeps (billed P0) (create_pending_midtrans_payment u c d imei plan_code order g t)"
  unfolding create_pending_midtrans_payment_def
  by (rule keeps_query [OF persistent_billed])
     (auto simp: billing_view_def payment_ok_def intro!: billing_insert split: if_splits)

lemma billed_created: "keeps (billed P0) (mark_midtrans_payment_created order created)"
  unfolding mark_midtrans_payment_created_def
proof (rule keeps_query [OF persistent_billed])
  fix n and s s' :: "'z store_scheme" and x
  let ?P = "telegram_payment_events s"
  let ?f = "\<lambda>p. p\<lparr>pm_provider_transaction_id := cp_transaction_id created, pm_payment_type := cp_payment_type created,
      pm_payment_url := Some (cp_payment_url created)\<rparr>"
  assume inv: "billed P0 n s" and
    "(if \<exists>p \<in> set ?P. pm_provider_order_id p = order
            \<and> transaction_id_taken (pm_id p) (cp_transaction_id created) ?P then Inl UniqueViolation
       else Inr ((), s\<lparr>telegram_payment_events := update_where (\<lambda>p. pm_provider_order_id p = order) ?f ?P\<rparr>)) = Inr (x, s')"
  then have free: "\<And>p. p \<in> set ?P \<Longrightarrow> pm_provider_order_id p = order \<Longrightarrow>
        \<not> transaction_id_taken (pm_id p) (cp_transaction_id created) ?P"
    and s': "billing_view s' = (update_where (\<lambda>p. pm_provider_order_id p = order) ?f ?P, telegram_subscriptions s)"
    by (auto simp: billing_view_def split: if_splits)
  have ok: "billing_ok n (?P, telegram_subscriptions s)" using inv by (simp add: billing_inv_def billing_view_def)
  show "billed P0 (n + 1) s'"
  proof (cases "\<exists>p \<in> set ?P. pm_provider_order_id p = order")
    case True
    then obtain p where p: "p \<in> set ?P" "pm_provider_order_id p = order" by blast
    have one: "pm_provider_order_id q = order \<longleftrightarrow> pm_id q = pm_id p" if "q \<in> set ?P" for q
      using same_payment_id [OF ok p(1) that] same_payment_order [OF ok p(1) that] p(2) by auto
    have "payment_ok (telegram_subscriptions s) (?f p)"
      using billing_okD(5) [OF ok p(1)] by (simp add: payment_ok_def)
    then have "billing_inv P0 n (update_where (\<lambda>p. pm_provider_order_id p = order) ?f ?P, telegram_subscriptions s)"
      using inv free [OF p] p(1) one
      by (intro billing_update [of P0 n ?P _ p]) (auto simp: billing_view_def payment_step_def)
    then show ?thesis using s' by (auto intro: billing_inv_mono)
  next
    case False
    then have "update_where (\<lambda>p. pm_provider_order_id p = order) ?f ?P = ?P"
      by (auto simp: update_where_def intro: map_idI)
    then show ?thesis using inv s' by (auto simp: billing_view_def intro: billing_inv_mono)
  qed
qed

text \<open>A transaction that is noted on its own payment is free.\<close>

lemma noted_free:
  assumes "distinct_transactions P" and "p \<in> set P" and "\<not> transaction_id_taken (pm_id p) (wn_transaction_id n) P"
  shows "\<not> transaction_id_taken (pm_id p) (coalesce (wn_transaction_id n) (pm_provider_transaction_id p)) P"
proof (cases "wn_transaction_id n")
  case None
  show ?thesis
  proof
    assume "transaction_id_taken (pm_id p) (coalesce (wn_transaction_id n) (pm_provider_transaction_id p)) P"
    then obtain q t where "q \<in> set P" "pm_id q \<noteq> pm_id p" "pm_provider_transaction_id q = Some t"
      "pm_provider_transaction_id p = Some t"
      by (auto simp: transaction_id_taken_def coalesce_def None)
    then show False using assms(1,2) unfolding distinct_transactions_def by blast
  qed
qed (use assms(3) in \<open>simp add: coalesce_def\<close>)

definition billed_row :: "payment_row list \<Rightarrow> payment_row \<Rightarrow> int \<Rightarrow> 'z store_scheme \<Rightarrow> bool" where
  "billed_row P0 p n s \<longleftrightarrow> billed P0 n s \<and> p \<in> set (telegram_payment_events s)"

lemma billed_row_mono: "billed_row P0 p m s \<Longrightarrow> m \<le> n \<Longrightarrow> billed_row P0 p n s"
  by (auto simp: billed_row_def intro: billing_inv_mono)

lemma billed_row_billed: "billed_row P0 p n s \<Longrightarrow> billed P0 n s"
  by (simp add: billed_row_def)

lemma billed_row_ok: "billed_row P0 p n s \<Longrightarrow> payment_ok (telegram_subscriptions s) p"
  using billing_okD(5) by (auto simp: billed_row_def billing_view_def billing_inv_def)

lemma billed_update_payment:
  assumes f: "payment_step p (f (noted nt p))"
      "pm_provider_transaction_id (f (noted nt p)) = pm_provider_transaction_id (noted nt p)"
    and ok: "\<And>n s. P n s \<Longrightarrow> billed_row P0 p n s \<and> payment_ok (telegram_subscriptions s) (f (noted nt p))"
  shows "triple P (update_payment (pm_id p) nt f) (\<lambda>_. billed P0) (billed P0)"
  unfolding update_payment_def noted_def [symmetric]
proof (rule triple_query)
  fix n and s s' :: "'a store_scheme" and x
  let ?P = "telegram_payment_events s"
  assume pre: "P n s"
  from ok [OF this] have inv: "billing_inv P0 n (?P, telegram_subscriptions s)" and p: "p \<in> set ?P"
    and pok: "payment_ok (telegram_subscriptions s) (f (noted nt p))"
    by (simp_all add: billed_row_def billing_view_def)
  show "billed P0 (n + 1) s" using inv by (auto simp: billing_view_def intro: billing_inv_mono)
  assume "(if transaction_id_taken (pm_id p) (wn_transaction_id nt) ?P then Inl UniqueViolation
       else Inr ((), s\<lparr>telegram_payment_events := update_where (\<lambda>q. pm_id q = pm_id p) (\<lambda>q. f (noted nt q)) ?P\<rparr>)) = Inr (x, s')"
  then have free: "\<not> transaction_id_taken (pm_id p) (wn_transaction_id nt) ?P"
    and s': "billing_view s' = (update_where (\<lambda>q. pm_id q = pm_id p) (\<lambda>q. f (noted nt q)) ?P, telegram_subscriptions s)"
    by (auto simp: billing_view_def split: if_splits)
  have "distinct_transactions ?P" using inv billing_okD(3) by (auto simp: billing_inv_def)
  from noted_free [OF this p free]
  have still: "\<not> transaction_id_taken (pm_id p) (pm_provider_transaction_id (f (noted nt p))) ?P"
    unfolding f(2) by (simp add: noted_def)
  have "billing_inv P0 n (update_where (\<lambda>q. pm_id q = pm_id p) (\<lambda>q. f (noted nt q)) ?P, telegram_subscriptions s)"
    by (rule billing_update [where f = "\<lambda>q. f (noted nt q)", OF inv p]) (rule refl f(1) pok still)+
  then show "billed P0 (n + 1) s'" using s' by (auto intro: billing_inv_mono)
qed

lemma billed_upsert_subscription:
  "triple (billed_row P0 p) (upsert_subscription p t u)
     (\<lambda>row n s. billed_row P0 p n s \<and> row \<in> set (telegram_subscriptions s)
        \<and> sb_telegram_user_id row = pm_telegram_user_id p) (billed P0)"
  unfolding upsert_subscription_def
proof (rule triple_query)
  fix n and s s' :: "'a store_scheme" and row
  let ?S = "telegram_subscriptions s"
  let ?v = "\<lparr>su_id = n, su_chat_id = pm_chat_id p, su_plan_code = pm_plan_code p, su_period_start = t, su_period_end = u\<rparr>"
  let ?rows = "upsert sb_telegram_user_id (pm_telegram_user_id p) (fresh_subscription (pm_telegram_user_id p) ?v)
      (merge_subscription ?v) ?S"
  assume pre: "billed_row P0 p n s"
  then show "billed P0 (n + 1) s" by (auto simp: billed_row_def intro: billing_inv_mono)
  assume "(let v = ?v; u = pm_telegram_user_id p;
           rows = upsert sb_telegram_user_id u (fresh_subscription u v) (merge_subscription v) ?S
       in case lookup sb_telegram_user_id u rows of None \<Rightarrow> Inl RowNotFound
          | Some row \<Rightarrow> Inr (row, s\<lparr>telegram_subscriptions := rows\<rparr>)) = Inr (row, s')"
  then have row: "lookup sb_telegram_user_id (pm_telegram_user_id p) ?rows = Some row"
    and s': "s' = s\<lparr>telegram_subscriptions := ?rows\<rparr>"
    by (auto simp: Let_def split: option.splits)
  have inv: "billing_inv P0 n (telegram_payment_events s, ?S)" using pre by (simp add: billed_row_def billing_view_def)
  have "\<exists>b' \<in> set ?rows. sb_id b' = sb_id b \<and> sb_telegram_user_id b' = sb_telegram_user_id b" if "b \<in> set ?S" for b
    using that
    by (intro bexI [of _ "if sb_telegram_user_id b = pm_telegram_user_id p then merge_subscription ?v b else b"])
       (force simp: upsert_def set_update_where merge_subscription_def)+
  moreover have "distinct (map sb_telegram_user_id ?rows)"
    using inv billing_okD(6) by (intro subscription.distinct_keys) (auto simp: billing_inv_def)
  ultimately have "billing_inv P0 n (telegram_payment_events s, ?rows)"
    using billing_subscriptions [OF inv] by blast
  then show "billed_row P0 p (n + 1) s' \<and> row \<in> set (telegram_subscriptions s')
        \<and> sb_telegram_user_id row = pm_telegram_user_id p"
    using lookup_SomeD [OF row] pre
    by (auto simp: s' billed_row_def billing_view_def intro: billing_inv_mono)
qed

lemma billed_apply_paid:
  assumes pending: "pm_payment_status p = ''pending''" and gross: "0 < pm_gross_amount_idr p"
  shows "triple (billed_row P0 p) (apply_paid p nt rcv now) (\<lambda>_. billed P0) (billed P0)"
proof -
  let ?paid = "\<lambda>row q. q\<lparr>pm_subscription_id := Some (sb_id row), pm_payment_status := ''paid'', pm_paid_at := Some rcv\<rparr>"
  have update: "triple (\<lambda>n s. billed_row P0 p n s \<and> row \<in> set (telegram_subscriptions s)
        \<and> sb_telegram_user_id row = pm_telegram_user_id p)
      (update_payment (pm_id p) nt (?paid row)) (\<lambda>_. billed P0) (billed P0)" for row
    by (rule billed_update_payment)
       (use pending gross in \<open>auto simp: payment_step_def payment_ok_def noted_def\<close>)
  have resolve: "triple (billed P0) (resolve_subscription_sanction now i) (\<lambda>_. billed P0) (billed P0)" for i
    by (intro keeps_triple billed_untouched io_intros) (simp add: billing_view_def)
  have rest: "triple (billed_row P0 p)
      (let (period_start, period_end) = new_period old rcv (pm_period_days p) in
       io_bind (upsert_subscription p period_start period_end) (\<lambda>row.
       io_bind (update_payment (pm_id p) nt (?paid row)) (\<lambda>_.
       io_bind (resolve_subscription_sanction now (sb_id row)) (\<lambda>_. io_return (f row)))))
      (\<lambda>_. billed P0) (billed P0)" for old and f :: "subscription_row \<Rightarrow> webhook_outcome"
    by (auto split: prod.split intro!: triple_bind [OF billed_upsert_subscription] triple_bind [OF update]
        triple_bind [OF resolve] triple_return)
  show ?thesis
    unfolding apply_paid_def
    by (rule triple_bind [OF triple_select rest])
       (auto simp: billed_row_def intro: billing_inv_mono)
qed

lemma billed_apply:
  assumes ok: "0 < pm_gross_amount_idr p" "pm_payment_status p = ''paid'' \<longleftrightarrow> pm_paid_at p \<noteq> None"
  shows "triple (billed_row P0 p :: int \<Rightarrow> 'z store_scheme \<Rightarrow> bool) (apply_to_payment p nt st rcv now)
    (\<lambda>_. billed P0) (billed P0)"
proof -
  have noted_ok: "payment_ok S p \<Longrightarrow> payment_ok S (noted nt p)" for S
    by (simp add: payment_ok_def noted_def)
  have step: "payment_step p (noted nt p)" by (simp add: payment_step_def noted_def)
  have note_it: "triple (billed_row P0 p) (update_payment (pm_id p) nt (\<lambda>q. q)) (\<lambda>_. billed P0) (billed P0)"
    by (rule billed_update_payment) (simp_all add: step billed_row_ok noted_ok)
  have close_it: "triple (billed_row P0 p) (update_payment (pm_id p) nt (\<lambda>q. q\<lparr>pm_payment_status := status_text st\<rparr>))
      (\<lambda>_. billed P0) (billed P0)" if "pm_payment_status p = ''pending''" "st \<noteq> StPaid"
    by (rule billed_update_payment)
       (use that ok in \<open>cases st; auto simp: payment_step_def noted_def payment_ok_def\<close>)+
  show ?thesis
    unfolding apply_to_payment_def Let_def
    by (intro triple_if triple_case_option triple_return triple_throw triple_bind [OF note_it] triple_bind [OF close_it]
        billed_apply_paid ok) (auto dest: billed_row_billed)
qed

lemma triple_false: "(\<And>n s. \<not> P n s) \<Longrightarrow> triple P m Q E"
  by (simp add: triple_def)

lemma untouched_advances: "untouched (\<lambda>_. ()) m \<Longrightarrow> advances m"
  by (simp add: untouched_def keeps_def)

lemma billed_webhook:
  "keeps (billed P0 :: int \<Rightarrow> 'z store_scheme \<Rightarrow> bool) (apply_midtrans_webhook nt st rcv now)"
proof -
  let ?found = "\<lambda>row n (s :: 'z store_scheme). case row of None \<Rightarrow> billed P0 n s | Some p \<Rightarrow> billed_row P0 p n s"
  let ?rest = "\<lambda>row. case row of None \<Rightarrow> io_return UnknownOrder | Some p \<Rightarrow> apply_to_payment p nt st rcv now"
  have select: "triple (billed P0) (select (\<lambda>s. lookup pm_provider_order_id (wn_order_id nt) (telegram_payment_events s)))
      ?found (billed P0)"
    by (rule triple_select)
       (auto simp: billed_row_def intro: billing_inv_mono dest: lookup_SomeD split: option.split)
  have rest: "triple (?found row) (?rest row) (\<lambda>_. billed P0) (billed P0)" for row
  proof (cases row)
    case (Some p)
    show ?thesis
    proof (cases "0 < pm_gross_amount_idr p \<and> (pm_payment_status p = ''paid'' \<longleftrightarrow> pm_paid_at p \<noteq> None)")
      case True
      then show ?thesis by (simp add: Some billed_apply)
    next
      case False
      then have never: "\<not> ?found (Some p) n s" for n and s :: "'z store_scheme"
        using billed_row_ok [of P0 p n s] by (auto simp: payment_ok_def)
      show ?thesis unfolding Some by (rule triple_false) (rule never)
    qed
  qed (simp add: triple_return)
  have advance: "untouched (\<lambda>_. ()) (?rest row)" for row
    by (cases row) (simp_all add: untouched_return untouched_webhook)
  have "keeps (billed P0 :: int \<Rightarrow> 'z store_scheme \<Rightarrow> bool) (io_bind (select (\<lambda>s. lookup pm_provider_order_id (wn_order_id nt) (telegram_payment_events s))) ?rest)"
    by (rule keeps_of_triple [OF triple_bind [OF select rest] untouched_advances [OF untouched_bind [OF untouched_select advance]]])
  then show ?thesis
    unfolding apply_midtrans_webhook_def by (intro keeps_transaction persistent_billed)
qed

lemma billed_post: "keeps (\<lambda>n s. billed P0 n (s :: api_store)) (post_midtrans_webhook a nt)"
proof -
  have announce: "untouched billing_view (announce_payment t sub)" for t sub
    unfolding announce_payment_def send_telegram_sticker_def send_success_message_def deliver_api_def
    by (auto simp: billing_view_def intro!: io_intros untouched_operation)
  have "keeps (billed P0) (case out of Paid sub \<Rightarrow> io_bind (announce_payment t sub) (\<lambda>_. io_return ''paid'')
      | IgnoredNotification \<Rightarrow> io_return ''ignored'' | UnknownOrder \<Rightarrow> io_return ''unknown_order'')" for t out
    by (cases out) (simp_all add: billed_untouched untouched_bind untouched_return announce)
  then show ?thesis
    unfolding post_midtrans_webhook_def
    by (auto intro!: keeps_bind keeps_if keeps_throw keeps_case_option keeps_map_error billed_webhook
        billed_untouched [OF untouched_api_now] billed_untouched [OF untouched_sql_now])
qed

section \<open>The bot\<close>

lemma billed_checkout: "keeps (billed P0) (checkout b q m mc u)"
  unfolding checkout_def Let_def
  by (intro keeps_bind keeps_map_error billed_create billed_created)
     (rule billed_untouched, (auto simp: billing_view_def intro!: io_intros)[1])+

lemma billed_payment_action: "keeps (billed P0) (handle_payment_action b q action)"
  unfolding handle_payment_action_def
  by (intro keeps_bind keeps_if keeps_case_option keeps_throw keeps_return billed_checkout)
     (rule billed_untouched, (auto simp: billing_view_def intro!: io_intros)[1])+

lemma billed_callback: "keeps (billed P0) (handle_callback_query b q)"
  unfolding handle_callback_query_def Let_def
  by (intro keeps_case_option billed_payment_action)
     (rule billed_untouched, (auto simp: billing_view_def intro!: io_intros)[1])+

lemma billed_log: "keeps (billed P0) m \<Longrightarrow> keeps (billed P0) (io_log m)"
  unfolding io_log_def by (intro keeps_try keeps_if keeps_throw keeps_return)

lemma billed_cycle: "keeps (billed P0) (bot_cycle b)"
proof -
  have "keeps (billed P0) (process_updates b)"
    unfolding process_updates_def handle_update_def
    by (intro keeps_bind keeps_for keeps_case_option keeps_return billed_callback)
       (rule billed_untouched, (auto simp: billing_view_def intro!: io_intros)[1])+
  moreover have "untouched billing_view (process_heartbeat_notifications b)" "untouched billing_view (process_stale_engine_sessions b)"
    by (auto intro!: io_intros simp: billing_view_def)
  ultimately show ?thesis
    unfolding bot_cycle_def by (intro keeps_bind billed_log) (simp_all add: billed_untouched)
qed

end
