(* ===== verification/Bindings.thy ===== *)
theory Bindings
  imports Bot
begin

text \<open>
  What the loop of the bot keeps, whatever users press, whatever the other programs do between its
  cycles, and whichever queries and requests fail: the life cycle of the sessions and the bindings
  of users to devices.
\<close>

section \<open>Reasoning about users\<close>

definition user_triple ::
  "user_row list \<Rightarrow> (user_row list \<times> string set \<Rightarrow> bool) \<Rightarrow> 'a bot_io
   \<Rightarrow> ('a \<Rightarrow> user_row list \<times> string set \<Rightarrow> bool) \<Rightarrow> bool" where
  "user_triple T0 I m J \<longleftrightarrow> (\<forall>v. I v \<longrightarrow> users_inv T0 v)
     \<and> triple (\<lambda>_ s. I (user_view s)) m (\<lambda>x _ s. J x (user_view s)) (\<lambda>_ s. users_inv T0 (user_view s))"

abbreviation user_safe :: "user_row list \<Rightarrow> 'a bot_io \<Rightarrow> bool" where
  "user_safe T0 m \<equiv> user_triple T0 (users_inv T0) m (\<lambda>_. users_inv T0)"

named_theorems user_intros

lemma user_bind:
  "user_triple T0 I m R \<Longrightarrow> (\<And>x. user_triple T0 (R x) (f x) J) \<Longrightarrow> user_triple T0 I (io_bind m f) J"
  unfolding user_triple_def by (blast intro: triple_bind)

lemma user_seq [user_intros]:
  "user_safe T0 m \<Longrightarrow> (\<And>x. user_safe T0 (f x)) \<Longrightarrow> user_safe T0 (io_bind m f)"
  by (rule user_bind)

lemma user_quiet:
  "\<forall>v. I v \<longrightarrow> users_inv T0 v \<Longrightarrow> untouched user_view m \<Longrightarrow> user_triple T0 I m (\<lambda>_. I)"
  unfolding user_triple_def
  by (intro conjI triple_untouched [where view = user_view and I = "\<lambda>_. I"]) (auto simp del: split_paired_All)

lemma user_quiet_bind:
  "\<forall>v. I v \<longrightarrow> users_inv T0 v \<Longrightarrow> untouched user_view m \<Longrightarrow> (\<And>x. user_triple T0 I (f x) J) \<Longrightarrow>
   user_triple T0 I (io_bind m f) J"
  by (rule user_bind [OF user_quiet])

lemma user_weaken:
  "user_triple T0 I m J \<Longrightarrow> (\<And>v. I' v \<Longrightarrow> I v) \<Longrightarrow> user_triple T0 I' m J"
  unfolding user_triple_def by (blast intro: triple_weaken)

lemma user_done: "\<forall>v. I v \<longrightarrow> users_inv T0 v \<Longrightarrow> untouched user_view m \<Longrightarrow> user_triple T0 I m (\<lambda>_. users_inv T0)"
  by (rule user_weaken [OF user_quiet]) auto

lemma user_untouched: "untouched user_view m \<Longrightarrow> user_safe T0 m"
  by (rule user_quiet) auto

lemma user_if [user_intros]:
  "(c \<Longrightarrow> user_triple T0 I m J) \<Longrightarrow> (\<not> c \<Longrightarrow> user_triple T0 I n J) \<Longrightarrow> user_triple T0 I (if c then m else n) J"
  by simp

lemma user_case_option [user_intros]:
  "(x = None \<Longrightarrow> user_triple T0 I m J) \<Longrightarrow> (\<And>y. x = Some y \<Longrightarrow> user_triple T0 I (f y) J) \<Longrightarrow>
   user_triple T0 I (case x of None \<Rightarrow> m | Some y \<Rightarrow> f y) J"
  by (cases x) auto

lemma user_for [user_intros]: "(\<And>x. user_safe T0 (f x)) \<Longrightarrow> user_safe T0 (io_for xs f)"
  unfolding user_triple_def by (blast intro: triple_for_const)

lemma user_log [user_intros]: "user_safe T0 m \<Longrightarrow> user_safe T0 (io_log m)"
  unfolding user_triple_def io_log_def
  by (auto elim!: triple_try intro: triple_return triple_throw)

section \<open>Registration and binding\<close>

definition row_bound :: "int \<Rightarrow> string option \<Rightarrow> user_row list \<times> string set \<Rightarrow> bool" where
  "row_bound u imei v \<longleftrightarrow> (\<forall>r \<in> set (fst v). tu_telegram_user_id r = u \<longrightarrow> tu_bound_imei r = imei)"

lemma user_fetch:
  "user_triple T0 (users_inv T0) (db (fetch_telegram_user_by_user_id u))
     (\<lambda>x v. users_inv T0 v \<and> (case x of None \<Rightarrow> True | Some y \<Rightarrow> row_bound u (ur_bound_imei y) v))"
  unfolding user_triple_def fetch_telegram_user_by_user_id_def
proof (rule conjI, blast, intro triple_map_error triple_select)
  fix n and s :: bot_store
  assume inv: "users_inv T0 (user_view s)"
  then have "distinct (map tu_telegram_user_id (telegram_users s))"
    by (auto simp: users_inv_def user_view_def intro: users_distinct)
  then have same: "tu_bound_imei q = tu_bound_imei r" if "lookup tu_telegram_user_id u (telegram_users s) = Some r"
    "q \<in> set (telegram_users s)" "tu_telegram_user_id q = u" for r q
    using lookup_distinct [of tu_telegram_user_id "telegram_users s" q] that by simp
  show "users_inv T0 (user_view s) \<and>
      (case Option.bind (lookup tu_telegram_user_id u (telegram_users s)) user_record_of of None \<Rightarrow> True
       | Some y \<Rightarrow> row_bound u (ur_bound_imei y) (user_view s))"
  proof (cases "lookup tu_telegram_user_id u (telegram_users s)")
    case (Some r)
    have "row_bound u (tu_bound_imei r) (user_view s)" using same [OF Some] by (simp add: row_bound_def user_view_def)
    with inv Some show ?thesis by (cases "parse_registration_status (tu_registration_status r)") (simp_all add: user_record_of_def)
  qed (simp add: inv)
qed blast

lemma user_registration:
  "user_safe T0 (db (upsert_telegram_user_registration_state u c AwaitingImei))"
  unfolding user_triple_def upsert_telegram_user_registration_state_def
  by (intro conjI allI impI triple_map_error triple_execute) (simp_all add: user_view_def Let_def users_inv_upsert)

lemma user_binding:
  assumes "is_valid_imei imei"
  shows "user_triple T0 (\<lambda>v. users_inv T0 v \<and> row_bound u None v \<and> imei \<in> snd v)
     (db (bind_telegram_user_to_imei u c imei)) (\<lambda>_. users_inv T0)"
  unfolding user_triple_def bind_telegram_user_to_imei_def
proof (intro conjI allI impI triple_map_error triple_query)
  fix n and s :: bot_store and x s'
  assume p: "users_inv T0 (user_view s) \<and> row_bound u None (user_view s) \<and> imei \<in> snd (user_view s)"
  let ?f = "\<lambda>r. r\<lparr>tu_chat_id := c, tu_bound_imei := Some imei, tu_registration_status := ''bound''\<rparr>"
  assume "(if list_ex (\<lambda>r. tu_telegram_user_id r = u) (telegram_users s)
        \<and> list_ex (\<lambda>r. tu_bound_imei r = Some imei \<and> tu_telegram_user_id r \<noteq> u) (telegram_users s)
     then Inl UniqueViolation
     else Inr ((), s\<lparr>telegram_users := update_where (\<lambda>r. tu_telegram_user_id r = u) ?f (telegram_users s)\<rparr>))
     = Inr (x, s')"
  then have s': "s' = s\<lparr>telegram_users := update_where (\<lambda>r. tu_telegram_user_id r = u) ?f (telegram_users s)\<rparr>"
    and free: "\<And>r q. r \<in> set (telegram_users s) \<Longrightarrow> tu_telegram_user_id r = u \<Longrightarrow> q \<in> set (telegram_users s) \<Longrightarrow>
      tu_telegram_user_id q \<noteq> u \<Longrightarrow> tu_bound_imei q \<noteq> Some imei"
    by (auto simp: list_ex_iff split: if_splits)
  have "users_inv T0 (update_where (\<lambda>r. tu_telegram_user_id r = u) ?f (telegram_users s), dv_imei ` set (devices s))"
    using p assms free by (intro users_inv_update) (auto simp: user_view_def row_bound_def user_ok_def)
  then show "users_inv T0 (user_view s')" by (simp add: s' user_view_def)
qed auto

lemma user_query:
  assumes "\<forall>v. I v \<longrightarrow> users_inv T0 v"
  shows "user_triple T0 I (db (device_exists imei)) (\<lambda>x v. I v \<and> (x \<longrightarrow> imei \<in> snd v))"
  unfolding user_triple_def device_exists_def
  using assms by (intro conjI triple_map_error triple_select) (auto simp: list_ex_iff user_view_def simp del: split_paired_All)

lemma user_register:
  assumes imei: "ur_bound_imei user = x"
  shows "user_triple T0 (\<lambda>v. users_inv T0 v \<and> row_bound u x v) (register_device b c u user imei) (\<lambda>_. users_inv T0)"
proof (cases "is_valid_imei imei \<and> x = None")
  case False
  then show ?thesis
    using imei by (auto simp: register_device_def intro!: user_done io_intros simp del: split_paired_All) (simp_all add: user_view_def)
next
  case True
  let ?known = "\<lambda>v. users_inv T0 v \<and> row_bound u None v \<and> imei \<in> snd v"
  have "user_triple T0 ?known
      (io_bind (db (is_device_bound_to_another_user imei u)) (\<lambda>taken.
       if taken then io_unit (send_message b c (Fixed 4))
       else io_bind (db (bind_telegram_user_to_imei u c imei)) (\<lambda>_.
            io_bind (io_unit (send_message b c (BindSuccess imei))) (\<lambda>_.
            io_bind (io_warn (send_bind_success_sticker c)) (\<lambda>_.
            send_subscription_required_menu b c))))) (\<lambda>_. users_inv T0)"
    using True
    by (intro user_quiet_bind user_if user_done user_bind [OF user_binding] io_intros)
       (auto simp: user_view_def)
  then have known: "user_triple T0 (\<lambda>v. (users_inv T0 v \<and> row_bound u None v) \<and> (k \<longrightarrow> imei \<in> snd v)) 
      (if \<not> k then io_unit (send_message b c (Fixed 3))
       else io_bind (db (is_device_bound_to_another_user imei u)) (\<lambda>taken.
       if taken then io_unit (send_message b c (Fixed 4))
       else io_bind (db (bind_telegram_user_to_imei u c imei)) (\<lambda>_.
            io_bind (io_unit (send_message b c (BindSuccess imei))) (\<lambda>_.
            io_bind (io_warn (send_bind_success_sticker c)) (\<lambda>_.
            send_subscription_required_menu b c))))) (\<lambda>_. users_inv T0)" for k
    by (cases k) (auto intro!: user_done io_intros simp: user_view_def)
  show ?thesis
    unfolding register_device_def using True imei
    by simp (rule user_bind [OF user_query known], blast)
qed

lemma user_command: "user_safe T0 (handle_command b c u command)"
proof -
  have start: "user_safe T0 (io_bind (db (upsert_telegram_user_registration_state u c AwaitingImei)) (\<lambda>_.
      io_unit (send_message b c (Fixed 9))))"
    by (rule user_seq [OF user_registration user_untouched]) (auto intro!: io_intros simp: user_view_def)
  let ?rest = "\<lambda>user. case command of
       Start \<Rightarrow>
         (case (case user of Some user \<Rightarrow> if ur_bound_imei user \<noteq> None then Some user else None | None \<Rightarrow> None) of
            Some user \<Rightarrow>
              io_bind (clock_now b) (\<lambda>now.
              io_bind (db (has_active_subscription (ur_telegram_user_id user) now)) (\<lambda>is_active.
              if is_active
              then io_unit (send_message_internal b c (Fixed 14) (Some subscribed_start_menu_keyboard) None)
              else io_bind (io_warn (send_not_subscribed_sticker c)) (\<lambda>_. send_subscription_required_menu b c)))
          | None \<Rightarrow>
              io_bind (db (upsert_telegram_user_registration_state u c AwaitingImei)) (\<lambda>_.
              io_unit (send_message b c (Fixed 9))))
     | Help \<Rightarrow> io_unit (send_message b c (Fixed 10))
     | PaySupport \<Rightarrow> io_unit (send_message b c (Fixed 11))
     | Terms \<Rightarrow> io_unit (send_message b c (Fixed 12))
     | Unknown command \<Rightarrow> io_unit (send_message b c (UnknownCommand command))"
  have rest: "user_triple T0 (\<lambda>v. users_inv T0 v \<and> P v) (?rest user) (\<lambda>_. users_inv T0)" for P user
  proof (rule user_weaken [where I = "users_inv T0"], cases "command = Start \<and> (case user of None \<Rightarrow> True | Some y \<Rightarrow> ur_bound_imei y = None)")
    case True
    then show "user_safe T0 (?rest user)"
      using start by (auto split: option.splits)
  next
    case False
    then show "user_safe T0 (?rest user)"
      by (cases command) (auto intro!: user_untouched io_intros simp: user_view_def split: option.splits)
  qed blast
  show ?thesis
    unfolding handle_command_def by (rule user_bind [OF user_fetch rest])
qed

lemma user_message: "user_safe T0 (handle_message b m)"
proof -
  have quiet: "\<forall>v. users_inv T0 v \<and> P v \<longrightarrow> users_inv T0 v" for P by blast
  have rest: "user_triple T0 (\<lambda>v. users_inv T0 v \<and> (case user of None \<Rightarrow> True | Some y \<Rightarrow> row_bound u (ur_bound_imei y) v))
      (case user of None \<Rightarrow> io_return () | Some user \<Rightarrow>
        io_bind (db (get_pending_analytics_kind c)) (\<lambda>pending.
        case pending of
          Some kind \<Rightarrow> handle_custom_analytics_input b c u user kind t
        | None \<Rightarrow> if ur_registration_status user \<noteq> AwaitingImei then io_return ()
                 else register_device b c u user (trim t))) (\<lambda>_. users_inv T0)" for user u c t
  proof (cases user)
    case (Some y)
    have "user_triple T0 (\<lambda>v. users_inv T0 v \<and> row_bound u (ur_bound_imei y) v)
       (case pending of
          Some kind \<Rightarrow> handle_custom_analytics_input b c u y kind t
        | None \<Rightarrow> if ur_registration_status y \<noteq> AwaitingImei then io_return ()
                 else register_device b c u y (trim t)) (\<lambda>_. users_inv T0)" for pending
    proof (cases "pending = None \<and> ur_registration_status y = AwaitingImei")
      case True
      then show ?thesis by (simp add: user_register)
    next
      case False
      then show ?thesis
        by (intro user_done [OF quiet]) (auto intro!: io_intros simp: user_view_def split: option.split)
    qed
    then show ?thesis unfolding Some option.case by (intro user_quiet_bind [OF quiet] io_intros)
  qed (auto intro!: user_done io_intros)
  show ?thesis
    unfolding handle_message_def Let_def
    by (intro user_case_option user_bind [OF user_fetch rest] user_command user_untouched io_intros)
qed

lemma user_cycle: "user_safe T0 (bot_cycle b)"
proof -
  have "user_safe T0 (process_updates b)"
    unfolding process_updates_def handle_update_def
    by (intro user_intros user_message) (auto intro!: user_untouched io_intros simp: user_view_def)
  moreover have "untouched user_view (process_heartbeat_notifications b)" "untouched user_view (process_stale_engine_sessions b)"
    by (auto intro!: io_intros simp: user_view_def)
  ultimately show ?thesis
    unfolding bot_cycle_def by (intro user_seq user_log) (simp_all add: user_untouched)
qed

section \<open>The loop\<close>

text \<open>
  What another program may do to the world between two cycles of the bot: anything but change the
  sessions and the users, or forget a device or an issued identifier. The server, the API and the
  maintenance job write neither of the two tables.
\<close>

definition bystander :: "(bot_store world \<Rightarrow> bot_store world) \<Rightarrow> bool" where
  "bystander f \<longleftrightarrow> (\<forall>w. wseq w \<le> wseq (f w)
     \<and> telegram_engine_sessions (wdb (f w)) = telegram_engine_sessions (wdb w)
     \<and> telegram_users (wdb (f w)) = telegram_users (wdb w)
     \<and> dv_imei ` set (devices (wdb w)) \<subseteq> dv_imei ` set (devices (wdb (f w))))"

lemma bystander_session_inv:
  "bystander f \<Longrightarrow> session_inv T0 (wseq w) (telegram_engine_sessions (wdb w)) \<Longrightarrow>
   session_inv T0 (wseq (f w)) (telegram_engine_sessions (wdb (f w)))"
  unfolding bystander_def by (metis session_inv_mono)

lemma bystander_users_inv:
  assumes "bystander f" and "users_inv T0 (user_view (wdb w))"
  shows "users_inv T0 (user_view (wdb (f w)))"
  using assms users_inv_devices [of T0 "telegram_users (wdb w)"] unfolding bystander_def user_view_def by metis

text \<open>Anything that the cycle and the other programs keep is kept by the loop.\<close>

lemma run_keeps:
  assumes "\<And>f w. f \<in> set others \<Longrightarrow> P (wseq w) (wdb w) \<Longrightarrow> P (wseq (f w)) (wdb (f w))"
    and "triple P (bot_cycle b) (\<lambda>_. P) P"
    and "P (wseq w) (wdb w)"
  shows "P (wseq (snd (run b others w))) (wdb (snd (run b others w)))"
  using assms(1,3)
proof (induction others arbitrary: w)
  case (Cons f rest)
  let ?c = "bot_cycle b (f w)"
  have p: "P (wseq (snd ?c)) (wdb (snd ?c))"
    by (rule triple_snd [OF assms(2)]) (use Cons.prems in simp)
  show ?case
    using Cons.IH [OF _ p] Cons.prems(1) p
    by (cases ?c; cases "fst ?c") (auto simp: io_bind_def)
qed (simp add: io_return_def)

text \<open>
  C24. The life of a session, over any number of cycles of the bot: whatever users press, whichever
  queries and requests fail, and whatever the other programs do meanwhile, the identifiers of the
  sessions stay unique, at most one session of a device is open in a chat, and every session that was
  there still is: the same as before, or, if it was open, in a status that its own allows; a session
  that is no longer open never changes again.
\<close>

theorem run_keeps_sessions:
  assumes "\<forall>f \<in> set others. bystander f"
    and "sessions_ok (wseq w) (telegram_engine_sessions (wdb w))"
  shows "sessions_ok (wseq (snd (run b others w))) (telegram_engine_sessions (wdb (snd (run b others w))))
    \<and> sessions_step (telegram_engine_sessions (wdb w)) (telegram_engine_sessions (wdb (snd (run b others w))))"
proof -
  let ?P = "\<lambda>n s :: bot_store. session_inv (telegram_engine_sessions (wdb w)) n (telegram_engine_sessions s)"
  have "triple ?P (bot_cycle b) (\<lambda>_. ?P) ?P"
    using safe_cycle [of "telegram_engine_sessions (wdb w)" b] by (simp add: session_safe_def session_triple_def)
  moreover have "?P (wseq w) (wdb w)" using assms(2) by (simp add: session_inv_def)
  ultimately have "?P (wseq (snd (run b others w))) (wdb (snd (run b others w)))"
    by (intro run_keeps [of others ?P]) (use assms(1) bystander_session_inv in blast)+
  then show ?thesis by (simp add: session_inv_def)
qed

text \<open>
  A binding is for ever, over any number of cycles of the bot and whatever fails: users stay
  unique, a device is bound to at most one of them, the status of a user says exactly whether there is
  a binding, and it is to a registered device with a valid IMEI; no user is lost, and no user who is
  bound to a device is bound to another or released.
\<close>

theorem run_keeps_bindings:
  assumes "\<forall>f \<in> set others. bystander f"
    and "users_ok (telegram_users (wdb w)) (dv_imei ` set (devices (wdb w)))"
  shows "users_ok (telegram_users (wdb (snd (run b others w)))) (dv_imei ` set (devices (wdb (snd (run b others w)))))
    \<and> users_step (telegram_users (wdb w)) (telegram_users (wdb (snd (run b others w))))"
proof -
  let ?P = "\<lambda>n :: int. \<lambda>s :: bot_store. users_inv (telegram_users (wdb w)) (user_view s)"
  have "triple ?P (bot_cycle b) (\<lambda>_. ?P) ?P"
    using user_cycle [of "telegram_users (wdb w)" b] by (simp add: user_triple_def)
  moreover have "?P (wseq w) (wdb w)" using assms(2) by (simp add: users_inv_def user_view_def)
  ultimately have "?P (wseq (snd (run b others w))) (wdb (snd (run b others w)))"
    by (intro run_keeps [of others ?P]) (use assms(1) bystander_users_inv in blast)+
  then show ?thesis by (simp add: users_inv_def user_view_def)
qed

definition sample_row :: session_row where
  "sample_row = \<lparr>es_id = 2, es_imei = ''123456789012345'', es_chat_id = 20, es_trigger_heartbeat_id = 1,
     es_prompt_message_id = 7, es_ride_status_message_id = None, es_session_status = ''finished'',
     es_created_at = 0, es_resolved_at = Some 5\<rparr>"

definition sample_loop_store :: bot_store where
  "sample_loop_store = store.extend (empty_store\<lparr>
     telegram_users := [\<lparr>tu_telegram_user_id = 10, tu_chat_id = 20, tu_bound_imei = None,
       tu_registration_status = ''awaiting_imei''\<rparr>],
     telegram_engine_sessions := [sample_row]\<rparr>) \<lparr>requests = []\<rparr>"

lemma bystander_id: "bystander (\<lambda>w. w)"
  by (simp add: bystander_def)

lemma run_keeps_sessions_witness:
  "\<forall>b. sample_row \<in> set (telegram_engine_sessions (wdb (snd (run b [\<lambda>w. w, \<lambda>w. w]
     \<lparr>wdb = sample_loop_store, wseq = 3, wsched = [True, False]\<rparr>))))"
proof
  fix b
  let ?w = "\<lparr>wdb = sample_loop_store, wseq = 3, wsched = [True, False]\<rparr>"
  have T: "telegram_engine_sessions (wdb ?w) = [sample_row]"
    by (simp add: sample_loop_store_def empty_store_def store.defs)
  have "sessions_ok (wseq ?w) (telegram_engine_sessions (wdb ?w))"
    unfolding T by (simp add: sessions_ok_def sample_row_def)
  with run_keeps_sessions [of "[\<lambda>w. w, \<lambda>w. w]" ?w b] bystander_id
  have "sessions_step [sample_row] (telegram_engine_sessions (wdb (snd (run b [\<lambda>w. w, \<lambda>w. w] ?w))))"
    unfolding T by simp
  then show "sample_row \<in> set (telegram_engine_sessions (wdb (snd (run b [\<lambda>w. w, \<lambda>w. w] ?w))))"
    by (auto simp: sessions_step_def row_step_def is_active_def active_status_def sample_row_def)
qed

lemma run_keeps_bindings_witness:
  "\<forall>b. \<exists>r \<in> set (telegram_users (wdb (snd (run b [\<lambda>w. w]
     \<lparr>wdb = sample_loop_store, wseq = 3, wsched = [True, False]\<rparr>)))). tu_telegram_user_id r = 10"
proof
  fix b
  let ?w = "\<lparr>wdb = sample_loop_store, wseq = 3, wsched = [True, False]\<rparr>"
  have "users_ok (telegram_users (wdb ?w)) (dv_imei ` set (devices (wdb ?w)))"
    by (simp add: sample_loop_store_def empty_store_def store.defs users_ok_def user_ok_def)
  with run_keeps_bindings [of "[\<lambda>w. w]" ?w b] bystander_id
  have "users_step (telegram_users (wdb ?w)) (telegram_users (wdb (snd (run b [\<lambda>w. w] ?w))))" by simp
  then show "\<exists>r \<in> set (telegram_users (wdb (snd (run b [\<lambda>w. w] ?w)))). tu_telegram_user_id r = 10"
    by (simp add: users_step_def sample_loop_store_def empty_store_def store.defs)
qed

end
