(* ===== verification/Fuel.thy ===== *)
theory Fuel
  imports Api Analytics
begin

text \<open>
  Fuel calibrations, the part of \<open>src/api.rs\<close> that changes state: a calibration is started with a
  full tank, and completed, with the litres of the next full tank, or invalidated by a restart. The
  requests of one device are serialized by an advisory lock.
\<close>

section \<open>Requests and responses\<close>

record complete_request =
  fq_liters :: f64
  fq_total_cost_idr :: "int option"
  fq_fuel_type :: "string option"
  fq_tank_full :: bool
  fq_no_missed_refuels :: bool

record fuel_progress =
  fp_id :: int
  fp_started_at :: int
  fp_start_distance_km :: f64
  fp_current_distance_km :: f64
  fp_distance_traveled_km :: f64
  fp_riding_seconds :: int
  fp_engine_on_seconds :: int
  fp_trip_count :: int
  fp_elapsed_days :: int
  fp_fuel_type :: "string option"

record fuel_result =
  fr_id :: int
  fr_started_at :: int
  fr_completed_at :: int
  fr_start_distance_km :: f64
  fr_end_distance_km :: f64
  fr_distance_traveled_km :: f64
  fr_liters :: f64
  fr_total_cost_idr :: "int option"
  fr_fuel_type :: "string option"
  fr_efficiency_km_per_liter :: f64
  fr_cost_per_km_idr :: "f64 option"
  fr_riding_seconds :: int
  fr_engine_on_seconds :: int
  fr_trip_count :: int

record fuel_response =
  fs_imei :: string
  fs_generated_at :: int
  fs_state :: string
  fs_active_calibration :: "fuel_progress option"
  fs_latest_result :: "fuel_result option"
  fs_history :: "fuel_result list"

record fuel_window_metrics =
  fm_riding_seconds :: int
  fm_engine_on_seconds :: int
  fm_trip_count :: int

section \<open>Validation\<close>

definition normalize_optional_fuel_type :: "string option \<Rightarrow> api_error + string option" where
  "normalize_optional_fuel_type value =
     (case map_option trim value of
        None \<Rightarrow> Inr None
      | Some trimmed \<Rightarrow>
          if length trimmed > 40 then Inl (InvalidFuelCalibration ''fuel_type must be at most 40 characters'')
          else if trimmed = [] then Inr None
          else Inr (Some trimmed))"

definition validate_complete_fuel_calibration :: "complete_request \<Rightarrow> api_error + unit" where
  "validate_complete_fuel_calibration request =
     (if \<not> is_finite (fq_liters request) \<or> fle (fq_liters request) (Fin 0) \<or> flt (Fin 100) (fq_liters request)
      then Inl (InvalidFuelCalibration ''liters must be greater than 0 and at most 100'')
      else if (case fq_total_cost_idr request of Some value \<Rightarrow> value < 0 | None \<Rightarrow> False)
      then Inl (InvalidFuelCalibration ''total_cost_idr cannot be negative'')
      else if \<not> fq_tank_full request
      then Inl (InvalidFuelCalibration ''the second refuel must fill the tank'')
      else if \<not> fq_no_missed_refuels request
      then Inl (InvalidFuelCalibration ''restart calibration when another refuel was missed'')
      else Inr ())"

section \<open>Measurements\<close>

definition tracked_distance_meters :: "string \<Rightarrow> 'z store_scheme \<Rightarrow> f64" where
  "tracked_distance_meters imei s =
     fmax (case lookup od_imei imei (device_distance_odometer s) of
             Some r \<Rightarrow> od_total_distance_meters r | None \<Rightarrow> Fin 0) (Fin 0)"

definition current_tracked_distance_meters :: "string \<Rightarrow> ('z store_scheme, db_error, f64) io" where
  "current_tracked_distance_meters imei = select (tracked_distance_meters imei)"

definition fuel_window_sessions :: "string \<Rightarrow> int \<Rightarrow> int \<Rightarrow> 'z store_scheme \<Rightarrow> session_row list" where
  "fuel_window_sessions imei started_at ended_at s =
     order_by (\<lambda>e. (es_created_at e, es_id e))
       (filter (\<lambda>e. es_imei e = imei \<and> es_created_at e < ended_at
          \<and> started_at < (case es_resolved_at e of Some t \<Rightarrow> t | None \<Rightarrow> ended_at))
         (telegram_engine_sessions s))"

definition session_seconds :: "int \<Rightarrow> int \<Rightarrow> session_row \<Rightarrow> int" where
  "session_seconds started_at ended_at row =
     (let session_start = max (es_created_at row) started_at;
          session_end = min (case es_resolved_at row of Some t \<Rightarrow> t | None \<Rightarrow> ended_at) ended_at
      in max 0 (num_seconds (session_end - session_start)))"

definition fetch_fuel_window_metrics ::
  "api \<Rightarrow> string \<Rightarrow> int \<Rightarrow> int \<Rightarrow> ('z, fuel_window_metrics) api_io" where
  "fetch_fuel_window_metrics a imei started_at ended_at =
     io_bind (pool (fetch_ride_summary (ap_libm a) imei started_at ended_at)) (\<lambda>summary.
     io_bind (pool (select (fuel_window_sessions imei started_at ended_at))) (\<lambda>rows.
     io_return \<lparr>fm_riding_seconds = (case summary of Some r \<Rightarrow> rs_riding_seconds r | None \<Rightarrow> 0),
       fm_engine_on_seconds = foldl (\<lambda>engine_on_seconds row. engine_on_seconds + session_seconds started_at ended_at row) 0 rows,
       fm_trip_count = int (length rows)\<rparr>))"

section \<open>The table\<close>

text \<open>The \<open>CHECK\<close> constraints of the table; in PostgreSQL a NaN is greater than every number.\<close>

definition pg_positive :: "f64 \<Rightarrow> bool" where
  "pg_positive x = (x = NaN \<or> flt (Fin 0) x)"

definition fuel_checks :: "fuel_row \<Rightarrow> bool" where
  "fuel_checks r \<longleftrightarrow> fc_status r \<in> {''active'', ''completed'', ''invalidated''}
     \<and> pg_non_negative (fc_start_distance_meters r)
     \<and> pred_option pg_non_negative (fc_end_distance_meters r)
     \<and> pred_option pg_non_negative (fc_distance_meters r)
     \<and> pred_option pg_positive (fc_liters r)
     \<and> pred_option (\<lambda>n. 0 \<le> n) (fc_total_cost_idr r)
     \<and> pred_option (\<lambda>n. 0 \<le> n) (fc_riding_seconds r)
     \<and> pred_option (\<lambda>n. 0 \<le> n) (fc_engine_on_seconds r)
     \<and> pred_option (\<lambda>n. 0 \<le> n) (fc_trip_count r)
     \<and> (fc_status r = ''completed'' \<longrightarrow> fc_completed_at r \<noteq> None \<and> fc_end_distance_meters r \<noteq> None
         \<and> fc_distance_meters r \<noteq> None \<and> fc_liters r \<noteq> None \<and> fc_riding_seconds r \<noteq> None
         \<and> fc_engine_on_seconds r \<noteq> None \<and> fc_trip_count r \<noteq> None)"

definition active_for :: "string \<Rightarrow> fuel_row \<Rightarrow> bool" where
  "active_for imei r \<longleftrightarrow> fc_imei r = imei \<and> fc_status r = ''active''"

definition insert_active_calibration ::
  "string \<Rightarrow> int \<Rightarrow> f64 \<Rightarrow> string option \<Rightarrow> ('z store_scheme, db_error, unit) io" where
  "insert_active_calibration imei started_at start_distance_meters fuel_type =
     query (\<lambda>i s. let row = \<lparr>fc_id = i, fc_imei = imei, fc_status = ''active'', fc_started_at = started_at,
              fc_start_distance_meters = start_distance_meters, fc_completed_at = None,
              fc_end_distance_meters = None, fc_distance_meters = None, fc_liters = None,
              fc_total_cost_idr = None, fc_fuel_type = fuel_type, fc_riding_seconds = None,
              fc_engine_on_seconds = None, fc_trip_count = None\<rparr> in
        if \<not> fuel_checks row then Inl CheckViolation
        else if list_ex (active_for imei) (fuel_calibrations s) then Inl UniqueViolation
        else if \<not> list_ex (\<lambda>d. dv_imei d = imei) (devices s) then Inl ForeignKeyViolation
        else Inr ((), s\<lparr>fuel_calibrations := fuel_calibrations s @ [row]\<rparr>))"

definition completed_row ::
  "int \<Rightarrow> f64 \<Rightarrow> f64 \<Rightarrow> complete_request \<Rightarrow> string option \<Rightarrow> fuel_window_metrics \<Rightarrow> fuel_row \<Rightarrow> fuel_row" where
  "completed_row completed_at end_distance_meters distance_meters request fuel_type metrics r =
     r\<lparr>fc_status := ''completed'', fc_completed_at := Some completed_at,
       fc_end_distance_meters := Some end_distance_meters, fc_distance_meters := Some distance_meters,
       fc_liters := Some (fq_liters request), fc_total_cost_idr := fq_total_cost_idr request,
       fc_fuel_type := fuel_type,
       fc_riding_seconds := Some (min (fm_riding_seconds metrics) (2 ^ 63 - 1)),
       fc_engine_on_seconds := Some (fm_engine_on_seconds metrics),
       fc_trip_count := Some (fm_trip_count metrics)\<rparr>"

definition update_calibration ::
  "int \<Rightarrow> string \<Rightarrow> (fuel_row \<Rightarrow> fuel_row) \<Rightarrow> ('z store_scheme, db_error, unit) io" where
  "update_calibration calibration_id imei f =
     query (\<lambda>_ s. let chosen = (\<lambda>r. fc_id r = calibration_id \<and> fc_imei r = imei) in
        if list_ex (\<lambda>r. chosen r \<and> \<not> fuel_checks (f r)) (fuel_calibrations s) then Inl CheckViolation
        else Inr ((), s\<lparr>fuel_calibrations := update_where chosen f (fuel_calibrations s)\<rparr>))"

definition invalidate_active :: "string \<Rightarrow> ('z store_scheme, db_error, unit) io" where
  "invalidate_active imei = execute (\<lambda>s. s\<lparr>fuel_calibrations :=
     update_where (active_for imei) (\<lambda>r. r\<lparr>fc_status := ''invalidated''\<rparr>) (fuel_calibrations s)\<rparr>)"

text \<open>The advisory lock of the device, and the row locked \<open>FOR UPDATE\<close>.\<close>

definition lock_device :: "('s, db_error, unit) io" where
  "lock_device = execute (\<lambda>s. s)"

definition fetch_active_calibration :: "int \<Rightarrow> string \<Rightarrow> ('z store_scheme, db_error, fuel_row option) io" where
  "fetch_active_calibration calibration_id imei =
     select (\<lambda>s. find (\<lambda>r. fc_id r = calibration_id \<and> active_for imei r) (fuel_calibrations s))"

section \<open>Reading\<close>

definition fuel_calibration_result_from_row :: "fuel_row \<Rightarrow> fuel_result" where
  "fuel_calibration_result_from_row row =
     (let distance_meters = fmax (the (fc_distance_meters row)) (Fin 0);
          liters = the (fc_liters row);
          distance_km = fdiv distance_meters (Fin 1000);
          total_cost_idr = fc_total_cost_idr row
      in \<lparr>fr_id = fc_id row, fr_started_at = fc_started_at row, fr_completed_at = the (fc_completed_at row),
          fr_start_distance_km = fdiv (fc_start_distance_meters row) (Fin 1000),
          fr_end_distance_km = fdiv (the (fc_end_distance_meters row)) (Fin 1000),
          fr_distance_traveled_km = distance_km, fr_liters = liters, fr_total_cost_idr = total_cost_idr,
          fr_fuel_type = fc_fuel_type row,
          fr_efficiency_km_per_liter = (if flt (Fin 0) liters then fdiv distance_km liters else Fin 0),
          fr_cost_per_km_idr = map_option (\<lambda>cost. fdiv (f64_of_int cost) distance_km)
            (if flt (Fin 0) distance_km then total_cost_idr else None),
          fr_riding_seconds = max 0 (the (fc_riding_seconds row)),
          fr_engine_on_seconds = the (fc_engine_on_seconds row), fr_trip_count = the (fc_trip_count row)\<rparr>)"

definition active_progress :: "api \<Rightarrow> string \<Rightarrow> int \<Rightarrow> fuel_row \<Rightarrow> ('z, fuel_progress) api_io" where
  "active_progress a imei now row =
     io_bind (pool (select (tracked_distance_meters imei))) (\<lambda>current_distance_meters.
     io_bind (fetch_fuel_window_metrics a imei (fc_started_at row) now) (\<lambda>metrics.
     let elapsed_seconds = max 0 (num_seconds (now - fc_started_at row)) in
     io_return \<lparr>fp_id = fc_id row, fp_started_at = fc_started_at row,
       fp_start_distance_km = fdiv (fc_start_distance_meters row) (Fin 1000),
       fp_current_distance_km = fdiv current_distance_meters (Fin 1000),
       fp_distance_traveled_km =
         fdiv (fmax (fsub current_distance_meters (fc_start_distance_meters row)) (Fin 0)) (Fin 1000),
       fp_riding_seconds = fm_riding_seconds metrics, fp_engine_on_seconds = fm_engine_on_seconds metrics,
       fp_trip_count = fm_trip_count metrics,
       fp_elapsed_days = (if elapsed_seconds = 0 then 0 else (elapsed_seconds + 86399) div 86400),
       fp_fuel_type = fc_fuel_type row\<rparr>))"

text \<open>Completed, the latest first, at most twenty.\<close>

definition completed_calibrations :: "string \<Rightarrow> 'z store_scheme \<Rightarrow> fuel_row list" where
  "completed_calibrations imei s =
     take 20 (rev (order_by (\<lambda>r. (the (fc_completed_at r), fc_id r))
       (filter (\<lambda>r. fc_imei r = imei \<and> fc_status r = ''completed'') (fuel_calibrations s))))"

definition load_device_fuel_calibrations :: "api \<Rightarrow> string \<Rightarrow> ('z, fuel_response) api_io" where
  "load_device_fuel_calibrations a imei =
     io_bind (pool (device_exists imei)) (\<lambda>known.
     if \<not> known then io_throw DeviceNotFound
     else
       io_bind (api_now a) (\<lambda>now.
       io_bind (pool (select (\<lambda>s. latest_by fc_id (filter (active_for imei) (fuel_calibrations s))))) (\<lambda>active_row.
       io_bind (case active_row of
                  Some row \<Rightarrow> io_bind (active_progress a imei now row) (\<lambda>p. io_return (Some p))
                | None \<Rightarrow> io_return None) (\<lambda>active_calibration.
       io_bind (pool (select (completed_calibrations imei))) (\<lambda>result_rows.
       let history = map fuel_calibration_result_from_row result_rows;
           latest_result = (case history of [] \<Rightarrow> None | r # _ \<Rightarrow> Some r)
       in io_return \<lparr>fs_imei = imei, fs_generated_at = now,
            fs_state = (if active_calibration \<noteq> None then ''active''
                        else if latest_result \<noteq> None then ''completed'' else ''not_started''),
            fs_active_calibration = active_calibration, fs_latest_result = latest_result,
            fs_history = history\<rparr>)))))"

definition get_device_fuel_calibrations :: "api \<Rightarrow> string \<Rightarrow> ('z, fuel_response) api_io" where
  "get_device_fuel_calibrations a imei = load_device_fuel_calibrations a imei"

section \<open>Starting, restarting and completing\<close>

definition open_calibration :: "string \<Rightarrow> int \<Rightarrow> string option \<Rightarrow> ('z, unit) api_io" where
  "open_calibration imei now fuel_type =
     io_bind (pool lock_device) (\<lambda>_.
     io_bind (pool (device_exists imei)) (\<lambda>known.
     if \<not> known then io_throw DeviceNotFound
     else
       io_bind (pool (select (\<lambda>s. list_ex (active_for imei) (fuel_calibrations s)))) (\<lambda>active_exists.
       if active_exists then io_throw FuelCalibrationAlreadyActive
       else
         io_bind (pool (current_tracked_distance_meters imei)) (\<lambda>start_distance_meters.
         pool (insert_active_calibration imei now start_distance_meters fuel_type)))))"

definition start_fuel_calibration :: "api \<Rightarrow> string \<Rightarrow> string option \<Rightarrow> ('z, fuel_response) api_io" where
  "start_fuel_calibration a imei requested =
     io_bind (api_result (normalize_optional_fuel_type requested)) (\<lambda>fuel_type.
     io_bind (api_now a) (\<lambda>now.
     io_bind (api_transaction (open_calibration imei now fuel_type)) (\<lambda>_.
     load_device_fuel_calibrations a imei)))"

definition reopen_calibration :: "string \<Rightarrow> int \<Rightarrow> string option \<Rightarrow> ('z, unit) api_io" where
  "reopen_calibration imei now fuel_type =
     io_bind (pool lock_device) (\<lambda>_.
     io_bind (pool (device_exists imei)) (\<lambda>known.
     if \<not> known then io_throw DeviceNotFound
     else
       io_bind (pool (invalidate_active imei)) (\<lambda>_.
       io_bind (pool (current_tracked_distance_meters imei)) (\<lambda>start_distance_meters.
       pool (insert_active_calibration imei now start_distance_meters fuel_type)))))"

definition restart_fuel_calibration :: "api \<Rightarrow> string \<Rightarrow> string option \<Rightarrow> ('z, fuel_response) api_io" where
  "restart_fuel_calibration a imei requested =
     io_bind (api_result (normalize_optional_fuel_type requested)) (\<lambda>fuel_type.
     io_bind (api_now a) (\<lambda>now.
     io_bind (api_transaction (reopen_calibration imei now fuel_type)) (\<lambda>_.
     load_device_fuel_calibrations a imei)))"

text \<open>The metrics are read through the pool, while the transaction is open.\<close>

definition close_calibration ::
  "api \<Rightarrow> string \<Rightarrow> int \<Rightarrow> complete_request \<Rightarrow> string option \<Rightarrow> int \<Rightarrow> ('z, unit) api_io" where
  "close_calibration a imei calibration_id request fuel_type completed_at =
     io_bind (pool lock_device) (\<lambda>_.
     io_bind (pool (fetch_active_calibration calibration_id imei)) (\<lambda>calibration.
     case calibration of None \<Rightarrow> io_throw FuelCalibrationNotFound | Some calibration \<Rightarrow>
     io_bind (pool (current_tracked_distance_meters imei)) (\<lambda>end_distance_meters.
     let distance_meters = fmax (fsub end_distance_meters (fc_start_distance_meters calibration)) (Fin 0) in
     io_bind (fetch_fuel_window_metrics a imei (fc_started_at calibration) completed_at) (\<lambda>metrics.
     pool (update_calibration calibration_id imei
       (completed_row completed_at end_distance_meters distance_meters request
          (case fuel_type of Some t \<Rightarrow> Some t | None \<Rightarrow> fc_fuel_type calibration) metrics))))))"

definition complete_fuel_calibration ::
  "api \<Rightarrow> string \<Rightarrow> int \<Rightarrow> complete_request \<Rightarrow> ('z, fuel_response) api_io" where
  "complete_fuel_calibration a imei calibration_id request =
     io_bind (api_result (validate_complete_fuel_calibration request)) (\<lambda>_.
     io_bind (api_result (normalize_optional_fuel_type (fq_fuel_type request))) (\<lambda>fuel_type.
     io_bind (api_now a) (\<lambda>completed_at.
     io_bind (api_transaction (close_calibration a imei calibration_id request fuel_type completed_at)) (\<lambda>_.
     load_device_fuel_calibrations a imei))))"

section \<open>Well-formed calibrations\<close>

text \<open>
  Identifiers are unique and below the sequence, a device has one active calibration at most, and a
  completed row has the distance between its two readings. What a row is identified by and starts
  from never changes, and a row that is no longer active never changes at all.
\<close>

definition fuel_row_ok :: "fuel_row \<Rightarrow> bool" where
  "fuel_row_ok r \<longleftrightarrow> fuel_checks r \<and> (fc_status r = ''completed'' \<longrightarrow>
     fc_distance_meters r = Some (fmax (fsub (the (fc_end_distance_meters r)) (fc_start_distance_meters r)) (Fin 0)))"

definition fuel_ok :: "int \<Rightarrow> fuel_row list \<Rightarrow> bool" where
  "fuel_ok n T \<longleftrightarrow> distinct (map fc_id T) \<and> (\<forall>r \<in> set T. fc_id r < n \<and> fuel_row_ok r)
     \<and> distinct (map fc_imei (filter (\<lambda>r. fc_status r = ''active'') T))"

definition fuel_row_step :: "fuel_row \<Rightarrow> fuel_row \<Rightarrow> bool" where
  "fuel_row_step r q \<longleftrightarrow> fc_id q = fc_id r \<and> fc_imei q = fc_imei r \<and> fc_started_at q = fc_started_at r
     \<and> fc_start_distance_meters q = fc_start_distance_meters r \<and> (fc_status r = ''active'' \<or> q = r)"

definition fuel_step :: "fuel_row list \<Rightarrow> fuel_row list \<Rightarrow> bool" where
  "fuel_step T T' \<longleftrightarrow> (\<forall>r \<in> set T. \<exists>q \<in> set T'. fuel_row_step r q)"

definition fuel_inv :: "fuel_row list \<Rightarrow> int \<Rightarrow> fuel_row list \<Rightarrow> bool" where
  "fuel_inv T0 n T \<longleftrightarrow> fuel_ok n T \<and> fuel_step T0 T"

lemma fuel_row_step_trans: "fuel_row_step p q \<Longrightarrow> fuel_row_step q r \<Longrightarrow> fuel_row_step p r"
  by (auto simp: fuel_row_step_def)

lemma fuel_step_trans: "fuel_step T U \<Longrightarrow> fuel_step U V \<Longrightarrow> fuel_step T V"
  unfolding fuel_step_def by (meson fuel_row_step_trans)

lemma fuel_step_refl: "fuel_step T T"
  by (auto simp: fuel_step_def fuel_row_step_def)

lemma fuel_inv_mono: "fuel_inv T0 m T \<Longrightarrow> m \<le> n \<Longrightarrow> fuel_inv T0 n T"
  by (force simp: fuel_inv_def fuel_ok_def)

lemma fuel_inv_update:
  assumes inv: "fuel_inv T0 n T"
    and f: "\<And>r. r \<in> set T \<Longrightarrow> p r \<Longrightarrow> fuel_row_ok (f r) \<and> fuel_row_step r (f r) \<and> fc_status (f r) \<noteq> ''active''"
  shows "fuel_inv T0 n (update_where p f T)"
proof -
  have active: "filter (\<lambda>r. fc_status r = ''active'') (update_where p f T)
      = filter (\<lambda>r. fc_status r = ''active'' \<and> \<not> p r) T"
    using f by (induction T) (auto simp: update_where_def)
  have "distinct (map fc_imei (filter (\<lambda>r. fc_status r = ''active'' \<and> \<not> p r) T))"
    using inv distinct_map_filter [of fc_imei "filter (\<lambda>r. fc_status r = ''active'') T" "\<lambda>r. \<not> p r"]
    by (simp add: fuel_inv_def fuel_ok_def)
  moreover have "map fc_id (update_where p f T) = map fc_id T"
    using f by (intro map_update_where) (auto simp: fuel_row_step_def)
  moreover have "\<forall>r \<in> set (update_where p f T). fc_id r < n \<and> fuel_row_ok r"
    using inv f by (fastforce simp: set_update_where fuel_inv_def fuel_ok_def fuel_row_step_def)
  ultimately have "fuel_ok n (update_where p f T)"
    using inv by (simp add: fuel_ok_def fuel_inv_def active)
  moreover have "fuel_step T (update_where p f T)"
    unfolding fuel_step_def
  proof
    fix r assume r: "r \<in> set T"
    then have "(if p r then f r else r) \<in> set (update_where p f T)" by (auto simp: update_where_def)
    moreover have "fuel_row_step r (if p r then f r else r)" using f r by (simp add: fuel_row_step_def)
    ultimately show "\<exists>q \<in> set (update_where p f T). fuel_row_step r q" by blast
  qed
  ultimately show ?thesis using inv fuel_step_trans by (auto simp: fuel_inv_def)
qed

lemma fuel_inv_insert:
  assumes "fuel_inv T0 n T" and "\<not> list_ex (active_for (fc_imei row)) T" and "fc_id row = n" and "fuel_row_ok row"
  shows "fuel_inv T0 (n + 1) (T @ [row])"
  using assms
  by (fastforce simp: fuel_inv_def fuel_ok_def fuel_step_def list_ex_iff active_for_def)

section \<open>Every request keeps them\<close>

abbreviation fuel_kept :: "fuel_row list \<Rightarrow> int \<Rightarrow> 'z store_scheme \<Rightarrow> bool" where
  "fuel_kept T0 n s \<equiv> fuel_inv T0 n (fuel_calibrations s)"

lemma persistent_fuel: "persistent (fuel_kept T0)"
  by (auto simp: persistent_def intro: fuel_inv_mono)

lemma keeps_fuel_untouched:
  assumes "untouched fuel_calibrations m"
  shows "keeps (fuel_kept T0) m"
  using assms fuel_inv_mono by (fastforce simp: keeps_def untouched_def)

lemma pg_non_negative_fmax [simp]: "pg_non_negative (fmax x (Fin 0))"
  by (cases x) (auto simp: pg_non_negative_def fmax_def)

lemma keeps_insert_calibration:
  assumes "pg_non_negative d"
  shows "keeps (fuel_kept T0) (insert_active_calibration imei t d ft)"
  unfolding insert_active_calibration_def
proof (rule keeps_query [OF persistent_fuel])
  fix n x and s s' :: "'a store_scheme"
  show "fuel_kept T0 (n + 1) s'" if "fuel_kept T0 n s" and "(let row = \<lparr>fc_id = n, fc_imei = imei,
      fc_status = ''active'', fc_started_at = t, fc_start_distance_meters = d, fc_completed_at = None,
      fc_end_distance_meters = None, fc_distance_meters = None, fc_liters = None,
      fc_total_cost_idr = None, fc_fuel_type = ft, fc_riding_seconds = None,
      fc_engine_on_seconds = None, fc_trip_count = None\<rparr> in
        if \<not> fuel_checks row then Inl CheckViolation
        else if list_ex (active_for imei) (fuel_calibrations s) then Inl UniqueViolation
        else if \<not> list_ex (\<lambda>d. dv_imei d = imei) (devices s) then Inl ForeignKeyViolation
        else Inr ((), s\<lparr>fuel_calibrations := fuel_calibrations s @ [row]\<rparr>)) = Inr (x, s')"
    using that by (auto simp: Let_def fuel_row_ok_def split: if_splits intro!: fuel_inv_insert)
qed

lemma keeps_invalidate: "keeps (fuel_kept T0) (invalidate_active imei)"
  unfolding invalidate_active_def
proof (rule keeps_execute [OF persistent_fuel])
  fix n :: int and s :: "'a store_scheme"
  assume inv: "fuel_kept T0 n s"
  have "fuel_row_ok (r\<lparr>fc_status := ''invalidated''\<rparr>)" if "r \<in> set (fuel_calibrations s)" for r
    using inv that by (auto simp: fuel_inv_def fuel_ok_def fuel_row_ok_def fuel_checks_def)
  then show "fuel_kept T0 n (s\<lparr>fuel_calibrations :=
      update_where (active_for imei) (\<lambda>r. r\<lparr>fc_status := ''invalidated''\<rparr>) (fuel_calibrations s)\<rparr>)"
    using inv by (auto intro!: fuel_inv_update simp: fuel_row_step_def active_for_def)
qed

text \<open>A window is measured as something between nothing and its own length.\<close>

lemma foldl_session_seconds: "(c :: int) \<le> foldl (\<lambda>x row. x + session_seconds t u row) c rows"
proof (induction rows arbitrary: c)
  case (Cons row rows)
  have "c \<le> c + session_seconds t u row" by (simp add: session_seconds_def Let_def)
  also have "\<dots> \<le> foldl (\<lambda>x row. x + session_seconds t u row) c (row # rows)" using Cons.IH by simp
  finally show ?case .
qed simp

lemma untouched_metrics [io_intros]: "untouched view (fetch_fuel_window_metrics a imei t u)"
  unfolding fetch_fuel_window_metrics_def fetch_ride_summary_def by (intro io_intros)

definition metrics_ok :: "int \<Rightarrow> int \<Rightarrow> fuel_window_metrics \<Rightarrow> bool" where
  "metrics_ok t u m \<longleftrightarrow> 0 \<le> fm_riding_seconds m \<and> fm_riding_seconds m * SECOND \<le> max 0 (u - t)
     \<and> 0 \<le> fm_engine_on_seconds m \<and> 0 \<le> fm_trip_count m"

lemma fuel_metrics_ok:
  assumes "fetch_fuel_window_metrics a imei t u w = (Inr m, w')"
  shows "metrics_ok t u m \<and> wdb w' = wdb w"
proof -
  from assms obtain summary w1 rows where 1: "fetch_ride_summary (ap_libm a) imei t u w = (Inr summary, w1)"
    and 2: "select (fuel_window_sessions imei t u) w1 = (Inr rows, w')"
    and m: "m = \<lparr>fm_riding_seconds = (case summary of Some r \<Rightarrow> rs_riding_seconds r | None \<Rightarrow> 0),
      fm_engine_on_seconds = foldl (\<lambda>x row. x + session_seconds t u row) 0 rows, fm_trip_count = int (length rows)\<rparr>"
    unfolding fetch_fuel_window_metrics_def by (auto simp: bind_ok pool_ok)
  from ride_summary_bound [OF 1] select_ok [OF 2] foldl_session_seconds [of 0 t u rows] m
  show ?thesis by (auto simp: metrics_ok_def)
qed

lemma validated:
  assumes "validate_complete_fuel_calibration request = Inr ()"
  shows "pg_positive (fq_liters request) \<and> pred_option (\<lambda>n. 0 \<le> n) (fq_total_cost_idr request)"
  using assms
  by (cases "fq_liters request")
     (auto simp: validate_complete_fuel_calibration_def pg_positive_def split: if_splits option.splits)

lemma completed_row_ok:
  assumes "validate_complete_fuel_calibration request = Inr ()" and "metrics_ok t u m"
    and "fc_start_distance_meters r = d0" and "pg_non_negative d0" and "pg_non_negative d1"
  shows "fuel_row_ok (completed_row u d1 (fmax (fsub d1 d0) (Fin 0)) request ft m r)"
  using validated [OF assms(1)] assms(2-)
  by (simp add: fuel_row_ok_def fuel_checks_def completed_row_def metrics_ok_def)

lemma keeps_close:
  assumes "validate_complete_fuel_calibration request = Inr ()"
  shows "keeps (fuel_kept T0) (close_calibration a imei i request ft u :: ('z, unit) api_io)"
proof -
  let ?I = "fuel_kept T0 :: int \<Rightarrow> 'z store_scheme \<Rightarrow> bool"
  let ?J = "\<lambda>c n s. ?I n s \<and> (\<forall>r \<in> set (fuel_calibrations s). fc_id r = i \<longrightarrow> r = c) \<and> fc_status c = ''active''
      \<and> pg_non_negative (fc_start_distance_meters c)"
  have mono: "?I (n + 1) s" if "?I n s" for n and s :: "'z store_scheme" using that by (rule fuel_inv_mono) simp
  have lock: "triple ?I (pool lock_device) (\<lambda>_. ?I) ?I"
    unfolding lock_device_def by (intro triple_map_error triple_execute) (auto intro: mono)
  have fetch: "triple ?I (pool (fetch_active_calibration i imei)) (\<lambda>x. case x of None \<Rightarrow> ?I | Some c \<Rightarrow> ?J c) ?I"
    unfolding fetch_active_calibration_def
  proof (intro triple_map_error triple_select)
    fix n and s :: "'z store_scheme" assume inv: "?I n s"
    then have "inj_on fc_id (set (fuel_calibrations s))" by (simp add: fuel_inv_def fuel_ok_def distinct_map)
    moreover have "pg_non_negative (fc_start_distance_meters r)" if "r \<in> set (fuel_calibrations s)" for r
      using inv that by (auto simp: fuel_inv_def fuel_ok_def fuel_row_ok_def fuel_checks_def)
    ultimately show "(case find (\<lambda>r. fc_id r = i \<and> active_for imei r) (fuel_calibrations s) of
        None \<Rightarrow> ?I | Some c \<Rightarrow> ?J c) (n + 1) s"
      using mono [OF inv]
      by (auto split: option.split simp: find_Some_iff active_for_def dest!: inj_onD intro!: nth_mem)
  qed (rule mono)
  have distance: "triple (?J c) (pool (current_tracked_distance_meters imei))
      (\<lambda>d n s. ?J c n s \<and> pg_non_negative d) ?I" for c
    unfolding current_tracked_distance_meters_def
    by (intro triple_map_error triple_select) (auto intro: mono simp: tracked_distance_meters_def)
  have metrics: "triple (\<lambda>n s. ?J c n s \<and> pg_non_negative d) (fetch_fuel_window_metrics a imei t u)
      (\<lambda>m n s. (?J c n s \<and> pg_non_negative d) \<and> metrics_ok t u m) ?I" for c d t
  proof (rule tripleI)
    fix w :: "'z store_scheme world" and x w'
    assume j: "?J c (wseq w) (wdb w) \<and> pg_non_negative d"
    have quiet: "wdb (snd (fetch_fuel_window_metrics a imei t u w)) = wdb w"
      "wseq w \<le> wseq (snd (fetch_fuel_window_metrics a imei t u w))"
      using untouched_metrics [of "\<lambda>s. s" a imei t u] by (auto simp: untouched_def)
    show "(?J c (wseq w') (wdb w') \<and> pg_non_negative d) \<and> metrics_ok t u x"
      if "fetch_fuel_window_metrics a imei t u w = (Inr x, w')" for x w'
      using fuel_metrics_ok [OF that] quiet j that by (auto intro: fuel_inv_mono)
    show "?I (wseq w') (wdb w')" if "fetch_fuel_window_metrics a imei t u w = (Inl e, w')" for e w'
      using quiet j that by (auto intro: fuel_inv_mono)
  qed
  have update: "triple (\<lambda>n s. (?J c n s \<and> pg_non_negative d) \<and> metrics_ok t u m)
      (pool (update_calibration i imei (completed_row u d
        (fmax (fsub d (fc_start_distance_meters c)) (Fin 0)) request ft' m))) (\<lambda>_. ?I) ?I" for c d t m ft'
    unfolding update_calibration_def Let_def
  proof (intro triple_map_error triple_query)
    fix n x and s s' :: "'z store_scheme"
    assume j: "(?J c n s \<and> pg_non_negative d) \<and> metrics_ok t u m"
      and "(if list_ex (\<lambda>r. (fc_id r = i \<and> fc_imei r = imei) \<and> \<not> fuel_checks (completed_row u d
          (fmax (fsub d (fc_start_distance_meters c)) (Fin 0)) request ft' m r)) (fuel_calibrations s)
        then Inl CheckViolation
        else Inr ((), s\<lparr>fuel_calibrations := update_where (\<lambda>r. fc_id r = i \<and> fc_imei r = imei) (completed_row u d
          (fmax (fsub d (fc_start_distance_meters c)) (Fin 0)) request ft' m) (fuel_calibrations s)\<rparr>)) = Inr (x, s')"
    then have s': "fuel_calibrations s' = update_where (\<lambda>r. fc_id r = i \<and> fc_imei r = imei) (completed_row u d
          (fmax (fsub d (fc_start_distance_meters c)) (Fin 0)) request ft' m) (fuel_calibrations s)"
      by (auto split: if_splits)
    have "fuel_inv T0 n (fuel_calibrations s')"
      unfolding s'
    proof (rule fuel_inv_update)
      fix r assume "r \<in> set (fuel_calibrations s)" "fc_id r = i \<and> fc_imei r = imei"
      with j have "r = c" by blast
      then show "fuel_row_ok (completed_row u d (fmax (fsub d (fc_start_distance_meters c)) (Fin 0)) request ft' m r)
        \<and> fuel_row_step r (completed_row u d (fmax (fsub d (fc_start_distance_meters c)) (Fin 0)) request ft' m r)
        \<and> fc_status (completed_row u d (fmax (fsub d (fc_start_distance_meters c)) (Fin 0)) request ft' m r) \<noteq> ''active''"
        using j completed_row_ok [OF assms, of t u m c] by (auto simp: fuel_row_step_def completed_row_def)
    qed (use j in blast)
    then show "?I (n + 1) s'" by (rule fuel_inv_mono) simp
  qed (use mono in blast)
  have triple: "triple ?I (close_calibration a imei i request ft u :: ('z, unit) api_io) (\<lambda>_. ?I) ?I"
    unfolding close_calibration_def Let_def
  proof (rule triple_bind [OF lock triple_bind [OF fetch]])
    fix calibration :: "fuel_row option"
    show "triple (case calibration of None \<Rightarrow> ?I | Some c \<Rightarrow> ?J c)
      (case calibration of None \<Rightarrow> io_throw FuelCalibrationNotFound | Some calibration \<Rightarrow>
        io_bind (pool (current_tracked_distance_meters imei)) (\<lambda>end_distance_meters.
        io_bind (fetch_fuel_window_metrics a imei (fc_started_at calibration) u) (\<lambda>metrics.
        pool (update_calibration i imei (completed_row u end_distance_meters
          (fmax (fsub end_distance_meters (fc_start_distance_meters calibration)) (Fin 0)) request
          (case ft of Some t \<Rightarrow> Some t | None \<Rightarrow> fc_fuel_type calibration) metrics))))) (\<lambda>_. ?I) ?I"
      by (cases calibration) (auto intro!: triple_throw triple_bind [OF distance triple_bind [OF metrics update]])
  qed
  have "advances (close_calibration a imei i request ft u :: ('z, unit) api_io)"
    unfolding close_calibration_def lock_device_def fetch_active_calibration_def
      current_tracked_distance_meters_def update_calibration_def Let_def
    by (intro io_intros keeps_execute keeps_query untouched_metrics [THEN untouched_keeps, where view = "\<lambda>_. ()", simplified])
       (auto simp: persistent_def)
  with triple show ?thesis by (rule keeps_of_triple)
qed

lemma keeps_fuel_select: "keeps (fuel_kept T0) (pool (select f))"
  by (intro keeps_map_error keeps_select persistent_fuel)

lemma keeps_lock: "keeps (fuel_kept T0) (pool lock_device)"
  unfolding lock_device_def by (intro keeps_map_error keeps_execute persistent_fuel)

lemma keeps_insert_tracked:
  "keeps (fuel_kept T0) (io_bind (pool (current_tracked_distance_meters imei)) (\<lambda>d.
     pool (insert_active_calibration imei t d ft)))"
proof -
  have 1: "triple (fuel_kept T0) (pool (current_tracked_distance_meters imei))
      (\<lambda>d n s. fuel_kept T0 n s \<and> pg_non_negative d) (fuel_kept T0)"
    unfolding current_tracked_distance_meters_def tracked_distance_meters_def
    by (intro triple_map_error triple_select) (auto intro: fuel_inv_mono)
  have 2: "triple (\<lambda>n s. fuel_kept T0 n s \<and> pg_non_negative d) (pool (insert_active_calibration imei t d ft))
      (\<lambda>_. fuel_kept T0) (fuel_kept T0)" for d
    by (cases "pg_non_negative d")
       (auto intro: triple_map_error keeps_triple keeps_insert_calibration simp: triple_def [of "\<lambda>_ _. False"])
  have 3: "advances (io_bind (pool (current_tracked_distance_meters imei)) (\<lambda>d.
     pool (insert_active_calibration imei t d ft)))"
    unfolding current_tracked_distance_meters_def insert_active_calibration_def
    by (intro io_intros keeps_query) (auto simp: persistent_def)
  show ?thesis by (rule keeps_of_triple [OF triple_bind [OF 1 2] 3])
qed

lemma keeps_open: "keeps (fuel_kept T0) (open_calibration imei t ft)"
  unfolding open_calibration_def device_exists_def
  by (intro keeps_bind keeps_lock keeps_fuel_select keeps_if keeps_throw keeps_insert_tracked)

lemma keeps_reopen: "keeps (fuel_kept T0) (reopen_calibration imei t ft)"
  unfolding reopen_calibration_def device_exists_def
  by (intro keeps_bind keeps_lock keeps_fuel_select keeps_if keeps_throw keeps_insert_tracked
      keeps_map_error keeps_invalidate)

lemma untouched_load: "untouched view (load_device_fuel_calibrations a imei)"
  unfolding load_device_fuel_calibrations_def active_progress_def Let_def by (intro io_intros)

lemma keeps_load: "keeps (fuel_kept T0) (load_device_fuel_calibrations a imei)"
  by (intro keeps_fuel_untouched untouched_load)

lemma keeps_fuel_now: "keeps (fuel_kept T0) (api_now a)"
  by (intro keeps_fuel_untouched io_intros)

lemma keeps_start: "keeps (fuel_kept T0) (start_fuel_calibration a imei ft)"
  unfolding start_fuel_calibration_def
  by (intro keeps_bind keeps_load keeps_fuel_now keeps_api_transaction persistent_fuel keeps_open
      keeps_fuel_untouched [OF untouched_api_result])

lemma keeps_restart: "keeps (fuel_kept T0) (restart_fuel_calibration a imei ft)"
  unfolding restart_fuel_calibration_def
  by (intro keeps_bind keeps_load keeps_fuel_now keeps_api_transaction persistent_fuel keeps_reopen
      keeps_fuel_untouched [OF untouched_api_result])

lemma keeps_complete: "keeps (fuel_kept T0) (complete_fuel_calibration a imei i request)"
proof (cases "validate_complete_fuel_calibration request")
  case (Inl e)
  then show ?thesis
    by (simp add: complete_fuel_calibration_def api_result_def keeps_def io_bind_def io_throw_def)
next
  case (Inr u)
  then have "validate_complete_fuel_calibration request = Inr ()" by simp
  then show ?thesis
    unfolding complete_fuel_calibration_def
    by (intro keeps_bind keeps_load keeps_fuel_now keeps_api_transaction persistent_fuel keeps_close
        keeps_fuel_untouched [OF untouched_api_result])
qed

section \<open>Requests\<close>

text \<open>
  What a client may ask, answered one request after the other; before each, the other programs and
  requests have changed the world, but not the calibrations.
\<close>

datatype fuel_request =
    StartFuel string "string option"
  | RestartFuel string "string option"
  | CompleteFuel string int complete_request
  | ReadFuel string

fun handle_fuel :: "api \<Rightarrow> fuel_request \<Rightarrow> ('z, fuel_response) api_io" where
  "handle_fuel a (StartFuel imei fuel_type) = start_fuel_calibration a imei fuel_type"
| "handle_fuel a (RestartFuel imei fuel_type) = restart_fuel_calibration a imei fuel_type"
| "handle_fuel a (CompleteFuel imei i request) = complete_fuel_calibration a imei i request"
| "handle_fuel a (ReadFuel imei) = get_device_fuel_calibrations a imei"

type_synonym 'z change = "'z store_scheme world \<Rightarrow> 'z store_scheme world"

fun serve_fuel :: "api \<Rightarrow> ('z change \<times> fuel_request) list \<Rightarrow> 'z change" where
  "serve_fuel a [] w = w"
| "serve_fuel a ((others, request) # rest) w = serve_fuel a rest (snd (handle_fuel a request (others w)))"

definition fuel_bystander :: "'z change \<Rightarrow> bool" where
  "fuel_bystander f \<longleftrightarrow> (\<forall>w. wseq w \<le> wseq (f w) \<and> fuel_calibrations (wdb (f w)) = fuel_calibrations (wdb w))"

lemma keeps_fuel_request: "keeps (fuel_kept T0) (handle_fuel a request)"
  by (cases request)
     (simp_all add: keeps_start keeps_restart keeps_complete get_device_fuel_calibrations_def keeps_load)

text \<open>
  The life of a fuel calibration, over any sequence of requests for any devices, whichever queries
  fail: calibrations keep their identifiers, devices and first readings, a device never has two active
  ones, every row satisfies the constraints of the table, a completed calibration has as its distance
  what the odometer has advanced, never less than nothing, and once completed or invalidated a
  calibration never changes and is never lost.
\<close>

theorem fuel_calibrations_lifecycle:
  assumes "\<forall>(f, request) \<in> set steps. fuel_bystander f"
    and "fuel_ok (wseq w) (fuel_calibrations (wdb w))"
  shows "fuel_ok (wseq (serve_fuel a steps w)) (fuel_calibrations (wdb (serve_fuel a steps w)))
    \<and> fuel_step (fuel_calibrations (wdb w)) (fuel_calibrations (wdb (serve_fuel a steps w)))"
proof -
  have "fuel_inv T0 (wseq (serve_fuel a steps w)) (fuel_calibrations (wdb (serve_fuel a steps w)))"
    if "fuel_inv T0 (wseq w) (fuel_calibrations (wdb w))" for T0
    using assms(1) that
  proof (induction a steps w rule: serve_fuel.induct)
    case (2 a f request rest w)
    have "wseq w \<le> wseq (f w)" "fuel_calibrations (wdb (f w)) = fuel_calibrations (wdb w)"
      using "2.prems"(1) by (simp_all add: fuel_bystander_def)
    with "2.prems"(2) have "fuel_inv T0 (wseq (f w)) (fuel_calibrations (wdb (f w)))"
      by (auto intro: fuel_inv_mono)
    with 2 keepsD [OF keeps_fuel_request, of T0 "f w" a request] show ?case by simp
  qed simp
  with assms(2) fuel_step_refl show ?thesis by (auto simp: fuel_inv_def)
qed

section \<open>What a request does\<close>

abbreviation calm :: "'s \<Rightarrow> int \<Rightarrow> 's world" where
  "calm s n \<equiv> \<lparr>wdb = s, wseq = n, wsched = []\<rparr>"

lemma calm_steps:
  "pool (select f) (calm s n) = (Inr (f s), calm s (n + 1))"
  "pool lock_device (calm s n) = (Inr (), calm s (n + 1))"
  "pool (execute (\<lambda>s. s)) (calm s n) = (Inr (), calm s (n + 1))"
  "api_now a (calm s n) = (Inr (ap_clock a n), calm s n)"
  by (simp_all add: io_map_error_def select_def execute_def query_def operation_def lock_device_def api_now_def)

lemma calm_metrics:
  "\<exists>m. fetch_fuel_window_metrics a imei t u (calm s n) = (Inr m, calm s (n + 2))"
  by (simp add: fetch_fuel_window_metrics_def fetch_ride_summary_def io_bind_def io_return_def
      io_map_error_def select_def query_def operation_def)

lemma calm_load:
  assumes "list_ex (\<lambda>d. dv_imei d = imei) (devices s)"
    and "latest_by fc_id (filter (active_for imei) (fuel_calibrations s)) = Some row"
  shows "\<exists>resp p w'. load_device_fuel_calibrations a imei (calm s n) = (Inr resp, w') \<and> wdb w' = s
    \<and> fs_state resp = ''active'' \<and> fs_active_calibration resp = Some p \<and> fp_id p = fc_id row
    \<and> fp_distance_traveled_km p = fdiv (fmax (fsub (tracked_distance_meters imei s)
         (fc_start_distance_meters row)) (Fin 0)) (Fin 1000)"
proof -
  obtain m where m: "fetch_fuel_window_metrics a imei (fc_started_at row) (ap_clock a (n + 1))
      (calm s (n + 3)) = (Inr m, calm s (n + 5))"
    using calm_metrics [of a imei "fc_started_at row" "ap_clock a (n + 1)" s "n + 3"] by (auto simp: add.assoc)
  show ?thesis
    using assms m
    by (simp add: load_device_fuel_calibrations_def active_progress_def device_exists_def Let_def io_bind_def
        io_return_def calm_steps add.assoc)
qed

text \<open>
  What starting a calibration does, on every branch, when no query fails: an invalid fuel type is
  rejected at once; an unknown device and a device with an active calibration are rejected and nothing
  changes, so the constraints of the table are never what rejects a request; otherwise exactly one
  active row is added, with the reading of the odometer and the time of the request, and the response
  shows that calibration with no distance travelled yet.
\<close>

theorem fuel_start_outcome:
  assumes "wsched w = []"
  shows "case normalize_optional_fuel_type requested of
      Inl e \<Rightarrow> start_fuel_calibration a imei requested w = (Inl e, w)
    | Inr fuel_type \<Rightarrow>
        let (r, w') = start_fuel_calibration a imei requested w in
        if \<not> list_ex (\<lambda>d. dv_imei d = imei) (devices (wdb w)) then r = Inl DeviceNotFound \<and> wdb w' = wdb w
        else if list_ex (active_for imei) (fuel_calibrations (wdb w))
        then r = Inl FuelCalibrationAlreadyActive \<and> wdb w' = wdb w
        else (\<exists>row resp p. r = Inr resp \<and> wdb w' = (wdb w)\<lparr>fuel_calibrations := fuel_calibrations (wdb w) @ [row]\<rparr>
          \<and> active_for imei row \<and> fuel_row_ok row \<and> fc_started_at row = ap_clock a (wseq w)
          \<and> fc_start_distance_meters row = tracked_distance_meters imei (wdb w) \<and> fc_fuel_type row = fuel_type
          \<and> fs_state resp = ''active'' \<and> fs_active_calibration resp = Some p \<and> fp_id p = fc_id row
          \<and> fp_distance_traveled_km p = fdiv (fmax (fsub (tracked_distance_meters imei (wdb w))
              (tracked_distance_meters imei (wdb w))) (Fin 0)) (Fin 1000))"
proof (cases "normalize_optional_fuel_type requested")
  case (Inl e)
  then show ?thesis by (simp add: start_fuel_calibration_def api_result_def io_bind_def io_throw_def)
next
  case (Inr fuel_type)
  obtain s n where w: "w = calm s n" using assms by (cases w) auto
  let ?T = "fuel_calibrations s" and ?d = "tracked_distance_meters imei s"
  have start: "start_fuel_calibration a imei requested (calm s n)
      = io_bind (api_transaction (open_calibration imei (ap_clock a n) fuel_type))
          (\<lambda>_. load_device_fuel_calibrations a imei) (calm s n)"
    using Inr by (simp add: start_fuel_calibration_def api_result_def io_bind_def io_return_def api_now_def)
  show ?thesis
  proof (cases "list_ex (\<lambda>d. dv_imei d = imei) (devices s) \<and> \<not> list_ex (active_for imei) ?T")
    case False
    then show ?thesis
      using Inr
      by (auto simp: w start api_transaction_def open_calibration_def device_exists_def io_bind_def
          io_throw_def calm_steps)
  next
    case True
    define row where "row i = \<lparr>fc_id = i, fc_imei = imei, fc_status = ''active'',
      fc_started_at = ap_clock a n, fc_start_distance_meters = ?d, fc_completed_at = None,
      fc_end_distance_meters = None, fc_distance_meters = None, fc_liters = None,
      fc_total_cost_idr = None, fc_fuel_type = fuel_type, fc_riding_seconds = None,
      fc_engine_on_seconds = None, fc_trip_count = None\<rparr>" for i
    have row: "fuel_checks (row i)" for i by (simp add: row_def fuel_checks_def tracked_distance_meters_def)
    have insert: "pool (insert_active_calibration imei (ap_clock a n) ?d fuel_type) (calm s i)
        = (Inr (), calm (s\<lparr>fuel_calibrations := ?T @ [row i]\<rparr>) (i + 1))" for i
      using True row
      by (simp add: insert_active_calibration_def io_map_error_def query_def operation_def row_def [symmetric])
    obtain i k where run: "api_transaction (open_calibration imei (ap_clock a n) fuel_type) (calm s n)
        = (Inr (), calm (s\<lparr>fuel_calibrations := ?T @ [row i]\<rparr>) k)"
      using True
      by (simp add: api_transaction_def open_calibration_def device_exists_def io_bind_def io_return_def
          current_tracked_distance_meters_def calm_steps insert)
    have "filter (active_for imei) ?T = []" using True by (auto simp: list_ex_iff filter_empty_conv)
    then have "latest_by fc_id (filter (active_for imei) (?T @ [row i])) = Some (row i)"
      by (simp add: active_for_def row_def)
    moreover have same: "tracked_distance_meters imei (s\<lparr>fuel_calibrations := ?T @ [row i]\<rparr>) = ?d"
      by (simp add: tracked_distance_meters_def)
    ultimately obtain resp p w' where "load_device_fuel_calibrations a imei
        (calm (s\<lparr>fuel_calibrations := ?T @ [row i]\<rparr>) k) = (Inr resp, w')"
      "wdb w' = s\<lparr>fuel_calibrations := ?T @ [row i]\<rparr>" "fs_state resp = ''active''"
      "fs_active_calibration resp = Some p" "fp_id p = fc_id (row i)"
      "fp_distance_traveled_km p = fdiv (fmax (fsub ?d ?d) (Fin 0)) (Fin 1000)"
      using True calm_load [of imei "s\<lparr>fuel_calibrations := ?T @ [row i]\<rparr>" "row i" a k]
      by (auto simp: row_def)
    then show ?thesis
      using True Inr row [of i]
      by (auto simp: w start io_bind_def run fuel_row_ok_def intro!: exI [of _ "row i"]) (auto simp: row_def active_for_def)
  qed
qed

text \<open>What completing measures, as a function of the database.\<close>

definition fuel_metrics :: "api \<Rightarrow> string \<Rightarrow> int \<Rightarrow> int \<Rightarrow> 'z store_scheme \<Rightarrow> fuel_window_metrics" where
  "fuel_metrics a imei t u s =
     \<lparr>fm_riding_seconds = rs_riding_seconds (ride_summary_of_rows (ap_libm a) (locations_between imei t u s)),
      fm_engine_on_seconds = sum_list (map (session_seconds t u) (fuel_window_sessions imei t u s)),
      fm_trip_count = int (length (fuel_window_sessions imei t u s))\<rparr>"

lemma foldl_plus_sum: "foldl (\<lambda>x row. x + f row) c rows = c + sum_list (map f rows)" for c :: int
  by (induction rows arbitrary: c) (auto simp: algebra_simps)

lemma fuel_metrics_run:
  assumes "fetch_fuel_window_metrics a imei t u w = (Inr m, w')"
  shows "m = fuel_metrics a imei t u (wdb w) \<and> wdb w' = wdb w"
  using assms unfolding fetch_fuel_window_metrics_def fetch_ride_summary_def bind_ok pool_ok return_ok
  by (auto dest!: select_ok simp: fuel_metrics_def foldl_plus_sum)

lemma close_ok:
  assumes "close_calibration a imei i request ft u w = (Inr (), w')"
  shows "\<exists>r. find (\<lambda>r. fc_id r = i \<and> active_for imei r) (fuel_calibrations (wdb w)) = Some r
    \<and> (let d = tracked_distance_meters imei (wdb w) in
       wdb w' = (wdb w)\<lparr>fuel_calibrations := update_where (\<lambda>q. fc_id q = i \<and> fc_imei q = imei)
         (completed_row u d (fmax (fsub d (fc_start_distance_meters r)) (Fin 0)) request
           (case ft of Some t \<Rightarrow> Some t | None \<Rightarrow> fc_fuel_type r) (fuel_metrics a imei (fc_started_at r) u (wdb w)))
         (fuel_calibrations (wdb w))\<rparr>)"
proof -
  from assms obtain x w1 c w2 where 1: "lock_device w = (Inr x, w1)"
    and 2: "fetch_active_calibration i imei w1 = (Inr c, w2)"
    and 3: "(case c of None \<Rightarrow> io_throw FuelCalibrationNotFound | Some calibration \<Rightarrow>
     io_bind (pool (current_tracked_distance_meters imei)) (\<lambda>end_distance_meters.
     let distance_meters = fmax (fsub end_distance_meters (fc_start_distance_meters calibration)) (Fin 0) in
     io_bind (fetch_fuel_window_metrics a imei (fc_started_at calibration) u) (\<lambda>metrics.
     pool (update_calibration i imei
       (completed_row u end_distance_meters distance_meters request
          (case ft of Some t \<Rightarrow> Some t | None \<Rightarrow> fc_fuel_type calibration) metrics))))) w2 = (Inr (), w')"
    unfolding close_calibration_def bind_ok pool_ok by blast
  have w1: "wdb w1 = wdb w" using execute_ok [OF 1 [unfolded lock_device_def]] .
  have c: "c = find (\<lambda>r. fc_id r = i \<and> active_for imei r) (fuel_calibrations (wdb w))" and w2: "wdb w2 = wdb w"
    using select_ok [OF 2 [unfolded fetch_active_calibration_def]] w1 by simp_all
  from 3 obtain r where r: "c = Some r" by (cases c) (auto simp: io_throw_def)
  from 3 [unfolded r option.case bind_ok pool_ok Let_def] obtain d w3 m w4 where
    d: "current_tracked_distance_meters imei w2 = (Inr d, w3)"
    and m: "fetch_fuel_window_metrics a imei (fc_started_at r) u w3 = (Inr m, w4)"
    and u: "update_calibration i imei (completed_row u d (fmax (fsub d (fc_start_distance_meters r)) (Fin 0)) request
          (case ft of Some t \<Rightarrow> Some t | None \<Rightarrow> fc_fuel_type r) m) w4 = (Inr (), w')"
    by blast
  have d': "d = tracked_distance_meters imei (wdb w)" and w3: "wdb w3 = wdb w"
    using select_ok [OF d [unfolded current_tracked_distance_meters_def]] w2 by simp_all
  have m': "m = fuel_metrics a imei (fc_started_at r) u (wdb w)" and w4: "wdb w4 = wdb w"
    using fuel_metrics_run [OF m] w3 by simp_all
  have "wdb w' = (wdb w)\<lparr>fuel_calibrations := update_where (\<lambda>q. fc_id q = i \<and> fc_imei q = imei)
         (completed_row u d (fmax (fsub d (fc_start_distance_meters r)) (Fin 0)) request
           (case ft of Some t \<Rightarrow> Some t | None \<Rightarrow> fc_fuel_type r) m) (fuel_calibrations (wdb w))\<rparr>"
    using query_ok [OF u [unfolded update_calibration_def]] w4 by (auto simp: Let_def split: if_splits)
  then show ?thesis using c r d' m' by (intro exI [of _ r]) (simp add: Let_def)
qed

text \<open>The response when no calibration of the device is active any more.\<close>

lemma load_completed:
  assumes "load_device_fuel_calibrations a imei w = (Inr resp, w')"
    and "filter (active_for imei) (fuel_calibrations (wdb w)) = []"
    and "q \<in> set (fuel_calibrations (wdb w))" "fc_imei q = imei" "fc_status q = ''completed''"
  shows "wdb w' = wdb w \<and> fs_state resp = ''completed'' \<and> fs_active_calibration resp = None"
proof -
  let ?rows = "completed_calibrations imei (wdb w)"
  from assms(1) obtain w1 w2 active w3 rows where 1: "device_exists imei w = (Inr True, w1)"
    and 2: "select (\<lambda>s. latest_by fc_id (filter (active_for imei) (fuel_calibrations s))) w1 = (Inr active, w2)"
    and 3: "(case active of
                  Some row \<Rightarrow> io_bind (active_progress a imei (ap_clock a (wseq w1)) row) (\<lambda>p. io_return (Some p))
                | None \<Rightarrow> io_return None) w2 = (Inr (fs_active_calibration resp), w3)"
    and 4: "select (completed_calibrations imei) w3 = (Inr rows, w')"
    and state: "fs_state resp = (if fs_active_calibration resp \<noteq> None then ''active''
          else if (case map fuel_calibration_result_from_row rows of [] \<Rightarrow> None | r # _ \<Rightarrow> Some r) \<noteq> None
          then ''completed'' else ''not_started'')"
    by (auto simp: load_device_fuel_calibrations_def bind_ok pool_ok Let_def io_throw_def split: if_splits)
  have w1: "wdb w1 = wdb w" using select_ok [OF 1 [unfolded device_exists_def]] by simp
  have active: "active = None" and w2: "wdb w2 = wdb w" using select_ok [OF 2] assms(2) w1 by simp_all
  have none: "fs_active_calibration resp = None" and w3: "w3 = w2" using 3 by (simp_all add: active)
  have rows: "rows = ?rows" "wdb w' = wdb w" using select_ok [OF 4] w3 w2 by simp_all
  have "q \<in> set (filter (\<lambda>r. fc_imei r = imei \<and> fc_status r = ''completed'') (fuel_calibrations (wdb w)))"
    using assms(3-) by simp
  then have "rev (order_by (\<lambda>r. (the (fc_completed_at r), fc_id r))
       (filter (\<lambda>r. fc_imei r = imei \<and> fc_status r = ''completed'') (fuel_calibrations (wdb w)))) \<noteq> []"
    by (auto simp: order_by_def dest: arg_cong [where f = set])
  then have "?rows \<noteq> []" by (auto simp: completed_calibrations_def simp del: rev_is_Nil_conv)
  with state none rows show ?thesis by (auto split: list.split)
qed

lemma completion_recorded:
  assumes "fuel_ok (wseq w) (fuel_calibrations (wdb w))"
    and "complete_fuel_calibration a imei i request w = (Inr resp, w')"
  shows "\<exists>r fuel_type. let completed_at = ap_clock a (wseq w); d = tracked_distance_meters imei (wdb w);
        metrics = fuel_metrics a imei (fc_started_at r) completed_at (wdb w);
        q = completed_row completed_at d (fmax (fsub d (fc_start_distance_meters r)) (Fin 0)) request
              (case fuel_type of Some t \<Rightarrow> Some t | None \<Rightarrow> fc_fuel_type r) metrics r
      in r \<in> set (fuel_calibrations (wdb w)) \<and> fc_id r = i \<and> active_for imei r
       \<and> validate_complete_fuel_calibration request = Inr ()
       \<and> normalize_optional_fuel_type (fq_fuel_type request) = Inr fuel_type
       \<and> wdb w' = (wdb w)\<lparr>fuel_calibrations := map (\<lambda>p. if p = r then q else p) (fuel_calibrations (wdb w))\<rparr>
       \<and> fm_riding_seconds metrics * SECOND \<le> max 0 (completed_at - fc_started_at r)
       \<and> fs_state resp = ''completed'' \<and> fs_active_calibration resp = None"
proof -
  let ?T = "fuel_calibrations (wdb w)" and ?u = "ap_clock a (wseq w)" and ?d = "tracked_distance_meters imei (wdb w)"
  from assms(2) obtain ft w1 where valid: "validate_complete_fuel_calibration request = Inr ()"
    and ft: "normalize_optional_fuel_type (fq_fuel_type request) = Inr ft"
    and t: "api_transaction (close_calibration a imei i request ft ?u) w = (Inr (), w1)"
    and l: "load_device_fuel_calibrations a imei w1 = (Inr resp, w')"
    by (auto simp: complete_fuel_calibration_def bind_ok)
  from t obtain v v' where v: "wdb v = wdb w" and c: "close_calibration a imei i request ft ?u v = (Inr (), v')"
    and w1: "wdb w1 = wdb v'" by (rule api_transaction_commits)
  from close_ok [OF c] v obtain r where r: "find (\<lambda>r. fc_id r = i \<and> active_for imei r) ?T = Some r"
    and v': "wdb v' = (wdb w)\<lparr>fuel_calibrations := update_where (\<lambda>q. fc_id q = i \<and> fc_imei q = imei)
      (completed_row ?u ?d (fmax (fsub ?d (fc_start_distance_meters r)) (Fin 0)) request
        (case ft of Some t \<Rightarrow> Some t | None \<Rightarrow> fc_fuel_type r) (fuel_metrics a imei (fc_started_at r) ?u (wdb w))) ?T\<rparr>"
    by (auto simp: Let_def)
  let ?m = "fuel_metrics a imei (fc_started_at r) ?u (wdb w)"
  let ?q = "completed_row ?u ?d (fmax (fsub ?d (fc_start_distance_meters r)) (Fin 0)) request
      (case ft of Some t \<Rightarrow> Some t | None \<Rightarrow> fc_fuel_type r) ?m"
  from r have rT: "r \<in> set ?T" and ri: "fc_id r = i" and ra: "active_for imei r"
    by (auto simp: find_Some_iff)
  from assms(1) have inj: "inj_on fc_id (set ?T)"
    and one: "distinct (map fc_imei (filter (\<lambda>r. fc_status r = ''active'') ?T))"
    by (auto simp: fuel_ok_def distinct_map)
  have only: "p = r" if "p \<in> set ?T" "active_for imei p" for p
    using one that rT ra by (auto simp: distinct_map active_for_def dest: inj_onD)
  define q where "q = ?q r"
  have T': "fuel_calibrations (wdb w1) = map (\<lambda>p. if p = r then q else p) ?T"
    using inj ri ra rT by (auto simp: w1 v' q_def update_where_def active_for_def dest: inj_onD)
  have q: "\<not> active_for imei q" "fc_imei q = imei" "fc_status q = ''completed''"
    using ra by (simp_all add: q_def active_for_def completed_row_def)
  have "\<not> active_for imei (if p = r then q else p)" if "p \<in> set ?T" for p
    using only [OF that] q by (cases "p = r") auto
  then have "filter (active_for imei) (fuel_calibrations (wdb w1)) = []"
    unfolding T' filter_empty_conv set_map by blast
  moreover have "q \<in> set (fuel_calibrations (wdb w1))" using rT by (auto simp: T')
  ultimately have load: "wdb w' = wdb w1 \<and> fs_state resp = ''completed'' \<and> fs_active_calibration resp = None"
    using load_completed [OF l] q by blast
  have "fm_riding_seconds ?m * SECOND \<le> max 0 (?u - fc_started_at r)"
    using ride_summary_bound [of "ap_libm a" imei "fc_started_at r" ?u "calm (wdb w) 0"]
    by (simp add: fuel_metrics_def fetch_ride_summary_def io_bind_def io_return_def select_def query_def operation_def)
  moreover have "wdb w' = (wdb w)\<lparr>fuel_calibrations := map (\<lambda>p. if p = r then q else p) ?T\<rparr>"
    using load T' by (simp add: w1 v')
  ultimately show ?thesis
    unfolding Let_def q_def using valid ft rT ri ra load by blast
qed

lemma sum_insort: "sum_list (map f (insort_key k x xs)) = f x + sum_list (map f xs)" for f :: "'r \<Rightarrow> int"
  by (induction xs) simp_all

lemma sum_order_by: "sum_list (map f (order_by k xs)) = sum_list (map f xs)" for f :: "'r \<Rightarrow> int"
  unfolding order_by_def by (induction xs) (simp_all add: sum_insort)

lemma fuel_metrics_unfold:
  "fuel_metrics a imei t u s =
     (let sessions = filter (\<lambda>e. es_imei e = imei \<and> es_created_at e < u
            \<and> t < (case es_resolved_at e of Some z \<Rightarrow> z | None \<Rightarrow> u)) (telegram_engine_sessions s)
      in \<lparr>fm_riding_seconds = rs_riding_seconds (ride_summary_of_rows (ap_libm a) (locations_between imei t u s)),
          fm_engine_on_seconds = (\<Sum>e \<leftarrow> sessions. max 0 (num_seconds
            (min (case es_resolved_at e of Some z \<Rightarrow> z | None \<Rightarrow> u) u - max (es_created_at e) t))),
          fm_trip_count = int (length sessions)\<rparr>)"
  by (simp add: fuel_metrics_def fuel_window_sessions_def session_seconds_def [abs_def] sum_order_by Let_def)
     (simp add: order_by_def)

text \<open>
  C32. What completing a calibration records: when the request succeeds, it was valid, the calibration
  was the active one of the device, and it alone changes, in one step: it becomes completed at the time
  of the request, with the reading of the odometer, the distance since its first reading (never
  negative), the litres and the cost of the request, the given fuel type or else its own, the riding
  time of the locations since its start, the time that engine sessions of the device were open since
  then, and their number; the riding time is no longer than the calibration. The response shows the
  device with a completed and no active calibration.
\<close>

theorem fuel_complete_records:
  assumes "fuel_ok (wseq w) (fuel_calibrations (wdb w))"
    and "complete_fuel_calibration a imei i request w = (Inr resp, w')"
  shows "\<exists>r fuel_type. let started_at = fc_started_at r; completed_at = ap_clock a (wseq w);
        reading = fmax (case lookup od_imei imei (device_distance_odometer (wdb w)) of
            Some odo \<Rightarrow> od_total_distance_meters odo | None \<Rightarrow> Fin 0) (Fin 0);
        riding_seconds = rs_riding_seconds (ride_summary_of_rows (ap_libm a) (locations_between imei started_at completed_at (wdb w)));
        sessions = filter (\<lambda>e. es_imei e = imei \<and> es_created_at e < completed_at
            \<and> started_at < (case es_resolved_at e of Some t \<Rightarrow> t | None \<Rightarrow> completed_at)) (telegram_engine_sessions (wdb w));
        q = r\<lparr>fc_status := ''completed'', fc_completed_at := Some completed_at,
              fc_end_distance_meters := Some reading,
              fc_distance_meters := Some (fmax (fsub reading (fc_start_distance_meters r)) (Fin 0)),
              fc_liters := Some (fq_liters request), fc_total_cost_idr := fq_total_cost_idr request,
              fc_fuel_type := (case fuel_type of Some t \<Rightarrow> Some t | None \<Rightarrow> fc_fuel_type r),
              fc_riding_seconds := Some (min riding_seconds (2 ^ 63 - 1)),
              fc_engine_on_seconds := Some (\<Sum>e \<leftarrow> sessions. max 0 (num_seconds
                (min (case es_resolved_at e of Some t \<Rightarrow> t | None \<Rightarrow> completed_at) completed_at - max (es_created_at e) started_at))),
              fc_trip_count := Some (int (length sessions))\<rparr>
      in r \<in> set (fuel_calibrations (wdb w)) \<and> fc_id r = i \<and> fc_imei r = imei \<and> fc_status r = ''active''
       \<and> validate_complete_fuel_calibration request = Inr ()
       \<and> normalize_optional_fuel_type (fq_fuel_type request) = Inr fuel_type
       \<and> wdb w' = (wdb w)\<lparr>fuel_calibrations := map (\<lambda>p. if p = r then q else p) (fuel_calibrations (wdb w))\<rparr>
       \<and> riding_seconds * SECOND \<le> max 0 (completed_at - started_at)
       \<and> fs_state resp = ''completed'' \<and> fs_active_calibration resp = None"
  using completion_recorded [OF assms]
  unfolding Let_def fuel_metrics_unfold completed_row_def tracked_distance_meters_def active_for_def fuel_window_metrics.simps
  by blast

text \<open>A device that has gone 5 km since its calibration was started.\<close>

definition sample_api :: api where
  "sample_api = \<lparr>ap_midtrans_server_key = None, ap_telegram_bot_token = None, ap_clock = (\<lambda>n. 10 * SECOND),
     ap_sql_clock = (\<lambda>n. 10 * SECOND), ap_libm = sample_libm, ap_sha512_hex = (\<lambda>t. t),
     ap_parse_date = (\<lambda>t. Some 0), ap_parse_rfc3339 = (\<lambda>t. None), ap_overflow_checks = False\<rparr>"

definition sample_calibration :: fuel_row where
  "sample_calibration = \<lparr>fc_id = 1, fc_imei = ''1'', fc_status = ''active'', fc_started_at = 0,
     fc_start_distance_meters = Fin 0, fc_completed_at = None, fc_end_distance_meters = None,
     fc_distance_meters = None, fc_liters = None, fc_total_cost_idr = None, fc_fuel_type = None,
     fc_riding_seconds = None, fc_engine_on_seconds = None, fc_trip_count = None\<rparr>"

definition sample_fuel_store :: store where
  "sample_fuel_store = empty_store\<lparr>devices := [sample_device ''1''], fuel_calibrations := [sample_calibration],
     device_distance_odometer := [fresh_odometer ''1'' (Fin 5000, \<lparr>dp_id = 1, dp_server_received_at = 0,
       dp_latitude = Fin 0, dp_longitude = Fin 0, dp_speed_kph = 0\<rparr>)]\<rparr>"

definition sample_request :: complete_request where
  "sample_request = \<lparr>fq_liters = Fin 5, fq_total_cost_idr = Some 50000, fq_fuel_type = None,
     fq_tank_full = True, fq_no_missed_refuels = True\<rparr>"

lemma sample_fuel_ok: "fuel_ok 2 (fuel_calibrations sample_fuel_store)"
  by (simp add: fuel_ok_def fuel_row_ok_def fuel_checks_def sample_fuel_store_def sample_calibration_def
      pg_non_negative_def)


theorem fuel_calibrations_lifecycle_witness:
  "\<exists>w. w = serve_fuel sample_api [(\<lambda>w. w\<lparr>wsched := [True, True, False]\<rparr>, CompleteFuel ''1'' 1 sample_request),
         (\<lambda>w. w, StartFuel ''1'' None)] (calm sample_fuel_store 2)
     \<and> fuel_ok (wseq w) (fuel_calibrations (wdb w))
     \<and> (\<exists>q \<in> set (fuel_calibrations (wdb w)). fuel_row_step sample_calibration q)"
  using fuel_calibrations_lifecycle [of "[(\<lambda>w. w\<lparr>wsched := [True, True, False]\<rparr>, CompleteFuel ''1'' 1 sample_request),
         (\<lambda>w. w, StartFuel ''1'' None)]" "calm sample_fuel_store 2" sample_api] sample_fuel_ok
  by (simp add: fuel_bystander_def fuel_step_def) (simp add: sample_fuel_store_def)

theorem fuel_start_outcome_witness:
  "fst (start_fuel_calibration sample_api ''1'' (Some '' Pertamax '') (calm sample_fuel_store 2))
     = Inl FuelCalibrationAlreadyActive"
proof -
  have "normalize_optional_fuel_type (Some '' Pertamax '') = Inr (Some ''Pertamax'')"
    by (simp add: normalize_optional_fuel_type_def trim_def white_def)
  moreover have "list_ex (\<lambda>d. dv_imei d = ''1'') (devices sample_fuel_store)"
    "list_ex (active_for ''1'') (fuel_calibrations sample_fuel_store)"
    by (simp_all add: sample_fuel_store_def sample_device_def active_for_def sample_calibration_def)
  ultimately show ?thesis
    using fuel_start_outcome [where w = "calm sample_fuel_store 2" and requested = "Some '' Pertamax ''"
        and a = sample_api and imei = "''1''"]
    by (simp split: prod.splits)
qed

lemma sample_completion:
  "\<exists>resp w'. complete_fuel_calibration sample_api ''1'' 1 sample_request (calm sample_fuel_store 2) = (Inr resp, w')"
proof -
  have valid: "validate_complete_fuel_calibration sample_request = Inr ()"
    "normalize_optional_fuel_type (fq_fuel_type sample_request) = Inr None"
    by (simp_all add: validate_complete_fuel_calibration_def normalize_optional_fuel_type_def sample_request_def)
  have find: "find (\<lambda>r. fc_id r = 1 \<and> active_for ''1'' r) (fuel_calibrations sample_fuel_store) = Some sample_calibration"
    by (simp add: sample_fuel_store_def sample_calibration_def active_for_def)
  define d where "d = tracked_distance_meters ''1'' sample_fuel_store"
  obtain m where m: "fetch_fuel_window_metrics sample_api ''1'' 0 (10 * SECOND) (calm sample_fuel_store 6)
      = (Inr m, calm sample_fuel_store 8)"
    using calm_metrics [of sample_api "''1''" 0 "10 * SECOND" sample_fuel_store 6] by auto
  define q where "q = completed_row (10 * SECOND) d (fmax (fsub d (Fin 0)) (Fin 0)) sample_request None m"
  let ?s = "sample_fuel_store\<lparr>fuel_calibrations := [q sample_calibration]\<rparr>"
  have "pg_non_negative (Fin 0)" by (simp add: pg_non_negative_def)
  then have "fuel_row_ok (q sample_calibration)"
    unfolding q_def using valid(1) fuel_metrics_ok [OF m]
    by (intro completed_row_ok) (auto simp: sample_calibration_def d_def tracked_distance_meters_def)
  then have update: "pool (update_calibration 1 ''1'' q) (calm sample_fuel_store 8) = (Inr (), calm ?s 9)"
    by (simp add: update_calibration_def io_map_error_def query_def operation_def fuel_row_ok_def
        sample_fuel_store_def update_where_def sample_calibration_def)
  have "api_transaction (close_calibration sample_api ''1'' 1 sample_request None (10 * SECOND))
      (calm sample_fuel_store 2) = (Inr (), calm ?s 10)"
    using m update
    by (simp add: api_transaction_def close_calibration_def fetch_active_calibration_def io_bind_def io_return_def
        current_tracked_distance_meters_def calm_steps find d_def [symmetric] Let_def)
       (simp add: sample_calibration_def q_def io_bind_def io_return_def calm_steps)
  moreover have "\<exists>resp w'. load_device_fuel_calibrations sample_api ''1'' (calm ?s 10) = (Inr resp, w')"
    by (simp add: load_device_fuel_calibrations_def device_exists_def io_bind_def io_return_def calm_steps Let_def
        sample_fuel_store_def sample_device_def active_for_def q_def completed_row_def)
  ultimately show ?thesis
    using valid
    by (simp add: complete_fuel_calibration_def api_result_def io_bind_def io_return_def calm_steps sample_api_def)
qed

theorem fuel_complete_records_witness:
  "\<exists>resp w'. complete_fuel_calibration sample_api ''1'' 1 sample_request (calm sample_fuel_store 2) = (Inr resp, w')
     \<and> fs_state resp = ''completed'' \<and> map fc_status (fuel_calibrations (wdb w')) = [''completed'']"
proof -
  obtain resp w' where run: "complete_fuel_calibration sample_api ''1'' 1 sample_request (calm sample_fuel_store 2)
      = (Inr resp, w')" using sample_completion by blast
  have T: "fuel_calibrations sample_fuel_store = [sample_calibration]" by (simp add: sample_fuel_store_def)
  show ?thesis
    using fuel_complete_records [OF _ run] sample_fuel_ok run
    by (auto simp: T Let_def completed_row_def)
qed

end
