(* ===== verification/Service.thy ===== *)
theory Service
  imports Api "HOL-Library.While_Combinator"
begin

text \<open>
  The service page of \<open>src/api.rs\<close>: which maintenance a number of kilometres asks for, and the
  milestones that a device has passed, with the day it passed each. Text is its bytes in UTF-8.
\<close>

section \<open>Recommendations\<close>

record service_advice =
  rc_code :: string
  rc_interval_km :: int
  rc_title :: string
  rc_items :: "string list"

definition recommendation_20000 :: service_advice where
  "recommendation_20000 =
     \<lparr>rc_code = ''service_20000'', rc_interval_km = 20000, rc_title = ''Rekomendasi servis besar 20.000 km'',
      rc_items =
        [''Ganti V-belt (untuk motor matic)'',
         ''Ganti roller CVT jika aus (untuk motor matic)'',
         ''Ganti coolant (jika menggunakan radiator)'',
         ''Ganti filter udara'',
         ''Ganti busi'',
         ''Cek bearing roda'',
         ''Cek shockbreaker'',
         ''Cek kompresi mesin'',
         ''Cek rantai keteng'',
         ''Lakukan pemeriksaan menyeluruh seluruh sistem motor'',
         ''Servis besar direkomendasikan pada rentang 20.000'' @ [CHR 0xE2, CHR 0x80, CHR 0x93] @ ''25.000 km'']\<rparr>"

definition recommendation_10000 :: service_advice where
  "recommendation_10000 =
     \<lparr>rc_code = ''service_10000'', rc_interval_km = 10000, rc_title = ''Rekomendasi servis 10.000 km'',
      rc_items =
        [''Lakukan semua pemeriksaan interval 5.000 km'',
         ''Ganti filter udara jika diperlukan'',
         ''Ganti busi jika diperlukan'',
         ''Ganti minyak rem'',
         ''Setel celah klep (valve clearance)'',
         ''Servis throttle body atau injektor'',
         ''Cek coolant (jika menggunakan radiator)'']\<rparr>"

definition recommendation_5000 :: service_advice where
  "recommendation_5000 =
     \<lparr>rc_code = ''service_5000'', rc_interval_km = 5000, rc_title = ''Rekomendasi servis 5.000 km'',
      rc_items =
        [''Lakukan semua pemeriksaan interval 3.000 km'',
         ''Ganti oli gardan (untuk motor matic)'',
         ''Cek V-belt dan roller CVT (untuk motor matic)'',
         ''Cek gear dan rantai (untuk motor manual)'',
         ''Cek suspensi depan dan belakang'',
         ''Cek bearing roda'',
         ''Cek sistem kemudi'']\<rparr>"

definition recommendation_3000 :: service_advice where
  "recommendation_3000 =
     \<lparr>rc_code = ''service_3000'', rc_interval_km = 3000, rc_title = ''Rekomendasi servis 3.000 km'',
      rc_items =
        [''Lakukan semua pemeriksaan interval 1.000 km'',
         ''Ganti oli mesin'',
         ''Bersihkan filter udara'',
         ''Cek busi'',
         ''Cek throttle body atau karburator'',
         ''Setel rantai (untuk motor manual)'',
         ''Cek kampas rem'',
         ''Cek baut-baut penting'']\<rparr>"

definition recommendation_1000 :: service_advice where
  "recommendation_1000 =
     \<lparr>rc_code = ''service_1000'', rc_interval_km = 1000, rc_title = ''Rekomendasi servis 1.000 km'',
      rc_items =
        [''Cek kondisi dan ganti oli mesin sesuai kebutuhan'',
         ''Cek tekanan dan kondisi ban'',
         ''Cek rem depan dan belakang'',
         ''Cek lampu, klakson, dan sein'',
         ''Cek aki atau baterai'',
         ''Cek kebocoran oli atau cairan'',
         ''Cek rantai dan pelumas rantai (untuk motor manual)'']\<rparr>"

definition service_recommendation :: "int \<Rightarrow> service_advice" where
  "service_recommendation milestone_km =
     (if milestone_km mod 20000 = 0 then recommendation_20000
      else if milestone_km mod 10000 = 0 then recommendation_10000
      else if milestone_km mod 5000 = 0 then recommendation_5000
      else if milestone_km mod 3000 = 0 then recommendation_3000
      else recommendation_1000)"

definition format_km_grouped :: "int \<Rightarrow> string" where
  "format_km_grouped n =
     (let digits = show_int n in
      concat (map (\<lambda>(index, character). if 0 < index \<and> (length digits - index) mod 3 = 0
                     then [CHR ''.'', character] else [character])
        (enumerate 0 digits)))"

section \<open>Milestones\<close>

record service_milestone =
  sm_milestone_number :: int
  sm_milestone_km :: int
  sm_achieved_on :: int
  sm_recommendation_code :: string
  sm_recommendation_label :: string
  sm_recommendation_title :: string
  sm_recommendation_items :: "string list"

definition EPSILON :: f64 where "EPSILON = Fin (1 / 2 ^ 52)"

definition milestone_at :: "int \<Rightarrow> int \<Rightarrow> int \<Rightarrow> service_milestone" where
  "milestone_at date n milestone_km =
     (let recommendation = service_recommendation milestone_km
      in \<lparr>sm_milestone_number = n, sm_milestone_km = milestone_km, sm_achieved_on = date,
          sm_recommendation_code = rc_code recommendation,
          sm_recommendation_label =
            ''Rekomendasi interval '' @ format_km_grouped (rc_interval_km recommendation) @ '' km'',
          sm_recommendation_title = rc_title recommendation,
          sm_recommendation_items = rc_items recommendation\<rparr>)"

text \<open>
  The \<open>while\<close> loop of one day, on the number of the next milestone and those collected, or a panic: in
  the condition and in the step the product, and in the step the next number, may leave the range of
  \<open>i64\<close>. None when the loop does not end.
\<close>

definition milestones_of_day ::
  "bool \<Rightarrow> int \<Rightarrow> f64 \<Rightarrow> int \<Rightarrow> int \<times> service_milestone list \<Rightarrow> (api_error + int \<times> service_milestone list) option" where
  "milestones_of_day overflow_checks completed_milestones cumulative_km date st =
     while_option
       (\<lambda>st. case st of Inl _ \<Rightarrow> False | Inr (next_milestone_number, milestones) \<Rightarrow>
          next_milestone_number \<le> completed_milestones
          \<and> (case i64_result overflow_checks (next_milestone_number * 1000) of
               Inl _ \<Rightarrow> True
             | Inr milestone_km \<Rightarrow> fle (f64_of_int milestone_km) (fadd cumulative_km EPSILON)))
       (\<lambda>st. case st of Inl e \<Rightarrow> Inl e | Inr (next_milestone_number, milestones) \<Rightarrow>
          (case i64_result overflow_checks (next_milestone_number * 1000) of
             Inl e \<Rightarrow> Inl e
           | Inr milestone_km \<Rightarrow>
               map_sum id (\<lambda>n. (n, milestones @ [milestone_at date next_milestone_number milestone_km]))
                 (i64_result overflow_checks (next_milestone_number + 1))))
       (Inr st)"

fun collect_milestones ::
  "bool \<Rightarrow> int \<Rightarrow> (int \<times> f64) list \<Rightarrow> f64 \<Rightarrow> int \<times> service_milestone list \<Rightarrow> (api_error + int \<times> service_milestone list) option" where
  "collect_milestones overflow_checks completed_milestones [] cumulative_km st = Some (Inr st)"
| "collect_milestones overflow_checks completed_milestones ((date, distance_meters) # rest) cumulative_km st =
     (let cumulative_km = fadd cumulative_km (fdiv distance_meters (Fin 1000)) in
      case milestones_of_day overflow_checks completed_milestones cumulative_km date st of
        None \<Rightarrow> None
      | Some (Inl e) \<Rightarrow> Some (Inl e)
      | Some (Inr st) \<Rightarrow> collect_milestones overflow_checks completed_milestones rest cumulative_km st)"

definition build_service_milestones :: "bool \<Rightarrow> (int \<times> f64) list \<Rightarrow> int \<Rightarrow> (api_error + service_milestone list) option" where
  "build_service_milestones overflow_checks daily_distances completed_milestones =
     map_option (map_sum id (\<lambda>(_, milestones). take 20 (rev milestones)))
       (collect_milestones overflow_checks completed_milestones daily_distances (Fin 0) (1, []))"

section \<open>The page\<close>

record device_service =
  ds_imei :: string
  ds_generated_at :: int
  ds_total_tracked_distance_km :: f64
  ds_next_milestone_km :: int
  ds_distance_remaining_km :: f64
  ds_next_recommendation :: service_advice
  ds_milestones :: "service_milestone list"

definition daily_distances :: "string \<Rightarrow> 'z store_scheme \<Rightarrow> (int \<times> f64) list" where
  "daily_distances imei s =
     map (\<lambda>r. (dd_distance_date r, fmax (dd_distance_meters r) (Fin 0)))
       (order_by dd_distance_date (filter (\<lambda>r. dd_imei r = imei) (device_distance_daily s)))"

text \<open>None when the loop does not end; a panic when an \<open>i64\<close> overflows in a build that checks.\<close>

definition service_page ::
  "bool \<Rightarrow> string \<Rightarrow> int \<Rightarrow> f64 \<Rightarrow> (int \<times> f64) list \<Rightarrow> (api_error + device_service) option" where
  "service_page overflow_checks imei now total_distance_meters days =
     (let total_tracked_distance_km = fdiv total_distance_meters (Fin 1000);
          completed_milestones = f64_as_i64 (f64_floor (fdiv total_tracked_distance_km (Fin 1000)))
      in case i64_result overflow_checks (completed_milestones + 1) of
           Inl e \<Rightarrow> Some (Inl e)
         | Inr next_milestone_number \<Rightarrow>
      (case i64_result overflow_checks (next_milestone_number * 1000) of
           Inl e \<Rightarrow> Some (Inl e)
         | Inr next_milestone_km \<Rightarrow>
             map_option (map_sum id (\<lambda>milestones.
               \<lparr>ds_imei = imei, ds_generated_at = now, ds_total_tracked_distance_km = total_tracked_distance_km,
                ds_next_milestone_km = next_milestone_km,
                ds_distance_remaining_km = fmax (fsub (f64_of_int next_milestone_km) total_tracked_distance_km) (Fin 0),
                ds_next_recommendation = service_recommendation next_milestone_km,
                ds_milestones = milestones\<rparr>))
               (build_service_milestones overflow_checks days completed_milestones)))"

definition get_device_service :: "api \<Rightarrow> string \<Rightarrow> ('z, device_service option) api_io" where
  "get_device_service a imei =
     io_bind (pool (device_exists imei)) (\<lambda>known.
     if \<not> known then io_throw DeviceNotFound
     else
       io_bind (pool (select (\<lambda>s. fmax (case lookup od_imei imei (device_distance_odometer s) of
                  Some r \<Rightarrow> od_total_distance_meters r | None \<Rightarrow> Fin 0) (Fin 0)))) (\<lambda>total_distance_meters.
       io_bind (pool (select (daily_distances imei))) (\<lambda>days.
       io_bind (api_now a) (\<lambda>now.
       case service_page (ap_overflow_checks a) imei now total_distance_meters days of
         None \<Rightarrow> io_return None
       | Some page \<Rightarrow> io_bind (api_result page) (\<lambda>page. io_return (Some page))))))"

section \<open>The milestones of a distance\<close>

text \<open>
  Without a loop: the distance gone at the end of each day, and the first day on which a number of
  kilometres is reached.
\<close>

definition reached :: "f64 \<Rightarrow> int \<Rightarrow> bool" where
  "reached km n \<longleftrightarrow> fle (f64_of_int (n * 1000)) (fadd km EPSILON)"

fun cumulative :: "f64 \<Rightarrow> (int \<times> f64) list \<Rightarrow> (int \<times> f64) list" where
  "cumulative km [] = []"
| "cumulative km ((date, distance_meters) # rest) =
     (let km = fadd km (fdiv distance_meters (Fin 1000)) in (date, km) # cumulative km rest)"

definition day_reached :: "f64 \<Rightarrow> (int \<times> f64) list \<Rightarrow> int \<Rightarrow> int option" where
  "day_reached km days n = map_option fst (find (\<lambda>(_, km). reached km n) (cumulative km days))"

definition passed :: "f64 \<Rightarrow> (int \<times> f64) list \<Rightarrow> int \<Rightarrow> int \<Rightarrow> service_milestone list" where
  "passed km days first limit =
     List.map_filter (\<lambda>n. map_option (\<lambda>date. milestone_at date n (n * 1000)) (day_reached km days n)) [first..limit]"

lemma fle_trans: "fle a b \<Longrightarrow> fle b c \<Longrightarrow> fle a c"
  by (cases a; cases b; cases c) auto

lemma reached_mono: "reached km n \<Longrightarrow> m \<le> n \<Longrightarrow> reached km m"
  unfolding reached_def f64_of_int_def by (erule fle_trans [rotated]) (simp add: round64_mono)

lemma day_reached_Cons:
  "day_reached km ((date, d) # rest) n =
     (let km = fadd km (fdiv d (Fin 1000)) in if reached km n then Some date else day_reached km rest n)"
  by (simp add: day_reached_def Let_def)

abbreviation milestone_on :: "int \<Rightarrow> int \<Rightarrow> service_milestone" where
  "milestone_on date n \<equiv> milestone_at date n (n * 1000)"

lemma milestones_of_day_unfold:
  "milestones_of_day checks limit km date (n, ms) =
     (if n \<le> limit \<and> (case i64_result checks (n * 1000) of
           Inl _ \<Rightarrow> True | Inr x \<Rightarrow> fle (f64_of_int x) (fadd km EPSILON))
      then case i64_result checks (n * 1000) of Inl e \<Rightarrow> Some (Inl e) | Inr x \<Rightarrow>
        (case i64_result checks (n + 1) of Inl e \<Rightarrow> Some (Inl e)
         | Inr n' \<Rightarrow> milestones_of_day checks limit km date (n', ms @ [milestone_at date n x]))
      else Some (Inr (n, ms)))"
proof -
  have stop: "while_option b c (Inl e :: api_error + int \<times> service_milestone list) = Some (Inl e)" if "\<not> b (Inl e)" for b c e
    using that by (subst while_option_unfold) simp
  show ?thesis
    unfolding milestones_of_day_def
    by (subst while_option_unfold, cases "i64_result checks (n * 1000)"; cases "i64_result checks (n + 1)")
       (simp_all add: stop)
qed

text \<open>The greatest number of milestones whose kilometres are in the range of \<open>i64\<close>.\<close>

definition MAX_MILESTONES :: int where "MAX_MILESTONES = 9223372036854775"

lemma milestones_of_day_run:
  assumes "1 \<le> n" and limit: "limit \<le> MAX_MILESTONES"
  shows "\<exists>n'. n \<le> n' \<and> milestones_of_day checks limit km date (n, ms) = Some (Inr (n', ms @ map (milestone_on date) [n..n' - 1]))
     \<and> (\<forall>m. n \<le> m \<longrightarrow> m < n' \<longrightarrow> m \<le> limit \<and> reached km m) \<and> (n' \<le> limit \<longrightarrow> \<not> reached km n')"
  using assms(1)
proof (induction "nat (limit + 1 - n)" arbitrary: n ms rule: less_induct)
  case less
  let ?go = "n \<le> limit \<and> reached km n"
  have id: "i64_result checks (n * 1000) = Inr (n * 1000)" "i64_result checks (n + 1) = Inr (n + 1)" if "n \<le> limit"
    using that less.prems limit by (simp_all add: MAX_MILESTONES_def i64_result_id)
  have unfold: "milestones_of_day checks limit km date (n, ms) =
      (if ?go then milestones_of_day checks limit km date (n + 1, ms @ [milestone_on date n]) else Some (Inr (n, ms)))"
    by (subst milestones_of_day_unfold) (auto simp: reached_def id)
  show ?case
  proof (cases ?go)
    case False
    then show ?thesis by (intro exI [of _ n]) (auto simp: unfold)
  next
    case True
    then have "nat (limit + 1 - (n + 1)) < nat (limit + 1 - n)" by simp
    from less.hyps [OF this, of "ms @ [milestone_on date n]"] less.prems obtain n' where n': "n + 1 \<le> n'"
      "milestones_of_day checks limit km date (n + 1, ms @ [milestone_on date n])
         = Some (Inr (n', (ms @ [milestone_on date n]) @ map (milestone_on date) [n + 1..n' - 1]))"
      "\<And>m. n + 1 \<le> m \<Longrightarrow> m < n' \<Longrightarrow> m \<le> limit \<and> reached km m" "n' \<le> limit \<longrightarrow> \<not> reached km n'" by auto
    have "\<forall>m. n \<le> m \<longrightarrow> m < n' \<longrightarrow> m \<le> limit \<and> reached km m"
      using n'(3) True by (metis add1_zle_eq order_le_less)
    moreover have "[n..n' - 1] = n # [n + 1..n' - 1]" using n'(1) by (simp add: upto_rec1)
    ultimately show ?thesis using n' True by (intro exI [of _ n']) (simp add: unfold)
  qed
qed

lemma map_filter_map: "(\<And>x. x \<in> set xs \<Longrightarrow> f x = Some (g x)) \<Longrightarrow> List.map_filter f xs = map g xs"
  by (induction xs) (auto simp: List.map_filter_simps)

lemma map_filter_append: "List.map_filter f (xs @ ys) = List.map_filter f xs @ List.map_filter f ys"
  by (simp add: List.map_filter_def)

lemma map_filter_same: "(\<And>x. x \<in> set xs \<Longrightarrow> f x = g x) \<Longrightarrow> List.map_filter f xs = List.map_filter g xs"
  by (induction xs) (auto simp: List.map_filter_simps split: option.split)

lemma collect_milestones_run:
  assumes "1 \<le> n" and "limit \<le> MAX_MILESTONES"
  shows "\<exists>n'. collect_milestones checks limit days km (n, ms) = Some (Inr (n', ms @ passed km days n limit))"
  using assms(1)
proof (induction days arbitrary: km n ms)
  case Nil
  then show ?case by (simp add: passed_def day_reached_def List.map_filter_def)
next
  case (Cons day rest)
  obtain date d where day: "day = (date, d)" by (cases day)
  let ?km = "fadd km (fdiv d (Fin 1000))"
  obtain n' where n': "n \<le> n'"
    "milestones_of_day checks limit ?km date (n, ms) = Some (Inr (n', ms @ map (milestone_on date) [n..n' - 1]))"
    and before: "\<forall>m. n \<le> m \<longrightarrow> m < n' \<longrightarrow> m \<le> limit \<and> reached ?km m" and after: "n' \<le> limit \<longrightarrow> \<not> reached ?km n'"
    using milestones_of_day_run [OF Cons.prems assms(2)] by blast
  obtain n'' where rest: "collect_milestones checks limit rest ?km (n', ms @ map (milestone_on date) [n..n' - 1])
      = Some (Inr (n'', (ms @ map (milestone_on date) [n..n' - 1]) @ passed ?km rest n' limit))"
    using Cons.IH [OF order_trans [OF Cons.prems n'(1)]] by blast
  have "passed km (day # rest) n limit = map (milestone_on date) [n..n' - 1] @ passed ?km rest n' limit"
  proof -
    let ?f = "\<lambda>m. map_option (\<lambda>date. milestone_on date m) (day_reached km (day # rest) m)"
    let ?g = "\<lambda>m. map_option (\<lambda>date. milestone_on date m) (day_reached ?km rest m)"
    have f: "?f m = Some (milestone_on date m)" if "m \<in> set [n..n' - 1]" for m
      using that before by (simp add: day day_reached_Cons Let_def)
    have g: "?f m = ?g m" if "m \<in> set [n'..limit]" for m
      using that after reached_mono [of ?km m n'] by (auto simp: day day_reached_Cons Let_def)
    have split: "[n..limit] = [n..n' - 1] @ [n'..limit]"
    proof (cases "n' \<le> limit")
      case True
      then show ?thesis using n'(1) upto_split1 [of n n' limit] by simp
    next
      case False
      moreover have "n' - 1 \<le> limit \<or> n' = n" using before n'(1) by (cases "n' = n") auto
      ultimately have "n' - 1 = limit \<or> limit < n \<and> n' = n" by auto
      then show ?thesis by auto
    qed
    have "List.map_filter ?f [n..n' - 1] = map (milestone_on date) [n..n' - 1]"
      using f by (rule map_filter_map)
    moreover have "List.map_filter ?f [n'..limit] = List.map_filter ?g [n'..limit]"
      using g by (rule map_filter_same)
    ultimately show ?thesis by (simp add: passed_def split map_filter_append)
  qed
  then show ?case using n'(2) rest by (simp add: day Let_def)
qed

lemma day_reached_None: "day_reached km days n = None \<longleftrightarrow> (\<forall>(_, x) \<in> set (cumulative km days). \<not> reached x n)"
  by (auto simp: day_reached_def find_None_iff)

text \<open>The milestones that are reached are consecutive.\<close>

lemma passed_consecutive:
  "\<exists>k \<le> max 0 limit. 0 \<le> k \<and> map sm_milestone_number (passed km days 1 limit) = [1..k]"
proof -
  let ?hit = "\<lambda>n. day_reached km days n \<noteq> None"
  have down: "?hit m" if "?hit n" "m \<le> n" for m n
    using that reached_mono unfolding day_reached_None by fast
  have run: "\<exists>k. max 0 (first - 1) \<le> max 0 k \<and> k \<le> max (first - 1) last' \<and> first - 1 \<le> k
      \<and> map sm_milestone_number (passed km days first last') = [first..k]" for first last'
  proof (induction "nat (last' + 1 - first)" arbitrary: first rule: less_induct)
    case less
    show ?case
    proof (cases "first \<le> last'")
      case False
      then show ?thesis by (intro exI [of _ "first - 1"]) (simp add: passed_def List.map_filter_simps)
    next
      case first: True
      then have split: "[first..last'] = first # [first + 1..last']" by (simp add: upto_rec1)
      show ?thesis
      proof (cases "day_reached km days first")
        case None
        then have "day_reached km days n = None" if "n \<in> set [first..last']" for n
          using down [of n first] that by (cases "day_reached km days n") auto
        then have "passed km days first last' = []"
          unfolding passed_def by (subst map_filter_same [where g = "\<lambda>_. None"]) (auto simp: List.map_filter_def)
        then show ?thesis using first by (intro exI [of _ "first - 1"]) simp
      next
        case (Some date)
        have "nat (last' + 1 - (first + 1)) < nat (last' + 1 - first)" using first by simp
        from less [OF this] obtain k where k: "k \<le> max first last'" "first \<le> k"
          "map sm_milestone_number (passed km days (first + 1) last') = [first + 1..k]" by auto
        have "passed km days first last' = milestone_on date first # passed km days (first + 1) last'"
          by (simp add: passed_def split List.map_filter_simps Some)
        then have "map sm_milestone_number (passed km days first last') = [first..k]"
          using k by (simp add: milestone_at_def Let_def upto_rec1)
        then show ?thesis using k first by (intro exI [of _ k]) auto
      qed
    qed
  qed
  from run [of 1 limit] show ?thesis by force
qed

text \<open>
  The loop ends unless the counter can pass the greatest \<open>i64\<close> and wrap around.
\<close>

definition in_i64 :: "int \<Rightarrow> bool" where "in_i64 n \<longleftrightarrow> - (2 ^ 63) \<le> n \<and> n < 2 ^ 63"

lemma milestones_of_day_ends:
  assumes "in_i64 n" and "checks \<or> limit < 2 ^ 63 - 1"
  shows "\<exists>r. milestones_of_day checks limit km date (n, ms) = Some r \<and> (\<forall>n' ms'. r = Inr (n', ms') \<longrightarrow> in_i64 n')"
  using assms(1)
proof (induction "nat (2 ^ 63 - n)" arbitrary: n ms rule: less_induct)
  case less
  let ?product = "i64_result checks (n * 1000)" and ?next = "i64_result checks (n + 1)"
  let ?go = "n \<le> limit \<and> (case ?product of Inl _ \<Rightarrow> True | Inr x \<Rightarrow> fle (f64_of_int x) (fadd km EPSILON))"
  have "?next = Inr (n + 1) \<or> (\<exists>e. ?next = Inl e)" if "n \<le> limit"
  proof (cases "n + 1 < 2 ^ 63")
    case True
    then show ?thesis using less.prems by (simp add: in_i64_def i64_result_id)
  next
    case False
    then have "n = 2 ^ 63 - 1" using less.prems by (simp add: in_i64_def)
    with that assms(2) have checks by auto
    moreover have "as_i64 (2 ^ 63) \<noteq> 2 ^ 63" using signed_take_bit_int_less_exp [of 63 "2 ^ 63"] by (simp add: as_i64_def)
    ultimately show ?thesis using \<open>n = _\<close> by (simp add: i64_result_def)
  qed
  moreover have "\<exists>r. milestones_of_day checks limit km date (n + 1, ms') = Some r \<and> (\<forall>n' ms'. r = Inr (n', ms') \<longrightarrow> in_i64 n')"
    if "?next = Inr (n + 1)" for ms'
    using less.hyps [of "n + 1" ms'] less.prems i64_result_range(1) [OF that] by (simp add: in_i64_def)
  ultimately show ?case
    using less.prems
    by (subst (1) milestones_of_day_unfold) (cases ?go; cases ?product; auto)
qed

lemma collect_milestones_ends:
  "in_i64 n \<Longrightarrow> checks \<or> limit < 2 ^ 63 - 1 \<Longrightarrow> collect_milestones checks limit days km (n, ms) \<noteq> None"
proof (induction days arbitrary: km n ms)
  case (Cons day rest)
  obtain date d where day: "day = (date, d)" by (cases day)
  from milestones_of_day_ends [OF Cons.prems, of "fadd km (fdiv d (Fin 1000))" date ms]
  show ?case using Cons.IH [OF _ Cons.prems(2)] by (fastforce simp: day Let_def split: sum.splits)
qed simp

text \<open>Behind an infinite distance nothing but the number of milestones stops the loop.\<close>

lemma fle_infinite: "fle (f64_of_int n) (fadd (Inf False) EPSILON)"
  by (simp add: EPSILON_def f64_of_int_def round64_def Let_def)

lemma next_in_i64:
  "map_sum id (\<lambda>n. (n, ms)) (i64_result checks x) = Inr (n', ms') \<Longrightarrow> - (2 ^ 63) \<le> n' \<and> n' < 2 ^ 63"
  "map_sum id (\<lambda>n. (n, ms)) (i64_result checks x) = Inl e \<Longrightarrow> e = ApiPanicked \<and> checks"
  using i64_result_range [of checks x] by (cases "i64_result checks x"; simp)+

lemma milestones_of_day_infinite:
  assumes "in_i64 n"
  shows "milestones_of_day checks (2 ^ 63 - 1) (Inf False) date (n, ms) = (if checks then Some (Inl ApiPanicked) else None)"
proof -
  have stuck: "\<exists>e. r = Inl e \<and> e = ApiPanicked \<and> checks"
    if run: "milestones_of_day checks (2 ^ 63 - 1) (Inf False) date (n, ms) = Some r" for r
  proof -
    let ?P = "\<lambda>st :: api_error + int \<times> service_milestone list.
        (case st of Inl e \<Rightarrow> e = ApiPanicked \<and> checks | Inr (n, _) \<Rightarrow> in_i64 n)"
    have "?P r"
      by (rule while_option_rule [OF _ run [unfolded milestones_of_day_def]])
         (use assms in \<open>auto simp: in_i64_def split: sum.splits dest: i64_result_range next_in_i64\<close>)
    moreover have "\<not> (\<exists>n ms. r = Inr (n, ms) \<and> in_i64 n)"
      using while_option_stop [OF run [unfolded milestones_of_day_def]]
      by (auto simp: in_i64_def fle_infinite split: sum.splits)
    ultimately show ?thesis by (cases r) auto
  qed
  show ?thesis
  proof (cases checks)
    case True
    with milestones_of_day_ends [OF assms, of checks "2 ^ 63 - 1" "Inf False" date ms] stuck show ?thesis by auto
  next
    case False
    with stuck show ?thesis by (cases "milestones_of_day checks (2 ^ 63 - 1) (Inf False) date (n, ms)") auto
  qed
qed

text \<open>
  C33. When the milestones of a device are found, and which: as long as the kilometres of the completed
  milestones are in the range of \<open>i64\<close>, then whatever the stored distances, negative, infinite or not
  a number, the nested loops end without an overflow, and what they return is the latest twenty, the
  greatest first, of the milestones up to the completed ones that some day's distance reaches, each dated
  on the first day that reaches it; and there is no gap in them. Beyond that the loops still end in a
  build that checks for overflows, if only in a panic, and in a release build unless the number of
  completed milestones is the greatest \<open>i64\<close>: then an infinite distance keeps it running for ever.
\<close>

theorem service_milestones_found:
  "(completed_milestones \<le> MAX_MILESTONES \<longrightarrow>
      build_service_milestones overflow_checks days completed_milestones
        = Some (Inr (take 20 (rev (passed (Fin 0) days 1 completed_milestones))))
      \<and> (\<exists>k \<le> max 0 completed_milestones. map sm_milestone_number (passed (Fin 0) days 1 completed_milestones) = [1..k]))
   \<and> (overflow_checks \<or> completed_milestones < 2 ^ 63 - 1 \<longrightarrow>
        build_service_milestones overflow_checks days completed_milestones \<noteq> None)
   \<and> build_service_milestones overflow_checks ((date, Inf False) # days) (2 ^ 63 - 1)
        = (if overflow_checks then Some (Inl ApiPanicked) else None)"
proof (intro conjI impI)
  assume limit: "completed_milestones \<le> MAX_MILESTONES"
  show "build_service_milestones overflow_checks days completed_milestones
      = Some (Inr (take 20 (rev (passed (Fin 0) days 1 completed_milestones))))"
    using collect_milestones_run [OF _ limit, of 1 overflow_checks days "Fin 0" "[]"]
    by (auto simp: build_service_milestones_def)
  show "\<exists>k \<le> max 0 completed_milestones. map sm_milestone_number (passed (Fin 0) days 1 completed_milestones) = [1..k]"
    using passed_consecutive [of completed_milestones "Fin 0" days] by blast
next
  assume "overflow_checks \<or> completed_milestones < 2 ^ 63 - 1"
  then show "build_service_milestones overflow_checks days completed_milestones \<noteq> None"
    using collect_milestones_ends [of 1 overflow_checks completed_milestones days "Fin 0" "[]"]
    by (simp add: build_service_milestones_def in_i64_def)
next
  show "build_service_milestones overflow_checks ((date, Inf False) # days) (2 ^ 63 - 1)
      = (if overflow_checks then Some (Inl ApiPanicked) else None)"
    using milestones_of_day_infinite [of 1 overflow_checks date "[]"]
    by (simp add: build_service_milestones_def in_i64_def Let_def)
qed

lemma service_milestones_found_witness:
  "build_service_milestones False [(5, Fin 1200000), (9, Fin 1300000)] 2
     = Some (Inr [milestone_at 9 2 2000, milestone_at 5 1 1000])"
proof -
  let ?days = "[(5, Fin 1200000), (9, Fin 1300000)] :: (int \<times> f64) list"
  have whole: "round64 1200 = Fin 1200" "round64 1300 = Fin 1300" "round64 2500 = Fin 2500" "round64 1000 = Fin 1000" "round64 2000 = Fin 2000"
    using round64_of_int [of 1200] round64_of_int [of 1300] round64_of_int [of 2500] round64_of_int [of 1000]
      round64_of_int [of 2000] by simp_all
  have hit: "reached (Fin 1200) 1" "reached (Fin 2500) 2"
    unfolding reached_def f64_of_int_def EPSILON_def fadd.simps by (rule round64_mono, simp)+
  have "\<not> reached (Fin 1200) 2"
    using round64_mono [of "1200 + 1 / 2 ^ 52" 1300]
    by (cases "round64 (1200 + 1 / 2 ^ 52)") (auto simp: reached_def f64_of_int_def EPSILON_def whole)
  with hit have "day_reached (Fin 0) ?days 1 = Some 5" "day_reached (Fin 0) ?days 2 = Some 9"
    by (simp_all add: day_reached_def whole Let_def)
  moreover have "[1..2] = [1, 2 :: int]" by (simp add: upto_rec1)
  ultimately have "passed (Fin 0) ?days 1 2 = [milestone_at 5 1 1000, milestone_at 9 2 2000]"
    by (simp add: passed_def List.map_filter_simps)
  moreover have "(2 :: int) \<le> MAX_MILESTONES" by (simp add: MAX_MILESTONES_def)
  ultimately show ?thesis using service_milestones_found [of 2 False ?days] by simp
qed

end
