(* ===== verification/Reports.thy ===== *)
theory Reports
  imports Api Subscription Analytics
begin

text \<open>
  What the HTTP API of \<open>src/api.rs\<close> reads: subscriptions, devices, SIM cards (whose expiration date it
  also sets), activity, sessions, daily summaries and locations.
\<close>

section \<open>Subscriptions\<close>

datatype sort_order = Asc | Desc

definition parse_sort_order :: "string option \<Rightarrow> api_error + sort_order" where
  "parse_sort_order text =
     (let lowered = map ascii_lower (case text of Some t \<Rightarrow> t | None \<Rightarrow> ''asc'')
      in if lowered = ''asc'' then Inr Asc else if lowered = ''desc'' then Inr Desc else Inl InvalidSortOrder)"

definition customer_of :: "string option \<Rightarrow> 'z store_scheme \<Rightarrow> customer_row option" where
  "customer_of imei s =
     latest_by (\<lambda>c. (cu_updated_at c, cu_id c)) (filter (\<lambda>c. Some (cu_imei c) = imei) (customers s))"

text \<open>\<open>MIN(paid_at)\<close> of the paid payments of a user.\<close>

definition first_paid_at :: "int \<Rightarrow> 'z store_scheme \<Rightarrow> int option" where
  "first_paid_at telegram_user_id s =
     (let times = List.map_filter pm_paid_at (filter (\<lambda>p. pm_telegram_user_id p = telegram_user_id
                    \<and> pm_payment_status p = ''paid'') (telegram_payment_events s))
      in if times = [] then None else Some (Min (set times)))"

record subscription_joined =
  sj_subscription :: subscription_row
  sj_bound_imei :: "string option"
  sj_customer :: "customer_row option"
  sj_pricing_tier :: string
  sj_first_subscribed_at :: "int option"
  sj_sanction :: "sanction_row option"

definition period_end_key :: "sort_order \<Rightarrow> subscription_joined \<Rightarrow> bool \<times> int \<times> int" where
  "period_end_key order r =
     (let sub = sj_subscription r in
      case sb_current_period_end_at sub of
        None \<Rightarrow> (True, 0, sb_telegram_user_id sub)
      | Some t \<Rightarrow> (False, (case order of Asc \<Rightarrow> t | Desc \<Rightarrow> - t), sb_telegram_user_id sub))"

definition joined_subscriptions :: "sort_order \<Rightarrow> 'z store_scheme \<Rightarrow> subscription_joined list" where
  "joined_subscriptions order s =
     order_by (period_end_key order)
       (List.map_filter (\<lambda>sub. map_option (\<lambda>user.
          \<lparr>sj_subscription = sub, sj_bound_imei = tu_bound_imei user,
           sj_customer = customer_of (tu_bound_imei user) s,
           sj_pricing_tier = (case Option.bind (tu_bound_imei user) (\<lambda>imei. lookup dv_imei imei (devices s)) of
               Some d \<Rightarrow> dv_pricing_tier d | None \<Rightarrow> ''basic''),
           sj_first_subscribed_at = first_paid_at (sb_telegram_user_id sub) s,
           sj_sanction = lookup sn_subscription_id (sb_id sub) (telegram_subscription_sanctions s)\<rparr>)
          (lookup tu_telegram_user_id (sb_telegram_user_id sub) (telegram_users s)))
        (telegram_subscriptions s))"

record subscription_response =
  sp_telegram_user_id :: int
  sp_chat_id :: int
  sp_bound_imei :: "string option"
  sp_customer_name :: "string option"
  sp_customer_phone_number :: "string option"
  sp_pricing_tier :: string
  sp_plan_code :: string
  sp_status :: string
  sp_current_period_start_at :: "int option"
  sp_current_period_end_at :: "int option"
  sp_first_subscribed_at :: "int option"
  sp_subscribed_days :: "int option"
  sp_lifecycle_stage :: string
  sp_lifecycle_day :: "int option"
  sp_reminder_sent :: "bool option"
  sp_fine_amount_idr :: int
  sp_withdrawal_required :: bool

definition joined_lifecycle :: "int \<Rightarrow> subscription_joined \<Rightarrow> lifecycle_state" where
  "joined_lifecycle now r =
     (let sanction = sj_sanction r in
      subscription_lifecycle_state (sb_current_period_end_at (sj_subscription r)) now
        (Option.bind sanction sn_last_pre_expiry_reminded_for_period_end_at)
        (Option.bind sanction sn_last_pre_expiry_reminded_day)
        (Option.bind sanction sn_last_overdue_reminded_day)
        (case sanction of Some q \<Rightarrow> sn_withdrawal_required q | None \<Rightarrow> False)
        (Option.bind sanction sn_resolved_at))"

definition subscription_response_of :: "int \<Rightarrow> subscription_joined \<Rightarrow> subscription_response" where
  "subscription_response_of now r =
     (let sub = sj_subscription r; lifecycle = joined_lifecycle now r
      in \<lparr>sp_telegram_user_id = sb_telegram_user_id sub, sp_chat_id = sb_chat_id sub,
          sp_bound_imei = sj_bound_imei r, sp_customer_name = map_option cu_name (sj_customer r),
          sp_customer_phone_number = map_option cu_phone_number (sj_customer r),
          sp_pricing_tier = sj_pricing_tier r, sp_plan_code = sb_plan_code sub, sp_status = sb_status sub,
          sp_current_period_start_at = sb_current_period_start_at sub,
          sp_current_period_end_at = sb_current_period_end_at sub,
          sp_first_subscribed_at = sj_first_subscribed_at r,
          sp_subscribed_days = map_option (\<lambda>t. complete_subscribed_days t now) (sj_first_subscribed_at r),
          sp_lifecycle_stage = stage_as_str (lf_stage lifecycle), sp_lifecycle_day = lf_day lifecycle,
          sp_reminder_sent = lf_reminder_sent lifecycle, sp_fine_amount_idr = lf_fine_amount_idr lifecycle,
          sp_withdrawal_required = lf_withdrawal_required lifecycle\<rparr>)"

definition get_subscriptions :: "api \<Rightarrow> string option \<Rightarrow> ('z, subscription_response list) api_io" where
  "get_subscriptions a requested_order =
     io_bind (api_result (parse_sort_order requested_order)) (\<lambda>order.
     io_bind (pool (select (joined_subscriptions order))) (\<lambda>rows.
     io_bind (api_now a) (\<lambda>now.
     io_return (map (subscription_response_of now) rows))))"

section \<open>Devices\<close>

record device_monitoring =
  dm_id :: int
  dm_imei :: string
  dm_customer_name :: "string option"
  dm_customer_phone_number :: "string option"
  dm_latest_latitude :: "f64 option"
  dm_latest_longitude :: "f64 option"
  dm_last_seen_at :: int

definition monitored_devices :: "'z store_scheme \<Rightarrow> device_monitoring list" where
  "monitored_devices s =
     map (\<lambda>d. let customer = customer_of (Some (dv_imei d)) s in
        \<lparr>dm_id = dv_id d, dm_imei = dv_imei d, dm_customer_name = map_option cu_name customer,
         dm_customer_phone_number = map_option cu_phone_number customer,
         dm_latest_latitude = map_option lk_latitude (dv_latest_location d),
         dm_latest_longitude = map_option lk_longitude (dv_latest_location d),
         dm_last_seen_at = dv_last_seen_at d\<rparr>)
       (order_by (\<lambda>d. (- dv_last_seen_at d, dv_imei d)) (devices s))"

definition get_devices :: "('z, device_monitoring list) api_io" where
  "get_devices = pool (select monitored_devices)"

record device_sim_card =
  dc_id :: int
  dc_imei :: string
  dc_sim_card :: "string option"
  dc_sim_card_expiration_date :: "int option"

definition device_sim_card_of :: "device_row \<Rightarrow> device_sim_card" where
  "device_sim_card_of d = \<lparr>dc_id = dv_id d, dc_imei = dv_imei d, dc_sim_card = dv_sim_card d,
     dc_sim_card_expiration_date = dv_sim_card_expiration_date d\<rparr>"

definition expiration_key :: "device_row \<Rightarrow> bool \<times> int \<times> string" where
  "expiration_key d = (case dv_sim_card_expiration_date d of
      None \<Rightarrow> (True, 0, dv_imei d) | Some date \<Rightarrow> (False, date, dv_imei d))"

definition get_device_sim_cards :: "('z, device_sim_card list) api_io" where
  "get_device_sim_cards =
     pool (select (\<lambda>s. map device_sim_card_of (order_by expiration_key (devices s))))"

definition parse_optional_expiration_date ::
  "(string \<Rightarrow> int option) \<Rightarrow> string option \<Rightarrow> api_error + int option" where
  "parse_optional_expiration_date parse_date text =
     (case text of
        None \<Rightarrow> Inr None
      | Some t \<Rightarrow> (case parse_date t of None \<Rightarrow> Inl InvalidSimCardExpirationDate | Some date \<Rightarrow> Inr (Some date)))"

definition set_expiration_date ::
  "string \<Rightarrow> int option \<Rightarrow> int \<Rightarrow> ('z store_scheme, db_error, device_row option) io" where
  "set_expiration_date imei date now =
     query (\<lambda>_ s. let T = update_where (\<lambda>d. dv_imei d = imei)
          (\<lambda>d. d\<lparr>dv_sim_card_expiration_date := date, dv_updated_at := now\<rparr>) (devices s)
        in Inr (lookup dv_imei imei T, s\<lparr>devices := T\<rparr>))"

definition update_device_sim_card_expiration ::
  "api \<Rightarrow> string \<Rightarrow> string option \<Rightarrow> ('z, device_sim_card) api_io" where
  "update_device_sim_card_expiration a imei requested =
     io_bind (api_result (parse_optional_expiration_date (ap_parse_date a) requested)) (\<lambda>expiration_date.
     io_bind (sql_now a) (\<lambda>now.
     io_bind (pool (set_expiration_date imei expiration_date now)) (\<lambda>row.
     case row of None \<Rightarrow> io_throw DeviceNotFound | Some d \<Rightarrow> io_return (device_sim_card_of d))))"

record device_activity =
  da_imei :: string
  da_last_seen_at :: int
  da_latest_engine_status :: "string option"
  da_latest_voltage_level :: "int option"
  da_battery_reported_at :: "int option"

definition get_device_activity :: "string \<Rightarrow> ('z, device_activity) api_io" where
  "get_device_activity imei =
     io_bind (pool (select (\<lambda>s. lookup dv_imei imei (devices s)))) (\<lambda>row.
     case row of None \<Rightarrow> io_throw DeviceNotFound | Some d \<Rightarrow>
       io_return \<lparr>da_imei = imei, da_last_seen_at = dv_last_seen_at d,
         da_latest_engine_status = map_option hk_engine_status_guess (dv_latest_heartbeat d),
         da_latest_voltage_level = map_option hk_voltage_level (dv_latest_heartbeat d),
         da_battery_reported_at = dv_last_heartbeat_at d\<rparr>)"

section \<open>Days\<close>

definition sessions_of_day :: "string \<Rightarrow> int \<Rightarrow> int \<Rightarrow> int \<Rightarrow> 'z store_scheme \<Rightarrow> session_row list" where
  "sessions_of_day imei day_start day_end now s =
     order_by (\<lambda>e. (es_created_at e, es_id e))
       (filter (\<lambda>e. es_imei e = imei \<and> es_created_at e < day_end
          \<and> day_start < (case es_resolved_at e of Some t \<Rightarrow> t | None \<Rightarrow> now)) (telegram_engine_sessions s))"

record daily_summary =
  dy_imei :: string
  dy_date :: int
  dy_generated_at :: int
  dy_customer_name :: "string option"
  dy_total_distance_km :: f64
  dy_riding_seconds :: int
  dy_average_speed_kph :: f64

fun add_rides ::
  "libm \<Rightarrow> string \<Rightarrow> int \<Rightarrow> int \<Rightarrow> session_row list \<Rightarrow> f64 \<times> int \<Rightarrow> ('z, f64 \<times> int) api_io" where
  "add_rides lm imei day_start effective_day_end [] (total_distance_km, riding_seconds) =
     io_return (total_distance_km, riding_seconds)"
| "add_rides lm imei day_start effective_day_end (row # rows) (total_distance_km, riding_seconds) =
     (let started_at = max (es_created_at row) day_start;
          ended_at = min (case es_resolved_at row of Some t \<Rightarrow> t | None \<Rightarrow> effective_day_end) effective_day_end
      in if started_at \<ge> ended_at
         then add_rides lm imei day_start effective_day_end rows (total_distance_km, riding_seconds)
         else io_bind (pool (fetch_ride_summary lm imei started_at ended_at)) (\<lambda>summary.
           add_rides lm imei day_start effective_day_end rows
             (case summary of
                Some r \<Rightarrow> (fadd total_distance_km (rs_total_distance_km r), riding_seconds + rs_riding_seconds r)
              | None \<Rightarrow> (total_distance_km, riding_seconds))))"

definition get_device_daily_summary :: "api \<Rightarrow> string \<Rightarrow> string \<Rightarrow> ('z, daily_summary) api_io" where
  "get_device_daily_summary a imei requested_date =
     io_bind (api_result (wib_day_bounds (ap_parse_date a) requested_date)) (\<lambda>(date, day_start, day_end).
     io_bind (api_now a) (\<lambda>now.
     let effective_day_end = min day_end now in
     io_bind (pool (select (\<lambda>s. map_option cu_name (customer_of (Some imei) s)))) (\<lambda>customer_name.
     io_bind (pool (select (sessions_of_day imei day_start day_end now))) (\<lambda>rows.
     io_bind (add_rides (ap_libm a) imei day_start effective_day_end rows (Fin 0, 0)) (\<lambda>(total_distance_km, riding_seconds).
     let riding_hours = fdiv (f64_of_int riding_seconds) (Fin 3600) in
     io_return \<lparr>dy_imei = imei, dy_date = date, dy_generated_at = now, dy_customer_name = customer_name,
       dy_total_distance_km = total_distance_km, dy_riding_seconds = riding_seconds,
       dy_average_speed_kph =
         (if flt (Fin 0) riding_hours then fdiv total_distance_km riding_hours else Fin 0)\<rparr>)))))"

record device_session =
  dn_id :: int
  dn_started_at :: int
  dn_ended_at :: "int option"
  dn_state :: string
  dn_duration_seconds :: int
  dn_distance_km :: f64

definition device_session_of :: "libm \<Rightarrow> string \<Rightarrow> int \<Rightarrow> session_row \<Rightarrow> ('z, device_session) api_io" where
  "device_session_of lm imei now row =
     (let effective_end = (case es_resolved_at row of Some t \<Rightarrow> t | None \<Rightarrow> now) in
      io_bind (pool (fetch_ride_summary lm imei (es_created_at row) effective_end)) (\<lambda>summary.
      io_return \<lparr>dn_id = es_id row, dn_started_at = es_created_at row, dn_ended_at = es_resolved_at row,
        dn_state = (if es_resolved_at row \<noteq> None then ''completed'' else ''ongoing''),
        dn_duration_seconds = max 0 (num_seconds (effective_end - es_created_at row)),
        dn_distance_km = (case summary of Some r \<Rightarrow> rs_total_distance_km r | None \<Rightarrow> Fin 0)\<rparr>))"

definition get_device_sessions :: "api \<Rightarrow> string \<Rightarrow> string \<Rightarrow> ('z, int \<times> device_session list) api_io" where
  "get_device_sessions a imei requested_date =
     io_bind (api_result (wib_day_bounds (ap_parse_date a) requested_date)) (\<lambda>(date, day_start, day_end).
     io_bind (api_now a) (\<lambda>now.
     io_bind (pool (select (\<lambda>s. rev (sessions_of_day imei day_start day_end now s)))) (\<lambda>rows.
     io_bind (io_map_list rows (device_session_of (ap_libm a) imei now)) (\<lambda>sessions.
     io_return (date, sessions)))))"

section \<open>Locations\<close>

record location_history_point =
  lp_server_received_at :: int
  lp_gps_timestamp :: int
  lp_latitude :: f64
  lp_longitude :: f64
  lp_speed_kph :: int
  lp_course :: int
  lp_satellite_count :: int

definition history_point :: "location_row \<Rightarrow> location_history_point" where
  "history_point r = (let c = lr_columns r in
     \<lparr>lp_server_received_at = lr_server_received_at r, lp_gps_timestamp = lk_gps_timestamp c,
      lp_latitude = lk_latitude c, lp_longitude = lk_longitude c, lp_speed_kph = lk_speed_kph c,
      lp_course = lk_course c, lp_satellite_count = lk_satellite_count c\<rparr>)"

record location_history =
  lh_imei :: string
  lh_start_at :: int
  lh_latest_server_received_at :: "int option"
  lh_points :: "location_history_point list"

definition get_device_locations :: "api \<Rightarrow> string \<Rightarrow> string \<Rightarrow> string option \<Rightarrow> ('z, location_history) api_io" where
  "get_device_locations a imei requested_start requested_end =
     (case ap_parse_rfc3339 a requested_start of None \<Rightarrow> io_throw InvalidStartAt | Some start_at \<Rightarrow>
      io_bind (case requested_end of
                 None \<Rightarrow> io_return None
               | Some t \<Rightarrow> (case ap_parse_rfc3339 a t of None \<Rightarrow> io_throw InvalidEndAt | Some u \<Rightarrow> io_return (Some u))) (\<lambda>end_at.
      io_bind (pool (select (\<lambda>s. order_by lr_server_received_at
        (filter (\<lambda>r. lr_imei r = imei \<and> start_at \<le> lr_server_received_at r
           \<and> (case end_at of None \<Rightarrow> True | Some t \<Rightarrow> lr_server_received_at r \<le> t)) (device_locations s))))) (\<lambda>rows.
      let points = map history_point rows in
      io_return \<lparr>lh_imei = imei, lh_start_at = start_at,
        lh_latest_server_received_at = (if points = [] then None else Some (lp_server_received_at (last points))),
        lh_points = points\<rparr>)))"

definition get_device_latest_location :: "api \<Rightarrow> string \<Rightarrow> ('z, location_history) api_io" where
  "get_device_latest_location a imei =
     io_bind (pool (select (\<lambda>s. latest_by (\<lambda>r. (lr_server_received_at r, lr_id r))
       (filter (\<lambda>r. lr_imei r = imei) (device_locations s))))) (\<lambda>row.
     let point = map_option history_point row in
     io_bind (case point of Some p \<Rightarrow> io_return (lp_server_received_at p) | None \<Rightarrow> api_now a) (\<lambda>start_at.
     io_return \<lparr>lh_imei = imei, lh_start_at = start_at,
       lh_latest_server_received_at = map_option lp_server_received_at point,
       lh_points = (case point of Some p \<Rightarrow> [p] | None \<Rightarrow> [])\<rparr>))"

end
