(* ===== verification/Router.thy ===== *)
theory Router
  imports Fuel Service Reports Webhook
begin

text \<open>
  The routes of the HTTP API, \<open>HttpApiServer::from_config\<close> and \<open>ApiError::into_response\<close> of
  \<open>src/api.rs\<close>. A request is one that the framework has matched with a route and whose path, query and
  JSON body it has read; a response has its status code and what the code serializes.
\<close>

section \<open>Requests and responses\<close>

datatype api_request =
    GetDevices
  | GetDeviceActivity string
  | GetDeviceDailySummary string string
  | GetDeviceService string
  | GetFuelCalibrations string
  | PostFuelCalibration string "string option"
  | PostFuelCalibrationRestart string "string option"
  | PostFuelCalibrationComplete string int complete_request
  | GetDeviceSessions string string
  | GetLatestLocation string
  | GetLocations string string "string option"
  | GetSimCards
  | PatchSimCardExpiration string "string option"
  | GetSubscriptions "string option"
  | PostMidtransWebhook webhook_notification

datatype api_body =
    DevicesBody "device_monitoring list"
  | ActivityBody device_activity
  | DailySummaryBody daily_summary
  | ServiceBody "device_service option"
  | FuelBody fuel_response
  | SessionsBody string int "device_session list"
  | LocationsBody location_history
  | SimCardsBody "device_sim_card list"
  | SimCardBody device_sim_card
  | SubscriptionsBody "subscription_response list"
  | WebhookBody bool string

definition respond :: "nat \<Rightarrow> ('a \<Rightarrow> api_body) \<Rightarrow> ('s, api_error, 'a) io \<Rightarrow> ('s, api_error, nat \<times> api_body) io" where
  "respond status body m = io_bind m (\<lambda>x. io_return (status, body x))"

fun route :: "api \<Rightarrow> api_request \<Rightarrow> (nat \<times> api_body) webhook_io" where
  "route a GetDevices = respond 200 DevicesBody get_devices"
| "route a (GetDeviceActivity imei) = respond 200 ActivityBody (get_device_activity imei)"
| "route a (GetDeviceDailySummary imei date) = respond 200 DailySummaryBody (get_device_daily_summary a imei date)"
| "route a (GetDeviceService imei) = respond 200 ServiceBody (get_device_service a imei)"
| "route a (GetFuelCalibrations imei) = respond 200 FuelBody (get_device_fuel_calibrations a imei)"
| "route a (PostFuelCalibration imei fuel_type) = respond 201 FuelBody (start_fuel_calibration a imei fuel_type)"
| "route a (PostFuelCalibrationRestart imei fuel_type) = respond 201 FuelBody (restart_fuel_calibration a imei fuel_type)"
| "route a (PostFuelCalibrationComplete imei i request) = respond 200 FuelBody (complete_fuel_calibration a imei i request)"
| "route a (GetDeviceSessions imei date) =
     respond 200 (\<lambda>(day, sessions). SessionsBody imei day sessions) (get_device_sessions a imei date)"
| "route a (GetLatestLocation imei) = respond 200 LocationsBody (get_device_latest_location a imei)"
| "route a (GetLocations imei start_at end_at) = respond 200 LocationsBody (get_device_locations a imei start_at end_at)"
| "route a GetSimCards = respond 200 SimCardsBody get_device_sim_cards"
| "route a (PatchSimCardExpiration imei date) = respond 200 SimCardBody (update_device_sim_card_expiration a imei date)"
| "route a (GetSubscriptions sort_order) = respond 200 SubscriptionsBody (get_subscriptions a sort_order)"
| "route a (PostMidtransWebhook notification) = respond 200 (WebhookBody True) (post_midtrans_webhook a notification)"

text \<open>What the client gets; an error is answered with its text, a panic with nothing.\<close>

datatype api_response = Answer nat api_body | Failure nat api_error | NoResponse

definition serve :: "api \<Rightarrow> api_request \<Rightarrow> api_store world \<Rightarrow> api_response \<times> api_store world" where
  "serve a request w = (case route a request w of
      (Inr (status, body), w') \<Rightarrow> (Answer status body, w')
    | (Inl e, w') \<Rightarrow> (case error_status e of Some status \<Rightarrow> Failure status e | None \<Rightarrow> NoResponse, w'))"

section \<open>What a request touches\<close>

lemma untouched_map_list [io_intros]:
  "(\<And>x. x \<in> set xs \<Longrightarrow> untouched view (f x)) \<Longrightarrow> untouched view (io_map_list xs f)"
  by (rule untouchedI_keeps) (blast intro: keeps_map_list untouched_keeps)

lemma untouched_respond [io_intros]: "untouched view m \<Longrightarrow> untouched view (respond status body m)"
  unfolding respond_def by (intro io_intros)

lemma untouched_api_transaction [io_intros]: "untouched view m \<Longrightarrow> untouched view (api_transaction m)"
  by (rule untouchedI_keeps) (intro keeps_api_transaction untouched_keeps persistent_view)

lemma untouched_add_rides [io_intros]: "untouched view (add_rides lm imei t u rows acc)"
  by (induction lm imei t u rows acc rule: add_rides.induct)
     (auto simp: Let_def fetch_ride_summary_def split: prod.split intro!: io_intros)

lemma untouched_reads [io_intros]:
  "untouched view get_devices" "untouched view (get_device_activity imei)"
  "untouched view (get_device_daily_summary a imei date)" "untouched view (get_device_service a imei)"
  "untouched view (get_device_fuel_calibrations a imei)" "untouched view (get_device_sessions a imei date)"
  "untouched view (get_device_latest_location a imei)" "untouched view (get_device_locations a imei t u)"
  "untouched view get_device_sim_cards" "untouched view (get_subscriptions a order)"
  by (auto simp: get_devices_def get_device_activity_def get_device_daily_summary_def get_device_service_def
      get_device_fuel_calibrations_def get_device_sessions_def get_device_latest_location_def
      get_device_locations_def get_device_sim_cards_def get_subscriptions_def device_exists_def
      device_session_of_def fetch_ride_summary_def Let_def split: prod.split option.split
      intro!: io_intros untouched_load)

lemma untouched_fuel [io_intros]:
  assumes "\<And>s x. view (s\<lparr>fuel_calibrations := x\<rparr>) = view s"
  shows "untouched view (start_fuel_calibration a imei ft)" "untouched view (restart_fuel_calibration a imei ft)"
    "untouched view (complete_fuel_calibration a imei i request)"
  unfolding start_fuel_calibration_def restart_fuel_calibration_def complete_fuel_calibration_def
    open_calibration_def reopen_calibration_def close_calibration_def device_exists_def lock_device_def
    current_tracked_distance_meters_def insert_active_calibration_def invalidate_active_def
    fetch_active_calibration_def update_calibration_def Let_def
  using assms by (auto intro!: io_intros untouched_load untouched_query untouched_execute split: if_splits)

lemma untouched_patch [io_intros]:
  assumes "\<And>s x. view (s\<lparr>devices := x\<rparr>) = view s"
  shows "untouched view (update_device_sim_card_expiration a imei date)"
  unfolding update_device_sim_card_expiration_def set_expiration_date_def
  using assms by (auto intro!: io_intros untouched_query simp: Let_def split: option.split)

text \<open>Requests by what they may change.\<close>

fun is_fuel_change :: "api_request \<Rightarrow> bool" where
  "is_fuel_change (PostFuelCalibration _ _) = True"
| "is_fuel_change (PostFuelCalibrationRestart _ _) = True"
| "is_fuel_change (PostFuelCalibrationComplete _ _ _) = True"
| "is_fuel_change _ = False"

fun is_webhook :: "api_request \<Rightarrow> bool" where
  "is_webhook (PostMidtransWebhook _) = True" | "is_webhook _ = False"

fun is_sim_card_change :: "api_request \<Rightarrow> bool" where
  "is_sim_card_change (PatchSimCardExpiration _ _) = True" | "is_sim_card_change _ = False"

lemma untouched_announce [io_intros]:
  "(\<And>s x. view (s\<lparr>deliveries := x\<rparr>) = view s) \<Longrightarrow> untouched view (announce_payment t sub)"
  unfolding announce_payment_def send_telegram_sticker_def send_success_message_def deliver_api_def
  by (auto intro!: io_intros untouched_operation)

lemma untouched_post [io_intros]:
  assumes "\<And>s x. view (s\<lparr>telegram_subscriptions := x\<rparr>) = view s" "\<And>s x. view (s\<lparr>telegram_payment_events := x\<rparr>) = view s"
    "\<And>s x. view (s\<lparr>telegram_subscription_sanctions := x\<rparr>) = view s" and "\<And>s x. view (s\<lparr>deliveries := x\<rparr>) = view s"
  shows "untouched view (post_midtrans_webhook a nt)"
  unfolding post_midtrans_webhook_def using assms by (auto intro!: io_intros split: webhook_outcome.split)

text \<open>A view is left alone by a request if it does not look at what requests of its kind change.\<close>

lemma untouched_route:
  assumes "is_fuel_change request \<Longrightarrow> (\<And>s x. view (s\<lparr>fuel_calibrations := x\<rparr>) = view s)"
    and "is_sim_card_change request \<Longrightarrow> (\<And>s x. view (s\<lparr>devices := x\<rparr>) = view s)"
    and "is_webhook request \<Longrightarrow> (\<And>s x. view (s\<lparr>telegram_subscriptions := x\<rparr>) = view s)"
    "is_webhook request \<Longrightarrow> (\<And>s x. view (s\<lparr>telegram_payment_events := x\<rparr>) = view s)"
    "is_webhook request \<Longrightarrow> (\<And>s x. view (s\<lparr>telegram_subscription_sanctions := x\<rparr>) = view s)"
    and "is_webhook request \<Longrightarrow> (\<And>s x. view (s\<lparr>deliveries := x\<rparr>) = view s)"
  shows "untouched view (route a request)"
  using assms by (cases request) (auto intro!: io_intros)

section \<open>Refused requests\<close>

definition refusal :: "api_error \<Rightarrow> bool" where
  "refusal e \<longleftrightarrow> (case error_status e of Some status \<Rightarrow> status < 500 | None \<Rightarrow> False)"

lemma query_no_refusal [simp]: "\<not> refusal (ApiQuery d)" "\<not> refusal ApiHttp"
  by (simp_all add: refusal_def)

text \<open>Programs that fail only when a query fails.\<close>

definition only_queries :: "('s, api_error, 'a) io \<Rightarrow> bool" where
  "only_queries m \<longleftrightarrow> (\<forall>w e w'. m w = (Inl e, w') \<longrightarrow> \<not> refusal e)"

named_theorems query_intros

lemma only_queries_basic [query_intros]:
  "only_queries (pool q)" "only_queries (io_return x)" "only_queries (api_now a)"
  by (auto simp: only_queries_def pool_error io_return_def)

lemma only_queries_bind [query_intros]:
  "only_queries m \<Longrightarrow> (\<And>x. only_queries (f x)) \<Longrightarrow> only_queries (io_bind m f)"
  unfolding only_queries_def bind_error by blast

lemma only_queries_case [query_intros]:
  "only_queries m \<Longrightarrow> (\<And>y. only_queries (g y)) \<Longrightarrow> only_queries (case c of None \<Rightarrow> m | Some y \<Rightarrow> g y)"
  by (simp split: option.split)

lemma only_queriesD: "only_queries m \<Longrightarrow> m w = (Inl e, w') \<Longrightarrow> refusal e \<Longrightarrow> P"
  by (auto simp: only_queries_def)

text \<open>Loading the calibrations is refused only for an unknown device.\<close>

definition registered :: "string \<Rightarrow> 'z store_scheme \<Rightarrow> bool" where
  "registered imei s \<longleftrightarrow> list_ex (\<lambda>d. dv_imei d = imei) (devices s)"

lemma load_refused:
  assumes "load_device_fuel_calibrations a imei w = (Inl e, w')" and "refusal e"
  shows "\<not> registered imei (wdb w)"
proof
  assume known: "registered imei (wdb w)"
  let ?rest = "io_bind (api_now a) (\<lambda>now.
       io_bind (pool (select (\<lambda>s. latest_by fc_id (filter (active_for imei) (fuel_calibrations s))))) (\<lambda>active_row.
       io_bind (case active_row of
                  Some row \<Rightarrow> io_bind (active_progress a imei now row) (\<lambda>p. io_return (Some p))
                | None \<Rightarrow> io_return None) (\<lambda>active_calibration.
       io_bind (pool (select (completed_calibrations imei))) (\<lambda>result_rows.
       let history = map fuel_calibration_result_from_row result_rows;
           latest_result = (case history of [] \<Rightarrow> None | r # _ \<Rightarrow> Some r)
       in io_return \<lparr>fs_imei = imei, fs_generated_at = now,
            fs_state = (if active_calibration \<noteq> None then ''active''
                        else if latest_result \<noteq> None then ''completed'' else ''not_started''),
            fs_active_calibration = active_calibration, fs_latest_result = latest_result,
            fs_history = history\<rparr>))))"
  have quiet: "only_queries ?rest"
    unfolding active_progress_def fetch_fuel_window_metrics_def Let_def by (intro query_intros)
  have "\<exists>w1. ?rest w1 = (Inl e, w')"
    using assms(1) known assms(2) unfolding load_device_fuel_calibrations_def bind_error [of "pool (device_exists imei)"]
    by (auto simp: pool_ok pool_error device_exists_def registered_def split: if_splits dest!: select_ok)
  with quiet assms(2) show False by (auto simp: only_queries_def)
qed

lemma refused_change:
  assumes body: "triple (\<lambda>_. J) m (\<lambda>_ _. registered imei) (\<lambda>_ _. True)"
    and "io_bind (api_transaction m) (\<lambda>_. load_device_fuel_calibrations a imei) w = (Inl e, w')"
    and "refusal e" and "J (wdb w)"
  shows "wdb w' = wdb w"
  using assms(2) unfolding bind_error
proof (elim disjE exE conjE)
  fix x w1
  assume "api_transaction m w = (Inr x, w1)"
  then obtain v v' where v: "wdb v = wdb w" "m v = (Inr x, v')" and w1: "wdb w1 = wdb v'"
    by (rule api_transaction_commits)
  have "registered imei (wdb w1)" using triple_ok [OF body _ v(2)] assms(4) v(1) w1 by simp
  moreover assume "load_device_fuel_calibrations a imei w1 = (Inl e, w')"
  ultimately show ?thesis using load_refused assms(3) by blast
qed (rule api_transaction_rolls_back)

lemma triple_any: "triple P m (\<lambda>_ _ _. True) (\<lambda>_ _. True)"
  by (simp add: triple_def split: prod.split sum.split)

lemma insert_registered:
  "triple P (pool (insert_active_calibration imei t d ft)) (\<lambda>_ _. registered imei) (\<lambda>_ _. True)"
  unfolding insert_active_calibration_def
  by (rule triple_map_error, rule triple_query) (auto simp: Let_def registered_def split: if_splits)

lemma open_registered:
  "triple P (open_calibration imei t ft) (\<lambda>_ _. registered imei) (\<lambda>_ _. True)"
  "triple P (reopen_calibration imei t ft) (\<lambda>_ _. registered imei) (\<lambda>_ _. True)"
  unfolding open_calibration_def reopen_calibration_def
  by (rule triple_bind [OF triple_any], rule triple_bind [OF triple_any], rule triple_if, simp add: triple_throw,
      rule triple_bind [OF triple_any], (rule triple_if, simp add: triple_throw)?,
      rule triple_bind [OF triple_any], rule insert_registered)+

text \<open>The foreign key of the calibrations.\<close>

definition calibrated_devices_known :: "'z store_scheme \<Rightarrow> bool" where
  "calibrated_devices_known s \<longleftrightarrow> (\<forall>r \<in> set (fuel_calibrations s). registered (fc_imei r) s)"

lemma close_registered:
  "triple (\<lambda>_. calibrated_devices_known) (close_calibration a imei i request ft t) (\<lambda>_ _. registered imei) (\<lambda>_ _. True)"
proof -
  have lock: "triple (\<lambda>_. calibrated_devices_known) (pool lock_device) (\<lambda>_ _. calibrated_devices_known) (\<lambda>_ _. True)"
    unfolding lock_device_def by (intro triple_map_error triple_execute) simp_all
  have found: "triple (\<lambda>_. calibrated_devices_known) (pool (fetch_active_calibration i imei))
      (\<lambda>x _ s. x \<noteq> None \<longrightarrow> registered imei s) (\<lambda>_ _. True)"
    unfolding fetch_active_calibration_def
    by (intro triple_map_error triple_select)
       (auto simp: find_Some_iff calibrated_devices_known_def active_for_def)
  have keep: "triple (\<lambda>_. registered imei) m (\<lambda>_ _. registered imei) (\<lambda>_ _. True)" if "untouched devices m" for m
    using that by (intro triple_untouched [where view = devices and I = "\<lambda>_ ds. list_ex (\<lambda>d. dv_imei d = imei) ds"])
      (simp_all add: registered_def)
  have rest: "triple (\<lambda>_ s. x \<noteq> None \<longrightarrow> registered imei s)
     (case x of None \<Rightarrow> io_throw FuelCalibrationNotFound | Some calibration \<Rightarrow>
       io_bind (pool (current_tracked_distance_meters imei)) (\<lambda>end_distance_meters.
       let distance_meters = fmax (fsub end_distance_meters (fc_start_distance_meters calibration)) (Fin 0) in
       io_bind (fetch_fuel_window_metrics a imei (fc_started_at calibration) t) (\<lambda>metrics.
       pool (update_calibration i imei
         (completed_row t end_distance_meters distance_meters request
            (case ft of Some t \<Rightarrow> Some t | None \<Rightarrow> fc_fuel_type calibration) metrics)))))
     (\<lambda>_ _. registered imei) (\<lambda>_ _. True)" for x
    by (cases x) (auto simp: triple_throw Let_def current_tracked_distance_meters_def update_calibration_def
        intro!: keep io_intros untouched_query split: if_splits)
  show ?thesis
    unfolding close_calibration_def by (rule triple_bind [OF lock triple_bind [OF found rest]])
qed

lemma refused_fuel:
  assumes "calibrated_devices_known (wdb w)" and "refusal e"
  shows "start_fuel_calibration a imei ft w = (Inl e, w') \<Longrightarrow> wdb w' = wdb w"
    "restart_fuel_calibration a imei ft w = (Inl e, w') \<Longrightarrow> wdb w' = wdb w"
    "complete_fuel_calibration a imei i request w = (Inl e, w') \<Longrightarrow> wdb w' = wdb w"
  unfolding start_fuel_calibration_def restart_fuel_calibration_def complete_fuel_calibration_def
    bind_error [of "api_result _"] bind_error [of "api_now _"]
  using assms(2) refused_change [OF open_registered(1) _ assms(2), where J = "\<lambda>_. True"]
    refused_change [OF open_registered(2) _ assms(2), where J = "\<lambda>_. True"]
    refused_change [OF close_registered _ assms(2) assms(1)]
  by auto

text \<open>A webhook that is refused is refused before it reaches the database.\<close>

lemma refused_post:
  assumes "post_midtrans_webhook a nt w = (Inl e, w')" and "refusal e"
  shows "wdb w' = wdb w"
proof -
  have deliver: "only_queries (deliver_api d)" for d
    by (auto simp: only_queries_def deliver_api_def bind_error operation_def Let_def split: if_splits)
  have "only_queries (announce_payment t sub)" for t sub
    unfolding announce_payment_def send_telegram_sticker_def send_success_message_def
    by (intro query_intros deliver)
  then have "only_queries (case out of Paid sub \<Rightarrow> io_bind (announce_payment t sub) (\<lambda>_. io_return ''paid'')
      | IgnoredNotification \<Rightarrow> io_return ''ignored'' | UnknownOrder \<Rightarrow> io_return ''unknown_order'')" for t out
    by (cases out) (simp_all add: query_intros)
  then have rest: "only_queries (io_bind (api_now a) (\<lambda>received_at. io_bind (sql_now a) (\<lambda>now.
      io_bind (pool (apply_midtrans_webhook nt st received_at now)) (\<lambda>outcome.
      case outcome of
        Paid sub \<Rightarrow> io_bind (announce_payment t sub) (\<lambda>_. io_return ''paid'')
      | IgnoredNotification \<Rightarrow> io_return ''ignored'' | UnknownOrder \<Rightarrow> io_return ''unknown_order''))))" for t st
    by (intro query_intros) (auto simp: only_queries_def)
  show ?thesis
    using assms unfolding post_midtrans_webhook_def
    by (auto simp: io_throw_def split: option.splits if_splits elim: only_queriesD [OF rest])
qed

lemma refused_patch:
  assumes "update_device_sim_card_expiration a imei date w = (Inl e, w')" and "refusal e"
  shows "wdb w' = wdb w"
proof -
  let ?f = "\<lambda>d now r. r\<lparr>dv_sim_card_expiration_date := d, dv_updated_at := now\<rparr>"
  have none: "update_where (\<lambda>r. dv_imei r = imei) (?f d now) T = T"
    if "lookup dv_imei imei (update_where (\<lambda>r. dv_imei r = imei) (?f d now) T) = None" for d now and T :: "device_row list"
  proof -
    have "lookup dv_imei imei T = None" using that lookup_update_same [of T dv_imei "?f d now" imei] by simp
    then show ?thesis by (auto simp: lookup_None_iff update_where_def intro!: map_idI)
  qed
  show ?thesis
    using assms unfolding update_device_sim_card_expiration_def bind_error set_expiration_date_def
    by (auto simp: pool_error pool_ok io_throw_def Let_def io_return_def split: option.splits dest!: query_ok)
       (drule none, simp)
qed

text \<open>
  C39. A request that is refused changes nothing: in a database whose calibrations are of registered
  devices, when the API answers a request with a status below 500, because it is malformed, unsigned,
  about an unknown device or calibration or in conflict with an active one, every table is as it was
  and nothing was sent; and a request that only reads changes nothing whatever its answer.
\<close>

theorem refused_requests_change_nothing:
  assumes "calibrated_devices_known (wdb w)" and "serve a request w = (response, w')"
    and "(\<exists>status e. response = Failure status e \<and> status < 500)
      \<or> \<not> is_fuel_change request \<and> \<not> is_sim_card_change request \<and> \<not> is_webhook request"
  shows "wdb w' = wdb w"
proof (cases "\<not> is_fuel_change request \<and> \<not> is_sim_card_change request \<and> \<not> is_webhook request")
  case True
  then have "untouched (\<lambda>s. s) (route a request)" by (intro untouched_route) simp_all
  then show ?thesis
    using assms(2) unfolding serve_def untouched_def
    by (auto split: prod.splits sum.splits) (metis snd_conv)+
next
  case False
  then obtain status e where "response = Failure status e" "status < 500" using assms(3) by blast
  then have run: "route a request w = (Inl e, w')" and e: "refusal e"
    using assms(2) by (auto simp: serve_def refusal_def split: prod.splits sum.splits option.splits)
  show ?thesis
    using False run refused_fuel [OF assms(1) e] refused_post [OF _ e] refused_patch [OF _ e]
    by (cases request) (auto simp: respond_def bind_error io_return_def)
qed

text \<open>Starting a second calibration is a conflict.\<close>

definition refused_world :: "api_store world" where
  "refused_world = calm (store.extend sample_fuel_store \<lparr>deliveries = []\<rparr>) 2"

lemma conflict_refused:
  "fst (serve sample_api (PostFuelCalibration ''1'' (Some '' Pertamax '')) refused_world) = Failure 409 FuelCalibrationAlreadyActive"
proof -
  have "normalize_optional_fuel_type (Some '' Pertamax '') = Inr (Some ''Pertamax'')"
    by (simp add: normalize_optional_fuel_type_def trim_def white_def)
  moreover have "open_calibration ''1'' t ft (calm (wdb refused_world) n) = (Inl FuelCalibrationAlreadyActive, calm (wdb refused_world) (n + 3))"
    for t ft n
    by (simp add: open_calibration_def device_exists_def lock_device_def refused_world_def calm_steps io_bind_def
        io_throw_def sample_fuel_store_def sample_device_def active_for_def sample_calibration_def store.defs)
  ultimately show ?thesis
    by (simp add: serve_def respond_def start_fuel_calibration_def api_result_def refused_world_def calm_steps api_transaction_def
        io_bind_def io_return_def Let_def)
qed

lemma refused_requests_change_nothing_witness:
  "\<exists>w'. serve sample_api (PostFuelCalibration ''1'' (Some '' Pertamax '')) refused_world = (Failure 409 FuelCalibrationAlreadyActive, w')
    \<and> wdb w' = wdb refused_world"
proof -
  have known: "calibrated_devices_known (wdb refused_world)"
    by (simp add: calibrated_devices_known_def registered_def refused_world_def sample_fuel_store_def
        sample_device_def sample_calibration_def store.defs)
  obtain w' where run: "serve sample_api (PostFuelCalibration ''1'' (Some '' Pertamax '')) refused_world
      = (Failure 409 FuelCalibrationAlreadyActive, w')"
    using conflict_refused by (metis prod.collapse)
  from refused_requests_change_nothing [OF known this] run show ?thesis by simp
qed

end
