(* ===== verification/Config.thy ===== *)
theory Config
  imports Payment Ranges
begin

text \<open>
  \<open>src/config.rs\<close>: the configuration that every program of the server reads from its environment, with
  the parsers of the standard library that it uses. A text is its bytes, and white space the one of
  ASCII. Reading \<open>.env\<close> and the process environment is outside; the pairs are what they give.
\<close>

section \<open>The parsers of the standard library\<close>

text \<open>\<open>parse\<close> on an unsigned type: an optional plus sign, then digits, below the bound of the type.\<close>

definition parse_unsigned :: "nat \<Rightarrow> string \<Rightarrow> nat option" where
  "parse_unsigned bound s =
     (let ds = (if take 1 s = ''+'' then drop 1 s else s)
      in if ds = [] then None
         else case read_nat 0 ds of None \<Rightarrow> None | Some n \<Rightarrow> if n < bound then Some n else None)"

text \<open>
  \<open>parse\<close> on a socket address. A parser that fails consumes nothing; a number has at most the given
  number of digits and, unless allowed, no superfluous zero in front.
\<close>

datatype socket_addr = V4 u8 u8 u8 u8 u16 | V6 "u16 list" u32 u16

definition digit_value :: "nat \<Rightarrow> char \<Rightarrow> nat option" where
  "digit_value radix c =
     (let n = of_char c;
          d = (if 48 \<le> n \<and> n \<le> (57 :: nat) then n - 48 else if 97 \<le> n \<and> n \<le> 122 then n - 87
               else if 65 \<le> n \<and> n \<le> 90 then n - 55 else radix)
      in if d < radix then Some d else None)"

abbreviation is_digit :: "nat \<Rightarrow> char \<Rightarrow> bool" where
  "is_digit radix c \<equiv> digit_value radix c \<noteq> None"

definition digits_number :: "nat \<Rightarrow> string \<Rightarrow> nat" where
  "digits_number radix ds = foldl (\<lambda>acc c. acc * radix + the (digit_value radix c)) 0 ds"

definition read_number :: "nat \<Rightarrow> nat option \<Rightarrow> bool \<Rightarrow> nat \<Rightarrow> string \<Rightarrow> (nat \<times> string) option" where
  "read_number radix max_digits allow_zero_prefix bound s =
     (let ds = takeWhile (is_digit radix) s
      in if ds = [] \<or> (case max_digits of None \<Rightarrow> False | Some m \<Rightarrow> m < length ds)
              \<or> \<not> allow_zero_prefix \<and> hd ds = CHR ''0'' \<and> 1 < length ds
              \<or> bound \<le> digits_number radix ds
         then None else Some (digits_number radix ds, dropWhile (is_digit radix) s))"

definition read_given_char :: "char \<Rightarrow> string \<Rightarrow> string option" where
  "read_given_char c s = (case s of [] \<Rightarrow> None | d # ds \<Rightarrow> if d = c then Some ds else None)"

definition read_separator :: "char \<Rightarrow> nat \<Rightarrow> (string \<Rightarrow> ('a \<times> string) option) \<Rightarrow> string \<Rightarrow> ('a \<times> string) option" where
  "read_separator sep index inner s = (if 0 < index then Option.bind (read_given_char sep s) inner else inner s)"

fun read_octets :: "nat \<Rightarrow> nat \<Rightarrow> string \<Rightarrow> (nat list \<times> string) option" where
  "read_octets index 0 s = Some ([], s)"
| "read_octets index (Suc left) s =
     Option.bind (read_separator CHR ''.'' index (read_number 10 (Some 3) False (2 ^ 8)) s) (\<lambda>(x, s1).
     map_option (\<lambda>(xs, s2). (x # xs, s2)) (read_octets (Suc index) left s1))"

definition read_ipv4_addr :: "string \<Rightarrow> (nat list \<times> string) option" where
  "read_ipv4_addr = read_octets 0 4"

text \<open>The groups of an IPv6 address; an embedded IPv4 address takes the place of two and ends them.\<close>

fun read_groups :: "nat \<Rightarrow> nat \<Rightarrow> string \<Rightarrow> nat list \<times> bool \<times> string" where
  "read_groups index 0 s = ([], False, s)"
| "read_groups index (Suc left) s =
     (case (if 0 < left then read_separator CHR '':'' index read_ipv4_addr s else None) of
        Some (v4, s1) \<Rightarrow> ([256 * v4 ! 0 + v4 ! 1, 256 * v4 ! 2 + v4 ! 3], True, s1)
      | None \<Rightarrow>
          (case read_separator CHR '':'' index (read_number 16 (Some 4) True (2 ^ 16)) s of
             None \<Rightarrow> ([], False, s)
           | Some (g, s1) \<Rightarrow>
               let (gs, ipv4, s2) = read_groups (Suc index) left s1 in (g # gs, ipv4, s2)))"

definition read_ipv6_addr :: "string \<Rightarrow> (nat list \<times> string) option" where
  "read_ipv6_addr s =
     (let (head, head_ipv4, s1) = read_groups 0 8 s
      in if length head = 8 then Some (head, s1) else if head_ipv4 then None
         else
           Option.bind (read_given_char CHR '':'' s1) (\<lambda>s2.
           Option.bind (read_given_char CHR '':'' s2) (\<lambda>s3.
           let (tail, _, s4) = read_groups 0 (8 - (length head + 1)) s3
           in Some (head @ replicate (8 - length head - length tail) 0 @ tail, s4))))"

definition read_port :: "string \<Rightarrow> (nat \<times> string) option" where
  "read_port s = Option.bind (read_given_char CHR '':'' s) (read_number 10 None True (2 ^ 16))"

definition read_scope_id :: "string \<Rightarrow> (nat \<times> string) option" where
  "read_scope_id s = Option.bind (read_given_char CHR ''%'' s) (read_number 10 None True (2 ^ 32))"

definition read_socket_addr_v4 :: "string \<Rightarrow> (socket_addr \<times> string) option" where
  "read_socket_addr_v4 s =
     Option.bind (read_ipv4_addr s) (\<lambda>(ip, s1).
     Option.bind (read_port s1) (\<lambda>(port, s2).
     Some (V4 (of_nat (ip ! 0)) (of_nat (ip ! 1)) (of_nat (ip ! 2)) (of_nat (ip ! 3)) (of_nat port), s2)))"

definition read_socket_addr_v6 :: "string \<Rightarrow> (socket_addr \<times> string) option" where
  "read_socket_addr_v6 s =
     Option.bind (read_given_char CHR ''['' s) (\<lambda>s1.
     Option.bind (read_ipv6_addr s1) (\<lambda>(ip, s2).
     let (scope_id, s3) = (case read_scope_id s2 of None \<Rightarrow> (0, s2) | Some r \<Rightarrow> r) in
     Option.bind (read_given_char CHR '']'' s3) (\<lambda>s4.
     Option.bind (read_port s4) (\<lambda>(port, s5).
     Some (V6 (map of_nat ip) (of_nat scope_id) (of_nat port), s5)))))"

definition parse_socket_addr :: "string \<Rightarrow> socket_addr option" where
  "parse_socket_addr s =
     (case (case read_socket_addr_v4 s of None \<Rightarrow> read_socket_addr_v6 s | Some r \<Rightarrow> Some r) of
        Some (addr, []) \<Rightarrow> Some addr | _ \<Rightarrow> None)"

section \<open>The configuration\<close>

record config =
  cf_bind_addr :: socket_addr
  cf_http_api_bind_addr :: socket_addr
  cf_log_filter :: string
  cf_read_buffer_capacity :: nat
  cf_database_url :: "string option"
  cf_database_max_connections :: nat
  cf_database_write_timeout_ms :: nat
  cf_telegram_bot_token :: "string option"
  cf_telegram_admin_chat_id :: "int option"
  cf_telegram_poll_timeout_secs :: nat
  cf_telegram_heartbeat_poll_interval_ms :: nat
  cf_midtrans_server_key :: "string option"
  cf_midtrans_client_key :: "string option"
  cf_midtrans_merchant_id :: "string option"
  cf_midtrans_is_production :: bool
  cf_midtrans_payment_expiry_hours :: int
  cf_midtrans_basic_plan_price_idr :: int
  cf_midtrans_ojol_plan_price_idr :: int

text \<open>The two default addresses are parsed with \<open>expect\<close>; that they parse is \<open>default_addresses\<close> below.\<close>

definition default_config :: config where
  "default_config =
     \<lparr>cf_bind_addr = the (parse_socket_addr ''0.0.0.0:5000''),
      cf_http_api_bind_addr = the (parse_socket_addr ''0.0.0.0:8080''),
      cf_log_filter = ''info'', cf_read_buffer_capacity = 4096, cf_database_url = None,
      cf_database_max_connections = 5, cf_database_write_timeout_ms = 5000, cf_telegram_bot_token = None,
      cf_telegram_admin_chat_id = None, cf_telegram_poll_timeout_secs = 30,
      cf_telegram_heartbeat_poll_interval_ms = 3000, cf_midtrans_server_key = None,
      cf_midtrans_client_key = None, cf_midtrans_merchant_id = None, cf_midtrans_is_production = False,
      cf_midtrans_payment_expiry_hours = 24, cf_midtrans_basic_plan_price_idr = 35000,
      cf_midtrans_ojol_plan_price_idr = 30000\<rparr>"

text \<open>A variable that is missing or does not parse leaves the default.\<close>

definition setting :: "(string \<Rightarrow> 'a option) \<Rightarrow> string option \<Rightarrow> 'a \<Rightarrow> 'a" where
  "setting parse var d = (case Option.bind var parse of None \<Rightarrow> d | Some x \<Rightarrow> x)"

definition nonblank :: "string \<Rightarrow> string option" where
  "nonblank s = (if trim s = [] then None else Some s)"

definition is_yes :: "string \<Rightarrow> bool" where
  "is_yes s \<longleftrightarrow> map ascii_lower (trim s) \<in> {''1'', ''true'', ''yes''}"

text \<open>The pairs are collected into a map first: of two pairs with the same key the later one counts.\<close>

definition from_pairs :: "(string \<times> string) list \<Rightarrow> config" where
  "from_pairs environment =
     (let vars = map_of (rev environment); d = default_config in
      \<lparr>cf_bind_addr = setting parse_socket_addr (vars ''GT06_BIND_ADDR'') (cf_bind_addr d),
       cf_http_api_bind_addr = setting parse_socket_addr (vars ''HTTP_API_BIND_ADDR'') (cf_http_api_bind_addr d),
       cf_log_filter = setting nonblank (vars ''RUST_LOG'') (cf_log_filter d),
       cf_read_buffer_capacity =
         setting (parse_unsigned (2 ^ 64)) (vars ''GT06_READ_BUFFER_CAPACITY'') (cf_read_buffer_capacity d),
       cf_database_url = setting (map_option Some \<circ> nonblank) (vars ''DATABASE_URL'') (cf_database_url d),
       cf_database_max_connections =
         setting (parse_unsigned (2 ^ 32)) (vars ''DATABASE_MAX_CONNECTIONS'') (cf_database_max_connections d),
       cf_database_write_timeout_ms =
         setting (parse_unsigned (2 ^ 64)) (vars ''DATABASE_WRITE_TIMEOUT_MS'') (cf_database_write_timeout_ms d),
       cf_telegram_bot_token =
         setting (map_option Some \<circ> nonblank) (vars ''TELEGRAM_BOT_TOKEN'') (cf_telegram_bot_token d),
       cf_telegram_admin_chat_id =
         setting (map_option Some \<circ> parse_i64) (vars ''TELEGRAM_ADMIN_CHAT_ID'') (cf_telegram_admin_chat_id d),
       cf_telegram_poll_timeout_secs =
         setting (parse_unsigned (2 ^ 64)) (vars ''TELEGRAM_POLL_TIMEOUT_SECS'') (cf_telegram_poll_timeout_secs d),
       cf_telegram_heartbeat_poll_interval_ms =
         setting (parse_unsigned (2 ^ 64)) (vars ''TELEGRAM_HEARTBEAT_POLL_INTERVAL_MS'')
           (cf_telegram_heartbeat_poll_interval_ms d),
       cf_midtrans_server_key =
         setting (map_option Some \<circ> nonblank) (vars ''MIDTRANS_SERVER_KEY'') (cf_midtrans_server_key d),
       cf_midtrans_client_key =
         setting (map_option Some \<circ> nonblank) (vars ''MIDTRANS_CLIENT_KEY'') (cf_midtrans_client_key d),
       cf_midtrans_merchant_id =
         setting (map_option Some \<circ> nonblank) (vars ''MIDTRANS_MERCHANT_ID'') (cf_midtrans_merchant_id d),
       cf_midtrans_is_production =
         setting (Some \<circ> is_yes) (vars ''MIDTRANS_IS_PRODUCTION'') (cf_midtrans_is_production d),
       cf_midtrans_payment_expiry_hours =
         setting parse_i64 (vars ''MIDTRANS_PAYMENT_EXPIRY_HOURS'') (cf_midtrans_payment_expiry_hours d),
       cf_midtrans_basic_plan_price_idr =
         setting parse_i64 (vars ''MIDTRANS_BASIC_PLAN_PRICE_IDR'') (cf_midtrans_basic_plan_price_idr d),
       cf_midtrans_ojol_plan_price_idr =
         setting parse_i64 (vars ''MIDTRANS_OJOL_PLAN_PRICE_IDR'') (cf_midtrans_ojol_plan_price_idr d)\<rparr>)"

text \<open>\<open>MidtransClient::from_config\<close>: there is a payment client when there is a server key.\<close>

definition midtrans_from_config :: "config \<Rightarrow> midtrans_client option" where
  "midtrans_from_config c =
     map_option (\<lambda>server_key.
       \<lparr>mc_server_key = server_key,
        mc_snap_base_url = (if cf_midtrans_is_production c then ''https://app.midtrans.com''
                            else ''https://app.sandbox.midtrans.com''),
        mc_basic_price_idr = cf_midtrans_basic_plan_price_idr c,
        mc_ojol_price_idr = cf_midtrans_ojol_plan_price_idr c,
        mc_expiry_hours = cf_midtrans_payment_expiry_hours c\<rparr>) (cf_midtrans_server_key c)"

section \<open>Printing addresses\<close>

text \<open>Texts that the parser reads back: dotted decimals, and eight groups of four hexadecimal digits.\<close>

definition hex_char :: "nat \<Rightarrow> char" where
  "hex_char d = (if d < 10 then digit_char d else char_of (87 + d))"

definition show_hex4 :: "nat \<Rightarrow> string" where
  "show_hex4 n = [hex_char (n div 4096 mod 16), hex_char (n div 256 mod 16), hex_char (n div 16 mod 16), hex_char (n mod 16)]"

fun show_socket_addr :: "socket_addr \<Rightarrow> string" where
  "show_socket_addr (V4 a b c d port) =
     show_nat (unat a) @ ''.'' @ show_nat (unat b) @ ''.'' @ show_nat (unat c) @ ''.'' @ show_nat (unat d)
     @ '':'' @ show_nat (unat port)"
| "show_socket_addr (V6 gs scope_id port) =
     ''['' @ show_hex4 (unat (hd gs)) @ concat (map (\<lambda>g. '':'' @ show_hex4 (unat g)) (tl gs))
     @ ''%'' @ show_nat (unat scope_id) @ '']:'' @ show_nat (unat port)"

fun addr_ok :: "socket_addr \<Rightarrow> bool" where
  "addr_ok (V4 a b c d port) = True"
| "addr_ok (V6 gs scope_id port) = (length gs = 8)"

definition stops :: "nat \<Rightarrow> string \<Rightarrow> bool" where
  "stops radix s \<longleftrightarrow> (case s of [] \<Rightarrow> True | c # _ \<Rightarrow> \<not> is_digit radix c)"

lemma read_number_prefix:
  assumes "list_all (is_digit radix) ds" and "ds \<noteq> []" and "stops radix s"
    and "max_digits = None \<or> length ds \<le> the max_digits"
    and "allow_zero_prefix \<or> hd ds \<noteq> CHR ''0'' \<or> length ds = 1"
    and "digits_number radix ds < bound"
  shows "read_number radix max_digits allow_zero_prefix bound (ds @ s) = Some (digits_number radix ds, s)"
proof -
  have "takeWhile (is_digit radix) s = []" "dropWhile (is_digit radix) s = s"
    using assms(3) by (auto simp: stops_def split: list.splits)
  with assms(1) have "takeWhile (is_digit radix) (ds @ s) = ds" "dropWhile (is_digit radix) (ds @ s) = s"
    by (simp_all add: list_all_iff)
  with assms(2,4-) show ?thesis by (cases "length ds") (auto simp: read_number_def split: option.splits)
qed

lemma digit_value_digit: "d < 10 \<Longrightarrow> 10 \<le> radix \<Longrightarrow> digit_value radix (digit_char d) = Some d"
  by (simp add: digit_value_def digit_char_def of_char_of)

lemma digits_number_snoc: "digits_number radix (ds @ [c]) = digits_number radix ds * radix + the (digit_value radix c)"
  by (simp add: digits_number_def)

lemma digits_number_show_nat: "digits_number 10 (show_nat n) = n"
proof (induction n rule: show_nat.induct)
  case (1 n)
  show ?case
  proof (cases "n < 10")
    case True
    then show ?thesis by (subst show_nat.simps) (simp add: digits_number_def digit_value_digit)
  next
    case False
    with 1 have "digits_number 10 (show_nat (n div 10)) = n div 10" by simp
    with False show ?thesis by (subst show_nat.simps) (simp add: digits_number_snoc digit_value_digit)
  qed
qed

lemma show_nat_no_zero: "hd (show_nat n) \<noteq> CHR ''0'' \<or> length (show_nat n) = 1"
proof (induction n rule: show_nat.induct)
  case (1 n)
  show ?case
  proof (cases "n < 10")
    case False
    then have n: "show_nat n = show_nat (n div 10) @ [digit_char (n mod 10)]" by (subst show_nat.simps) simp
    have "n div 10 \<noteq> 0" using False by simp
    moreover have "show_nat 0 = ''0''" by code_simp
    ultimately have "show_nat (n div 10) \<noteq> ''0''" using show_nat_inj [of "n div 10" 0] by auto
    moreover have "hd (show_nat (n div 10)) \<noteq> CHR ''0'' \<or> length (show_nat (n div 10)) = 1" using 1 False by simp
    ultimately have "hd (show_nat (n div 10)) \<noteq> CHR ''0''" by (auto simp: length_Suc_conv)
    then show ?thesis by (simp add: n)
  qed (subst show_nat.simps, simp)
qed

lemma show_nat_is_digits: "list_all (is_digit 10) (show_nat n)"
  using show_nat_digits digit_value_digit by (fastforce simp: list_all_iff)

lemma read_shown:
  assumes "stops 10 s" and "n < bound" and "max_digits = None \<or> max_digits = Some 3 \<and> n < 1000"
  shows "read_number 10 max_digits allow_zero_prefix bound (show_nat n @ s) = Some (n, s)"
  using read_number_prefix [OF show_nat_is_digits show_nat_nonempty assms(1), of max_digits n allow_zero_prefix bound]
    assms(2,3) show_nat_no_zero [of n] length_show_nat [of n 3]
  by (auto simp: digits_number_show_nat)

lemma stops_punctuation: "stops 10 (CHR ''.'' # s)" "stops 10 (CHR '':'' # s)" "stops 10 (CHR '']'' # s)" "stops 10 []"
    "stops 16 (CHR '':'' # s)" "stops 16 (CHR ''%'' # s)"
  by (simp_all add: stops_def digit_value_def of_char_def)

lemma read_octets_shown:
  fixes xs :: "u8 list"
  shows "0 < index \<Longrightarrow> stops 10 (concat (map (\<lambda>x. ''.'' @ show_nat (unat x)) xs) @ s) \<Longrightarrow> stops 10 s \<Longrightarrow>
   read_octets index (length xs) (concat (map (\<lambda>x. ''.'' @ show_nat (unat x)) xs) @ s) = Some (map unat xs, s)"
proof (induction xs arbitrary: index)
  case (Cons x xs)
  have "stops 10 (concat (map (\<lambda>x. ''.'' @ show_nat (unat x)) xs) @ s)"
    using Cons.prems(3) by (cases xs) (simp_all add: stops_punctuation)
  moreover have "unat x < 2 ^ 8" using unsigned_less [of x] by simp
  ultimately show ?case
    using Cons read_shown [of "concat (map (\<lambda>x. ''.'' @ show_nat (unat x)) xs) @ s" "unat x" "2 ^ 8" "Some 3" False]
    by (simp add: read_separator_def read_given_char_def)
qed simp

lemma read_ipv4_shown:
  fixes a b c d :: u8
  assumes "stops 10 s"
  shows "read_ipv4_addr (show_nat (unat a) @ ''.'' @ show_nat (unat b) @ ''.'' @ show_nat (unat c) @ ''.''
      @ show_nat (unat d) @ s) = Some (map unat [a, b, c, d], s)"
proof -
  let ?rest = "concat (map (\<lambda>x. ''.'' @ show_nat (unat x)) [b, c, d]) @ s"
  have "stops 10 ?rest" by (simp add: stops_punctuation)
  moreover have "unat a < 2 ^ 8" using unsigned_less [of a] by simp
  ultimately show ?thesis
    using read_shown [of ?rest "unat a" "2 ^ 8" "Some 3" False] read_octets_shown [of 1 "[b, c, d]" s] assms
    by (simp add: read_ipv4_addr_def read_separator_def eval_nat_numeral)
qed

lemma read_port_shown:
  fixes port :: u16
  shows "read_port (CHR '':'' # show_nat (unat port)) = Some (unat port, [])"
  using unsigned_less [of port] read_shown [of "[]" "unat port" "2 ^ 16" None True]
  by (simp add: read_port_def read_given_char_def stops_punctuation)

lemma parse_shown_v4: "parse_socket_addr (show_socket_addr (V4 a b c d port)) = Some (V4 a b c d port)"
proof -
  have "read_ipv4_addr (show_socket_addr (V4 a b c d port)) = Some (map unat [a, b, c, d], CHR '':'' # show_nat (unat port))"
    using read_ipv4_shown [OF stops_punctuation(2), of a b c d "show_nat (unat port)"] by simp
  then show ?thesis
    by (simp add: parse_socket_addr_def read_socket_addr_v4_def read_port_shown eval_nat_numeral del: show_socket_addr.simps)
qed

section \<open>IPv6 addresses\<close>

lemma hex_digit: "d < 16 \<Longrightarrow> digit_value 16 (hex_char d) = Some d"
  using digit_value_digit [of d 16] by (auto simp: hex_char_def digit_value_def of_char_of)

lemma show_hex4_digits: "list_all (is_digit 16) (show_hex4 n)"
  by (simp add: show_hex4_def hex_digit)

lemma digits_number_hex4:
  assumes "n < 2 ^ 16"
  shows "digits_number 16 (show_hex4 n) = n"
proof -
  have "n div 4096 mod 16 = n div 4096" using assms by simp
  then have "digits_number 16 (show_hex4 n)
      = ((n div 4096 * 16 + n div 256 mod 16) * 16 + n div 16 mod 16) * 16 + n mod 16"
    by (simp add: digits_number_def show_hex4_def hex_digit)
  also have "\<dots> = n"
    using div_mult_mod_eq [of "n div 256" 16] div_mult_mod_eq [of "n div 16" 16] div_mult_mod_eq [of n 16]
    by (simp add: div_mult2_eq [symmetric])
  finally show ?thesis .
qed

lemma read_hex4:
  assumes "stops 16 s" and "n < 2 ^ 16"
  shows "read_number 16 (Some 4) True (2 ^ 16) (show_hex4 n @ s) = Some (n, s)"
  using read_number_prefix [OF show_hex4_digits _ assms(1), of n "Some 4" True "2 ^ 16"] assms(2)
  by (simp add: digits_number_hex4) (simp add: show_hex4_def)

text \<open>Four hexadecimal digits never start a dotted decimal address.\<close>

lemma dot_no_digit: "\<not> is_digit 16 (CHR ''.'')"
  by (simp add: digit_value_def of_char_def)

lemma four_octets:
  "read_ipv4_addr s = Option.bind (read_number 10 (Some 3) False (2 ^ 8) s) (\<lambda>(x, s1).
     map_option (\<lambda>(xs, s2). (x # xs, s2)) (read_octets 1 3 s1))"
  using read_octets.simps(2) [of 0 3 s] by (simp add: read_ipv4_addr_def read_separator_def)

lemma hex4_not_ipv4: "read_ipv4_addr (show_hex4 n @ s) = None"
proof (cases "list_all (is_digit 10) (show_hex4 n)")
  case True
  then have "takeWhile (is_digit 10) (show_hex4 n @ s) = show_hex4 n @ takeWhile (is_digit 10) s"
    by (simp add: list_all_iff)
  moreover have "length (show_hex4 n) = 4" by (simp add: show_hex4_def)
  ultimately have "read_number 10 (Some 3) False (2 ^ 8) (show_hex4 n @ s) = None"
    by (simp add: read_number_def)
  then show ?thesis by (simp add: four_octets)
next
  case False
  then have "dropWhile (is_digit 10) (show_hex4 n @ s) = dropWhile (is_digit 10) (show_hex4 n) @ s"
    and d: "dropWhile (is_digit 10) (show_hex4 n) \<noteq> []"
    by (auto simp: list_all_iff dropWhile_append)
  moreover from d have "hd (dropWhile (is_digit 10) (show_hex4 n)) \<in> set (show_hex4 n)"
    using set_dropWhileD hd_in_set by metis
  then have "is_digit 16 (hd (dropWhile (is_digit 10) (show_hex4 n)))"
    using show_hex4_digits [of n] unfolding list_all_iff by (rule bspec [rotated])
  then have "hd (dropWhile (is_digit 10) (show_hex4 n)) \<noteq> CHR ''.''"
    using dot_no_digit by metis
  ultimately have none: "read_given_char CHR ''.'' (dropWhile (is_digit 10) (show_hex4 n @ s)) = None"
    by (cases "dropWhile (is_digit 10) (show_hex4 n)") (auto simp: read_given_char_def)
  have "read_octets 1 3 t = None" if "read_given_char CHR ''.'' t = None" for t
    using that read_octets.simps(2) [of 1 2 t] by (simp add: read_separator_def)
  moreover have "t = dropWhile (is_digit 10) (show_hex4 n @ s)"
    if "read_number 10 (Some 3) False (2 ^ 8) (show_hex4 n @ s) = Some (x, t)" for x t
    using that by (simp add: read_number_def Let_def split: if_splits)
  ultimately show ?thesis
    using none four_octets [of "show_hex4 n @ s"]
    by (cases "read_number 10 (Some 3) False (2 ^ 8) (show_hex4 n @ s)") auto
qed

abbreviation show_groups :: "u16 list \<Rightarrow> string" where
  "show_groups gs \<equiv> concat (map (\<lambda>g. '':'' @ show_hex4 (unat g)) gs)"

lemma stops_groups: "stops 16 s \<Longrightarrow> stops 16 (show_groups gs @ s)"
  by (cases gs) (simp_all add: stops_punctuation)

lemma read_group:
  fixes g :: u16
  assumes "stops 16 s"
  shows "read_number 16 (Some 4) True (2 ^ 16) (show_hex4 (unat g) @ show_groups gs @ s) = Some (unat g, show_groups gs @ s)"
proof (rule read_hex4 [OF stops_groups [OF assms]])
  show "unat g < 2 ^ 16" using unsigned_less [of g] by simp
qed

lemma read_more_groups:
  assumes "stops 16 s"
  shows "0 < index \<Longrightarrow> read_groups index (length gs) (show_groups gs @ s) = (map unat gs, False, s)"
proof (induction gs arbitrary: index)
  case (Cons g gs)
  then show ?case
    using hex4_not_ipv4 [of "unat g" "show_groups gs @ s"] read_group [OF assms, of g gs]
    by (cases "gs = []") (simp_all add: read_separator_def read_given_char_def)
qed simp

lemma read_ipv6_shown:
  assumes "stops 16 s" and "length gs = 8"
  shows "read_ipv6_addr (show_hex4 (unat (hd gs)) @ show_groups (tl gs) @ s) = Some (map unat gs, s)"
proof -
  obtain g rest where gs: "gs = g # rest" "length rest = 7" using assms(2) by (cases gs) auto
  have "read_groups 0 8 (show_hex4 (unat g) @ show_groups rest @ s) = (map unat gs, False, s)"
    using read_group [OF assms(1), of g rest] hex4_not_ipv4 [of "unat g" "show_groups rest @ s"]
      read_more_groups [OF assms(1), of "Suc 0" rest] gs
      read_groups.simps(2) [of 0 7 "show_hex4 (unat g) @ show_groups rest @ s"]
    by (simp add: read_separator_def read_given_char_def)
  then show ?thesis using gs by (simp add: read_ipv6_addr_def)
qed

lemma parse_shown_v6:
  assumes "length gs = 8"
  shows "parse_socket_addr (show_socket_addr (V6 gs scope_id port)) = Some (V6 gs scope_id port)"
proof -
  let ?s = "show_socket_addr (V6 gs scope_id port)"
  let ?tail = "'']:'' @ show_nat (unat port)"
  have "\<not> is_digit 10 (CHR ''['')" by (simp add: digit_value_def of_char_def)
  then have "read_socket_addr_v4 ?s = None"
    by (simp add: read_socket_addr_v4_def four_octets read_number_def)
  moreover have "read_scope_id (''%'' @ show_nat (unat scope_id) @ ?tail) = Some (unat scope_id, ?tail)"
    using read_shown [of ?tail "unat scope_id" "2 ^ 32" None True] unsigned_less [of scope_id]
    by (simp add: read_scope_id_def read_given_char_def stops_punctuation)
  moreover have "read_ipv6_addr (show_hex4 (unat (hd gs)) @ show_groups (tl gs) @ ''%'' @ show_nat (unat scope_id) @ ?tail)
      = Some (map unat gs, ''%'' @ show_nat (unat scope_id) @ ?tail)"
    by (rule read_ipv6_shown) (simp_all add: assms stops_punctuation)
  ultimately show ?thesis
    by (simp add: parse_socket_addr_def read_socket_addr_v6_def read_given_char_def read_port_shown comp_def)
qed

lemma parse_shown: "addr_ok addr \<Longrightarrow> parse_socket_addr (show_socket_addr addr) = Some addr"
  by (cases addr) (simp_all add: parse_shown_v4 parse_shown_v6 del: show_socket_addr.simps)

lemma length_read_groups: "length (fst (read_groups index left s)) \<le> left"
  by (induction index left s rule: read_groups.induct) (auto split: option.splits prod.splits)

lemma parsed_addr_ok:
  assumes "parse_socket_addr s = Some addr"
  shows "addr_ok addr"
proof -
  have "length ip = 8" if ip: "read_ipv6_addr t = Some (ip, rest)" for t ip rest
  proof -
    obtain head v4 s1 where 1: "read_groups 0 8 t = (head, v4, s1)" using prod_cases3 by blast
    show ?thesis
    proof (cases "length head = 8")
      case True
      with ip 1 show ?thesis by (simp add: read_ipv6_addr_def)
    next
      case False
      then have "length head < 8" using length_read_groups [of 0 8 t] 1 by simp
      moreover from False ip 1 obtain s3 tail b where
        "read_groups 0 (7 - length head) s3 = (tail, b, rest)"
        "ip = head @ replicate (8 - length head - length tail) 0 @ tail"
        by (auto simp: read_ipv6_addr_def Let_def split: prod.splits if_splits bind_splits)
      ultimately show ?thesis using length_read_groups [of 0 "7 - length head" s3] by simp
    qed
  qed
  with assms show ?thesis
    by (auto simp: parse_socket_addr_def read_socket_addr_v4_def read_socket_addr_v6_def Let_def
        split: option.splits list.splits prod.splits bind_splits)
qed

section \<open>The configurations that an environment can give\<close>

definition i64 :: "int \<Rightarrow> bool" where
  "i64 x \<longleftrightarrow> - (2 ^ 63) \<le> x \<and> x < 2 ^ 63"

definition given :: "string option \<Rightarrow> bool" where
  "given t \<longleftrightarrow> (case t of None \<Rightarrow> True | Some s \<Rightarrow> trim s \<noteq> [])"

definition config_ok :: "config \<Rightarrow> bool" where
  "config_ok c \<longleftrightarrow> addr_ok (cf_bind_addr c) \<and> addr_ok (cf_http_api_bind_addr c)
     \<and> trim (cf_log_filter c) \<noteq> [] \<and> cf_read_buffer_capacity c < 2 ^ 64 \<and> given (cf_database_url c)
     \<and> cf_database_max_connections c < 2 ^ 32 \<and> cf_database_write_timeout_ms c < 2 ^ 64
     \<and> given (cf_telegram_bot_token c) \<and> pred_option i64 (cf_telegram_admin_chat_id c)
     \<and> cf_telegram_poll_timeout_secs c < 2 ^ 64 \<and> cf_telegram_heartbeat_poll_interval_ms c < 2 ^ 64
     \<and> given (cf_midtrans_server_key c) \<and> given (cf_midtrans_client_key c) \<and> given (cf_midtrans_merchant_id c)
     \<and> i64 (cf_midtrans_payment_expiry_hours c) \<and> i64 (cf_midtrans_basic_plan_price_idr c)
     \<and> i64 (cf_midtrans_ojol_plan_price_idr c)"

lemma setting_range: "(\<And>s x. parse s = Some x \<Longrightarrow> P x) \<Longrightarrow> P d \<Longrightarrow> P (setting parse v d)"
  by (auto simp: setting_def split: option.split bind_split)

lemma parsed_unsigned: "parse_unsigned bound s = Some n \<Longrightarrow> n < bound"
  by (auto simp: parse_unsigned_def Let_def split: if_splits option.splits)

lemma parsed_i64: "parse_i64 s = Some x \<Longrightarrow> i64 x"
  by (auto simp: parse_i64_def i64_def Let_def split: if_splits option.splits prod.splits)

lemma parsed_text: "nonblank s = Some x \<Longrightarrow> trim x \<noteq> []"
  by (auto simp: nonblank_def split: if_splits)

lemma parsed_given: "(map_option Some \<circ> nonblank) s = Some x \<Longrightarrow> given x"
  by (auto simp: nonblank_def given_def split: if_splits)

lemma parsed_chat: "(map_option Some \<circ> parse_i64) s = Some x \<Longrightarrow> pred_option i64 x"
  using parsed_i64 by auto

lemma default_addresses:
  "parse_socket_addr ''0.0.0.0:5000'' = Some (V4 0 0 0 0 5000)"
  "parse_socket_addr ''0.0.0.0:8080'' = Some (V4 0 0 0 0 8080)"
proof -
  have "show_nat 0 = ''0''" "show_nat 5000 = ''5000''" "show_nat 8080 = ''8080''"
  proof -
    have "digit_char 0 = CHR ''0''" "digit_char 5 = CHR ''5''" "digit_char 8 = CHR ''8''" by code_simp+
    then show "show_nat 0 = ''0''" "show_nat 5000 = ''5000''" "show_nat 8080 = ''8080''"
      by (simp_all add: show_nat.simps)
  qed
  then show "parse_socket_addr ''0.0.0.0:5000'' = Some (V4 0 0 0 0 5000)"
    "parse_socket_addr ''0.0.0.0:8080'' = Some (V4 0 0 0 0 8080)"
    using parse_shown_v4 [of 0 0 0 0 5000] parse_shown_v4 [of 0 0 0 0 8080] by simp_all
qed

lemmas setting_ok =
  setting_range [where P = addr_ok, OF parsed_addr_ok]
  setting_range [where P = "\<lambda>n. n < bound" and parse = "parse_unsigned bound" for bound, OF parsed_unsigned]
  setting_range [where P = i64, OF parsed_i64]
  setting_range [where P = "\<lambda>t. trim t \<noteq> []", OF parsed_text]
  setting_range [where P = given, OF parsed_given]
  setting_range [where P = "pred_option i64", OF parsed_chat]

lemma default_ok: "config_ok default_config"
proof -
  have "trim ''info'' \<noteq> []" by code_simp
  then show ?thesis
    by (simp add: config_ok_def default_config_def default_addresses given_def i64_def)
qed

lemma from_pairs_ok: "config_ok (from_pairs environment)"
  using default_ok unfolding config_ok_def from_pairs_def Let_def config.select_convs
  by (intro conjI setting_ok) blast+

lemma parse_unsigned_show: "n < bound \<Longrightarrow> parse_unsigned bound (show_nat n) = Some n"
proof -
  have "take 1 (show_nat n) \<noteq> ''+''" by (rule take_1_show_nat) (simp add: of_char_def)
  then show "n < bound \<Longrightarrow> parse_unsigned bound (show_nat n) = Some n" by (simp add: parse_unsigned_def)
qed

definition variables :: "config \<Rightarrow> (string \<times> string option) list" where
  "variables c =
     [(''GT06_BIND_ADDR'', Some (show_socket_addr (cf_bind_addr c))),
      (''HTTP_API_BIND_ADDR'', Some (show_socket_addr (cf_http_api_bind_addr c))),
      (''RUST_LOG'', Some (cf_log_filter c)),
      (''GT06_READ_BUFFER_CAPACITY'', Some (show_nat (cf_read_buffer_capacity c))),
      (''DATABASE_URL'', cf_database_url c),
      (''DATABASE_MAX_CONNECTIONS'', Some (show_nat (cf_database_max_connections c))),
      (''DATABASE_WRITE_TIMEOUT_MS'', Some (show_nat (cf_database_write_timeout_ms c))),
      (''TELEGRAM_BOT_TOKEN'', cf_telegram_bot_token c),
      (''TELEGRAM_ADMIN_CHAT_ID'', map_option show_int (cf_telegram_admin_chat_id c)),
      (''TELEGRAM_POLL_TIMEOUT_SECS'', Some (show_nat (cf_telegram_poll_timeout_secs c))),
      (''TELEGRAM_HEARTBEAT_POLL_INTERVAL_MS'', Some (show_nat (cf_telegram_heartbeat_poll_interval_ms c))),
      (''MIDTRANS_SERVER_KEY'', cf_midtrans_server_key c), (''MIDTRANS_CLIENT_KEY'', cf_midtrans_client_key c),
      (''MIDTRANS_MERCHANT_ID'', cf_midtrans_merchant_id c),
      (''MIDTRANS_IS_PRODUCTION'', Some (if cf_midtrans_is_production c then ''true'' else ''false'')),
      (''MIDTRANS_PAYMENT_EXPIRY_HOURS'', Some (show_int (cf_midtrans_payment_expiry_hours c))),
      (''MIDTRANS_BASIC_PLAN_PRICE_IDR'', Some (show_int (cf_midtrans_basic_plan_price_idr c))),
      (''MIDTRANS_OJOL_PLAN_PRICE_IDR'', Some (show_int (cf_midtrans_ojol_plan_price_idr c)))]"

lemma finite_environment: "finite (dom m) \<Longrightarrow> \<exists>environment. map_of (rev environment) = m"
proof (induction rule: finite_Map_induct)
  case empty
  show ?case by (rule exI [of _ "[]"]) simp
next
  case (update k v m)
  then obtain environment where "map_of (rev environment) = m" by blast
  then show ?case by (intro exI [of _ "environment @ [(k, v)]"]) simp
qed

lemma variables_finite: "\<exists>environment. map_of (rev environment) = (\<lambda>k. Option.bind (map_of (variables c) k) (\<lambda>v. v))"
  by (rule finite_environment, rule finite_subset [OF _ finite_dom_map_of [of "variables c"]])
     (auto split: bind_splits)

lemma read_back:
  "addr_ok a \<Longrightarrow> setting parse_socket_addr (Some (show_socket_addr a)) d1 = a"
  "trim t \<noteq> [] \<Longrightarrow> setting nonblank (Some t) d2 = t"
  "n < bound \<Longrightarrow> setting (parse_unsigned bound) (Some (show_nat n)) d3 = n"
  "i64 x \<Longrightarrow> setting parse_i64 (Some (show_int x)) d4 = x"
  "given u \<Longrightarrow> setting (map_option Some \<circ> nonblank) u None = u"
  "pred_option i64 y \<Longrightarrow> setting (map_option Some \<circ> parse_i64) (map_option show_int y) None = y"
  "setting (Some \<circ> is_yes) (Some (if b then ''true'' else ''false'')) d5 = b"
proof -
  have "trim ''true'' = ''true''" "trim ''false'' = ''false''" by (simp_all add: trim_def white_def)
  then have "is_yes ''true''" "\<not> is_yes ''false''" by (simp_all add: is_yes_def ascii_lower_def of_char_def)
  then show "setting (Some \<circ> is_yes) (Some (if b then ''true'' else ''false'')) d5 = b"
    by (simp add: setting_def)
  show "pred_option i64 y \<Longrightarrow> setting (map_option Some \<circ> parse_i64) (map_option show_int y) None = y"
    by (cases y) (simp_all add: setting_def i64_def parse_i64_show_int)
  show "given u \<Longrightarrow> setting (map_option Some \<circ> nonblank) u None = u"
    by (cases u) (simp_all add: setting_def nonblank_def given_def)
qed (auto simp: setting_def parse_shown nonblank_def parse_unsigned_show i64_def parse_i64_show_int)

text \<open>
  C38. Whatever the environment holds, every program gets a well-formed configuration: valid addresses,
  numbers in the range of their types, and keys and texts that are never blank; and exactly the
  well-formed configurations can be set.
\<close>

theorem config_well_typed:
  "config_ok c \<longleftrightarrow> (\<exists>environment. from_pairs environment = c)"
proof
  assume c: "config_ok c"
  obtain environment where vars: "map_of (rev environment) = (\<lambda>k. Option.bind (map_of (variables c) k) (\<lambda>v. v))"
    using variables_finite by blast
  have "from_pairs environment = c"
    unfolding from_pairs_def vars Let_def
    by (intro config.equality; unfold config.select_convs) (simp_all add: c [unfolded config_ok_def, simplified] variables_def default_config_def read_back)
  then show "\<exists>environment. from_pairs environment = c" ..
qed (use from_pairs_ok in blast)

end
