(* ===== verification/Frames.thy ===== *)
theory Frames
  imports Prelude
begin

text \<open>
  The framing layer of \<open>src/protocol.rs\<close>: the CRC-16/X25 checksum, the acknowledgement
  encoder and the frame decoder \<open>FrameDecoder::next_frame\<close>. A \<open>BytesMut\<close> is a list of
  bytes, \<open>advance n\<close> is \<open>drop n\<close> and \<open>split_to n\<close> is \<open>take n\<close> with the rest kept.
\<close>

section \<open>Constants and data\<close>

definition START_BYTES :: "u8 list" where
  "START_BYTES = [0x78, 0x78]"

definition STOP_BYTES :: "u8 list" where
  "STOP_BYTES = [0x0D, 0x0A]"

definition PROTOCOL_LOGIN :: u8 where "PROTOCOL_LOGIN = 0x01"
definition PROTOCOL_LOCATION :: u8 where "PROTOCOL_LOCATION = 0x12"
definition PROTOCOL_HEARTBEAT :: u8 where "PROTOCOL_HEARTBEAT = 0x13"
definition PROTOCOL_EXTENDED_LOCATION :: u8 where "PROTOCOL_EXTENDED_LOCATION = 0x22"

record frame =
  protocol_number :: u8
  payload :: "u8 list"
  serial :: u16

datatype protocol_error =
    InvalidLength nat
  | InvalidStopBytes
  | ChecksumMismatch
  | InvalidPayload u8 string

section \<open>Checksum\<close>

definition crc_bit :: "u16 \<Rightarrow> u16" where
  "crc_bit crc = (if crc AND 1 \<noteq> 0 then drop_bit 1 crc XOR 0x8408 else drop_bit 1 crc)"

definition crc_byte :: "u16 \<Rightarrow> u8 \<Rightarrow> u16" where
  "crc_byte crc byte = (crc_bit ^^ 8) (crc XOR ucast byte)"

definition crc16_x25 :: "u8 list \<Rightarrow> u16" where
  "crc16_x25 data = NOT (foldl crc_byte 0xFFFF data)"

section \<open>Encoding\<close>

definition encode_ack :: "u8 \<Rightarrow> u16 \<Rightarrow> u8 list" where
  "encode_ack proto ser =
     (let bytes = START_BYTES @ [0x05] @ [proto] @ to_be16 ser;
          crc = crc16_x25 (drop 2 bytes)
      in bytes @ to_be16 crc @ STOP_BYTES)"

text \<open>The frame builder of the repository's tests: the encoding a tracker produces.\<close>

definition build_frame :: "u8 \<Rightarrow> u8 list \<Rightarrow> u16 \<Rightarrow> u8 list" where
  "build_frame proto pl ser =
     (let len = length pl + 5;
          bytes = [0x78, 0x78, word_of_nat len, proto] @ pl @ to_be16 ser;
          crc = crc16_x25 (drop 2 bytes)
      in bytes @ to_be16 crc @ [0x0D, 0x0A])"

section \<open>Decoding\<close>

text \<open>
  \<open>frame_at\<close> is the body of the decoder's loop once the buffer starts with the start
  bytes; \<open>next_frame\<close> is the loop, which drops a byte while it does not.
\<close>

definition frame_at :: "u8 list \<Rightarrow> (protocol_error + frame option) \<times> u8 list" where
  "frame_at buffer =
     (if length buffer < 5 then (Inr None, buffer)
      else let len = unat (buffer ! 2) in
      if len < 5 then (Inl (InvalidLength len), drop 1 buffer)
      else let total_frame_len = len + 5 in
      if length buffer < total_frame_len then (Inr None, buffer)
      else if take 2 (drop (total_frame_len - 2) buffer) \<noteq> STOP_BYTES
      then (Inl InvalidStopBytes, drop 1 buffer)
      else let crc_index = total_frame_len - 4;
               calculated_crc = crc16_x25 (take (crc_index - 2) (drop 2 buffer));
               reported_crc = be16 (buffer ! crc_index) (buffer ! (crc_index + 1)) in
      if calculated_crc \<noteq> reported_crc then (Inl ChecksumMismatch, drop 1 buffer)
      else let frame_bytes = take total_frame_len buffer;
               payload_len = len - 5;
               payload_end = 4 + payload_len in
        (Inr (Some \<lparr>protocol_number = frame_bytes ! 3,
                    payload = take payload_len (drop 4 frame_bytes),
                    serial = be16 (frame_bytes ! payload_end) (frame_bytes ! (payload_end + 1))\<rparr>),
         drop total_frame_len buffer))"

function next_frame :: "u8 list \<Rightarrow> (protocol_error + frame option) \<times> u8 list" where
  "next_frame buffer =
     (if length buffer < 2 then (Inr None, buffer)
      else if take 2 buffer \<noteq> START_BYTES then next_frame (drop 1 buffer)
      else frame_at buffer)"
  by pat_completeness auto
termination
  by (relation "measure length") auto

declare next_frame.simps [simp del]

section \<open>The checksum detects every one-byte corruption\<close>

lemma crc_bit_odd: "crc_bit c = (if odd c then drop_bit 1 c XOR 0x8408 else drop_bit 1 c)"
  by (simp add: crc_bit_def and_one_eq mod_2_eq_odd)

lemma crc_bit_top: "bit (crc_bit c) 15 = odd c"
  using bit_imp_le_length [of c 16] by (auto simp: crc_bit_odd bit_simps)

lemma crc_bit_inj: "inj crc_bit"
proof (rule injI)
  fix x y :: u16
  assume eq: "crc_bit x = crc_bit y"
  then have odd: "odd x = odd y" using crc_bit_top by metis
  with eq have "drop_bit 1 x = drop_bit 1 y"
    by (auto simp: crc_bit_odd dest: arg_cong [where f = "\<lambda>w. w XOR 0x8408"] simp: xor.assoc)
  then have div: "bit x (Suc n) = bit y (Suc n)" for n
    by (metis bit_drop_bit_eq comp_apply plus_1_eq_Suc)
  show "x = y"
  proof (rule bit_word_eqI)
    fix n
    show "bit x n = bit y n" using odd div by (cases n) (auto simp: bit_0)
  qed
qed

lemma crc_byte_eq_iff: "crc_byte c a = crc_byte d b \<longleftrightarrow> c XOR ucast a = d XOR ucast b"
  unfolding crc_byte_def
  by (rule inj_eq) (rule inj_fn [OF crc_bit_inj])

lemma xor_right_cancel: "c XOR x = d XOR x \<longleftrightarrow> c = (d :: 'a::len word)"
proof
  assume "c XOR x = d XOR x"
  then have "(c XOR x) XOR x = (d XOR x) XOR x" by simp
  then show "c = d" by (simp add: xor.assoc)
qed simp

lemma xor_left_cancel: "x XOR c = x XOR d \<longleftrightarrow> c = (d :: 'a::len word)"
  using xor_right_cancel [of c x d] by (metis xor.commute)

lemma crc_byte_state_inj: "crc_byte c a = crc_byte d a \<longleftrightarrow> c = d"
  by (simp add: crc_byte_eq_iff xor_right_cancel)

lemma ucast_u8_u16_inj: "(ucast (a :: u8) :: u16) = ucast b \<longleftrightarrow> a = b"
proof
  assume eq: "(ucast a :: u16) = ucast b"
  have "bit (ucast a :: u16) n = bit (ucast b :: u16) n" for n by (simp only: eq)
  then have "bit a n = bit b n" if "n < 8" for n using that by (force simp: bit_simps)
  then show "a = b" by (intro bit_word_eqI) simp
qed (simp only:)

lemma crc_byte_data_inj: "crc_byte c a = crc_byte c b \<longleftrightarrow> a = b"
  by (simp add: crc_byte_eq_iff xor_left_cancel ucast_u8_u16_inj)

lemma crc_fold_state_inj: "foldl crc_byte c ys = foldl crc_byte d ys \<longleftrightarrow> c = d"
  by (induction ys arbitrary: c d) (auto simp: crc_byte_state_inj)

lemma crc16_one_byte:
  assumes "a \<noteq> b"
  shows "crc16_x25 (xs @ a # ys) \<noteq> crc16_x25 (xs @ b # ys)"
  using assms by (simp add: crc16_x25_def crc_fold_state_inj crc_byte_data_inj)

section \<open>What the decoder consumes\<close>

text \<open>
  A call drops garbage in front (\<open>skipped\<close>) and then either keeps the rest (it waits), drops
  exactly one more byte (an error) or takes one whole frame.
\<close>

lemma frame_at_None: "frame_at b = (Inr None, b') \<Longrightarrow> b' = b"
  by (auto simp: frame_at_def Let_def split: if_splits)

lemma frame_at_error: "frame_at b = (Inl e, b') \<Longrightarrow> b' = drop 1 b \<and> 5 \<le> length b"
  by (auto simp: frame_at_def Let_def split: if_splits)

lemma frame_at_Some:
  "frame_at b = (Inr (Some f), b') \<Longrightarrow> \<exists>n. b' = drop n b \<and> 10 \<le> n \<and> n \<le> length b"
  by (auto simp: frame_at_def Let_def split: if_splits)

lemma frame_at_cases [case_names wait error frame]:
  obtains "frame_at b = (Inr None, b)"
  | e where "frame_at b = (Inl e, drop 1 b)" "5 \<le> length b"
  | f n where "frame_at b = (Inr (Some f), drop n b)" "10 \<le> n" "n \<le> length b"
proof (cases "frame_at b")
  case (Pair r b')
  show thesis
  proof (cases r)
    case (Inl e)
    with Pair frame_at_error [of b e b'] that(2) show thesis by simp
  next
    case (Inr m)
    with Pair frame_at_None [of b b'] frame_at_Some [of b _ b'] that(1,3) show thesis
      by (cases m) force+
  qed
qed

lemma next_frame_short: "length b < 2 \<Longrightarrow> next_frame b = (Inr None, b)"
  by (simp add: next_frame.simps)

lemma next_frame_synced:
  "2 \<le> length b \<Longrightarrow> take 2 b = START_BYTES \<Longrightarrow> next_frame b = frame_at b"
  by (simp add: next_frame.simps)

lemma next_frame_skip:
  "2 \<le> length b \<Longrightarrow> take 2 b \<noteq> START_BYTES \<Longrightarrow> next_frame b = next_frame (drop 1 b)"
  by (subst next_frame.simps) simp

lemmas next_frame_steps = next_frame_short next_frame_synced next_frame_skip

lemma next_frame_suffix: "\<exists>n \<le> length b. snd (next_frame b) = drop n b"
proof (induction b rule: next_frame.induct)
  case (1 b)
  consider "length b < 2" | "2 \<le> length b" "take 2 b \<noteq> START_BYTES"
    | "2 \<le> length b" "take 2 b = START_BYTES" by linarith
  then show ?case
  proof cases
    case 2
    with 1 obtain n where "n \<le> length (drop 1 b)" "snd (next_frame (drop 1 b)) = drop n (drop 1 b)"
      by auto
    with 2 show ?thesis by (intro exI [of _ "Suc n"]) (auto simp: next_frame_skip)
  next
    case 3
    then show ?thesis
      by (cases b rule: frame_at_cases)
        (auto simp: next_frame_synced intro: exI [of _ 0] exI [of _ "Suc 0"])
  qed (auto simp: next_frame_short)
qed

lemma next_frame_error_shrinks: "next_frame b = (Inl e, b') \<Longrightarrow> length b' < length b"
proof (induction b rule: next_frame.induct)
  case (1 b)
  then show ?case
    by (cases "length b < 2"; cases "take 2 b = START_BYTES")
      (force simp: next_frame_steps dest: frame_at_error)+
qed

lemma next_frame_Some_shrinks: "next_frame b = (Inr (Some f), b') \<Longrightarrow> length b' + 10 \<le> length b"
proof (induction b rule: next_frame.induct)
  case (1 b)
  then show ?case
    by (cases "length b < 2"; cases "take 2 b = START_BYTES")
      (force simp: next_frame_steps dest: frame_at_Some)+
qed

section \<open>The shape of a frame\<close>

text \<open>
  Every buffer long enough for a declared length splits into the ten framing bytes and the
  payload; on such a buffer the decoder is a two-way decision.
\<close>

lemma frame_shape:
  assumes "n + 10 \<le> length b"
  obtains a0 a1 l q pl s1 s2 c1 c2 t1 t2 rest
  where "b = a0 # a1 # l # q # pl @ s1 # s2 # c1 # c2 # t1 # t2 # rest" and "length pl = n"
proof -
  obtain a0 a1 l q ys where b: "b = a0 # a1 # l # q # ys"
    using assms by (auto simp: Suc_le_length_iff numeral_eq_Suc)
  define zs where "zs = drop n ys"
  then have "6 \<le> length zs" using assms b by simp
  then obtain s1 s2 c1 c2 t1 t2 rest where "zs = s1 # s2 # c1 # c2 # t1 # t2 # rest"
    by (auto simp: Suc_le_length_iff numeral_eq_Suc)
  then have "drop n ys = s1 # s2 # c1 # c2 # t1 # t2 # rest" by (simp add: zs_def)
  then have "ys = take n ys @ s1 # s2 # c1 # c2 # t1 # t2 # rest" by (metis append_take_drop_id)
  moreover have "length (take n ys) = n" using assms b by simp
  ultimately show thesis using that b by blast
qed

lemma frame_at_shape:
  assumes "length pl = n" and "unat l = n + 5"
  shows "frame_at (a0 # a1 # l # q # pl @ s1 # s2 # c1 # c2 # t1 # t2 # rest) =
    (if [t1, t2] \<noteq> STOP_BYTES
     then (Inl InvalidStopBytes, a1 # l # q # pl @ s1 # s2 # c1 # c2 # t1 # t2 # rest)
     else if crc16_x25 (l # q # pl @ [s1, s2]) \<noteq> be16 c1 c2
     then (Inl ChecksumMismatch, a1 # l # q # pl @ s1 # s2 # c1 # c2 # t1 # t2 # rest)
     else (Inr (Some \<lparr>protocol_number = q, payload = pl, serial = be16 s1 s2\<rparr>), rest))"
  using assms by (auto simp: frame_at_def Let_def nth_append eval_nat_numeral)

lemma frame_at_append:
  assumes "fst (frame_at b) \<noteq> Inr None"
  shows "frame_at (b @ c) = (fst (frame_at b), snd (frame_at b) @ c)"
proof -
  have five: "5 \<le> length b" using assms by (auto simp: frame_at_def split: if_splits)
  show ?thesis
  proof (cases "unat (b ! 2) < 5")
    case True
    with five show ?thesis by (auto simp: frame_at_def Let_def nth_append)
  next
    case False
    then obtain n where n: "unat (b ! 2) = n + 5" by (metis add.commute le_Suc_ex not_less)
    have "n + 10 \<le> length b"
      using assms five n by (auto simp: frame_at_def Let_def split: if_splits)
    then obtain a0 a1 l q pl s1 s2 c1 c2 t1 t2 rest where
      b: "b = a0 # a1 # l # q # pl @ s1 # s2 # c1 # c2 # t1 # t2 # rest" "length pl = n"
      by (rule frame_shape)
    with n have "unat l = n + 5" by (simp add: eval_nat_numeral)
    with b show ?thesis by (simp add: frame_at_shape)
  qed
qed

lemma next_frame_append:
  "fst (next_frame b) \<noteq> Inr None \<Longrightarrow>
   next_frame (b @ c) = (fst (next_frame b), snd (next_frame b) @ c)"
proof (induction b rule: next_frame.induct)
  case (1 b)
  from "1.prems" have two: "2 \<le> length b" by (cases "length b < 2") (auto simp: next_frame_short)
  then have hd: "take 2 (b @ c) = take 2 b" by simp
  show ?case
  proof (cases "take 2 b = START_BYTES")
    case True
    with two hd "1.prems" show ?thesis by (simp add: next_frame_synced frame_at_append)
  next
    case False
    with two "1.prems" have "fst (next_frame (drop 1 b)) \<noteq> Inr None" by (simp add: next_frame_skip)
    with "1.IH" two False have "next_frame (drop 1 b @ c) =
        (fst (next_frame (drop 1 b)), snd (next_frame (drop 1 b)) @ c)" by simp
    with two hd False show ?thesis by (simp add: next_frame_skip)
  qed
qed

lemma next_frame_wait_append:
  "next_frame b = (Inr None, b') \<Longrightarrow> next_frame (b @ c) = next_frame (b' @ c)"
proof (induction b rule: next_frame.induct)
  case (1 b)
  consider "length b < 2" | "2 \<le> length b" "take 2 b \<noteq> START_BYTES"
    | "2 \<le> length b" "take 2 b = START_BYTES" by linarith
  then show ?case
  proof cases
    case 2
    with 1 have "next_frame (drop 1 b @ c) = next_frame (b' @ c)" by (simp add: next_frame_skip)
    with 2 show ?thesis by (simp add: next_frame_skip)
  next
    case 3
    with "1.prems" have "b' = b" by (auto simp: next_frame_synced dest: frame_at_None)
    then show ?thesis by simp
  qed (use "1.prems" in \<open>auto simp: next_frame_short\<close>)
qed

section \<open>The decoder accepts exactly the encoder's frames\<close>

lemma start_prefix: "2 \<le> length b \<Longrightarrow> take 2 b = START_BYTES \<Longrightarrow> \<exists>ys. b = 0x78 # 0x78 # ys"
  by (auto simp: START_BYTES_def Suc_le_length_iff numeral_2_eq_2)

lemma be16_split: "be16 x y = w \<longleftrightarrow> [x, y] = to_be16 w"
proof
  assume "be16 x y = w"
  then have w: "w = push_bit 8 (ucast x) OR ucast y" by (simp add: be16_def)
  have "ucast (drop_bit 8 w) = x" "ucast w = y"
    unfolding w by (rule bit_word_eqI; auto simp: bit_simps dest: bit_imp_le_length)+
  then show "[x, y] = to_be16 w" by (simp add: to_be16_def)
qed (auto simp: to_be16_def)

lemma build_frame_unfold:
  "build_frame proto pl ser =
     0x78 # 0x78 # word_of_nat (length pl + 5) # proto # pl @ to_be16 ser
       @ to_be16 (crc16_x25 (word_of_nat (length pl + 5) # proto # pl @ to_be16 ser)) @ [0x0D, 0x0A]"
  by (simp add: build_frame_def)

lemma length_build_frame [simp]: "length (build_frame proto pl ser) = length pl + 10"
  by (simp add: build_frame_unfold)

lemma unat_u8_of_nat: "n < 256 \<Longrightarrow> unat (word_of_nat n :: u8) = n"
  by (simp add: unat_of_nat)

lemma frame_at_build_frame:
  assumes "length pl \<le> 250"
  shows "frame_at (build_frame proto pl ser @ rest) =
    (Inr (Some \<lparr>protocol_number = proto, payload = pl, serial = ser\<rparr>), rest)"
proof -
  define l where "l = (word_of_nat (length pl + 5) :: u8)"
  have l: "unat l = length pl + 5" unfolding l_def using assms by (intro unat_u8_of_nat) simp
  have "build_frame proto pl ser = 0x78 # 0x78 # l # proto # pl @ to_be16 ser
       @ to_be16 (crc16_x25 (l # proto # pl @ to_be16 ser)) @ [0x0D, 0x0A]"
    unfolding l_def by (rule build_frame_unfold)
  then show ?thesis
    using frame_at_shape [OF refl l] by (simp add: to_be16_def STOP_BYTES_def)
qed

lemma word_of_nat_unat: "word_of_nat (unat l) = (l :: u8)"
  by simp

lemma frame_at_sound:
  assumes "frame_at b = (Inr (Some f), rest)" and "take 2 b = START_BYTES"
  shows "b = build_frame (protocol_number f) (payload f) (serial f) @ rest
    \<and> length (payload f) \<le> 250"
proof -
  have five: "5 \<le> length b" using assms(1) by (auto simp: frame_at_def split: if_splits)
  have "\<not> unat (b ! 2) < 5" using assms(1) five by (auto simp: frame_at_def)
  then obtain n where n: "unat (b ! 2) = n + 5" by (metis add.commute le_Suc_ex not_less)
  have "n + 10 \<le> length b"
    using assms(1) five n by (auto simp: frame_at_def Let_def split: if_splits)
  then obtain a0 a1 l q pl s1 s2 c1 c2 t1 t2 r where
    b: "b = a0 # a1 # l # q # pl @ s1 # s2 # c1 # c2 # t1 # t2 # r" and len: "length pl = n"
    by (rule frame_shape)
  with n have l: "unat l = n + 5" by (simp add: eval_nat_numeral)
  have st: "[t1, t2] = STOP_BYTES" and crc: "be16 c1 c2 = crc16_x25 (l # q # pl @ [s1, s2])"
    and f: "f = \<lparr>protocol_number = q, payload = pl, serial = be16 s1 s2\<rparr>" and r: "r = rest"
    using assms(1) b len l by (auto simp: frame_at_shape split: if_splits)
  have "a0 = 0x78" "a1 = 0x78" using assms(2) b by (auto simp: START_BYTES_def)
  moreover have lw: "l = word_of_nat (length pl + 5)" using word_of_nat_unat l len by metis
  moreover have "to_be16 (be16 s1 s2) = [s1, s2]" "to_be16 (be16 c1 c2) = [c1, c2]"
    using be16_split by metis+
  ultimately have "b = build_frame q pl (be16 s1 s2) @ rest"
    using b st crc r by (simp add: build_frame_unfold STOP_BYTES_def)
  moreover have "unat l < 256" using unsigned_less [of l, where 'a = nat] by simp
  then have "length pl \<le> 250" using l len by simp
  ultimately show ?thesis by (simp add: f)
qed


lemma next_frame_encoded:
  assumes "length pl \<le> 250"
  shows "next_frame (build_frame proto pl ser @ rest) =
    (Inr (Some \<lparr>protocol_number = proto, payload = pl, serial = ser\<rparr>), rest)"
proof -
  have "take 2 (build_frame proto pl ser @ rest) = START_BYTES"
    by (simp add: build_frame_unfold START_BYTES_def)
  with assms show ?thesis by (simp add: next_frame_synced frame_at_build_frame)
qed

lemma next_frame_not_start: "x \<noteq> 0x78 \<Longrightarrow> b \<noteq> [] \<Longrightarrow> next_frame (x # b) = next_frame b"
  by (subst next_frame_skip) (auto simp: START_BYTES_def Suc_le_eq neq_Nil_conv)

lemma encode_ack_build_frame: "encode_ack proto ser = build_frame proto [] ser"
  by (simp add: encode_ack_def build_frame_def START_BYTES_def STOP_BYTES_def Let_def)

section \<open>Properties of the decoder\<close>

text \<open>
  C3. Soundness of the decoder: whatever bytes arrive, a frame that \<open>next_frame\<close> returns
  was in the buffer, after some skipped bytes, exactly as the encoder writes it (start bytes,
  length, protocol, payload, serial, correct CRC, stop bytes), and the bytes left are those
  behind it. The payload is at most 250 bytes.
\<close>

theorem next_frame_sound:
  assumes "next_frame b = (Inr (Some f), rest)"
  shows "(\<exists>skipped. b = skipped @ build_frame (protocol_number f) (payload f) (serial f) @ rest)
    \<and> length (payload f) \<le> 250"
  using assms
proof (induction b rule: next_frame.induct)
  case (1 b)
  have two: "2 \<le> length b" using "1.prems" by (cases "length b < 2") (auto simp: next_frame_short)
  show ?case
  proof (cases "take 2 b = START_BYTES")
    case True
    with "1.prems" two have "frame_at b = (Inr (Some f), rest)" by (simp add: next_frame_synced)
    then show ?thesis using frame_at_sound [OF _ True] by force
  next
    case False
    with 1 two obtain skipped where
      "drop 1 b = skipped @ build_frame (protocol_number f) (payload f) (serial f) @ rest"
      and "length (payload f) \<le> 250" by (auto simp: next_frame_skip)
    moreover have "b = hd b # drop 1 b" using two by (cases b) auto
    ultimately show ?thesis by (metis append_Cons)
  qed
qed

lemma next_frame_sound_witness:
  "(\<exists>skipped. [0xFF] @ build_frame 0x13 [1, 2] 7 @ [9]
       = skipped @ build_frame 0x13 [1, 2] 7 @ [9]) \<and> length [1 :: u8, 2] \<le> 250"
proof -
  have "next_frame ([0xFF] @ build_frame 0x13 [1, 2] 7 @ [9]) =
      (Inr (Some \<lparr>protocol_number = 0x13, payload = [1, 2], serial = 7\<rparr>), [9])"
    by (simp add: next_frame_not_start next_frame_encoded flip: length_greater_0_conv)
  from next_frame_sound [OF this] show ?thesis by simp
qed

text \<open>
  C5. Completeness and round trip: for every protocol number, payload of at most 250 bytes and
  serial, the decoder reads the encoder's frame back, and leaves exactly the bytes behind it,
  even when bytes that are no start byte come first.
\<close>

theorem next_frame_build_frame:
  assumes "length pl \<le> 250" and "0x78 \<notin> set garbage"
  shows "next_frame (garbage @ build_frame proto pl ser @ rest) =
    (Inr (Some \<lparr>protocol_number = proto, payload = pl, serial = ser\<rparr>), rest)"
  using assms(2)
proof (induction garbage)
  case Nil
  show ?case using assms(1) by (simp add: next_frame_encoded)
next
  case (Cons g gs)
  then show ?case by (simp add: next_frame_not_start flip: length_greater_0_conv)
qed

lemma next_frame_build_frame_witness:
  "next_frame ([1, 2] @ build_frame 0x01 [0x12, 0x34] 5 @ [0x78]) =
    (Inr (Some \<lparr>protocol_number = 0x01, payload = [0x12, 0x34], serial = 5\<rparr>), [0x78])"
  by (rule next_frame_build_frame) simp_all

text \<open>
  C7. Every corruption of one byte between the length byte and the checksum (protocol number,
  payload or serial) of an encoded frame is detected: the decoder reports
  \<open>ChecksumMismatch\<close> and drops one byte, and never delivers the altered frame.
\<close>

theorem one_byte_corruption_detected:
  assumes "length pl \<le> 250"
    and "proto # pl @ to_be16 ser = xs @ old # ys" and "new \<noteq> old"
    and "wire = build_frame proto pl ser"
    and "altered = take (3 + length xs) wire @ new # drop (4 + length xs) wire @ rest"
  shows "next_frame altered = (Inl ChecksumMismatch, drop 1 altered)"
proof -
  define l where "l = (word_of_nat (length pl + 5) :: u8)"
  have l: "unat l = length pl + 5" unfolding l_def using assms(1) by (intro unat_u8_of_nat) simp
  obtain c1 c2 where c: "to_be16 (crc16_x25 (l # xs @ old # ys)) = [c1, c2]"
    by (simp add: to_be16_def)
  have wire: "wire = 0x78 # 0x78 # l # xs @ old # ys @ [c1, c2, 0x0D, 0x0A]"
    using c assms(2) unfolding assms(4) build_frame_unfold l_def
    by (metis append_Cons append_assoc append_Nil)
  have altered: "altered = 0x78 # 0x78 # l # xs @ new # ys @ c1 # c2 # 0x0D # 0x0A # rest"
    using wire by (simp add: assms(5) eval_nat_numeral)
  have "length (xs @ old # ys) = length pl + 3"
    using arg_cong [OF assms(2), of length] by simp
  then obtain q zs where q: "xs @ new # ys = q # zs" and zs: "length zs = length pl + 2"
    by (cases "xs @ new # ys") (auto simp del: append_eq_Cons_conv dest: arg_cong [of _ _ length])
  define p where "p = take (length pl) zs"
  have "length (drop (length pl) zs) = 2" using zs by simp
  then obtain s1 s2 where "drop (length pl) zs = [s1, s2]"
    using length_2_cases by metis
  then have p: "zs = p @ [s1, s2]" by (metis p_def append_take_drop_id)
  have "crc16_x25 (l # q # p @ [s1, s2]) \<noteq> be16 c1 c2"
    using crc16_one_byte [OF assms(3), of "l # xs" ys] c q p be16_split [of c1 c2]
    by (metis append_Cons)
  moreover have "altered = 0x78 # 0x78 # l # q # p @ s1 # s2 # c1 # c2 # 0x0D # 0x0A # rest"
    using altered q p by (metis append_Cons append_assoc append_Nil)
  moreover have "length p = length pl" using zs by (simp add: p_def)
  ultimately have "frame_at altered = (Inl ChecksumMismatch, drop 1 altered)"
    using l by (simp add: frame_at_shape STOP_BYTES_def)
  then show ?thesis using altered by (simp add: next_frame_synced START_BYTES_def)
qed

lemma one_byte_corruption_detected_witness:
  "next_frame (take 4 (build_frame 0x13 [1, 2] 7) @ 0xFF # drop 5 (build_frame 0x13 [1, 2] 7) @ [])
   = (Inl ChecksumMismatch,
      drop 1 (take 4 (build_frame 0x13 [1, 2] 7) @ 0xFF # drop 5 (build_frame 0x13 [1, 2] 7) @ []))"
  by (rule one_byte_corruption_detected
        [where pl = "[1, 2]" and proto = "0x13" and ser = 7 and xs = "[0x13]" and old = 1
           and new = "0xFF" and rest = "[]" and ys = "[2, 0, 7]", OF _ _ _ refl])
    (simp_all add: to_be16_def)

text \<open>
  An acknowledgement is itself a well-formed frame with an empty payload: the decoder reads
  it back as the protocol number and the serial it acknowledges, and it is ten bytes long.
\<close>

theorem encode_ack_is_frame:
  "length (encode_ack proto ser) = 10 \<and>
   next_frame (encode_ack proto ser @ rest) =
     (Inr (Some \<lparr>protocol_number = proto, payload = [], serial = ser\<rparr>), rest)"
  unfolding encode_ack_build_frame by (simp add: next_frame_encoded)

end
