(* ===== verification/Codec.thy ===== *)
theory Codec
  imports Frames Float64
begin

text \<open>
  The message layer of \<open>src/protocol.rs\<close>: \<open>decode_message\<close> and the packet decoders it
  dispatches to, the BCD and hexadecimal helpers, and the interpretation of a heartbeat's
  terminal information byte. A \<open>String\<close> is its list of bytes; slices out of range do not
  occur because every decoder checks the payload's length first.
\<close>

section \<open>Data\<close>

datatype timestamp_encoding = Bcd | ConcoxExtendedTime
datatype hemisphere_encoding = ClassicGt06 | ConcoxExtendedHemisphere

record login_packet =
  lp_imei :: string
  lp_extra_data :: "u8 list"

record heartbeat_packet =
  hb_terminal_info :: u8
  hb_voltage_level :: u8
  hb_gsm_signal_strength :: u8
  hb_alarm_language :: u16

datatype engine_status = EngineOn | EngineOff | EngineUnknown

record terminal_info_flags =
  tf_raw :: u8
  tf_binary :: string
  tf_gps_tracking_on :: bool
  tf_bit_1_guess :: bool
  tf_acc_high :: "bool option"
  tf_bit_3_guess :: bool
  tf_bit_4_guess :: bool
  tf_vibration_detected :: bool
  tf_engine_status_guess :: engine_status

record gps_timestamp =
  ts_year :: u16
  ts_month :: u8
  ts_day :: u8
  ts_hour :: u8
  ts_minute :: u8
  ts_second :: u8

record location_packet =
  lc_timestamp :: gps_timestamp
  lc_gps_info_length :: u8
  lc_satellite_count :: u8
  lc_latitude :: f64
  lc_longitude :: f64
  lc_speed_kph :: u8
  lc_course :: u16
  lc_course_status :: u16
  lc_extra_data :: "u8 list"

record unknown_packet =
  up_protocol_number :: u8
  up_payload :: "u8 list"

datatype gt06_message =
    Login login_packet
  | Heartbeat heartbeat_packet
  | Location location_packet
  | Unknown unknown_packet

section \<open>Formatting\<close>

text \<open>
  The last arm of the source's \<open>match\<close> is \<open>unreachable!\<close>: both callers pass a nibble, see
  \<open>nibble_bounds\<close>.
\<close>

definition nibble_to_hex :: "u8 \<Rightarrow> char" where
  "nibble_to_hex nibble =
     (if nibble \<le> 9 then char_of (48 + unat nibble) else char_of (65 + (unat nibble - 10)))"

fun format_bytes_hex :: "u8 list \<Rightarrow> string" where
  "format_bytes_hex [] = []"
| "format_bytes_hex [byte] = [nibble_to_hex (drop_bit 4 byte), nibble_to_hex (byte AND 0x0F)]"
| "format_bytes_hex (byte # rest) =
     nibble_to_hex (drop_bit 4 byte) # nibble_to_hex (byte AND 0x0F) # CHR '' '' # format_bytes_hex rest"

definition format_byte_bits :: "u8 \<Rightarrow> string" where
  "format_byte_bits byte =
     map (\<lambda>i. if bit byte i then CHR ''1'' else CHR ''0'') [7, 6, 5, 4, 3, 2, 1, 0]"

section \<open>Heartbeat flags\<close>

definition resolve_acc_high :: "bool option \<Rightarrow> bool option \<Rightarrow> bool option" where
  "resolve_acc_high current previous = (case current of Some c \<Rightarrow> Some c | None \<Rightarrow> previous)"

fun resolve_engine_status_guess :: "bool option \<Rightarrow> engine_status" where
  "resolve_engine_status_guess (Some True) = EngineOn"
| "resolve_engine_status_guess (Some False) = EngineOff"
| "resolve_engine_status_guess None = EngineUnknown"

definition decode_terminal_info_flags :: "u8 \<Rightarrow> terminal_info_flags" where
  "decode_terminal_info_flags raw =
     (let acc_high = Some (raw AND 0x04 \<noteq> 0);
          engine_status_guess = resolve_engine_status_guess acc_high
      in \<lparr>tf_raw = raw,
          tf_binary = format_byte_bits raw,
          tf_gps_tracking_on = (raw AND 0x01 \<noteq> 0),
          tf_bit_1_guess = (raw AND 0x02 \<noteq> 0),
          tf_acc_high = acc_high,
          tf_bit_3_guess = (raw AND 0x08 \<noteq> 0),
          tf_bit_4_guess = (raw AND 0x10 \<noteq> 0),
          tf_vibration_detected = (raw AND 0x40 \<noteq> 0),
          tf_engine_status_guess = engine_status_guess\<rparr>)"

section \<open>Packet decoders\<close>

definition bcd_to_decimal :: "u8 \<Rightarrow> u8" where
  "bcd_to_decimal byte = (drop_bit 4 byte AND 0x0F) * 10 + (byte AND 0x0F)"

definition decode_bcd_imei :: "u8 list \<Rightarrow> string" where
  "decode_bcd_imei bytes =
     (let digits = concat (map (\<lambda>byte. [char_of (48 + unat (drop_bit 4 byte AND 0x0F)),
                                         char_of (48 + unat (byte AND 0x0F))]) bytes)
      in if length digits = 16 \<and> take 1 digits = ''0'' then drop 1 digits else digits)"

fun decode_timestamp :: "u8 list \<Rightarrow> timestamp_encoding \<Rightarrow> gps_timestamp" where
  "decode_timestamp bytes Bcd =
     \<lparr>ts_year = 2000 + ucast (bcd_to_decimal (bytes ! 0)),
      ts_month = bcd_to_decimal (bytes ! 1),
      ts_day = bcd_to_decimal (bytes ! 2),
      ts_hour = bcd_to_decimal (bytes ! 3),
      ts_minute = bcd_to_decimal (bytes ! 4),
      ts_second = bcd_to_decimal (bytes ! 5)\<rparr>"
| "decode_timestamp bytes ConcoxExtendedTime =
     \<lparr>ts_year = 2000 + ucast (bytes ! 0),
      ts_month = bytes ! 1,
      ts_day = bytes ! 2,
      ts_hour = bytes ! 3,
      ts_minute = bcd_to_decimal (bytes ! 4),
      ts_second = bcd_to_decimal (bytes ! 5)\<rparr>"

definition decode_coordinates :: "u32 \<Rightarrow> u32 \<Rightarrow> u16 \<Rightarrow> hemisphere_encoding \<Rightarrow> f64 \<times> f64" where
  "decode_coordinates raw_latitude raw_longitude course_status encoding =
     (let latitude = fdiv (f64_of_int (uint raw_latitude)) (Fin 1800000);
          longitude = fdiv (f64_of_int (uint raw_longitude)) (Fin 1800000)
      in case encoding of
           ClassicGt06 \<Rightarrow>
             (if course_status AND 0x0400 \<noteq> 0 then fneg latitude else latitude,
              if course_status AND 0x0800 \<noteq> 0 then fneg longitude else longitude)
         | ConcoxExtendedHemisphere \<Rightarrow>
             (if course_status AND 0x2000 = 0 then fneg latitude else latitude, longitude))"

definition decode_login :: "frame \<Rightarrow> protocol_error + gt06_message" where
  "decode_login frame =
     (if length (payload frame) < 8
      then Inl (InvalidPayload (protocol_number frame) ''login payload must be at least 8 bytes'')
      else Inr (Login \<lparr>lp_imei = decode_bcd_imei (take 8 (payload frame)),
                       lp_extra_data = drop 8 (payload frame)\<rparr>))"

definition decode_heartbeat :: "frame \<Rightarrow> protocol_error + gt06_message" where
  "decode_heartbeat frame =
     (if length (payload frame) < 5
      then Inl (InvalidPayload (protocol_number frame)
                 ''heartbeat payload must be at least 5 bytes'')
      else Inr (Heartbeat \<lparr>hb_terminal_info = payload frame ! 0,
                           hb_voltage_level = payload frame ! 1,
                           hb_gsm_signal_strength = payload frame ! 2,
                           hb_alarm_language = be16 (payload frame ! 3) (payload frame ! 4)\<rparr>))"

definition decode_location_payload ::
  "frame \<Rightarrow> bool \<Rightarrow> timestamp_encoding \<Rightarrow> hemisphere_encoding \<Rightarrow> protocol_error + gt06_message" where
  "decode_location_payload frame allow_extra_data timestamp_encoding hemisphere_encoding =
     (let p = payload frame in
      if length p < 18
      then Inl (InvalidPayload (protocol_number frame) ''location payload must be at least 18 bytes'')
      else
        let timestamp = decode_timestamp (take 6 p) timestamp_encoding;
            gps_info = p ! 6;
            raw_latitude = be32 (p ! 7) (p ! 8) (p ! 9) (p ! 10);
            raw_longitude = be32 (p ! 11) (p ! 12) (p ! 13) (p ! 14);
            course_status = be16 (p ! 16) (p ! 17);
            extra_data = (if allow_extra_data then drop 18 p else []);
            (latitude, longitude) =
              decode_coordinates raw_latitude raw_longitude course_status hemisphere_encoding
        in Inr (Location
             \<lparr>lc_timestamp = timestamp,
              lc_gps_info_length = drop_bit 4 gps_info,
              lc_satellite_count = gps_info AND 0x0F,
              lc_latitude = latitude,
              lc_longitude = longitude,
              lc_speed_kph = p ! 15,
              lc_course = course_status AND 0x03FF,
              lc_course_status = course_status,
              lc_extra_data = extra_data\<rparr>))"

definition decode_location :: "frame \<Rightarrow> protocol_error + gt06_message" where
  "decode_location frame = decode_location_payload frame False Bcd ClassicGt06"

definition decode_extended_location :: "frame \<Rightarrow> protocol_error + gt06_message" where
  "decode_extended_location frame =
     decode_location_payload frame True ConcoxExtendedTime ConcoxExtendedHemisphere"

definition decode_message :: "frame \<Rightarrow> protocol_error + gt06_message" where
  "decode_message frame =
     (if protocol_number frame = PROTOCOL_LOGIN then decode_login frame
      else if protocol_number frame = PROTOCOL_HEARTBEAT then decode_heartbeat frame
      else if protocol_number frame = PROTOCOL_LOCATION then decode_location frame
      else if protocol_number frame = PROTOCOL_EXTENDED_LOCATION then decode_extended_location frame
      else Inr (Unknown \<lparr>up_protocol_number = protocol_number frame,
                         up_payload = payload frame\<rparr>))"

section \<open>Nibbles\<close>

lemma nibble_hi: "unat (drop_bit 4 b) = unat b div 16" for b :: u8
  by (simp add: drop_bit_eq_div unat_div_distrib)

lemma nibble_lo: "unat (b AND 0x0F) = unat b mod 16" for b :: u8
proof -
  have "b AND 0x0F = take_bit 4 b" by (simp add: take_bit_eq_mask mask_eq_exp_minus_1)
  then show ?thesis by (simp add: take_bit_eq_mod unat_mod_distrib)
qed

lemma nibble_hi_masked: "drop_bit 4 b AND 0x0F = drop_bit 4 b" for b :: u8
proof -
  have "unat (drop_bit 4 b AND 0x0F) = unat (drop_bit 4 b)"
    using unsigned_less [of b, where 'a = nat] by (simp add: nibble_lo nibble_hi)
  then show ?thesis by (simp only: word_unat_eq_iff)
qed

lemma nibble_bounds: "unat (drop_bit 4 b) < 16 \<and> unat (b AND 0x0F) < 16" for b :: u8
  using unsigned_less [of b, where 'a = nat] by (simp add: nibble_lo nibble_hi)

lemma bcd_to_decimal_eq: "unat (bcd_to_decimal b) = 10 * (unat b div 16) + unat b mod 16"
proof -
  have *: "10 * (unat b div 16) + unat b mod 16 < 256"
    using unsigned_less [of b, where 'a = nat] by simp
  have "bcd_to_decimal b = word_of_nat (10 * (unat b div 16) + unat b mod 16)"
    by (simp add: bcd_to_decimal_def nibble_hi_masked flip: nibble_hi nibble_lo)
  then have "unat (bcd_to_decimal b) = unat (word_of_nat (10 * (unat b div 16) + unat b mod 16) :: u8)"
    by simp
  also have "\<dots> = 10 * (unat b div 16) + unat b mod 16" using * by (rule unat_u8_of_nat)
  finally show ?thesis .
qed

text \<open>The byte whose nibbles are two given digits.\<close>

definition pack_nibbles :: "nat \<Rightarrow> nat \<Rightarrow> u8" where
  "pack_nibbles hi lo = word_of_nat (16 * hi + lo)"

lemma unat_pack_nibbles: "hi < 16 \<Longrightarrow> lo < 16 \<Longrightarrow> unat (pack_nibbles hi lo) = 16 * hi + lo"
  unfolding pack_nibbles_def by (intro unat_u8_of_nat) simp

lemma pack_nibbles_hi: "hi < 16 \<Longrightarrow> lo < 16 \<Longrightarrow> unat (drop_bit 4 (pack_nibbles hi lo)) = hi"
  by (simp add: nibble_hi unat_pack_nibbles)

lemma pack_nibbles_lo: "hi < 16 \<Longrightarrow> lo < 16 \<Longrightarrow> unat (pack_nibbles hi lo AND 0x0F) = lo"
  by (simp add: nibble_lo unat_pack_nibbles)

lemma bcd_to_decimal_pack:
  "hi < 16 \<Longrightarrow> lo < 16 \<Longrightarrow> unat (bcd_to_decimal (pack_nibbles hi lo)) = 10 * hi + lo"
  by (simp add: bcd_to_decimal_eq unat_pack_nibbles)

section \<open>Hexadecimal dumps can be read back\<close>

definition hex_nibble :: "char \<Rightarrow> nat" where
  "hex_nibble c = (let n = of_char c in if n < (65 :: nat) then n - 48 else n - 55)"

fun parse_hex :: "string \<Rightarrow> u8 list" where
  "parse_hex [] = []"
| "parse_hex [hi, lo] = [pack_nibbles (hex_nibble hi) (hex_nibble lo)]"
| "parse_hex (hi # lo # _ # rest) = pack_nibbles (hex_nibble hi) (hex_nibble lo) # parse_hex rest"
| "parse_hex _ = []"

lemma hex_nibble_to_hex:
  assumes "unat n < 16"
  shows "hex_nibble (nibble_to_hex n) = unat n"
proof -
  have "n \<le> 9 \<longleftrightarrow> unat n \<le> 9" by (simp add: word_le_nat_alt)
  then show ?thesis using assms
    by (auto simp: hex_nibble_def nibble_to_hex_def of_char_of take_bit_eq_mod Let_def)
qed

lemma pack_hex_nibbles:
  "pack_nibbles (hex_nibble (nibble_to_hex (drop_bit 4 b))) (hex_nibble (nibble_to_hex (b AND 0x0F))) = b"
  using nibble_bounds [of b]
  by (simp add: hex_nibble_to_hex pack_nibbles_def nibble_hi nibble_lo)

lemma parse_hex_Nil_format: "format_bytes_hex (b # bs) \<noteq> []"
  by (cases bs) auto

lemma length_format_bytes_hex: "length (format_bytes_hex bs) = 3 * length bs - 1"
  by (induction bs rule: format_bytes_hex.induct) auto

text \<open>
  The hexadecimal dump of a byte sequence, which the database rows store for the extra data of
  a packet, determines the bytes: reading the dump back gives them, for every sequence. Its length
  is three characters per byte less the last separator.
\<close>

theorem format_bytes_hex_roundtrip:
  "parse_hex (format_bytes_hex bytes) = bytes \<and>
   length (format_bytes_hex bytes) = 3 * length bytes - 1"
proof -
  have "parse_hex (format_bytes_hex bytes) = bytes"
  proof (induction bytes rule: format_bytes_hex.induct)
    case (3 b b' bs)
    then show ?case by (simp add: pack_hex_nibbles del: format_bytes_hex.simps(2))
  qed (auto simp: pack_hex_nibbles)
  then show ?thesis by (simp add: length_format_bytes_hex)
qed

section \<open>IMEI numbers\<close>

text \<open>A terminal sends its fifteen digits behind a zero, two to a byte.\<close>

definition digits_to_string :: "nat list \<Rightarrow> string" where
  "digits_to_string ds = map (\<lambda>d. char_of (48 + d)) ds"

fun pack_digits :: "nat list \<Rightarrow> u8 list" where
  "pack_digits (hi # lo # rest) = pack_nibbles hi lo # pack_digits rest"
| "pack_digits _ = []"

definition unpack_digits :: "u8 list \<Rightarrow> nat list" where
  "unpack_digits bytes =
     concat (map (\<lambda>byte. [unat (drop_bit 4 byte), unat (byte AND 0x0F)]) bytes)"

lemma unpack_pack_digits:
  "\<forall>d \<in> set ds. d < 16 \<Longrightarrow> even (length ds) \<Longrightarrow> unpack_digits (pack_digits ds) = ds"
  by (induction ds rule: pack_digits.induct)
    (auto simp: unpack_digits_def pack_nibbles_hi pack_nibbles_lo)

lemma length_pack_digits: "length (pack_digits ds) = length ds div 2"
  by (induction ds rule: pack_digits.induct) auto

lemma length_unpack_digits [simp]: "length (unpack_digits bs) = 2 * length bs"
  by (induction bs) (auto simp: unpack_digits_def)

lemma decode_bcd_imei_digits:
  "decode_bcd_imei bytes =
     (let ds = digits_to_string (unpack_digits bytes)
      in if length ds = 16 \<and> take 1 ds = ''0'' then drop 1 ds else ds)"
proof -
  have "concat (map (\<lambda>byte. [char_of (48 + unat (drop_bit 4 byte AND 0x0F)),
            char_of (48 + unat (byte AND 0x0F))]) bytes) = digits_to_string (unpack_digits bytes)"
    by (induction bytes) (auto simp: digits_to_string_def unpack_digits_def nibble_hi_masked)
  then show ?thesis by (simp only: decode_bcd_imei_def)
qed

lemma digit_zero: "char_of (48 :: nat) = CHR ''0''"
  by code_simp

lemma decode_login_length:
  "8 \<le> length (payload f) \<Longrightarrow>
   decode_login f = Inr (Login \<lparr>lp_imei = decode_bcd_imei (take 8 (payload f)),
                                lp_extra_data = drop 8 (payload f)\<rparr>)"
  by (simp add: decode_login_def)

section \<open>Coordinates\<close>

lemma raw_coordinate:
  "\<exists>x. fdiv (f64_of_int (uint (raw :: u32))) (Fin 1800000) = Fin x \<and> 0 \<le> x \<and> x \<le> 2387"
proof -
  define n where "n = uint raw"
  then have n: "0 \<le> n" "n < 4294967296" using uint_bounded [of raw] by auto
  then have fdiv: "fdiv (f64_of_int n) (Fin 1800000) = round64 (of_int n / 1800000)"
    by (simp add: f64_of_int_exact)
  have "(of_int n :: rat) \<le> of_int 4294967296" using n by (simp only: of_int_le_iff)
  then have "of_int n / 1800000 \<le> (of_int 2387 :: rat)" by simp
  from round64_mono [OF this] have hi: "fle (round64 (of_int n / 1800000)) (Fin 2387)"
    using round64_of_int [of 2387] by simp
  have "of_int 0 \<le> of_int n / (1800000 :: rat)" using n by simp
  from round64_mono [OF this] have lo: "fle (Fin 0) (round64 (of_int n / 1800000))"
    using round64_of_int [of 0] by simp
  show ?thesis unfolding n_def [symmetric] fdiv
    using hi lo by (cases "round64 (of_int n / 1800000)") auto
qed

lemma fneg_bounded:
  "\<exists>x. v = Fin x \<and> 0 \<le> x \<and> x \<le> (c :: rat) \<Longrightarrow>
   \<exists>x. (if neg then fneg v else v) = Fin x \<and> \<bar>x\<bar> \<le> c"
  by auto

lemma decode_coordinates_bounded:
  "\<exists>lat lon. decode_coordinates a b cs enc = (Fin lat, Fin lon) \<and> \<bar>lat\<bar> \<le> 2387 \<and> \<bar>lon\<bar> \<le> 2387"
proof -
  note lat = fneg_bounded [OF raw_coordinate [of a]] and lon = fneg_bounded [OF raw_coordinate [of b]]
  show ?thesis
    using lat [of "cs AND 0x0400 \<noteq> 0"] lon [of "cs AND 0x0800 \<noteq> 0"] lat [of "cs AND 0x2000 = 0"]
      lon [of False]
    by (cases enc) (auto simp: decode_coordinates_def Let_def)
qed

lemmas decoder_defs = decode_login_def decode_heartbeat_def decode_location_def
  decode_extended_location_def decode_location_payload_def

lemmas protocol_numbers = PROTOCOL_LOGIN_def PROTOCOL_LOCATION_def PROTOCOL_HEARTBEAT_def
  PROTOCOL_EXTENDED_LOCATION_def

lemma decode_location_payload_length:
  "decode_location_payload f a te he = Inr m \<Longrightarrow> 18 \<le> length (payload f)"
  by (auto simp: decode_location_payload_def Let_def split: if_splits)

lemma decode_location_cases:
  assumes "decode_message f = Inr (Location p)"
  obtains allow te he where "decode_location_payload f allow te he = Inr (Location p)"
proof -
  have "\<exists>allow te he. decode_location_payload f allow te he = Inr (Location p)"
    using assms by (auto simp: decode_message_def decode_login_def decode_heartbeat_def
        decode_location_def decode_extended_location_def split: if_splits)
  then show thesis using that by blast
qed

section \<open>Properties of the packet decoders\<close>

text \<open>
  A login payload made from any fifteen decimal digits behind a leading zero, with any bytes
  after it, is decoded to exactly those digits as the IMEI and those bytes as the extra data.
\<close>

theorem decode_login_roundtrip:
  assumes "length ds = 15" and "\<forall>d \<in> set ds. d < 10"
  shows "decode_message \<lparr>protocol_number = PROTOCOL_LOGIN,
                         payload = pack_digits (0 # ds) @ extra, serial = ser\<rparr> =
    Inr (Login \<lparr>lp_imei = digits_to_string ds, lp_extra_data = extra\<rparr>)"
proof -
  have len: "length (pack_digits (0 # ds)) = 8" using assms by (simp add: length_pack_digits)
  have "unpack_digits (pack_digits (0 # ds)) = 0 # ds"
    using assms by (intro unpack_pack_digits) auto
  then have "decode_bcd_imei (pack_digits (0 # ds)) = digits_to_string ds"
    using assms(1) by (simp add: decode_bcd_imei_digits digits_to_string_def digit_zero)
  then show ?thesis using len by (simp add: decode_message_def decode_login_length)
qed

lemma decode_login_roundtrip_witness:
  "decode_message \<lparr>protocol_number = PROTOCOL_LOGIN,
      payload = pack_digits (0 # [8, 6, 6, 2, 2, 1, 0, 7, 0, 4, 7, 8, 3, 8, 8]) @ [1], serial = 9\<rparr> =
    Inr (Login \<lparr>lp_imei = digits_to_string [8, 6, 6, 2, 2, 1, 0, 7, 0, 4, 7, 8, 3, 8, 8],
                lp_extra_data = [1]\<rparr>)"
  by (rule decode_login_roundtrip) simp_all

text \<open>
  C10. What a location decoder can deliver: both coordinates are finite numbers of magnitude at
  most 2387 (they are not checked to be degrees), the course is below 1024 and the satellite
  count and the GPS information length are below 16, whatever the payload holds.
\<close>

theorem decode_location_bounds:
  assumes "decode_message f = Inr (Location p)"
  shows "(\<exists>lat lon. lc_latitude p = Fin lat \<and> lc_longitude p = Fin lon \<and> \<bar>lat\<bar> \<le> 2387 \<and> \<bar>lon\<bar> \<le> 2387)
    \<and> unat (lc_course p) < 1024 \<and> unat (lc_satellite_count p) < 16
    \<and> unat (lc_gps_info_length p) < 16"
proof -
  obtain allow te he where d: "decode_location_payload f allow te he = Inr (Location p)"
    using assms by (rule decode_location_cases)
  let ?p = "payload f"
  have p: "(lc_latitude p, lc_longitude p) = decode_coordinates (be32 (?p ! 7) (?p ! 8) (?p ! 9) (?p ! 10))
        (be32 (?p ! 11) (?p ! 12) (?p ! 13) (?p ! 14)) (be16 (?p ! 16) (?p ! 17)) he"
    "lc_course p = be16 (?p ! 16) (?p ! 17) AND 0x03FF"
    "lc_satellite_count p = ?p ! 6 AND 0x0F" "lc_gps_info_length p = drop_bit 4 (?p ! 6)"
    using d decode_location_payload_length [OF d]
    by (auto simp: decode_location_payload_def Let_def split: prod.splits if_splits)
  have "be16 (?p ! 16) (?p ! 17) AND 0x03FF = take_bit 10 (be16 (?p ! 16) (?p ! 17))"
    by (simp add: take_bit_eq_mask mask_eq_exp_minus_1)
  then have "unat (lc_course p) < 1024" using p(2) by (simp add: take_bit_eq_mod unat_mod_distrib)
  then show ?thesis
    using p(1,3,4) decode_coordinates_bounded nibble_bounds [of "?p ! 6"]
    by (metis prod.inject)
qed

lemma decode_location_bounds_witness:
  "\<exists>p. decode_message \<lparr>protocol_number = 0x22, payload = replicate 18 0xFF, serial = 1\<rparr>
       = Inr (Location p)
    \<and> (\<exists>lat lon. lc_latitude p = Fin lat \<and> lc_longitude p = Fin lon \<and> \<bar>lat\<bar> \<le> 2387 \<and> \<bar>lon\<bar> \<le> 2387)
    \<and> unat (lc_course p) < 1024 \<and> unat (lc_satellite_count p) < 16
    \<and> unat (lc_gps_info_length p) < 16"
proof -
  let ?f = "\<lparr>protocol_number = 0x22, payload = replicate 18 0xFF, serial = 1\<rparr>"
  have "\<exists>p. decode_message ?f = Inr (Location p)"
    by (simp add: decode_message_def protocol_numbers decode_extended_location_def
        decode_location_payload_def Let_def split_def)
  then obtain p where p: "decode_message ?f = Inr (Location p)" ..
  show ?thesis using p decode_location_bounds [OF p] by blast
qed

text \<open>
  C9. Which frames the message decoder rejects: exactly those of a known protocol whose payload
  is shorter than the protocol's minimum (8 bytes for a login, 5 for a heartbeat, 18 for both
  location packets). Every rejection is an \<open>InvalidPayload\<close> that names the frame's protocol, and
  every frame of an unknown protocol is delivered unchanged as \<open>Unknown\<close>.
\<close>

definition min_payload :: "u8 \<Rightarrow> nat" where
  "min_payload proto =
     (if proto = 0x01 then 8 else if proto = 0x13 then 5
      else if proto = 0x12 \<or> proto = 0x22 then 18 else 0)"

theorem decode_message_rejects:
  "(case decode_message f of
      Inl e \<Rightarrow> length (payload f) < min_payload (protocol_number f)
        \<and> (\<exists>msg. e = InvalidPayload (protocol_number f) msg)
    | Inr m \<Rightarrow> min_payload (protocol_number f) \<le> length (payload f)
        \<and> (min_payload (protocol_number f) = 0
           \<longleftrightarrow> m = Unknown \<lparr>up_protocol_number = protocol_number f, up_payload = payload f\<rparr>))"
  by (auto simp: decode_message_def decoder_defs protocol_numbers min_payload_def Let_def
      split: prod.splits)

end
