(* ===== verification/Connection.thy ===== *)
theory Connection
  imports Codec
begin

text \<open>
  The connection handler of \<open>src/server.rs\<close> and the events of \<open>src/events.rs\<close>. A connection
  keeps its read buffer and the IMEI of the last login; what it does to the outside (the bytes it
  writes, the events it hands to the event handler, the packets it logs and ignores) is recorded
  in a trace, oldest first. Whether the i-th write of the connection succeeds is an argument
  (\<open>wr\<close>), and so is what each read of the socket returns. A \<open>SocketAddr\<close> is its printed form.
\<close>

section \<open>Data\<close>

datatype device_event =
    LoginEvent string string u16
  | HeartbeatEvent string "string option" heartbeat_packet
  | LocationEvent string "string option" location_packet

datatype action =
    Write "u8 list"
  | Emit device_event
  | Ignored unknown_packet
  | Logged "frame option" protocol_error

record connection =
  cn_buffer :: "u8 list"
  cn_device_id :: "string option"
  cn_writes :: nat
  cn_trace :: "action list"

datatype read_result = Read "u8 list" | ReadError

datatype outcome = Open | Closed | Failed

section \<open>The handler\<close>

definition emit :: "action \<Rightarrow> connection \<Rightarrow> connection" where
  "emit a c = c\<lparr>cn_trace := cn_trace c @ [a]\<rparr>"

text \<open>\<open>stream.write_all(&ack).await?\<close>: a failed write ends the connection.\<close>

definition write_all :: "(nat \<Rightarrow> bool) \<Rightarrow> u8 list \<Rightarrow> connection \<Rightarrow> bool \<times> connection" where
  "write_all wr bytes c =
     (if wr (cn_writes c)
      then (True, emit (Write bytes) (c\<lparr>cn_writes := cn_writes c + 1\<rparr>))
      else (False, c\<lparr>cn_writes := cn_writes c + 1\<rparr>))"

definition log_protocol_error :: "frame option \<Rightarrow> protocol_error \<Rightarrow> connection \<Rightarrow> connection" where
  "log_protocol_error f e c = emit (Logged f e) c"

text \<open>The arms of the inner \<open>match\<close>, for a frame that was decoded.\<close>

definition on_frame :: "(nat \<Rightarrow> bool) \<Rightarrow> string \<Rightarrow> frame \<Rightarrow> connection \<Rightarrow> bool \<times> connection" where
  "on_frame wr peer f c =
     (case decode_message f of
        Inr (Login packet) \<Rightarrow>
          (case write_all wr (encode_ack PROTOCOL_LOGIN (serial f)) c of
             (False, c) \<Rightarrow> (False, c)
           | (True, c) \<Rightarrow>
               let c = c\<lparr>cn_device_id := Some (lp_imei packet)\<rparr>
               in (True, emit (Emit (LoginEvent peer (lp_imei packet) (serial f))) c))
      | Inr (Heartbeat packet) \<Rightarrow>
          (case write_all wr (encode_ack PROTOCOL_HEARTBEAT (serial f)) c of
             (False, c) \<Rightarrow> (False, c)
           | (True, c) \<Rightarrow> (True, emit (Emit (HeartbeatEvent peer (cn_device_id c) packet)) c))
      | Inr (Location packet) \<Rightarrow> (True, emit (Emit (LocationEvent peer (cn_device_id c) packet)) c)
      | Inr (Unknown packet) \<Rightarrow> (True, emit (Ignored packet) c)
      | Inl e \<Rightarrow> (True, log_protocol_error (Some f) e c))"

lemma cn_buffer_write_all [simp]: "cn_buffer (snd (write_all wr bs c)) = cn_buffer c"
  by (simp add: write_all_def emit_def)

lemma on_frame_buffer: "on_frame wr peer f c = (ok, c') \<Longrightarrow> cn_buffer c' = cn_buffer c"
  by (auto simp: on_frame_def write_all_def emit_def log_protocol_error_def Let_def
      split: sum.splits gt06_message.splits if_splits)

text \<open>The inner loop: everything that is complete in the buffer is handled.\<close>

function drain :: "(nat \<Rightarrow> bool) \<Rightarrow> string \<Rightarrow> connection \<Rightarrow> bool \<times> connection" where
  "drain wr peer c =
     (case next_frame (cn_buffer c) of
        (Inr None, b) \<Rightarrow> (True, c\<lparr>cn_buffer := b\<rparr>)
      | (Inl e, b) \<Rightarrow> drain wr peer (log_protocol_error None e (c\<lparr>cn_buffer := b\<rparr>))
      | (Inr (Some f), b) \<Rightarrow>
          (case on_frame wr peer f (c\<lparr>cn_buffer := b\<rparr>) of
             (False, c') \<Rightarrow> (False, c')
           | (True, c') \<Rightarrow> drain wr peer c'))"
  by pat_completeness auto
termination
proof (relation "measure (\<lambda>(_, _, c). length (cn_buffer c))", goal_cases)
  case (2 wr peer c r b e)
  then have "next_frame (cn_buffer c) = (Inl e, b)" by simp
  then show ?case using next_frame_error_shrinks by (simp add: log_protocol_error_def emit_def)
next
  case (3 wr peer c r b m f ok c')
  then have "next_frame (cn_buffer c) = (Inr (Some f), b)"
    and "on_frame wr peer f (c\<lparr>cn_buffer := b\<rparr>) = (True, c')" by simp_all
  from next_frame_Some_shrinks [OF this(1)] on_frame_buffer [OF this(2)] show ?case by simp
qed auto

declare drain.simps [simp del]

text \<open>
  The outer loop, on the results of the reads so far: a read of zero bytes is the end of the
  stream and a failed read or write ends the connection with an error.
\<close>

fun handle_reads ::
  "(nat \<Rightarrow> bool) \<Rightarrow> string \<Rightarrow> read_result list \<Rightarrow> connection \<Rightarrow> outcome \<times> connection" where
  "handle_reads wr peer [] c = (Open, c)"
| "handle_reads wr peer (ReadError # rs) c = (Failed, c)"
| "handle_reads wr peer (Read bytes # rs) c =
     (if bytes = [] then (Closed, c)
      else case drain wr peer (c\<lparr>cn_buffer := cn_buffer c @ bytes\<rparr>) of
             (False, c') \<Rightarrow> (Failed, c')
           | (True, c') \<Rightarrow> handle_reads wr peer rs c')"

definition new_connection :: connection where
  "new_connection = \<lparr>cn_buffer = [], cn_device_id = None, cn_writes = 0, cn_trace = []\<rparr>"

definition handle_connection ::
  "(nat \<Rightarrow> bool) \<Rightarrow> string \<Rightarrow> read_result list \<Rightarrow> outcome \<times> connection" where
  "handle_connection wr peer reads = handle_reads wr peer reads new_connection"

section \<open>Draining, case by case\<close>

lemma drain_wait:
  "next_frame (cn_buffer c) = (Inr None, b) \<Longrightarrow> drain wr peer c = (True, c\<lparr>cn_buffer := b\<rparr>)"
  by (subst drain.simps) simp

lemma drain_error:
  "next_frame (cn_buffer c) = (Inl e, b) \<Longrightarrow>
   drain wr peer c = drain wr peer (log_protocol_error None e (c\<lparr>cn_buffer := b\<rparr>))"
  by (subst drain.simps) simp

lemma drain_frame:
  "next_frame (cn_buffer c) = (Inr (Some f), b) \<Longrightarrow>
   drain wr peer c = (case on_frame wr peer f (c\<lparr>cn_buffer := b\<rparr>) of
             (False, c') \<Rightarrow> (False, c') | (True, c') \<Rightarrow> drain wr peer c')"
  by (subst drain.simps) simp

lemma drain_induct [case_names wait error failed handled]:
  assumes "\<And>c b. next_frame (cn_buffer c) = (Inr None, b) \<Longrightarrow> P c"
    and "\<And>c e b. next_frame (cn_buffer c) = (Inl e, b) \<Longrightarrow>
          P (log_protocol_error None e (c\<lparr>cn_buffer := b\<rparr>)) \<Longrightarrow> P c"
    and "\<And>c f b c'. next_frame (cn_buffer c) = (Inr (Some f), b) \<Longrightarrow>
          on_frame wr peer f (c\<lparr>cn_buffer := b\<rparr>) = (False, c') \<Longrightarrow> P c"
    and "\<And>c f b c'. next_frame (cn_buffer c) = (Inr (Some f), b) \<Longrightarrow>
          on_frame wr peer f (c\<lparr>cn_buffer := b\<rparr>) = (True, c') \<Longrightarrow> P c' \<Longrightarrow> P c"
  shows "P c"
proof (induction "length (cn_buffer c)" arbitrary: c rule: less_induct)
  case less
  obtain r b where nf: "next_frame (cn_buffer c) = (r, b)" by force
  consider "r = Inr None" | e where "r = Inl e" | f where "r = Inr (Some f)"
    by (metis not_None_eq sum.exhaust)
  then show ?case
  proof cases
    case (2 e)
    then have "P (log_protocol_error None e (c\<lparr>cn_buffer := b\<rparr>))"
      using nf next_frame_error_shrinks by (intro less) (auto simp: log_protocol_error_def emit_def)
    with 2 nf assms(2) show ?thesis by blast
  next
    case (3 f)
    obtain ok c' where h: "on_frame wr peer f (c\<lparr>cn_buffer := b\<rparr>) = (ok, c')" by force
    then have "cn_buffer c' = b" using on_frame_buffer by fastforce
    then have "P c'" using nf 3 next_frame_Some_shrinks by (intro less) force
    with 3 nf h assms(3) [of c f b c'] assms(4) [of c f b c'] show ?thesis by (cases ok) auto
  qed (use nf assms(1) in blast)
qed

section \<open>How the stream is cut into reads does not matter\<close>

lemma on_frame_set_buffer:
  "on_frame wr peer f (c\<lparr>cn_buffer := x\<rparr>) =
     (fst (on_frame wr peer f c), (snd (on_frame wr peer f c))\<lparr>cn_buffer := x\<rparr>)"
  by (auto simp: on_frame_def write_all_def emit_def log_protocol_error_def Let_def
      split: sum.splits gt06_message.splits)

lemma log_set_buffer:
  "log_protocol_error m e (c\<lparr>cn_buffer := x\<rparr>) = (log_protocol_error m e c)\<lparr>cn_buffer := x\<rparr>"
  by (simp add: log_protocol_error_def emit_def)

lemma drain_cong:
  "next_frame x = next_frame y \<Longrightarrow> drain wr peer (c\<lparr>cn_buffer := x\<rparr>) = drain wr peer (c\<lparr>cn_buffer := y\<rparr>)"
  by (subst (1 2) drain.simps) (simp split: prod.split sum.split option.split)

lemma drain_append:
  "drain wr peer (c\<lparr>cn_buffer := cn_buffer c @ y\<rparr>) =
     (case drain wr peer c of
        (True, c') \<Rightarrow> drain wr peer (c'\<lparr>cn_buffer := cn_buffer c' @ y\<rparr>)
      | (False, c') \<Rightarrow> (False, c'\<lparr>cn_buffer := cn_buffer c' @ y\<rparr>))"
proof (induction c rule: drain_induct [where wr = wr and peer = peer])
  case (wait c b)
  then have "next_frame (cn_buffer c @ y) = next_frame (b @ y)" by (rule next_frame_wait_append)
  then show ?case using wait by (simp add: drain_wait) (rule drain_cong)
next
  case (error c e b)
  let ?c = "log_protocol_error None e (c\<lparr>cn_buffer := b\<rparr>)"
  have "next_frame (cn_buffer c @ y) = (Inl e, b @ y)" using error(1) by (simp add: next_frame_append)
  then have "drain wr peer (c\<lparr>cn_buffer := cn_buffer c @ y\<rparr>) =
      drain wr peer (?c\<lparr>cn_buffer := cn_buffer ?c @ y\<rparr>)"
    by (simp add: drain_error log_set_buffer)
  then show ?case using error by (simp add: drain_error)
next
  case (failed c f b c')
  have nf: "next_frame (cn_buffer c @ y) = (Inr (Some f), b @ y)"
    using failed(1) by (simp add: next_frame_append)
  have "on_frame wr peer f (c\<lparr>cn_buffer := b @ y\<rparr>) = (False, c'\<lparr>cn_buffer := b @ y\<rparr>)"
    using failed(2) on_frame_set_buffer [where c = "c\<lparr>cn_buffer := b\<rparr>" and x = "b @ y"] by simp
  then show ?case using failed nf on_frame_buffer [OF failed(2)] by (simp add: drain_frame)
next
  case (handled c f b c')
  have nf: "next_frame (cn_buffer c @ y) = (Inr (Some f), b @ y)"
    using handled(1) by (simp add: next_frame_append)
  have "on_frame wr peer f (c\<lparr>cn_buffer := b @ y\<rparr>) = (True, c'\<lparr>cn_buffer := b @ y\<rparr>)"
    using handled(2) on_frame_set_buffer [where c = "c\<lparr>cn_buffer := b\<rparr>" and x = "b @ y"] by simp
  then show ?case using handled nf on_frame_buffer [OF handled(2)] by (simp add: drain_frame)
qed

lemma next_frame_waits_again: "next_frame b = (Inr None, b') \<Longrightarrow> next_frame b' = (Inr None, b')"
  using next_frame_wait_append [of b b' "[]"] by simp

lemma drain_idem: "drain wr peer c = (True, c') \<Longrightarrow> drain wr peer c' = (True, c')"
proof (induction c rule: drain_induct [where wr = wr and peer = peer])
  case (wait c b)
  then have c': "c' = c\<lparr>cn_buffer := b\<rparr>" by (simp add: drain_wait)
  have "next_frame (cn_buffer c') = (Inr None, b)"
    using wait(1) c' by (simp add: next_frame_waits_again)
  then show ?case by (simp add: drain_wait c')
qed (auto simp: drain_error drain_frame)

text \<open>What the outside sees of a connection.\<close>

definition observed :: "outcome \<times> connection \<Rightarrow> outcome \<times> action list \<times> string option \<times> nat" where
  "observed r = (fst r, cn_trace (snd r), cn_device_id (snd r), cn_writes (snd r))"

lemma handle_reads_drain:
  assumes "drain wr peer c = (True, c)" and "[] \<notin> set xs"
  shows "case drain wr peer (c\<lparr>cn_buffer := cn_buffer c @ concat xs\<rparr>) of
      (True, c') \<Rightarrow> handle_reads wr peer (map Read xs @ rs) c = handle_reads wr peer rs c'
        \<and> drain wr peer c' = (True, c')
    | (False, c') \<Rightarrow> observed (handle_reads wr peer (map Read xs @ rs) c) = observed (Failed, c')"
  using assms
proof (induction xs arbitrary: c)
  case Nil
  then show ?case by simp
next
  case (Cons x xs)
  let ?c = "c\<lparr>cn_buffer := cn_buffer c @ x\<rparr>"
  have step: "drain wr peer (c\<lparr>cn_buffer := cn_buffer c @ concat (x # xs)\<rparr>) =
      (case drain wr peer ?c of
        (True, c') \<Rightarrow> drain wr peer (c'\<lparr>cn_buffer := cn_buffer c' @ concat xs\<rparr>)
      | (False, c') \<Rightarrow> (False, c'\<lparr>cn_buffer := cn_buffer c' @ concat xs\<rparr>))"
    using drain_append [of wr peer ?c "concat xs"] by simp
  obtain ok c' where d: "drain wr peer ?c = (ok, c')" by force
  have x: "x \<noteq> []" "[] \<notin> set xs" using Cons.prems by auto
  show ?case
  proof (cases ok)
    case True
    then have "drain wr peer ?c = (True, c')" using d by simp
    then have "drain wr peer c' = (True, c')" by (rule drain_idem)
    note ih = Cons.IH [OF this]
    have hr: "handle_reads wr peer (map Read (x # xs) @ rs) c =
        handle_reads wr peer (map Read xs @ rs) c'" using x d True by simp
    show ?thesis unfolding step hr using ih x(2) d True by simp
  next
    case False
    then show ?thesis using x d step by (simp add: observed_def)
  qed
qed

lemma new_connection_simps [simp]:
  "cn_buffer new_connection = []" "cn_device_id new_connection = None"
  "cn_writes new_connection = 0" "cn_trace new_connection = []"
  by (simp_all add: new_connection_def)

lemma drain_new: "drain wr peer new_connection = (True, new_connection)"
  by (subst drain.simps) (simp add: new_connection_def next_frame_short)

section \<open>What a connection does, as a function of the bytes received\<close>

text \<open>
  \<open>results_in\<close> lists what the decoder finds in a byte stream, errors included, and \<open>react\<close>
  what the handler does about them, with the device id it has reached and the number of writes
  made so far. They abstract from buffers and reads.
\<close>

function results_in :: "u8 list \<Rightarrow> (protocol_error + frame) list" where
  "results_in b =
     (case next_frame b of
        (Inr None, _) \<Rightarrow> []
      | (Inl e, b') \<Rightarrow> Inl e # results_in b'
      | (Inr (Some f), b') \<Rightarrow> Inr f # results_in b')"
  by pat_completeness auto
termination
proof (relation "measure length", goal_cases)
  case (2 b r b' e)
  then have "next_frame b = (Inl e, b')" by simp
  then show ?case using next_frame_error_shrinks by simp
next
  case (3 b r b' m f)
  then have "next_frame b = (Inr (Some f), b')" by simp
  from next_frame_Some_shrinks [OF this] show ?case by simp
qed auto

declare results_in.simps [simp del]

fun react ::
  "(nat \<Rightarrow> bool) \<Rightarrow> string \<Rightarrow> nat \<Rightarrow> string option \<Rightarrow> (protocol_error + frame) list \<Rightarrow> action list" where
  "react wr peer n dev [] = []"
| "react wr peer n dev (Inl e # rs) = Logged None e # react wr peer n dev rs"
| "react wr peer n dev (Inr f # rs) =
     (case decode_message f of
        Inr (Login p) \<Rightarrow>
          if wr n then Write (encode_ack PROTOCOL_LOGIN (serial f))
            # Emit (LoginEvent peer (lp_imei p) (serial f))
            # react wr peer (n + 1) (Some (lp_imei p)) rs
          else []
      | Inr (Heartbeat p) \<Rightarrow>
          if wr n then Write (encode_ack PROTOCOL_HEARTBEAT (serial f))
            # Emit (HeartbeatEvent peer dev p) # react wr peer (n + 1) dev rs
          else []
      | Inr (Location p) \<Rightarrow> Emit (LocationEvent peer dev p) # react wr peer n dev rs
      | Inr (Unknown p) \<Rightarrow> Ignored p # react wr peer n dev rs
      | Inl e \<Rightarrow> Logged (Some f) e # react wr peer n dev rs)"

lemma results_in_wait: "next_frame b = (Inr None, b') \<Longrightarrow> results_in b = []"
  by (subst results_in.simps) simp

lemma results_in_error: "next_frame b = (Inl e, b') \<Longrightarrow> results_in b = Inl e # results_in b'"
  by (subst results_in.simps) simp

lemma results_in_frame: "next_frame b = (Inr (Some f), b') \<Longrightarrow> results_in b = Inr f # results_in b'"
  by (subst results_in.simps) simp

lemmas on_frame_defs = on_frame_def write_all_def emit_def log_protocol_error_def Let_def

lemma drain_react:
  "cn_trace (snd (drain wr peer c)) =
     cn_trace c @ react wr peer (cn_writes c) (cn_device_id c) (results_in (cn_buffer c))"
proof (induction c rule: drain_induct [where wr = wr and peer = peer])
  case (wait c b)
  then show ?case by (simp add: drain_wait results_in_wait)
next
  case (error c e b)
  then show ?case
    by (simp add: drain_error results_in_error) (simp add: log_protocol_error_def emit_def)
next
  case (failed c f b c')
  then show ?case
    by (auto simp: drain_frame results_in_frame on_frame_defs
        split: sum.splits gt06_message.splits if_splits)
next
  case (handled c f b c')
  have d: "drain wr peer c = drain wr peer c'" using handled(1,2) by (simp add: drain_frame)
  have "cn_trace c' @ react wr peer (cn_writes c') (cn_device_id c') (results_in b) =
      cn_trace c @ react wr peer (cn_writes c) (cn_device_id c) (Inr f # results_in b)"
    using handled(2) by (auto simp: on_frame_defs split: sum.splits gt06_message.splits if_splits)
  then show ?case
    unfolding d handled(3) using on_frame_buffer [OF handled(2)] handled(1)
    by (simp add: results_in_frame del: react.simps)
qed

lemma handle_connection_drain:
  assumes "[] \<notin> set xs"
  shows "observed (handle_connection wr peer (map Read xs)) =
    observed (case drain wr peer (new_connection\<lparr>cn_buffer := concat xs\<rparr>) of
      (True, c') \<Rightarrow> (Open, c') | (False, c') \<Rightarrow> (Failed, c'))"
  using handle_reads_drain [OF drain_new assms, where rs = "[]" and wr = wr and peer = peer]
  by (auto simp: handle_connection_def split: prod.splits bool.splits)

lemma handle_connection_trace:
  assumes "[] \<notin> set xs"
  shows "cn_trace (snd (handle_connection wr peer (map Read xs))) =
    react wr peer 0 None (results_in (concat xs))"
proof -
  have "cn_trace (snd (handle_connection wr peer (map Read xs))) =
      cn_trace (snd (drain wr peer (new_connection\<lparr>cn_buffer := concat xs\<rparr>)))"
    using handle_connection_drain [OF assms, of wr peer]
    by (auto simp: observed_def split: prod.splits bool.splits)
  then show ?thesis by (simp add: drain_react)
qed

text \<open>The reads that matter: those before the end of the stream or a read error.\<close>

fun chunks :: "read_result list \<Rightarrow> u8 list list" where
  "chunks [] = []"
| "chunks (ReadError # rs) = []"
| "chunks (Read bytes # rs) = (if bytes = [] then [] else bytes # chunks rs)"

lemma chunks_nonempty: "[] \<notin> set (chunks rs)"
  by (induction rs rule: chunks.induct) auto

lemma handle_reads_chunks:
  "snd (handle_reads wr peer rs c) = snd (handle_reads wr peer (map Read (chunks rs)) c)"
  by (induction wr peer rs c rule: handle_reads.induct) (auto split: prod.splits bool.splits)

lemma handle_connection_trace_reads:
  "cn_trace (snd (handle_connection wr peer rs)) =
     react wr peer 0 None (results_in (concat (chunks rs)))"
  using handle_connection_trace [OF chunks_nonempty, of wr peer rs]
  by (simp add: handle_connection_def handle_reads_chunks [of wr peer rs])

section \<open>Disciplines of a trace\<close>

text \<open>Events carry the IMEI of the last login before them.\<close>

fun attributed :: "string option \<Rightarrow> action list \<Rightarrow> bool" where
  "attributed dev [] = True"
| "attributed dev (Emit (LoginEvent _ imei _) # as) = attributed (Some imei) as"
| "attributed dev (Emit (HeartbeatEvent _ d _) # as) = (d = dev \<and> attributed dev as)"
| "attributed dev (Emit (LocationEvent _ d _) # as) = (d = dev \<and> attributed dev as)"
| "attributed dev (_ # as) = attributed dev as"

lemma attributed_react: "attributed dev (react wr peer n dev rs)"
  by (induction wr peer n dev rs rule: react.induct)
    (auto split: sum.splits gt06_message.splits)

text \<open>
  Acknowledgements and the events they belong to come in pairs: nothing else is written, and no
  login or heartbeat event is handed on without its acknowledgement written just before.
\<close>

fun acknowledged :: "action list \<Rightarrow> bool" where
  "acknowledged (Write bytes # Emit (LoginEvent _ _ s) # as) =
     (bytes = encode_ack PROTOCOL_LOGIN s \<and> acknowledged as)"
| "acknowledged (Write bytes # Emit (HeartbeatEvent _ _ _) # as) =
     ((\<exists>s. bytes = encode_ack PROTOCOL_HEARTBEAT s) \<and> acknowledged as)"
| "acknowledged (Write _ # _) = False"
| "acknowledged (Emit (LoginEvent _ _ _) # _) = False"
| "acknowledged (Emit (HeartbeatEvent _ _ _) # _) = False"
| "acknowledged (_ # as) = acknowledged as"
| "acknowledged [] = True"

lemma acknowledged_react: "acknowledged (react wr peer n dev rs)"
  by (induction wr peer n dev rs rule: react.induct)
    (auto split: sum.splits gt06_message.splits)

text \<open>The bytes of each write, and the frames that ask for an acknowledgement.\<close>

definition writes :: "action list \<Rightarrow> u8 list list" where
  "writes trace = List.map_filter (\<lambda>a. case a of Write bytes \<Rightarrow> Some bytes | _ \<Rightarrow> None) trace"

definition asks_for_answer :: "frame \<Rightarrow> bool" where
  "asks_for_answer f \<longleftrightarrow> (\<exists>p. decode_message f = Inr (Login p)) \<or> (\<exists>p. decode_message f = Inr (Heartbeat p))"

fun frames_to_answer :: "(protocol_error + frame) list \<Rightarrow> frame list" where
  "frames_to_answer [] = []"
| "frames_to_answer (Inl e # rs) = frames_to_answer rs"
| "frames_to_answer (Inr f # rs) = (if asks_for_answer f then [f] else []) @ frames_to_answer rs"

lemma writes_simps [simp]:
  "writes [] = []" "writes (Write bytes # as) = bytes # writes as" "writes (Emit ev # as) = writes as"
  "writes (Ignored p # as) = writes as" "writes (Logged f e # as) = writes as"
  by (simp_all add: writes_def List.map_filter_simps)

lemma answered_protocol:
  "decode_message f = Inr (Login p) \<Longrightarrow> protocol_number f = PROTOCOL_LOGIN"
  "decode_message f = Inr (Heartbeat hb) \<Longrightarrow> protocol_number f = PROTOCOL_HEARTBEAT"
  by (auto simp: decode_message_def decode_login_def decode_heartbeat_def decode_location_def
      decode_extended_location_def decode_location_payload_def Let_def split: if_splits sum.splits prod.splits option.splits)

lemma writes_react:
  "writes (react wr peer n dev rs) = map (\<lambda>f. build_frame (protocol_number f) [] (serial f))
     (map snd (takeWhile (\<lambda>(i, f). wr i) (enumerate n (frames_to_answer rs))))"
  by (induction wr peer n dev rs rule: react.induct)
     (auto simp: asks_for_answer_def encode_ack_build_frame answered_protocol split: sum.splits gt06_message.splits)

lemma results_in_answers:
  "results_in (concat (map (\<lambda>f. build_frame (protocol_number f) [] (serial f)) fs))
     = map (\<lambda>f. Inr \<lparr>protocol_number = protocol_number f, payload = [], serial = serial f\<rparr>) fs"
proof (induction fs)
  case (Cons f fs)
  then show ?case by (simp add: results_in_frame [OF next_frame_encoded])
qed (simp add: results_in_wait next_frame_short)

section \<open>The buffer stays small\<close>

lemma frame_at_wait_short: "frame_at b = (Inr None, b') \<Longrightarrow> length b < 260"
proof -
  assume wait: "frame_at b = (Inr None, b')"
  have "unat (b ! 2) < 256" using unsigned_less [of "b ! 2", where 'a = nat] by simp
  with wait show ?thesis by (auto simp: frame_at_def Let_def split: if_splits)
qed

lemma next_frame_wait_short: "next_frame b = (Inr None, b') \<Longrightarrow> length b' < 260"
proof (induction b rule: next_frame.induct)
  case (1 b)
  then show ?case
    by (cases "length b < 2"; cases "take 2 b = START_BYTES")
      (auto simp: next_frame_steps dest: frame_at_wait_short frame_at_None)
qed

lemma drain_short: "drain wr peer c = (True, c') \<Longrightarrow> length (cn_buffer c') < 260"
  by (induction c rule: drain_induct [where wr = wr and peer = peer])
    (auto simp: drain_wait drain_error drain_frame dest: next_frame_wait_short)

lemma handle_reads_short:
  "length (cn_buffer c) < 260 \<Longrightarrow> fst (handle_reads wr peer rs c) \<noteq> Failed \<Longrightarrow>
   length (cn_buffer (snd (handle_reads wr peer rs c))) < 260"
proof (induction wr peer rs c rule: handle_reads.induct)
  case (3 wr peer bytes rs c)
  obtain ok c' where d: "drain wr peer (c\<lparr>cn_buffer := cn_buffer c @ bytes\<rparr>) = (ok, c')" by force
  show ?case
  proof (cases "bytes \<noteq> [] \<and> ok")
    case True
    then have d': "drain wr peer (c\<lparr>cn_buffer := cn_buffer c @ bytes\<rparr>) = (True, c')" using d by simp
    from drain_short [OF this] "3.IH" [OF _ d' [symmetric]] "3.prems" True show ?thesis
      by (simp add: d')
  next
    case False
    then show ?thesis using "3.prems" d by (cases "bytes = []") auto
  qed
qed auto

section \<open>Properties of the connection handler\<close>

text \<open>
  C4. The handler refines the abstract reaction to the received bytes: however the socket cuts the
  stream into reads and whichever write fails, what the connection writes, hands on and logs is
  exactly \<open>react\<close> applied to the frames and errors of the bytes received before the end of the
  stream, in their order.
\<close>

theorem handle_connection_refines:
  "cn_trace (snd (handle_connection wr peer reads)) =
     react wr peer 0 None (results_in (concat (chunks reads)))"
  by (rule handle_connection_trace_reads)

text \<open>
  C6. Independence of segmentation: two sequences of non-empty reads that carry the same bytes
  lead to the same outcome, the same actions in the same order, the same device id and the same
  number of writes, whatever comes after them.
\<close>

theorem handle_connection_segmentation:
  assumes "[] \<notin> set xs" and "[] \<notin> set ys" and "concat xs = concat ys"
  shows "observed (handle_connection wr peer (map Read xs @ rest)) =
    observed (handle_connection wr peer (map Read ys @ rest))"
  using handle_reads_drain [OF drain_new assms(1), where rs = rest and wr = wr and peer = peer]
    handle_reads_drain [OF drain_new assms(2), where rs = rest and wr = wr and peer = peer]
    assms(3)
  by (auto simp: handle_connection_def split: prod.splits bool.splits)

lemma handle_connection_segmentation_witness:
  "observed (handle_connection (\<lambda>_. True) ''p'' (map Read [[0x78], [0x78, 0x05]] @ [Read []])) =
    observed (handle_connection (\<lambda>_. True) ''p'' (map Read [[0x78, 0x78, 0x05]] @ [Read []]))"
  by (rule handle_connection_segmentation) simp_all

text \<open>
  Attribution: every heartbeat and location event carries the IMEI of the last login accepted
  on the same connection before it, and none while no login was accepted.
\<close>

theorem handle_connection_attributed:
  "attributed None (cn_trace (snd (handle_connection wr peer reads)))"
  by (simp add: handle_connection_trace_reads attributed_react)

text \<open>
  C8. Acknowledgement: the connection writes one acknowledgement for each login and heartbeat among
  the frames received, in their order and until the first write that fails, and nothing else; it is
  the frame with the protocol number and the serial of the frame that it answers and no payload, so
  that the decoder reads exactly these answers from the bytes written. Each is followed at once by the
  event of its frame, and no login or heartbeat event is handed on without it.
\<close>

theorem handle_connection_acknowledged:
  "let trace = cn_trace (snd (handle_connection wr peer reads));
       answered = map snd (takeWhile (\<lambda>(i, f). wr i)
         (enumerate 0 (frames_to_answer (results_in (concat (chunks reads))))))
   in writes trace = map (\<lambda>f. build_frame (protocol_number f) [] (serial f)) answered
    \<and> results_in (concat (writes trace))
        = map (\<lambda>f. Inr \<lparr>protocol_number = protocol_number f, payload = [], serial = serial f\<rparr>) answered
    \<and> acknowledged trace"
  unfolding Let_def handle_connection_trace_reads
  by (simp only: acknowledged_react writes_react results_in_answers)

text \<open>
  C11. Bounded memory: whatever a peer sends, fewer than 260 bytes stay in the buffer of a
  connection that waits for its next read.
\<close>

theorem handle_connection_buffer_bound:
  assumes "fst (handle_connection wr peer reads) = Open"
  shows "length (cn_buffer (snd (handle_connection wr peer reads))) < 260"
  using assms handle_reads_short [of new_connection wr peer reads]
  by (simp add: handle_connection_def)

lemma handle_connection_buffer_bound_witness:
  "length (cn_buffer (snd (handle_connection (\<lambda>_. True) ''p'' [Read [0x78]]))) < 260"
  by (rule handle_connection_buffer_bound)
    (simp add: handle_connection_def drain_wait next_frame_short)

end
