(* ===== verification/Devices.thy ===== *)
theory Devices
  imports Distance Connection
begin

text \<open>
  Persistence of device events, \<open>src/db.rs\<close>, and the event handlers of \<open>src/events.rs\<close>. A handler
  is a program on the world; its clock readings are arguments (\<open>now\<close> for the time of receipt,
  \<open>now1\<close> and \<open>now2\<close> for the two places where an invalid GPS timestamp is replaced by the
  current time). Log lines are values.
\<close>

section \<open>Conversions\<close>

definition packet_family :: "location_packet \<Rightarrow> string" where
  "packet_family packet = (if lc_extra_data packet = [] then ''location'' else ''extended_location'')"

definition extended_protocol_number :: "location_packet \<Rightarrow> int" where
  "extended_protocol_number packet =
     (if lc_extra_data packet = [] then uint PROTOCOL_LOCATION else uint PROTOCOL_EXTENDED_LOCATION)"

fun engine_status_as_str :: "engine_status \<Rightarrow> string" where
  "engine_status_as_str EngineOn = ''on''"
| "engine_status_as_str EngineOff = ''off''"
| "engine_status_as_str EngineUnknown = ''unknown''"

definition gps_timestamp_to_naive :: "int \<Rightarrow> gps_timestamp \<Rightarrow> int" where
  "gps_timestamp_to_naive now timestamp =
     (case Option.bind (from_ymd_opt (uint (ts_year timestamp)) (uint (ts_month timestamp)) (uint (ts_day timestamp)))
             (\<lambda>date. and_hms_opt date (uint (ts_hour timestamp)) (uint (ts_minute timestamp)) (uint (ts_second timestamp))) of
        Some t \<Rightarrow> t | None \<Rightarrow> now)"

text \<open>The values that the statements on a location and on a heartbeat bind.\<close>

definition location_values :: "int \<Rightarrow> location_packet \<Rightarrow> location_columns" where
  "location_values now packet =
     \<lparr>lk_gps_timestamp = gps_timestamp_to_naive now (lc_timestamp packet),
      lk_protocol_number = extended_protocol_number packet,
      lk_packet_family = packet_family packet,
      lk_latitude = lc_latitude packet,
      lk_longitude = lc_longitude packet,
      lk_speed_kph = uint (lc_speed_kph packet),
      lk_course = uint (lc_course packet),
      lk_course_status = uint (lc_course_status packet),
      lk_satellite_count = uint (lc_satellite_count packet),
      lk_gps_info_length = uint (lc_gps_info_length packet),
      lk_extra_data_hex = format_bytes_hex (lc_extra_data packet)\<rparr>"

definition heartbeat_values :: "bool option \<Rightarrow> heartbeat_packet \<Rightarrow> heartbeat_columns" where
  "heartbeat_values previous packet =
     (let flags = decode_terminal_info_flags (hb_terminal_info packet);
          effective_acc_high = resolve_acc_high (tf_acc_high flags) previous
      in \<lparr>hk_terminal_info_raw = uint (hb_terminal_info packet),
          hk_terminal_info_bits = tf_binary flags,
          hk_gps_tracking_on = tf_gps_tracking_on flags,
          hk_bit_1_guess = tf_bit_1_guess flags,
          hk_acc_high = effective_acc_high,
          hk_bit_3_guess = tf_bit_3_guess flags,
          hk_vibration_detected = tf_vibration_detected flags,
          hk_bit_4_guess = tf_bit_4_guess flags,
          hk_engine_status_guess = engine_status_as_str (resolve_engine_status_guess effective_acc_high),
          hk_voltage_level = uint (hb_voltage_level packet),
          hk_gsm_signal_strength = uint (hb_gsm_signal_strength packet),
          hk_alarm_language = uint (hb_alarm_language packet)\<rparr>)"

section \<open>Statements\<close>

definition new_device :: "int \<Rightarrow> string \<Rightarrow> int \<Rightarrow> string \<Rightarrow> device_row" where
  "new_device i imei now peer =
     \<lparr>dv_id = i, dv_imei = imei, dv_first_seen_at = now, dv_last_seen_at = now,
      dv_last_login_at = None, dv_last_heartbeat_at = None, dv_last_location_at = None,
      dv_latest_peer_addr = Some peer, dv_latest_protocol_number = None,
      dv_latest_packet_family = None, dv_latest_location = None, dv_latest_heartbeat = None,
      dv_updated_at = now, dv_sim_card = None, dv_sim_card_expiration_date = None,
      dv_referenced_by_customer_id = None, dv_pricing_tier = ''basic'', dv_shipment_fee_idr = None\<rparr>"

definition fresh_login :: "string \<Rightarrow> int \<times> int \<times> string \<Rightarrow> device_row" where
  "fresh_login imei = (\<lambda>(i, now, peer). (new_device i imei now peer)\<lparr>dv_last_login_at := Some now\<rparr>)"

definition merge_login :: "int \<times> int \<times> string \<Rightarrow> device_row \<Rightarrow> device_row" where
  "merge_login = (\<lambda>(i, now, peer) row.
     row\<lparr>dv_last_seen_at := now, dv_last_login_at := Some now, dv_latest_peer_addr := Some peer,
         dv_updated_at := now\<rparr>)"

definition fresh_seen :: "string \<Rightarrow> int \<times> int \<times> string \<Rightarrow> device_row" where
  "fresh_seen imei = (\<lambda>(i, now, peer). new_device i imei now peer)"

definition merge_seen :: "int \<times> int \<times> string \<Rightarrow> device_row \<Rightarrow> device_row" where
  "merge_seen = (\<lambda>(i, now, peer) row.
     row\<lparr>dv_last_seen_at := now, dv_latest_peer_addr := Some peer, dv_updated_at := now\<rparr>)"

text \<open>\<open>RETURNING id\<close>: the identifier of the row with the key, after the upsert.\<close>

definition returning_id :: "string \<Rightarrow> device_row list \<Rightarrow> int" where
  "returning_id imei rows = (case lookup dv_imei imei rows of Some row \<Rightarrow> dv_id row | None \<Rightarrow> 0)"

definition upsert_device_login :: "string \<Rightarrow> string \<Rightarrow> int \<Rightarrow> ('z store_scheme, db_error, int) io" where
  "upsert_device_login imei peer now =
     query (\<lambda>i s. let rows = upsert dv_imei imei (fresh_login imei (i, now, peer))
                          (merge_login (i, now, peer)) (devices s)
                  in Inr (returning_id imei rows, s\<lparr>devices := rows\<rparr>))"

definition upsert_device_last_seen :: "string \<Rightarrow> string \<Rightarrow> int \<Rightarrow> ('z store_scheme, db_error, int) io" where
  "upsert_device_last_seen imei peer now =
     query (\<lambda>i s. let rows = upsert dv_imei imei (fresh_seen imei (i, now, peer))
                          (merge_seen (i, now, peer)) (devices s)
                  in Inr (returning_id imei rows, s\<lparr>devices := rows\<rparr>))"

definition insert_location ::
  "int \<Rightarrow> string \<Rightarrow> string \<Rightarrow> int \<Rightarrow> int \<Rightarrow> location_packet \<Rightarrow> ('z store_scheme, db_error, int) io" where
  "insert_location device_pk imei peer received now1 packet =
     query (\<lambda>i s. if device_pk \<notin> set (map dv_id (devices s)) then Inl ForeignKeyViolation
       else Inr (i, s\<lparr>device_locations := device_locations s @
              [\<lparr>lr_id = i, lr_device_id = device_pk, lr_imei = imei, lr_server_received_at = received,
                lr_columns = location_values now1 packet, lr_peer_addr = peer\<rparr>]\<rparr>))"

definition update_device_latest_location ::
  "int \<Rightarrow> string \<Rightarrow> int \<Rightarrow> int \<Rightarrow> location_packet \<Rightarrow> ('z store_scheme, db_error, unit) io" where
  "update_device_latest_location device_pk peer received now2 packet =
     execute (\<lambda>s. s\<lparr>devices := update_where (\<lambda>r. dv_id r = device_pk)
       (\<lambda>r. r\<lparr>dv_last_seen_at := received, dv_last_location_at := Some received,
              dv_latest_peer_addr := Some peer,
              dv_latest_protocol_number := Some (extended_protocol_number packet),
              dv_latest_packet_family := Some (packet_family packet),
              dv_latest_location := Some (location_values now2 packet),
              dv_updated_at := received\<rparr>) (devices s)\<rparr>)"

definition fetch_previous_acc_high :: "string \<Rightarrow> ('z store_scheme, db_error, bool option) io" where
  "fetch_previous_acc_high imei =
     select (\<lambda>s. Option.bind (latest_by hr_id (filter (\<lambda>r. hr_imei r = imei \<and> hk_acc_high (hr_columns r) \<noteq> None)
                   (device_heartbeats s))) (\<lambda>r. hk_acc_high (hr_columns r)))"

definition insert_heartbeat ::
  "int \<Rightarrow> string \<Rightarrow> string \<Rightarrow> int \<Rightarrow> heartbeat_packet \<Rightarrow> ('z store_scheme, db_error, unit) io" where
  "insert_heartbeat device_pk imei peer received packet =
     io_bind (fetch_previous_acc_high imei) (\<lambda>previous.
     query (\<lambda>i s. if device_pk \<notin> set (map dv_id (devices s)) then Inl ForeignKeyViolation
       else Inr ((), s\<lparr>device_heartbeats := device_heartbeats s @
              [\<lparr>hr_id = i, hr_device_id = device_pk, hr_imei = imei, hr_server_received_at = received,
                hr_protocol_number = uint PROTOCOL_HEARTBEAT, hr_peer_addr = peer,
                hr_columns = heartbeat_values previous packet\<rparr>]\<rparr>)))"

definition update_device_latest_heartbeat ::
  "int \<Rightarrow> string \<Rightarrow> string \<Rightarrow> int \<Rightarrow> heartbeat_packet \<Rightarrow> ('z store_scheme, db_error, unit) io" where
  "update_device_latest_heartbeat device_pk imei peer received packet =
     io_bind (fetch_previous_acc_high imei) (\<lambda>previous.
     execute (\<lambda>s. s\<lparr>devices := update_where (\<lambda>r. dv_id r = device_pk)
       (\<lambda>r. r\<lparr>dv_last_seen_at := received, dv_last_heartbeat_at := Some received,
              dv_latest_peer_addr := Some peer,
              dv_latest_protocol_number := Some (uint PROTOCOL_HEARTBEAT),
              dv_latest_packet_family := Some ''heartbeat'',
              dv_latest_heartbeat := Some (heartbeat_values previous packet),
              dv_updated_at := received\<rparr>) (devices s)\<rparr>))"

section \<open>Persisting an event\<close>

definition location_point :: "int \<Rightarrow> int \<Rightarrow> location_packet \<Rightarrow> distance_location_point" where
  "location_point location_id received packet =
     \<lparr>dp_id = location_id, dp_server_received_at = received, dp_latitude = lc_latitude packet,
      dp_longitude = lc_longitude packet, dp_speed_kph = uint (lc_speed_kph packet)\<rparr>"

definition persist_location ::
  "libm \<Rightarrow> int \<Rightarrow> int \<Rightarrow> int \<Rightarrow> string \<Rightarrow> string \<Rightarrow> location_packet \<Rightarrow> ('z store_scheme, db_error, unit) io" where
  "persist_location lm now now1 now2 peer imei packet =
     io_bind (upsert_device_last_seen imei peer now) (\<lambda>device_pk.
     io_bind (insert_location device_pk imei peer now now1 packet) (\<lambda>location_id.
     io_bind (process_location_distance lm imei (location_point location_id now packet)) (\<lambda>_.
     update_device_latest_location device_pk peer now now2 packet)))"

definition persist_heartbeat ::
  "int \<Rightarrow> string \<Rightarrow> string \<Rightarrow> heartbeat_packet \<Rightarrow> ('z store_scheme, db_error, unit) io" where
  "persist_heartbeat now peer imei packet =
     io_bind (upsert_device_last_seen imei peer now) (\<lambda>device_pk.
     io_bind (insert_heartbeat device_pk imei peer now packet) (\<lambda>_.
     update_device_latest_heartbeat device_pk imei peer now packet))"

fun persist_event ::
  "libm \<Rightarrow> int \<Rightarrow> int \<Rightarrow> int \<Rightarrow> device_event \<Rightarrow> ('z store_scheme, db_error, unit) io" where
  "persist_event lm now now1 now2 (LoginEvent peer imei _) =
     transaction (io_bind (upsert_device_login imei peer now) (\<lambda>_. io_return ()))"
| "persist_event lm now now1 now2 (HeartbeatEvent peer device_id packet) =
     (case device_id of None \<Rightarrow> io_return ()
      | Some imei \<Rightarrow> transaction (persist_heartbeat now peer imei packet))"
| "persist_event lm now now1 now2 (LocationEvent peer device_id packet) =
     (case device_id of None \<Rightarrow> io_return ()
      | Some imei \<Rightarrow> transaction (persist_location lm now now1 now2 peer imei packet))"

section \<open>Event handlers\<close>

text \<open>
  \<open>DatabaseEventHandler\<close> logs a failure and goes on; \<open>LoggingEventHandler\<close> reads the previous ACC
  state for its log line and ignores a failed read; the composite runs its handlers in order on
  copies of the event. A handler returns the lines it has logged.
\<close>

datatype log_line =
    PersistFailed db_error
  | LoginLine string string u16
  | HeartbeatLine string "string option" heartbeat_packet terminal_info_flags "bool option" string
  | LocationLine string "string option" string location_packet string

type_synonym ('s, 'e) handler = "device_event \<Rightarrow> ('s, 'e, log_line list) io"

definition database_handle_event ::
  "libm \<Rightarrow> int \<Rightarrow> int \<Rightarrow> int \<Rightarrow> ('z store_scheme, db_error) handler" where
  "database_handle_event lm now now1 now2 event =
     io_try (persist_event lm now now1 now2 event)
       (\<lambda>r. io_return (case r of Inl e \<Rightarrow> [PersistFailed e] | Inr _ \<Rightarrow> []))"

definition format_gps_timestamp :: "gps_timestamp \<Rightarrow> string" where
  "format_gps_timestamp t =
     show_padded 4 (unat (ts_year t)) @ ''-'' @ show_padded 2 (unat (ts_month t)) @ ''-''
     @ show_padded 2 (unat (ts_day t)) @ '' '' @ show_padded 2 (unat (ts_hour t)) @ '':''
     @ show_padded 2 (unat (ts_minute t)) @ '':'' @ show_padded 2 (unat (ts_second t))"

fun logging_handle_event :: "bool \<Rightarrow> ('z store_scheme, db_error) handler" where
  "logging_handle_event has_database (LoginEvent peer imei ser) = io_return [LoginLine peer imei ser]"
| "logging_handle_event has_database (HeartbeatEvent peer device_id packet) =
     (let flags = decode_terminal_info_flags (hb_terminal_info packet) in
      io_try (case device_id of
                Some imei \<Rightarrow> if has_database then fetch_previous_acc_high imei else io_return None
              | None \<Rightarrow> io_return None)
        (\<lambda>r. let previous = (case r of Inr p \<Rightarrow> p | Inl _ \<Rightarrow> None);
                  effective_acc_high = resolve_acc_high (tf_acc_high flags) previous;
                  status = engine_status_as_str (resolve_engine_status_guess effective_acc_high)
              in io_return [HeartbeatLine peer device_id packet flags effective_acc_high status]))"
| "logging_handle_event has_database (LocationEvent peer device_id packet) =
     io_return [LocationLine peer device_id (format_gps_timestamp (lc_timestamp packet)) packet
                  (format_bytes_hex (lc_extra_data packet))]"

definition composite_handle_event :: "('s, 'e) handler list \<Rightarrow> ('s, 'e) handler" where
  "composite_handle_event handlers event =
     io_bind (io_map_list handlers (\<lambda>h. h event)) (\<lambda>ls. io_return (concat ls))"

definition build_event_handler ::
  "bool \<Rightarrow> libm \<Rightarrow> int \<Rightarrow> int \<Rightarrow> int \<Rightarrow> ('z store_scheme, db_error) handler" where
  "build_event_handler database_configured lm now now1 now2 =
     (if database_configured
      then composite_handle_event [logging_handle_event True, database_handle_event lm now now1 now2]
      else logging_handle_event False)"

section \<open>The contract of an event handler\<close>

text \<open>A handler never fails towards the connection and keeps an invariant of the database.\<close>

locale event_handler =
  fixes I :: "int \<Rightarrow> 's \<Rightarrow> bool" and handle :: "('s, 'e) handler"
  assumes handles: "\<exists>ls w'. handle event w = (Inr ls, w')"
    and keeps_invariant: "keeps I (handle event)"
begin

lemma not_stuck: "fst (handle event w) \<noteq> Inl e"
  using handles [of event w] by auto

lemma run_events_keeps: "keeps I (io_for events (\<lambda>ev. io_bind (handle ev) (\<lambda>_. io_return ())))"
  by (intro io_intros keeps_invariant)

lemma run_events_total: "\<exists>w'. io_for events (\<lambda>ev. io_bind (handle ev) (\<lambda>_. io_return ())) w = (Inr (), w')"
proof (induction events arbitrary: w)
  case (Cons ev evs)
  obtain ls w1 where "handle ev w = (Inr ls, w1)" using handles by blast
  with Cons.IH [of w1] show ?case by (simp add: io_bind_def io_return_def)
qed (simp add: io_return_def)

end

lemma map_list_total:
  "(\<And>h w. h \<in> set hs \<Longrightarrow> \<exists>x w'. f h w = (Inr x, w')) \<Longrightarrow> \<exists>xs w'. io_map_list hs f w = (Inr xs, w')"
proof (induction hs arbitrary: w)
  case (Cons h hs)
  obtain x w1 where 1: "f h w = (Inr x, w1)" using Cons.prems by (meson list.set_intros(1))
  obtain xs w2 where "io_map_list hs f w1 = (Inr xs, w2)" using Cons.IH Cons.prems by (meson list.set_intros(2))
  with 1 show ?case by (simp add: io_bind_def io_return_def)
qed (simp add: io_return_def)

lemma composite_is_handler:
  assumes "\<And>h. h \<in> set handlers \<Longrightarrow> event_handler I h"
  shows "event_handler I (composite_handle_event handlers)"
proof
  fix ev w
  have "\<exists>ls w'. io_map_list handlers (\<lambda>h. h ev) w = (Inr ls, w')"
    by (rule map_list_total, rule event_handler.handles, rule assms)
  then show "\<exists>ls w'. composite_handle_event handlers ev w = (Inr ls, w')"
    by (auto simp: composite_handle_event_def io_bind_def io_return_def)
next
  fix ev
  show "keeps I (composite_handle_event handlers ev)"
    unfolding composite_handle_event_def
    by (intro io_intros event_handler.keeps_invariant assms)
qed

section \<open>Well-formedness of the device tables\<close>

definition devices_ok :: "int \<Rightarrow> 'z store_scheme \<Rightarrow> bool" where
  "devices_ok n s \<longleftrightarrow> distinct (map dv_imei (devices s)) \<and> distinct (map dv_id (devices s))
     \<and> (\<forall>d \<in> set (devices s). dv_id d < n)"

definition owned :: "'z store_scheme \<Rightarrow> int \<Rightarrow> string \<Rightarrow> bool" where
  "owned s i imei \<longleftrightarrow> (\<exists>d \<in> set (devices s). dv_id d = i \<and> dv_imei d = imei)"

definition history_ok :: "int \<Rightarrow> 'z store_scheme \<Rightarrow> bool" where
  "history_ok n s \<longleftrightarrow> sorted_wrt (<) (map lr_id (device_locations s))
     \<and> (\<forall>l \<in> set (device_locations s). lr_id l < n \<and> owned s (lr_device_id l) (lr_imei l))
     \<and> sorted_wrt (<) (map hr_id (device_heartbeats s))
     \<and> (\<forall>h \<in> set (device_heartbeats s). hr_id h < n \<and> owned s (hr_device_id h) (hr_imei h))"

definition synced :: "libm \<Rightarrow> 'z store_scheme \<Rightarrow> bool" where
  "synced lm s \<longleftrightarrow> (\<forall>imei. distances imei s = replay lm imei (stored_points imei s))"

definition tracker_ok :: "libm \<Rightarrow> int \<Rightarrow> 'z store_scheme \<Rightarrow> bool" where
  "tracker_ok lm n s \<longleftrightarrow> devices_ok n s \<and> history_ok n s \<and> synced lm s"

section \<open>Interpretations of the device upserts\<close>

interpretation login: upsert_contract dv_imei fresh_login merge_login
  by unfold_locales (auto simp: fresh_login_def merge_login_def new_device_def split: prod.splits)

interpretation seen: upsert_contract dv_imei fresh_seen merge_seen
  by unfold_locales (auto simp: fresh_seen_def merge_seen_def new_device_def split: prod.splits)

section \<open>The statements keep the tables well formed\<close>

lemma devices_ok_mono: "devices_ok m s \<Longrightarrow> m \<le> n \<Longrightarrow> devices_ok n s"
  by (auto simp: devices_ok_def)

lemma history_ok_mono: "history_ok m s \<Longrightarrow> m \<le> n \<Longrightarrow> history_ok n s"
  by (auto simp: history_ok_def)

definition base_ok :: "int \<Rightarrow> 'z store_scheme \<Rightarrow> bool" where
  "base_ok n s \<longleftrightarrow> devices_ok n s \<and> history_ok n s"

lemma persistent_base_ok: "persistent base_ok"
  by (auto simp: persistent_def base_ok_def intro: devices_ok_mono history_ok_mono)

lemma persistent_tracker_ok: "persistent (tracker_ok lm)"
  by (auto simp: persistent_def tracker_ok_def intro: devices_ok_mono history_ok_mono)

text \<open>What every device statement leaves: the identifiers and IMEIs of the rows that were there.\<close>

lemma owned_upsert:
  assumes "\<And>r. dv_imei (merge r) = dv_imei r \<and> dv_id (merge r) = dv_id r" and "owned s i imei"
  shows "owned (s\<lparr>devices := upsert dv_imei k new merge (devices s)\<rparr>) i imei"
  using assms unfolding owned_def upsert_def set_update_where
  by (auto simp: set_update_where) metis

lemma history_ok_devices:
  assumes "history_ok n s" and "\<And>i imei. owned s i imei \<Longrightarrow> owned (s\<lparr>devices := ds\<rparr>) i imei"
  shows "history_ok n (s\<lparr>devices := ds\<rparr>)"
  using assms by (auto simp: history_ok_def)

lemma devices_ok_alt:
  "devices_ok n s \<longleftrightarrow> distinct (map dv_imei (devices s)) \<and> distinct (map dv_id (devices s))
     \<and> (\<forall>i \<in> set (map dv_id (devices s)). i < n)"
  by (auto simp: devices_ok_def)

lemma devices_ok_upsert:
  assumes "\<And>r. dv_imei (merge r) = dv_imei r \<and> dv_id (merge r) = dv_id r"
    and "dv_imei new = k" "dv_id new = n" and "devices_ok n s"
  shows "devices_ok (n + 1) (s\<lparr>devices := upsert dv_imei k new merge (devices s)\<rparr>)"
proof -
  have "map dv_imei (upsert dv_imei k new merge (devices s)) =
      (if k \<in> set (map dv_imei (devices s)) then map dv_imei (devices s) else map dv_imei (devices s) @ [k])"
    using assms(1,2) by (simp add: upsert_def map_update_where)
  moreover have "map dv_id (upsert dv_imei k new merge (devices s)) =
      (if k \<in> set (map dv_imei (devices s)) then map dv_id (devices s) else map dv_id (devices s) @ [n])"
    using assms(1,3) by (simp add: upsert_def map_update_where)
  ultimately show ?thesis using assms(4) unfolding devices_ok_alt
    by (cases "k \<in> set (map dv_imei (devices s))") (auto simp del: set_map)
qed

lemma owned_returning:
  assumes "upsert_contract dv_imei fresh merge"
  shows "owned (s\<lparr>devices := upsert dv_imei imei (fresh imei a) (merge a) (devices s)\<rparr>)
    (returning_id imei (upsert dv_imei imei (fresh imei a) (merge a) (devices s))) imei"
proof -
  let ?rows = "upsert dv_imei imei (fresh imei a) (merge a) (devices s)"
  obtain row where "lookup dv_imei imei ?rows = Some row"
    using upsert_contract.lookup_same [OF assms] by blast
  from this lookup_SomeD [OF this] show ?thesis by (auto simp: owned_def returning_id_def)
qed

lemma base_ok_upsert:
  assumes m: "\<And>r. dv_imei (merge r) = dv_imei r \<and> dv_id (merge r) = dv_id r"
    and "dv_imei new = k" "dv_id new = n" and "base_ok n s"
  shows "base_ok (n + 1) (s\<lparr>devices := upsert dv_imei k new merge (devices s)\<rparr>)"
proof -
  have "devices_ok n s" "history_ok (n + 1) s"
    using assms(4) history_ok_mono [of n s "n + 1"] by (simp_all add: base_ok_def)
  then show ?thesis unfolding base_ok_def
    by (intro conjI devices_ok_upsert history_ok_devices owned_upsert m assms(2,3))
qed

lemma base_ok_seen:
  "base_ok n s \<Longrightarrow> base_ok (n + 1) (s\<lparr>devices := upsert dv_imei imei (fresh_seen imei (n, now, peer))
      (merge_seen (n, now, peer)) (devices s)\<rparr>)"
  by (intro base_ok_upsert) (auto simp: merge_seen_def fresh_seen_def new_device_def)

lemma base_ok_login:
  "base_ok n s \<Longrightarrow> base_ok (n + 1) (s\<lparr>devices := upsert dv_imei imei (fresh_login imei (n, now, peer))
      (merge_login (n, now, peer)) (devices s)\<rparr>)"
  by (intro base_ok_upsert) (auto simp: merge_login_def fresh_login_def new_device_def)

lemma base_ok_update_device:
  assumes "base_ok n s" and f: "\<And>r. dv_imei (f r) = dv_imei r \<and> dv_id (f r) = dv_id r"
  shows "base_ok n (s\<lparr>devices := update_where p f (devices s)\<rparr>)"
proof -
  have maps: "map dv_imei (update_where p f (devices s)) = map dv_imei (devices s)"
    "map dv_id (update_where p f (devices s)) = map dv_id (devices s)"
    using f by (simp_all add: map_update_where)
  have "devices_ok n (s\<lparr>devices := update_where p f (devices s)\<rparr>)"
    using assms(1) by (simp add: base_ok_def devices_ok_alt maps)
  moreover have "owned (s\<lparr>devices := update_where p f (devices s)\<rparr>) i imei" if "owned s i imei" for i imei
    using that f unfolding owned_def set_update_where by (auto simp: set_update_where) metis
  then have "history_ok n (s\<lparr>devices := update_where p f (devices s)\<rparr>)"
    using assms(1) by (intro history_ok_devices) (auto simp: base_ok_def)
  ultimately show ?thesis by (simp add: base_ok_def)
qed

lemma base_ok_location:
  assumes "base_ok n s" and "lr_id row = n" and "owned s (lr_device_id row) (lr_imei row)"
  shows "base_ok (n + 1) (s\<lparr>device_locations := device_locations s @ [row]\<rparr>)"
  using assms
  by (force simp: base_ok_def devices_ok_def history_ok_def owned_def sorted_wrt_append)

lemma base_ok_heartbeat:
  assumes "base_ok n s" and "hr_id row = n" and "owned s (hr_device_id row) (hr_imei row)"
  shows "base_ok (n + 1) (s\<lparr>device_heartbeats := device_heartbeats s @ [row]\<rparr>)"
  using assms
  by (force simp: base_ok_def devices_ok_def history_ok_def owned_def sorted_wrt_append)

lemma base_ok_same_inputs: "base_ok n s \<Longrightarrow> same_inputs s t \<Longrightarrow> base_ok n t"
  by (simp add: base_ok_def devices_ok_def history_ok_def same_inputs_def owned_def)

lemma distances_frame:
  "distances j (s\<lparr>devices := ds\<rparr>) = distances j s"
  "distances j (s\<lparr>device_locations := ls\<rparr>) = distances j s"
  "distances j (s\<lparr>device_heartbeats := hs\<rparr>) = distances j s"
  by (simp_all add: distances_def)

lemma points_frame:
  "stored_points j (s\<lparr>devices := ds\<rparr>) = stored_points j s"
  "stored_points j (s\<lparr>device_heartbeats := hs\<rparr>) = stored_points j s"
  by (simp_all add: stored_points_def)

lemma sort_key_increasing: "sorted_wrt (<) (map f xs) \<Longrightarrow> sort_key f xs = xs" for f :: "'r \<Rightarrow> int"
proof (induction xs)
  case (Cons x xs)
  then have "insort_key f x xs = x # xs" by (intro insort_is_Cons) (auto simp: less_imp_le)
  with Cons show ?case by simp
qed simp

lemma sorted_wrt_filter_map: "sorted_wrt (<) (map f xs) \<Longrightarrow> sorted_wrt (<) (map f (filter p xs))" for f :: "'r \<Rightarrow> int"
  by (induction xs) auto

lemma stored_points_in_order:
  assumes "sorted_wrt (<) (map lr_id (device_locations s))"
  shows "stored_points imei s = map point_of_location (filter (\<lambda>r. lr_imei r = imei) (device_locations s))"
  using assms unfolding stored_points_def order_by_def
  by (simp add: sort_key_increasing sorted_wrt_filter_map)

lemma stored_points_append:
  assumes "base_ok n s" and "lr_id row = n" and "owned s (lr_device_id row) (lr_imei row)"
  shows "stored_points j (s\<lparr>device_locations := device_locations s @ [row]\<rparr>) =
    stored_points j s @ (if lr_imei row = j then [point_of_location row] else [])"
proof -
  have "sorted_wrt (<) (map lr_id (device_locations s))"
    "sorted_wrt (<) (map lr_id (device_locations s @ [row]))"
    using assms(1) base_ok_location [OF assms] by (auto simp: base_ok_def history_ok_def)
  then show ?thesis by (simp add: stored_points_in_order)
qed

section \<open>A successful run of each branch\<close>

lemma synced_frame:
  "synced lm (s\<lparr>devices := ds\<rparr>) = synced lm s"
  "synced lm (s\<lparr>device_heartbeats := hs\<rparr>) = synced lm s"
  by (simp_all add: synced_def distances_frame points_frame)

lemma upsert_seen_ok:
  assumes "upsert_device_last_seen imei peer now w = (Inr pk, w')" and "base_ok (wseq w) (wdb w)"
  shows "base_ok (wseq w') (wdb w') \<and> owned (wdb w') pk imei
    \<and> (\<exists>ds. wdb w' = (wdb w)\<lparr>devices := ds\<rparr>)"
proof -
  let ?ds = "upsert dv_imei imei (fresh_seen imei (wseq w, now, peer)) (merge_seen (wseq w, now, peer))
      (devices (wdb w))"
  have w': "wdb w' = (wdb w)\<lparr>devices := ?ds\<rparr>" and pk: "pk = returning_id imei ?ds"
    using query_ok [OF assms(1) [unfolded upsert_device_last_seen_def]] by (auto simp: Let_def)
  have "wseq w' = wseq w + 1"
    using query_ok_seq [OF assms(1) [unfolded upsert_device_last_seen_def]] .
  then show ?thesis
    using base_ok_seen [OF assms(2)] owned_returning [OF seen.upsert_contract_axioms] by (auto simp: w' pk)
qed

lemma insert_location_ok:
  assumes "insert_location pk imei peer received now1 packet w = (Inr i, w')"
    and "base_ok (wseq w) (wdb w)" and "owned (wdb w) pk imei"
  shows "base_ok (wseq w') (wdb w') \<and> i = wseq w \<and> owned (wdb w') pk imei
    \<and> wdb w' = (wdb w)\<lparr>device_locations := device_locations (wdb w) @
        [\<lparr>lr_id = i, lr_device_id = pk, lr_imei = imei, lr_server_received_at = received,
          lr_columns = location_values now1 packet, lr_peer_addr = peer\<rparr>]\<rparr>"
proof -
  have w': "i = wseq w" "wdb w' = (wdb w)\<lparr>device_locations := device_locations (wdb w) @
        [\<lparr>lr_id = i, lr_device_id = pk, lr_imei = imei, lr_server_received_at = received,
          lr_columns = location_values now1 packet, lr_peer_addr = peer\<rparr>]\<rparr>"
    using query_ok [OF assms(1) [unfolded insert_location_def]] by (auto split: if_splits)
  have "wseq w' = wseq w + 1" using query_ok_seq [OF assms(1) [unfolded insert_location_def]] .
  then show ?thesis
    using base_ok_location [OF assms(2), of "\<lparr>lr_id = i, lr_device_id = pk, lr_imei = imei,
        lr_server_received_at = received, lr_columns = location_values now1 packet, lr_peer_addr = peer\<rparr>"]
      assms(3) by (simp add: w' owned_def)
qed

lemma advances_select [io_intros]: "advances (select f)"
  by (rule keeps_select) (simp add: persistent_def)

lemma advances_query [io_intros]: "advances (query f)"
  by (rule keeps_query) (simp_all add: persistent_def)

lemma advances_execute [io_intros]: "advances (execute f)"
  by (rule keeps_execute) (simp_all add: persistent_def)

lemma advances_process [io_intros]: "advances (process_location_distance lm imei p)"
  unfolding process_alt by (intro io_intros)

lemma advances_statements [io_intros]:
  "advances (upsert_device_last_seen imei peer now)" "advances (upsert_device_login imei peer now)"
  "advances (insert_location pk imei peer t now1 packet)" "advances (fetch_previous_acc_high imei)"
  "advances (insert_heartbeat pk imei peer t hb)" "advances (update_device_latest_location pk peer t now2 packet)"
  "advances (update_device_latest_heartbeat pk imei peer t hb)"
  unfolding upsert_device_last_seen_def upsert_device_login_def insert_location_def
    fetch_previous_acc_high_def insert_heartbeat_def update_device_latest_location_def
    update_device_latest_heartbeat_def
  by (intro io_intros)+

lemma process_ok_base:
  assumes "process_location_distance lm imei p w = (Inr x, w')" and "base_ok (wseq w) (wdb w)"
  shows "base_ok (wseq w') (wdb w')"
proof -
  have "wseq w \<le> wseq w'" using keeps_seq [OF advances_process, of w lm imei p] assms(1) by simp
  moreover have "base_ok (wseq w) (wdb w')"
    using base_ok_same_inputs [OF assms(2)] process_refines [OF assms(1)] by blast
  ultimately show ?thesis using persistentD [OF persistent_base_ok] by blast
qed

lemma update_location_ok:
  assumes "update_device_latest_location pk peer t now2 packet w = (Inr u, w')" and "base_ok (wseq w) (wdb w)"
  shows "base_ok (wseq w') (wdb w') \<and> (\<exists>ds. wdb w' = (wdb w)\<lparr>devices := ds\<rparr>)"
proof -
  note e = assms(1) [unfolded update_device_latest_location_def]
  have "wseq w' = wseq w + 1" using query_ok_seq [OF e [unfolded execute_def]] .
  moreover from execute_ok [OF e] base_ok_update_device [OF assms(2)]
  have "base_ok (wseq w) (wdb w')" by simp
  ultimately show ?thesis using persistentD [OF persistent_base_ok] execute_ok [OF e] by force
qed

lemma persist_location_tracks:
  assumes "tracker_ok lm (wseq w) (wdb w)"
    and "persist_location lm now now1 now2 peer imei packet w = (Inr u, w')"
  shows "tracker_ok lm (wseq w') (wdb w')"
proof -
  have b: "base_ok (wseq w) (wdb w)" and sy: "synced lm (wdb w)"
    using assms(1) by (simp_all add: tracker_ok_def base_ok_def)
  from assms(2) obtain pk w1 i w2 x w3 where
    1: "upsert_device_last_seen imei peer now w = (Inr pk, w1)" and
    2: "insert_location pk imei peer now now1 packet w1 = (Inr i, w2)" and
    3: "process_location_distance lm imei (location_point i now packet) w2 = (Inr x, w3)" and
    4: "update_device_latest_location pk peer now now2 packet w3 = (Inr u, w')"
    unfolding persist_location_def bind_ok by blast
  note s1 = upsert_seen_ok [OF 1 b]
  then have b1: "base_ok (wseq w1) (wdb w1)" and o1: "owned (wdb w1) pk imei" by simp_all
  have sy1: "synced lm (wdb w1)" using s1 sy by (auto simp: synced_frame)
  define row where "row = \<lparr>lr_id = i, lr_device_id = pk, lr_imei = imei, lr_server_received_at = now,
        lr_columns = location_values now1 packet, lr_peer_addr = peer\<rparr>"
  have s2: "base_ok (wseq w2) (wdb w2)" "i = wseq w1"
    "wdb w2 = (wdb w1)\<lparr>device_locations := device_locations (wdb w1) @ [row]\<rparr>"
    using insert_location_ok [OF 2 b1 o1] unfolding row_def by blast+
  have point: "point_of_location row = location_point i now packet"
    by (simp add: row_def point_of_location_def location_point_def location_values_def)
  have points: "stored_points j (wdb w2) =
      stored_points j (wdb w1) @ (if imei = j then [location_point i now packet] else [])" for j
    using stored_points_append [OF b1, of row j] s2(2) o1 unfolding s2(3) point [symmetric]
    by (simp add: row_def)
  have dist: "distances j (wdb w2) = distances j (wdb w1)" for j
    by (simp add: s2(3) distances_frame)
  have "synced lm (wdb w3)" unfolding synced_def
  proof
    fix j
    have "stored_points j (wdb w3) = stored_points j (wdb w2)"
      using process_refines [OF 3] by (simp add: same_inputs_points)
    moreover have "distances j (wdb w3) =
        (if j = imei then distance_step lm imei (distances imei (wdb w2)) (location_point i now packet)
         else distances j (wdb w2))"
      using process_refines [OF 3] by auto
    moreover have "distances j (wdb w1) = replay lm j (stored_points j (wdb w1))"
      using sy1 by (simp add: synced_def)
    ultimately show "distances j (wdb w3) = replay lm j (stored_points j (wdb w3))"
      by (auto simp: points dist replay_def)
  qed
  moreover have b3: "base_ok (wseq w3) (wdb w3)" using process_ok_base [OF 3 s2(1)] .
  ultimately show ?thesis
    using update_location_ok [OF 4 b3] by (auto simp: tracker_ok_def base_ok_def synced_frame)
qed

lemma insert_heartbeat_ok:
  assumes "insert_heartbeat pk imei peer t hb w = (Inr u, w')"
    and "base_ok (wseq w) (wdb w)" and "owned (wdb w) pk imei"
  shows "base_ok (wseq w') (wdb w') \<and> (\<exists>hs. wdb w' = (wdb w)\<lparr>device_heartbeats := hs\<rparr>)"
proof -
  from assms(1) obtain prev w1 where 1: "fetch_previous_acc_high imei w = (Inr prev, w1)" and
    2: "query (\<lambda>i s. if pk \<notin> set (map dv_id (devices s)) then Inl ForeignKeyViolation
       else Inr ((), s\<lparr>device_heartbeats := device_heartbeats s @
              [\<lparr>hr_id = i, hr_device_id = pk, hr_imei = imei, hr_server_received_at = t,
                hr_protocol_number = uint PROTOCOL_HEARTBEAT, hr_peer_addr = peer,
                hr_columns = heartbeat_values prev hb\<rparr>]\<rparr>)) w1 = (Inr u, w')"
    unfolding insert_heartbeat_def bind_ok by blast
  have w1: "wdb w1 = wdb w" "wseq w1 = wseq w + 1"
    using select_ok [OF 1 [unfolded fetch_previous_acc_high_def]]
      query_ok_seq [OF 1 [unfolded fetch_previous_acc_high_def select_def]] by simp_all
  have b: "base_ok (wseq w1) (wdb w)" using persistentD [OF persistent_base_ok assms(2)] w1 by simp
  have w': "wdb w' = (wdb w)\<lparr>device_heartbeats := device_heartbeats (wdb w) @
              [\<lparr>hr_id = wseq w1, hr_device_id = pk, hr_imei = imei, hr_server_received_at = t,
                hr_protocol_number = uint PROTOCOL_HEARTBEAT, hr_peer_addr = peer,
                hr_columns = heartbeat_values prev hb\<rparr>]\<rparr>"
    using query_ok [OF 2] w1 by (auto split: if_splits)
  then show ?thesis
    using base_ok_heartbeat [OF b] query_ok_seq [OF 2] assms(3) by auto
qed

lemma update_heartbeat_ok:
  assumes "update_device_latest_heartbeat pk imei peer t hb w = (Inr u, w')" and "base_ok (wseq w) (wdb w)"
  shows "base_ok (wseq w') (wdb w') \<and> (\<exists>ds. wdb w' = (wdb w)\<lparr>devices := ds\<rparr>)"
proof -
  from assms(1) obtain prev w1 where 1: "fetch_previous_acc_high imei w = (Inr prev, w1)" and
    2: "execute (\<lambda>s. s\<lparr>devices := update_where (\<lambda>r. dv_id r = pk)
       (\<lambda>r. r\<lparr>dv_last_seen_at := t, dv_last_heartbeat_at := Some t,
              dv_latest_peer_addr := Some peer,
              dv_latest_protocol_number := Some (uint PROTOCOL_HEARTBEAT),
              dv_latest_packet_family := Some ''heartbeat'',
              dv_latest_heartbeat := Some (heartbeat_values prev hb),
              dv_updated_at := t\<rparr>) (devices s)\<rparr>) w1 = (Inr u, w')"
    unfolding update_device_latest_heartbeat_def bind_ok by blast
  have w1: "wdb w1 = wdb w" "wseq w1 = wseq w + 1"
    using select_ok [OF 1 [unfolded fetch_previous_acc_high_def]]
      query_ok_seq [OF 1 [unfolded fetch_previous_acc_high_def select_def]] by simp_all
  have seq: "wseq w' = wseq w1 + 1" using query_ok_seq [OF 2 [unfolded execute_def]] .
  have "base_ok (wseq w) (wdb w')"
    using execute_ok [OF 2] base_ok_update_device [OF assms(2)] w1 by simp
  then have "base_ok (wseq w') (wdb w')" using persistentD [OF persistent_base_ok, of "wseq w" "wdb w'" "wseq w'"] seq w1 by simp
  then show ?thesis using execute_ok [OF 2] w1 by auto
qed

lemma persist_heartbeat_tracks:
  assumes "tracker_ok lm (wseq w) (wdb w)"
    and "persist_heartbeat now peer imei packet w = (Inr u, w')"
  shows "tracker_ok lm (wseq w') (wdb w')"
proof -
  have b: "base_ok (wseq w) (wdb w)" and sy: "synced lm (wdb w)"
    using assms(1) by (simp_all add: tracker_ok_def base_ok_def)
  from assms(2) obtain pk w1 w2 u2 where
    1: "upsert_device_last_seen imei peer now w = (Inr pk, w1)" and
    2: "insert_heartbeat pk imei peer now packet w1 = (Inr u2, w2)" and
    3: "update_device_latest_heartbeat pk imei peer now packet w2 = (Inr u, w')"
    unfolding persist_heartbeat_def bind_ok by blast
  note s1 = upsert_seen_ok [OF 1 b]
  then have "base_ok (wseq w1) (wdb w1)" "owned (wdb w1) pk imei" by simp_all
  note s2 = insert_heartbeat_ok [OF 2 this]
  then have "base_ok (wseq w2) (wdb w2)" by simp
  note s3 = update_heartbeat_ok [OF 3 this]
  have "synced lm (wdb w1)" using s1 sy by (auto simp: synced_frame)
  then have "synced lm (wdb w2)" using s2 by (auto simp: synced_frame)
  then have "synced lm (wdb w')" using s3 by (auto simp: synced_frame)
  with s3 show ?thesis by (simp add: tracker_ok_def base_ok_def)
qed

lemma login_tracks:
  assumes "tracker_ok lm (wseq w) (wdb w)"
    and "io_bind (upsert_device_login imei peer now) (\<lambda>_. io_return ()) w = (Inr u, w')"
  shows "tracker_ok lm (wseq w') (wdb w')"
proof -
  from assms(2) obtain pk where 1: "upsert_device_login imei peer now w = (Inr pk, w')"
    by (auto simp: bind_ok)
  have b: "base_ok (wseq w) (wdb w)" and sy: "synced lm (wdb w)"
    using assms(1) by (simp_all add: tracker_ok_def base_ok_def)
  have "wdb w' = (wdb w)\<lparr>devices := upsert dv_imei imei (fresh_login imei (wseq w, now, peer))
      (merge_login (wseq w, now, peer)) (devices (wdb w))\<rparr>"
    using query_ok [OF 1 [unfolded upsert_device_login_def]] by (auto simp: Let_def)
  moreover have "wseq w' = wseq w + 1" using query_ok_seq [OF 1 [unfolded upsert_device_login_def]] .
  ultimately show ?thesis using base_ok_login [OF b] sy by (simp add: tracker_ok_def base_ok_def synced_frame)
qed

lemma advances_persist [io_intros]:
  "advances (persist_location lm now now1 now2 peer imei packet)"
  "advances (persist_heartbeat now peer imei hb)"
  unfolding persist_location_def persist_heartbeat_def by (intro io_intros)+

lemma persist_event_keeps: "keeps (tracker_ok lm) (persist_event lm now now1 now2 event)"
proof (cases event)
  case (LoginEvent peer imei ser)
  then show ?thesis
    by (simp, intro keeps_transaction_success persistent_tracker_ok io_intros) (rule login_tracks)
next
  case (HeartbeatEvent peer dev hb)
  have "keeps (tracker_ok lm) (transaction (persist_heartbeat now peer imei hb))" for imei
    by (intro keeps_transaction_success persistent_tracker_ok advances_persist)
      (rule persist_heartbeat_tracks)
  with HeartbeatEvent show ?thesis by (cases dev) (simp_all add: keeps_return)
next
  case (LocationEvent peer dev p)
  have "keeps (tracker_ok lm) (transaction (persist_location lm now now1 now2 peer imei p))" for imei
    by (intro keeps_transaction_success persistent_tracker_ok advances_persist)
      (rule persist_location_tracks)
  with LocationEvent show ?thesis by (cases dev) (simp_all add: keeps_return)
qed

section \<open>Interpretations of the handler contract\<close>

interpretation database_handler: event_handler "tracker_ok lm" "database_handle_event lm now now1 now2"
  for lm now now1 now2
proof
  fix ev and w :: "'a store_scheme world"
  show "\<exists>ls w'. database_handle_event lm now now1 now2 ev w = (Inr ls, w')"
    by (auto simp: database_handle_event_def io_try_def io_return_def split: prod.splits)
next
  fix ev
  show "keeps (tracker_ok lm) (database_handle_event lm now now1 now2 ev)"
    unfolding database_handle_event_def by (intro io_intros persist_event_keeps)
qed

interpretation logging_handler: event_handler "tracker_ok lm" "logging_handle_event has_database"
  for lm has_database
proof
  fix ev and w :: "'a store_scheme world"
  show "\<exists>ls w'. logging_handle_event has_database ev w = (Inr ls, w')"
    by (cases ev) (auto simp: io_try_def io_return_def Let_def split: prod.splits)
next
  fix ev
  have "keeps (tracker_ok lm) (fetch_previous_acc_high imei)" for imei
    unfolding fetch_previous_acc_high_def by (intro io_intros persistent_tracker_ok)
  then show "keeps (tracker_ok lm) (logging_handle_event has_database ev)"
    by (cases ev) (auto simp: Let_def intro!: io_intros)
qed

interpretation server_handler: event_handler "tracker_ok lm" "build_event_handler db lm now now1 now2"
  for lm db now now1 now2
  unfolding build_event_handler_def
  by (auto intro!: composite_is_handler logging_handler.event_handler_axioms
      database_handler.event_handler_axioms)

section \<open>Latest state\<close>

lemma lookup_owned:
  assumes "devices_ok n s" and "owned s i imei"
  shows "\<exists>d. lookup dv_imei imei (devices s) = Some d \<and> dv_id d = i"
  using assms lookup_distinct [of dv_imei "devices s"] unfolding owned_def devices_ok_def by auto

lemma update_by_id:
  assumes "devices_ok n s" and "owned s i imei"
  shows "update_where (\<lambda>r. dv_id r = i) f (devices s) = update_where (\<lambda>r. dv_imei r = imei) f (devices s)"
proof -
  have "dv_id r = i \<longleftrightarrow> dv_imei r = imei" if "r \<in> set (devices s)" for r
    using assms that unfolding devices_ok_def owned_def distinct_map inj_on_def by metis
  then show ?thesis by (auto simp: update_where_def)
qed

lemma process_rest:
  assumes "process_location_distance lm imei p w = (Inr x, w')"
  shows "\<exists>os ds. wdb w' = (wdb w)\<lparr>device_distance_odometer := os, device_distance_daily := ds\<rparr>"
  using assms
proof (cases rule: process_cases)
  case replayed
  then have "wdb w' = (wdb w)\<lparr>device_distance_odometer := device_distance_odometer (wdb w),
      device_distance_daily := device_distance_daily (wdb w)\<rparr>" by simp
  then show ?thesis by blast
next
  case (step w2)
  from step(4) obtain w3 where 1: "query (\<lambda>_. upsert_odometer imei x p) w2 = (Inr (), w3)"
    and 2: "(if flt (Fin 0) x then query (\<lambda>_. upsert_daily imei (wib_date (dp_server_received_at p)) x)
       else io_return ()) w3 = (Inr (), w')" by (auto simp: bind_ok)
  have "wdb w' = wdb w3 \<or> (\<exists>ds. wdb w' = (wdb w3)\<lparr>device_distance_daily := ds\<rparr>)"
    using 2 by (auto dest!: query_ok upsert_daily_ok split: if_splits)
  moreover have "wdb w3 = (wdb w)\<lparr>device_distance_odometer := upsert od_imei imei (fresh_odometer imei (x, p))
      (merge_odometer (x, p)) (device_distance_odometer (wdb w)), device_distance_daily := device_distance_daily (wdb w)\<rparr>"
    using upsert_odometer_ok [OF query_ok [OF 1]] step(3) by simp
  ultimately show ?thesis by (elim disjE exE) (simp only:, blast | simp, blast)+
qed

text \<open>
  What a location of a device leaves in the database: a row of its own, the device with its latest
  values, new or as it was otherwise, one step of the distances, and all else as it was.
\<close>

definition location_recorded ::
  "libm \<Rightarrow> int \<Rightarrow> int \<Rightarrow> int \<Rightarrow> string \<Rightarrow> string \<Rightarrow> location_packet \<Rightarrow> 'z store_scheme \<Rightarrow> 'z store_scheme \<Rightarrow> bool" where
  "location_recorded lm now now1 now2 peer imei packet s s' \<longleftrightarrow>
     (\<exists>i d columns. columns = \<lparr>lk_gps_timestamp = gps_timestamp_to_naive now1 (lc_timestamp packet),
          lk_protocol_number = (if lc_extra_data packet = [] then 0x12 else 0x22),
          lk_packet_family = (if lc_extra_data packet = [] then ''location'' else ''extended_location''),
          lk_latitude = lc_latitude packet, lk_longitude = lc_longitude packet,
          lk_speed_kph = uint (lc_speed_kph packet), lk_course = uint (lc_course packet),
          lk_course_status = uint (lc_course_status packet),
          lk_satellite_count = uint (lc_satellite_count packet),
          lk_gps_info_length = uint (lc_gps_info_length packet),
          lk_extra_data_hex = format_bytes_hex (lc_extra_data packet)\<rparr>
      \<and> device_locations s' = device_locations s @ [\<lparr>lr_id = i, lr_device_id = dv_id d, lr_imei = imei,
          lr_server_received_at = now, lr_columns = columns, lr_peer_addr = peer\<rparr>]
      \<and> (\<forall>l \<in> set (device_locations s). lr_id l < i)
      \<and> lookup dv_imei imei (devices s') = Some d
      \<and> d = (case lookup dv_imei imei (devices s) of
            Some r \<Rightarrow> r
          | None \<Rightarrow> \<lparr>dv_id = dv_id d, dv_imei = imei, dv_first_seen_at = now, dv_last_seen_at = now,
              dv_last_login_at = None, dv_last_heartbeat_at = None, dv_last_location_at = None,
              dv_latest_peer_addr = None, dv_latest_protocol_number = None, dv_latest_packet_family = None,
              dv_latest_location = None, dv_latest_heartbeat = None, dv_updated_at = now, dv_sim_card = None,
              dv_sim_card_expiration_date = None, dv_referenced_by_customer_id = None,
              dv_pricing_tier = ''basic'', dv_shipment_fee_idr = None\<rparr>)
          \<lparr>dv_last_seen_at := now, dv_last_location_at := Some now, dv_latest_peer_addr := Some peer,
           dv_latest_protocol_number := Some (lk_protocol_number columns),
           dv_latest_packet_family := Some (lk_packet_family columns),
           dv_latest_location := Some (columns\<lparr>lk_gps_timestamp := gps_timestamp_to_naive now2 (lc_timestamp packet)\<rparr>),
           dv_updated_at := now\<rparr>
      \<and> map dv_imei (devices s') = map dv_imei (devices s) @
          (if lookup dv_imei imei (devices s) = None then [imei] else [])
      \<and> (\<forall>j. j \<noteq> imei \<longrightarrow> lookup dv_imei j (devices s') = lookup dv_imei j (devices s))
      \<and> distances imei s' = distance_step lm imei (distances imei s) \<lparr>dp_id = i, dp_server_received_at = now,
          dp_latitude = lc_latitude packet, dp_longitude = lc_longitude packet, dp_speed_kph = uint (lc_speed_kph packet)\<rparr>
      \<and> (\<forall>j. j \<noteq> imei \<longrightarrow> distances j s' = distances j s)
      \<and> s'\<lparr>devices := devices s, device_locations := device_locations s,
           device_distance_odometer := device_distance_odometer s,
           device_distance_daily := device_distance_daily s\<rparr> = s)"

lemma location_recorded_visible:
  assumes "location_recorded lm now now1 now2 peer imei packet s s'"
  shows "\<exists>d l. lookup dv_imei imei (devices s') = Some d \<and> dv_last_location_at d = Some now
    \<and> device_locations s' = device_locations s @ [l]
    \<and> lk_latitude (lr_columns l) = lc_latitude packet \<and> lk_longitude (lr_columns l) = lc_longitude packet"
  using assms unfolding location_recorded_def
  by (elim exE conjE) (intro exI conjI, assumption, drule arg_cong [where f = dv_last_location_at],
    simp, assumption, simp_all)

lemma persist_location_effect:
  assumes "base_ok (wseq w) (wdb w)"
    and "persist_location lm now now1 now2 peer imei packet w = (Inr u, w')"
  shows "location_recorded lm now now1 now2 peer imei packet (wdb w) (wdb w')"
proof -
  from assms(2) obtain pk w1 i w2 x w3 where
    1: "upsert_device_last_seen imei peer now w = (Inr pk, w1)" and
    2: "insert_location pk imei peer now now1 packet w1 = (Inr i, w2)" and
    3: "process_location_distance lm imei (location_point i now packet) w2 = (Inr x, w3)" and
    4: "update_device_latest_location pk peer now now2 packet w3 = (Inr u, w')"
    unfolding persist_location_def bind_ok by blast
  let ?s = "wdb w" and ?args = "(wseq w, now, peer)"
  let ?ds = "upsert dv_imei imei (fresh_seen imei ?args) (merge_seen ?args) (devices ?s)"
  have w1: "wdb w1 = ?s\<lparr>devices := ?ds\<rparr>"
    using query_ok [OF 1 [unfolded upsert_device_last_seen_def]] by (auto simp: Let_def)
  note s1 = upsert_seen_ok [OF 1 assms(1)]
  then have b1: "base_ok (wseq w1) (wdb w1)" and o1: "owned (wdb w1) pk imei" by simp_all
  note s2 = insert_location_ok [OF 2 b1 o1]
  then have b2: "base_ok (wseq w2) (wdb w2)" and o2: "owned (wdb w2) pk imei" by blast+
  have b3: "base_ok (wseq w3) (wdb w3)" using process_ok_base [OF 3 b2] .
  have in3: "same_inputs (wdb w2) (wdb w3)" using process_refines [OF 3] by simp
  then have o3: "owned (wdb w3) pk imei" using o2 by (simp add: same_inputs_def owned_def)
  have d3: "devices_ok (wseq w3) (wdb w3)" using b3 by (simp add: base_ok_def)
  have ds3: "devices (wdb w3) = ?ds" using in3 s2 by (simp add: same_inputs_def w1)
  let ?f = "\<lambda>r. r\<lparr>dv_last_seen_at := now, dv_last_location_at := Some now,
              dv_latest_peer_addr := Some peer,
              dv_latest_protocol_number := Some (extended_protocol_number packet),
              dv_latest_packet_family := Some (packet_family packet),
              dv_latest_location := Some (location_values now2 packet), dv_updated_at := now\<rparr>"
  let ?ds' = "update_where (\<lambda>r. dv_imei r = imei) ?f ?ds"
  have w': "wdb w' = (wdb w3)\<lparr>devices := ?ds'\<rparr>"
    using execute_ok [OF 4 [unfolded update_device_latest_location_def]] update_by_id [OF d3 o3, of ?f] ds3 by simp
  let ?d = "case lookup dv_imei imei (devices ?s) of None \<Rightarrow> fresh_seen imei ?args | Some r \<Rightarrow> merge_seen ?args r"
  have "lookup dv_imei imei ?ds = Some ?d" by (rule seen.lookup_same)
  then have found: "lookup dv_imei imei ?ds' = Some (?f ?d)" by (simp add: lookup_update_same)
  have others: "lookup dv_imei j ?ds' = lookup dv_imei j (devices ?s)" if "j \<noteq> imei" for j
    using that by (subst lookup_update_other) (simp_all add: seen.lookup_other)
  have imeis: "map dv_imei ?ds' = map dv_imei (devices ?s) @ (if lookup dv_imei imei (devices ?s) = None then [imei] else [])"
    by (subst map_update_where) (simp_all add: seen.keys lookup_None_iff)
  obtain e where e: "e \<in> set ?ds" "dv_id e = pk" "dv_imei e = imei" using o3 ds3 unfolding owned_def by auto
  have "distinct (map dv_imei ?ds)" using d3 ds3 by (simp add: devices_ok_def)
  from lookup_distinct [OF this e(1)] e \<open>lookup dv_imei imei ?ds = Some ?d\<close> have pk: "dv_id ?d = pk" by simp
  have before: "\<forall>l \<in> set (device_locations ?s). lr_id l < i"
    using b1 s2 by (auto simp: base_ok_def history_ok_def w1)
  obtain os days where w3: "wdb w3 = (wdb w2)\<lparr>device_distance_odometer := os, device_distance_daily := days\<rparr>"
    using process_rest [OF 3] by blast
  have w2: "wdb w2 = ?s\<lparr>devices := ?ds, device_locations := device_locations ?s @
        [\<lparr>lr_id = i, lr_device_id = pk, lr_imei = imei, lr_server_received_at = now,
          lr_columns = location_values now1 packet, lr_peer_addr = peer\<rparr>]\<rparr>"
    using s2 by (simp add: w1)
  have same: "distances j (wdb w2) = distances j ?s" for j by (simp add: w2 distances_frame)
  have dist: "distances imei (wdb w') = distance_step lm imei (distances imei ?s) (location_point i now packet)"
    "\<forall>j. j \<noteq> imei \<longrightarrow> distances j (wdb w') = distances j ?s"
    using process_refines [OF 3] by (simp_all add: w' distances_frame same)
  define d where "d = ?f ?d"
  have id: "dv_id d = pk" using pk by (simp add: d_def)
  have columns: "location_values now1 packet = \<lparr>lk_gps_timestamp = gps_timestamp_to_naive now1 (lc_timestamp packet),
          lk_protocol_number = (if lc_extra_data packet = [] then 0x12 else 0x22),
          lk_packet_family = (if lc_extra_data packet = [] then ''location'' else ''extended_location''),
          lk_latitude = lc_latitude packet, lk_longitude = lc_longitude packet,
          lk_speed_kph = uint (lc_speed_kph packet), lk_course = uint (lc_course packet),
          lk_course_status = uint (lc_course_status packet),
          lk_satellite_count = uint (lc_satellite_count packet),
          lk_gps_info_length = uint (lc_gps_info_length packet),
          lk_extra_data_hex = format_bytes_hex (lc_extra_data packet)\<rparr>"
    by (simp add: location_values_def extended_protocol_number_def packet_family_def protocol_numbers)
  have d: "d = (case lookup dv_imei imei (devices ?s) of
            Some r \<Rightarrow> r
          | None \<Rightarrow> \<lparr>dv_id = dv_id d, dv_imei = imei, dv_first_seen_at = now, dv_last_seen_at = now,
              dv_last_login_at = None, dv_last_heartbeat_at = None, dv_last_location_at = None,
              dv_latest_peer_addr = None, dv_latest_protocol_number = None, dv_latest_packet_family = None,
              dv_latest_location = None, dv_latest_heartbeat = None, dv_updated_at = now, dv_sim_card = None,
              dv_sim_card_expiration_date = None, dv_referenced_by_customer_id = None,
              dv_pricing_tier = ''basic'', dv_shipment_fee_idr = None\<rparr>)
          \<lparr>dv_last_seen_at := now, dv_last_location_at := Some now, dv_latest_peer_addr := Some peer,
           dv_latest_protocol_number := Some (lk_protocol_number (location_values now1 packet)),
           dv_latest_packet_family := Some (lk_packet_family (location_values now1 packet)),
           dv_latest_location := Some ((location_values now1 packet)\<lparr>lk_gps_timestamp := gps_timestamp_to_naive now2 (lc_timestamp packet)\<rparr>),
           dv_updated_at := now\<rparr>"
    unfolding id using pk unfolding d_def
    by (cases "lookup dv_imei imei (devices ?s)")
      (simp_all add: fresh_seen_def merge_seen_def new_device_def location_values_def)
  have devices: "devices (wdb w') = ?ds'" by (simp add: w')
  have rest: "(wdb w')\<lparr>devices := devices ?s, device_locations := device_locations ?s,
      device_distance_odometer := device_distance_odometer ?s, device_distance_daily := device_distance_daily ?s\<rparr> = ?s"
    by (simp add: w' w3 w2)
  have locations: "device_locations (wdb w') = device_locations ?s @ [\<lparr>lr_id = i, lr_device_id = dv_id d, lr_imei = imei,
      lr_server_received_at = now, lr_columns = location_values now1 packet, lr_peer_addr = peer\<rparr>]"
    by (simp add: id w' w3 w2)
  show ?thesis
    unfolding location_recorded_def
    by (intro exI [of _ i] exI [of _ d] exI [of _ "location_values now1 packet"] conjI,
        rule columns, rule locations, rule before, unfold devices, rule found [folded d_def], rule d, rule imeis,
        use others in blast, rule dist(1) [unfolded location_point_def], rule dist(2), rule rest)
qed

lemma persist_event_empty: "tracker_ok lm 0 empty_store"
  by (simp add: tracker_ok_def devices_ok_def history_ok_def synced_def empty_store_def distances_def
      stored_points_def order_by_def replay_def)

definition fresh_world :: "store world" where
  "fresh_world = \<lparr>wdb = empty_store, wseq = 0, wsched = []\<rparr>"

section \<open>Properties of event persistence\<close>

text \<open>
  The event handler the server builds never fails and keeps the database well formed, whichever
  of its statements fail: IMEIs and device identifiers are unique, every location and heartbeat
  belongs to the device whose IMEI it carries, identifiers grow in insertion order, and for every
  device the odometer and the daily distances are exactly the replay of its stored locations.
\<close>

theorem event_handler_invariant:
  "keeps (tracker_ok lm) (build_event_handler db lm now now1 now2 event)"
  by (rule server_handler.keeps_invariant)

text \<open>
  Persisting an event is atomic: when any statement, constraint or the commit fails, the
  database is what it was.
\<close>

theorem persist_event_atomic:
  assumes "persist_event lm now now1 now2 event w = (Inl e, w')"
  shows "wdb w' = wdb w"
  using assms
  by (cases event) (auto simp: io_return_def split: option.splits dest: transaction_rolls_back)

lemma persist_event_atomic_witness:
  "\<exists>w'. persist_event sample_libm 5 5 5 (LoginEvent ''p'' ''86'' 1) (fresh_world\<lparr>wsched := [True, True, False]\<rparr>)
      = (Inl QueryFailed, w') \<and> wdb w' = empty_store"
proof -
  have "\<exists>w'. persist_event sample_libm 5 5 5 (LoginEvent ''p'' ''86'' 1) (fresh_world\<lparr>wsched := [True, True, False]\<rparr>)
      = (Inl QueryFailed, w')"
    by (simp add: upsert_device_login_def io_run fresh_world_def Let_def)
  then obtain w' where w': "persist_event sample_libm 5 5 5 (LoginEvent ''p'' ''86'' 1)
      (fresh_world\<lparr>wsched := [True, True, False]\<rparr>) = (Inl QueryFailed, w')" ..
  from persist_event_atomic [OF w'] w' show ?thesis by (auto simp: fresh_world_def)
qed

text \<open>
  C15. The effect of a persisted location: exactly one row is appended to the locations, with an
  identifier above all others and every value of the packet; the device of that IMEI is registered if
  it was not, and has the latest location, its protocol, family and peer address and the times of
  receipt, with every other column as it was; its distances take one step with that point; every
  other device, its distances and all other tables stay as they were.
\<close>

theorem persist_location_effects:
  assumes "tracker_ok lm (wseq w) (wdb w)"
    and "persist_event lm now now1 now2 (LocationEvent peer (Some imei) packet) w = (Inr u, w')"
  shows "location_recorded lm now now1 now2 peer imei packet (wdb w) (wdb w')"
proof -
  have "transaction (persist_location lm now now1 now2 peer imei packet) w = (Inr u, w')"
    using assms(2) by simp
  then obtain w1 w2 where w1: "wdb w1 = wdb w" "wseq w1 = wseq w + 1"
    and p: "persist_location lm now now1 now2 peer imei packet w1 = (Inr u, w2)"
    and w2: "wdb w' = wdb w2" "wseq w2 \<le> wseq w'"
    by (rule transaction_commits)
  have "base_ok (wseq w) (wdb w)" using assms(1) by (simp add: tracker_ok_def base_ok_def)
  then have "base_ok (wseq w1) (wdb w1)"
    using persistentD [OF persistent_base_ok, of "wseq w" "wdb w" "wseq w1"] w1 by simp
  from persist_location_effect [OF this p] show ?thesis by (simp add: w1 w2)
qed

text \<open>
  The ACC state that is stored for a heartbeat is always bit 2 of the packet's own terminal
  information byte and the engine status follows it: the previous ACC state, which the code fetches
  with a query of its own before every use, never matters.
\<close>

theorem heartbeat_acc_from_packet:
  "hk_acc_high (heartbeat_values previous packet) = Some (bit (hb_terminal_info packet) 2)
   \<and> hk_engine_status_guess (heartbeat_values previous packet) =
       (if bit (hb_terminal_info packet) 2 then ''on'' else ''off'')"
proof -
  have "(hb_terminal_info packet AND 4 \<noteq> 0) = bit (hb_terminal_info packet) 2"
    using bit_iff_and_push_bit_not_eq_0 [of "hb_terminal_info packet" 2] by (simp add: push_bit_eq_mult)
  then show ?thesis
    by (auto simp: heartbeat_values_def decode_terminal_info_flags_def resolve_acc_high_def Let_def)
qed

definition sample_packet :: location_packet where
  "sample_packet = \<lparr>lc_timestamp = \<lparr>ts_year = 2026, ts_month = 5, ts_day = 16, ts_hour = 1, ts_minute = 2,
     ts_second = 3\<rparr>, lc_gps_info_length = 12, lc_satellite_count = 8, lc_latitude = Fin (-6),
     lc_longitude = Fin 106, lc_speed_kph = 20, lc_course = 90, lc_course_status = 0x145A,
     lc_extra_data = []\<rparr>"

lemma sample_persist:
  "\<exists>w'. persist_event lm 7 8 9 (LocationEvent ''p'' (Some ''86'') sample_packet) fresh_world = (Inr (), w')"
  by (simp add: persist_location_def upsert_device_last_seen_def insert_location_def process_alt
      update_device_latest_location_def io_run fresh_world_def empty_store_def Let_def upsert_def
      returning_id_def fresh_seen_def new_device_def lookup_Cons replayed_def segment_def
      upsert_odometer_def pg_non_negative_def location_point_def)

lemma persist_location_effects_witness:
  "\<exists>w' d l. persist_event sample_libm 7 8 9 (LocationEvent ''p'' (Some ''86'') sample_packet) fresh_world = (Inr (), w')
    \<and> lookup dv_imei ''86'' (devices (wdb w')) = Some d \<and> dv_last_location_at d = Some 7
    \<and> device_locations (wdb w') = [l] \<and> lk_latitude (lr_columns l) = Fin (-6) \<and> lk_longitude (lr_columns l) = Fin 106"
proof -
  obtain w' where w': "persist_event sample_libm 7 8 9 (LocationEvent ''p'' (Some ''86'') sample_packet)
      fresh_world = (Inr (), w')" using sample_persist by blast
  have "tracker_ok sample_libm (wseq fresh_world) (wdb fresh_world)"
    by (simp add: fresh_world_def persist_event_empty)
  from location_recorded_visible [OF persist_location_effects [OF this w']] w' show ?thesis
    by (simp add: fresh_world_def empty_store_def sample_packet_def)
qed

text \<open>Handling events, each with the clock readings of its own handling.\<close>

definition handle_events ::
  "bool \<Rightarrow> libm \<Rightarrow> (int \<times> int \<times> int \<times> device_event) list \<Rightarrow> ('z store_scheme, db_error, unit) io" where
  "handle_events configured lm events = io_for events (\<lambda>(now, now1, now2, event).
     io_bind (build_event_handler configured lm now now1 now2 event) (\<lambda>_. io_return ()))"

lemma handle_events_keeps: "keeps (tracker_ok lm) (handle_events configured lm events)"
  unfolding handle_events_def
  by (auto intro!: io_intros server_handler.keeps_invariant split: prod.split)

text \<open>
  C14. Live tracking and backfill agree: after any sequence of events, each handled at its own time
  and with any failures on the way, from an empty database, running the backfill of a device changes
  the odometer and the daily distances of no device.
\<close>

theorem backfill_after_ingestion:
  assumes "handle_events configured lm events \<lparr>wdb = empty_store, wseq = 0, wsched = sched\<rparr> = (Inr (), w)"
    and "backfill_device_distance lm imei w = (Inr (), w')"
  shows "distances j (wdb w') = distances j (wdb w)"
proof -
  have "tracker_ok lm (wseq w) (wdb w)"
    using keepsD [OF handle_events_keeps, of lm "\<lparr>wdb = empty_store, wseq = 0, wsched = sched\<rparr>" configured events]
      assms(1) persist_event_empty by simp
  then show ?thesis
    using backfill_refines [OF assms(2)] by (cases "j = imei") (auto simp: tracker_ok_def synced_def)
qed

text \<open>A device that reports two locations, the second 225 seconds after the first.\<close>

definition sample_trip :: "(int \<times> int \<times> int \<times> device_event) list" where
  "sample_trip = (let packet = sample_packet\<lparr>lc_latitude := Fin 1, lc_longitude := Fin 1\<rparr> in
     [(0, 0, 0, LoginEvent ''p'' ''86'' 1), (0, 0, 0, LocationEvent ''p'' (Some ''86'') packet),
      (225 * SECOND, 0, 0, LocationEvent ''p'' (Some ''86'') packet)])"

lemma sample_trip_run:
  "\<exists>w. handle_events True sample_libm sample_trip (fresh_world :: store world) = (Inr (), w)
    \<and> (\<exists>w'. backfill_device_distance sample_libm ''86'' w = (Inr (), w'))
    \<and> (\<exists>row. device_distance_odometer (wdb w) = [row] \<and> od_imei row = ''86''
          \<and> od_total_distance_meters row = Fin (6371000 / 2 ^ 19))"
  using dyadic_exact [of 796375 16]
  by (simp add: sample_accepted handle_events_def sample_trip_def build_event_handler_def composite_handle_event_def
      database_handle_event_def persist_location_def upsert_device_login_def upsert_device_last_seen_def
      insert_location_def update_device_latest_location_def process_alt io_run fresh_world_def empty_store_def Let_def
      upsert_def returning_id_def fresh_seen_def fresh_login_def merge_seen_def merge_odometer_def new_device_def
      lookup_Cons replayed_def segment_def upsert_odometer_def upsert_daily_def pg_non_negative_def pg_add_def
      previous_point_def fresh_odometer_def fresh_daily_def daily_key_def location_point_def sample_packet_def update_where_def
      backfill_device_distance_def stored_points_def order_by_def point_of_location_def location_values_def)

lemma backfill_after_ingestion_witness:
  "\<exists>w w' :: store world. handle_events True sample_libm sample_trip \<lparr>wdb = empty_store, wseq = 0, wsched = []\<rparr> = (Inr (), w)
    \<and> backfill_device_distance sample_libm ''86'' w = (Inr (), w')
    \<and> map_option od_total_distance_meters (lookup od_imei ''86'' (device_distance_odometer (wdb w')))
        = Some (Fin (6371000 / 2 ^ 19))"
proof -
  obtain w w' :: "store world" and row where run: "handle_events True sample_libm sample_trip
      \<lparr>wdb = empty_store, wseq = 0, wsched = []\<rparr> = (Inr (), w)"
    and backfill: "backfill_device_distance sample_libm ''86'' w = (Inr (), w')"
    and row: "device_distance_odometer (wdb w) = [row]" "od_imei row = ''86''"
      "od_total_distance_meters row = Fin (6371000 / 2 ^ 19)"
    using sample_trip_run unfolding fresh_world_def by blast
  from backfill_after_ingestion [OF run backfill, of "''86''"]
  have "lookup od_imei ''86'' (device_distance_odometer (wdb w')) = Some row"
    by (simp add: distances_def row lookup_Cons)
  with run backfill row(3) show ?thesis by (metis option.map(2))
qed

text \<open>
  An extended location packet whose payload ends after the eighteenth byte is stored as a plain
  location, protocol 18: the stored protocol number is guessed from the extra data.
\<close>

lemma extended_without_extra_is_stored_as_plain:
  assumes "protocol_number f = PROTOCOL_EXTENDED_LOCATION" and "length (payload f) = 18"
  shows "\<exists>p. decode_message f = Inr (Location p) \<and> lk_protocol_number (location_values now p) = 18
    \<and> lk_packet_family (location_values now p) = ''location''"
  using assms
  by (simp add: decode_message_def protocol_numbers decode_extended_location_def
      decode_location_payload_def Let_def split_def location_values_def extended_protocol_number_def
      packet_family_def)

end
