(* ===== verification/Startup.thy ===== *)
theory Startup
  imports Config Devices Telegram Api
begin

text \<open>
  How the programs of the server start: \<open>Database::connect\<close> and \<open>build_event_handler\<close> of \<open>src/db.rs\<close>, and the
  \<open>from_config\<close> functions of \<open>src/bot.rs\<close>, \<open>src/api.rs\<close>, \<open>src/subscription_maintenance.rs\<close> and
  \<open>src/service_distance.rs\<close>. Connecting and migrating are operations that may fail; the database of a
  world is one that is already migrated, so migrating leaves it as it is.
\<close>

section \<open>Connecting\<close>

record database =
  dt_url :: string
  dt_max_connections :: nat
  dt_acquire_timeout_ms :: nat

definition database_connect :: "config \<Rightarrow> ('s, database_error, database option) io" where
  "database_connect c =
     (case cf_database_url c of None \<Rightarrow> io_return None | Some database_url \<Rightarrow>
        io_bind (operation ConnectFailed (\<lambda>_ s. Inr
          (\<lparr>dt_url = database_url, dt_max_connections = cf_database_max_connections c,
            dt_acquire_timeout_ms = cf_database_write_timeout_ms c\<rparr>, s))) (\<lambda>pool.
        io_bind (operation MigrateFailed (\<lambda>_ s. Inr ((), s))) (\<lambda>_.
        io_return (Some pool))))"

definition require_database :: "'e \<Rightarrow> (database_error \<Rightarrow> 'e) \<Rightarrow> config \<Rightarrow> ('s, 'e, database) io" where
  "require_database missing wrap c =
     io_bind (io_map_error wrap (database_connect c)) (\<lambda>database.
     case database of None \<Rightarrow> io_throw missing | Some d \<Rightarrow> io_return d)"

section \<open>The programs\<close>

text \<open>The tracker server logs events, and stores them when it has a database.\<close>

definition event_handler_from_config ::
  "config \<Rightarrow> libm \<Rightarrow> int \<Rightarrow> int \<Rightarrow> int \<Rightarrow> ('z store_scheme, database_error, ('z store_scheme, db_error) handler) io" where
  "event_handler_from_config c lm now now1 now2 =
     io_bind (database_connect c) (\<lambda>database.
     io_return (build_event_handler (database \<noteq> None) lm now now1 now2))"

record telegram_bot =
  tb_database :: database
  tb_base_url :: string
  tb_midtrans :: "midtrans_client option"
  tb_poll_timeout_secs :: nat
  tb_heartbeat_poll_interval_ms :: nat

definition bot_from_config :: "config \<Rightarrow> ('s, bot_error, telegram_bot) io" where
  "bot_from_config c =
     io_bind (require_database Telegram.MissingDatabase BotDatabase c) (\<lambda>database.
     case cf_telegram_bot_token c of None \<Rightarrow> io_throw MissingToken | Some token \<Rightarrow>
       io_return \<lparr>tb_database = database, tb_base_url = ''https://api.telegram.org/bot'' @ token,
         tb_midtrans = midtrans_from_config c, tb_poll_timeout_secs = cf_telegram_poll_timeout_secs c,
         tb_heartbeat_poll_interval_ms = cf_telegram_heartbeat_poll_interval_ms c\<rparr>)"

text \<open>The state of the API server and its address; the remaining fields are what the handlers take from outside.\<close>

definition api_from_config :: "api \<Rightarrow> config \<Rightarrow> ('s, api_error, api \<times> socket_addr) io" where
  "api_from_config outside c =
     io_bind (require_database ApiMissingDatabase ApiDatabase c) (\<lambda>database.
     io_return (outside\<lparr>ap_midtrans_server_key := cf_midtrans_server_key c,
                        ap_telegram_bot_token := cf_telegram_bot_token c\<rparr>, cf_http_api_bind_addr c))"

definition run_subscription_maintenance_from_config :: "int \<Rightarrow> config \<Rightarrow> (telegram_store, maintenance_error, unit) io" where
  "run_subscription_maintenance_from_config now c =
     io_bind (require_database Subscription.MissingDatabase MDatabase c) (\<lambda>database.
     case cf_telegram_bot_token c of None \<Rightarrow> io_throw MissingTelegramBotToken | Some token \<Rightarrow>
       run_subscription_maintenance now)"

definition run_service_distance_backfill_from_config ::
  "libm \<Rightarrow> config \<Rightarrow> ('z store_scheme, database_error, unit) io" where
  "run_service_distance_backfill_from_config lm c =
     io_bind (require_database NotConfigured (\<lambda>e. e) c) (\<lambda>database.
     io_map_error DatabaseQuery (backfill_all_device_distances lm))"

section \<open>Starting\<close>

text \<open>The next two operations succeed.\<close>

definition reachable :: "'s world \<Rightarrow> bool" where
  "reachable w \<longleftrightarrow> list_all (\<lambda>b. b) (take 2 (wsched w))"

lemma connect_cases:
  shows "cf_database_url c = None \<Longrightarrow> database_connect c w = (Inr None, w)"
    and "cf_database_url c \<noteq> None \<Longrightarrow> reachable w \<Longrightarrow>
      \<exists>d. database_connect c w = (Inr (Some d), w\<lparr>wseq := wseq w + 2, wsched := drop 2 (wsched w)\<rparr>)
        \<and> cf_database_url c = Some (dt_url d)"
    and "cf_database_url c \<noteq> None \<Longrightarrow> \<not> reachable w \<Longrightarrow>
      \<exists>e w'. database_connect c w = (Inl e, w') \<and> wdb w' = wdb w"
  by (cases "wsched w"; cases "tl (wsched w)";
      auto simp: database_connect_def reachable_def io_run Let_def split: option.splits)+

lemma require_cases:
  shows "cf_database_url c = None \<Longrightarrow> require_database e f c w = (Inl e, w)"
    and "cf_database_url c \<noteq> None \<Longrightarrow> reachable w \<Longrightarrow>
      \<exists>d. require_database e f c w = (Inr d, w\<lparr>wseq := wseq w + 2, wsched := drop 2 (wsched w)\<rparr>)
        \<and> cf_database_url c = Some (dt_url d)"
    and "cf_database_url c \<noteq> None \<Longrightarrow> \<not> reachable w \<Longrightarrow>
      \<exists>x w'. require_database e f c w = (Inl (f x), w') \<and> wdb w' = wdb w"
  using connect_cases [of c w]
  by (auto simp: require_database_def io_bind_def io_map_error_def io_throw_def io_return_def)

lemmas start_defs = bot_from_config_def api_from_config_def event_handler_from_config_def io_bind_def io_throw_def
  io_return_def run_subscription_maintenance_from_config_def run_service_distance_backfill_from_config_def

lemma backfill_start:
  assumes "cf_database_url c \<noteq> None"
  shows "if reachable w
    then run_service_distance_backfill_from_config lm c w = io_map_error DatabaseQuery (backfill_all_device_distances lm)
           (w\<lparr>wseq := wseq w + 2, wsched := drop 2 (wsched w)\<rparr>)
    else isl (fst (run_service_distance_backfill_from_config lm c w))
         \<and> wdb (snd (run_service_distance_backfill_from_config lm c w)) = wdb w"
  using require_cases(2,3) [OF assms, of w NotConfigured "\<lambda>e. e"]
  by (cases "reachable w") (auto simp: start_defs)

lemma job_start:
  assumes "cf_database_url c \<noteq> None"
  shows "if reachable v \<and> cf_telegram_bot_token c \<noteq> None
    then run_subscription_maintenance_from_config now c v
           = run_subscription_maintenance now (v\<lparr>wseq := wseq v + 2, wsched := drop 2 (wsched v)\<rparr>)
    else isl (fst (run_subscription_maintenance_from_config now c v))
         \<and> wdb (snd (run_subscription_maintenance_from_config now c v)) = wdb v"
  using require_cases(2,3) [OF assms, of v Subscription.MissingDatabase MDatabase]
  by (cases "reachable v") (auto simp: start_defs split: option.splits)

text \<open>
  What a program needs to start. Without a database only the tracker server starts, and it then only
  logs; with a database that can be reached the tracker and the API always start, and the bot and the
  maintenance job exactly when there is a Telegram token: without one both are refused before they have
  touched anything. Starting never changes the database.
\<close>

theorem startup_requirements:
  "(let up = cf_database_url c \<noteq> None; tok = cf_telegram_bot_token c \<noteq> None;
        bot = bot_from_config c w; served = api_from_config a c w;
        tracker = event_handler_from_config c lm now now1 now2 w;
        job = run_subscription_maintenance_from_config now c v; backfill = run_service_distance_backfill_from_config lm c w
    in (isl (fst bot) \<longleftrightarrow> \<not> (up \<and> reachable w \<and> tok)) \<and> wdb (snd bot) = wdb w
     \<and> (isl (fst served) \<longleftrightarrow> \<not> (up \<and> reachable w)) \<and> wdb (snd served) = wdb w
     \<and> (isl (fst tracker) \<longleftrightarrow> up \<and> \<not> reachable w) \<and> wdb (snd tracker) = wdb w
     \<and> (if up then True else tracker = (Inr (logging_handle_event False), w)
          \<and> bot = (Inl Telegram.MissingDatabase, w) \<and> served = (Inl ApiMissingDatabase, w)
          \<and> job = (Inl Subscription.MissingDatabase, v) \<and> backfill = (Inl NotConfigured, w))
     \<and> (if up \<and> reachable v \<and> tok
        then job = run_subscription_maintenance now (v\<lparr>wseq := wseq v + 2, wsched := drop 2 (wsched v)\<rparr>)
        else isl (fst job) \<and> wdb (snd job) = wdb v)
     \<and> (if up \<and> reachable w
        then backfill = io_map_error DatabaseQuery (backfill_all_device_distances lm)
               (w\<lparr>wseq := wseq w + 2, wsched := drop 2 (wsched w)\<rparr>)
        else isl (fst backfill) \<and> wdb (snd backfill) = wdb w))"
proof (cases "cf_database_url c")
  case None
  then show ?thesis
    by (simp add: start_defs build_event_handler_def Let_def connect_cases(1) require_cases(1))
next
  case (Some url)
  then have url: "cf_database_url c \<noteq> None" by simp
  have w: "isl (fst (bot_from_config c w)) \<longleftrightarrow> \<not> (reachable w \<and> cf_telegram_bot_token c \<noteq> None)"
    "isl (fst (api_from_config a c w)) \<longleftrightarrow> \<not> reachable w"
    "isl (fst (event_handler_from_config c lm now now1 now2 w)) \<longleftrightarrow> \<not> reachable w"
    "wdb (snd (bot_from_config c w)) = wdb w" "wdb (snd (api_from_config a c w)) = wdb w"
    "wdb (snd (event_handler_from_config c lm now now1 now2 w)) = wdb w"
    using connect_cases(2,3) [OF url, of w] require_cases(2,3) [OF url, of w Telegram.MissingDatabase BotDatabase]
      require_cases(2,3) [OF url, of w ApiMissingDatabase ApiDatabase]
    by (cases "reachable w"; auto simp: start_defs split: option.splits)+
  show ?thesis
    using w url backfill_start [OF url, of w lm] job_start [OF url, of v now] by (simp add: Let_def)
qed

end
