(* ===== verification/Programs.thy ===== *)
theory Programs
  imports Billing Bindings Router Startup
begin

text \<open>
  What each program of the repository changes in the database that they share, and what it leaves: the
  footprints from which the interplay of the programs follows in \<open>System\<close>.
\<close>

section \<open>The tracker\<close>

lemma untouched_process_distance [io_intros]:
  assumes "\<And>s x. view (s\<lparr>device_distance_odometer := x\<rparr>) = view s" and "\<And>s x. view (s\<lparr>device_distance_daily := x\<rparr>) = view s"
  shows "untouched view (process_location_distance lm imei p)"
  unfolding process_location_distance_def Let_def upsert_odometer_def upsert_daily_def
  using assms
  by (auto intro!: io_intros untouched_execute untouched_query split: if_splits option.splits)

lemma untouched_tracker [io_intros]:
  assumes "\<And>s x. view (s\<lparr>devices := x\<rparr>) = view s" "\<And>s x. view (s\<lparr>device_locations := x\<rparr>) = view s"
    "\<And>s x. view (s\<lparr>device_heartbeats := x\<rparr>) = view s" "\<And>s x. view (s\<lparr>device_distance_odometer := x\<rparr>) = view s"
    and "\<And>s x. view (s\<lparr>device_distance_daily := x\<rparr>) = view s"
  shows "untouched view (persist_event lm now now1 now2 event)"
  using assms
  by (cases event)
     (auto simp: persist_location_def persist_heartbeat_def upsert_device_login_def upsert_device_last_seen_def
      insert_location_def update_device_latest_location_def insert_heartbeat_def fetch_previous_acc_high_def
      update_device_latest_heartbeat_def Let_def
      intro!: io_intros untouched_query untouched_execute split: option.split if_splits)

lemma untouched_logging [io_intros]: "untouched view (logging_handle_event has_database event)"
  by (cases event) (auto simp: Let_def fetch_previous_acc_high_def intro!: io_intros)

lemma untouched_handler:
  assumes "untouched view (persist_event lm now now1 now2 event)"
  shows "untouched view (build_event_handler configured lm now now1 now2 event)"
  using assms
  by (auto simp: build_event_handler_def composite_handle_event_def database_handle_event_def intro!: io_intros)

section \<open>The backfill\<close>

lemma untouched_backfill [io_intros]:
  assumes "\<And>s x. view (s\<lparr>device_distance_odometer := x\<rparr>) = view s" and "\<And>s x. view (s\<lparr>device_distance_daily := x\<rparr>) = view s"
  shows "untouched view (backfill_device_distance lm imei)" "untouched view (backfill_all_device_distances lm)"
  unfolding backfill_device_distance_def backfill_all_device_distances_def
  using assms by (auto intro!: io_intros untouched_execute)

lemma untouched_connect [io_intros]: "untouched view (require_database missing wrap c)"
  unfolding require_database_def database_connect_def
  by (auto intro!: io_intros untouched_operation)

lemma untouched_backfill_job:
  assumes "\<And>s x. view (s\<lparr>device_distance_odometer := x\<rparr>) = view s" and "\<And>s x. view (s\<lparr>device_distance_daily := x\<rparr>) = view s"
  shows "untouched view (run_service_distance_backfill_from_config lm c)"
  unfolding run_service_distance_backfill_from_config_def using assms by (intro io_intros)

section \<open>The maintenance job\<close>

lemma untouched_upsert_sanction [io_intros]:
  "(\<And>s x. view (s\<lparr>telegram_subscription_sanctions := x\<rparr>) = view s) \<Longrightarrow>
   untouched view (upsert_sanction_state r a b c d e f)"
  unfolding upsert_sanction_state_def by (auto simp: Let_def intro!: untouched_query split: if_splits)

lemma untouched_set_status [io_intros]:
  "(\<And>s x. view (s\<lparr>telegram_subscriptions := x\<rparr>) = view s) \<Longrightarrow> untouched view (set_subscription_status i st)"
  unfolding set_subscription_status_def by (auto intro!: untouched_query split: if_splits)

lemma untouched_reminder [io_intros]:
  "(\<And>s x. view (s\<lparr>sent := x\<rparr>) = view s) \<Longrightarrow> untouched view (send_telegram_message c t m)"
  unfolding send_telegram_message_def by (auto intro!: io_intros untouched_operation)

lemma untouched_maintenance [io_intros]:
  assumes "\<And>s x. view (s\<lparr>telegram_subscriptions := x\<rparr>) = view s"
    "\<And>s x. view (s\<lparr>telegram_subscription_sanctions := x\<rparr>) = view s" and "\<And>s x. view (s\<lparr>sent := x\<rparr>) = view s"
  shows "untouched view (run_subscription_maintenance now)"
  unfolding run_subscription_maintenance_def fetch_subscription_maintenance_records_def maintain_record_def
    mark_pre_expiry_reminder_sent_def mark_overdue_reminder_sent_def mark_withdrawal_required_def
  using assms by (auto intro!: io_intros split: maintenance_action.split)

lemma untouched_maintenance_job:
  assumes "\<And>s x. view (s\<lparr>telegram_subscriptions := x\<rparr>) = view s"
    "\<And>s x. view (s\<lparr>telegram_subscription_sanctions := x\<rparr>) = view s" and "\<And>s x. view (s\<lparr>sent := x\<rparr>) = view s"
  shows "untouched view (run_subscription_maintenance_from_config now c)"
  unfolding run_subscription_maintenance_from_config_def using assms by (intro io_intros)

section \<open>The bot\<close>

lemma untouched_log [io_intros]: "untouched view m \<Longrightarrow> untouched view (io_log m)"
  unfolding io_log_def by (intro io_intros)

lemma untouched_cycle:
  assumes "\<And>s x. view (s\<lparr>requests := x\<rparr>) = view s" "\<And>s x. view (s\<lparr>telegram_bot_state := x\<rparr>) = view s"
    "\<And>s x. view (s\<lparr>telegram_users := x\<rparr>) = view s" "\<And>s x. view (s\<lparr>telegram_engine_sessions := x\<rparr>) = view s"
    "\<And>s x. view (s\<lparr>telegram_device_notifications := x\<rparr>) = view s"
    and "\<And>s x. view (s\<lparr>telegram_payment_events := x\<rparr>) = view s"
  shows "untouched view (bot_cycle b)"
  unfolding bot_cycle_def process_updates_def handle_update_def
  using assms by (auto intro!: io_intros)

end
