(* ===== verification/System.thy ===== *)
theory System
  imports Programs
begin

text \<open>
  The programs of the repository together: the tracker server (\<open>src/main.rs\<close>), the bot
  (\<open>src/bin/telegram_bot.rs\<close>), the HTTP API (\<open>src/bin/http_api.rs\<close>), the maintenance job
  (\<open>src/bin/subscription_maintenance.rs\<close>) and the distance backfill (\<open>src/bin/service_distance_backfill.rs\<close>)
  are processes that share nothing but the database. A step of the system is one event, one cycle of
  the bot, one request, or one run of a job; any of its queries and requests may fail.
\<close>

section \<open>Running a program on the shared database\<close>

text \<open>A program has a state of its own, what it has sent, beside the tables.\<close>

definition run_on :: "'z \<Rightarrow> ('z store_scheme, 'e, 'a) io \<Rightarrow> store world \<Rightarrow> store world" where
  "run_on own m w =
     (let w' = snd (m \<lparr>wdb = store.extend (wdb w) own, wseq = wseq w, wsched = wsched w\<rparr>)
      in \<lparr>wdb = store.truncate (wdb w'), wseq = wseq w', wsched = wsched w'\<rparr>)"

inductive program_step :: "libm \<Rightarrow> store world \<Rightarrow> store world \<Rightarrow> bool" for lm where
  bot: "program_step lm w (run_on \<lparr>requests = []\<rparr> (bot_cycle b) w)"
| api: "program_step lm w (run_on \<lparr>deliveries = []\<rparr> (route a request) w)"
| maintenance: "program_step lm w (run_on \<lparr>sent = []\<rparr> (run_subscription_maintenance_from_config now c) w)"
| backfill: "program_step lm w (run_on () (run_service_distance_backfill_from_config lm c) w)"
| weather: "program_step lm w (w\<lparr>wsched := sched\<rparr>)"

inductive system_step :: "libm \<Rightarrow> store world \<Rightarrow> store world \<Rightarrow> bool" for lm where
  tracker: "system_step lm w (run_on () (build_event_handler configured lm now now1 now2 event) w)"
| program: "program_step lm w w' \<Longrightarrow> system_step lm w w'"

inductive_cases program_step_cases: "program_step lm w w'"

inductive_cases system_step_cases: "system_step lm w w'"

abbreviation system_steps :: "libm \<Rightarrow> store world \<Rightarrow> store world \<Rightarrow> bool" where
  "system_steps lm \<equiv> (system_step lm)\<^sup>*\<^sup>*"

lemma extend_truncate [simp]: "store.truncate (store.extend s own) = s"
  by (simp add: store.defs)

lemma truncate_fields [simp]:
  "devices (store.truncate s) = devices s" "device_locations (store.truncate s) = device_locations s"
  "device_heartbeats (store.truncate s) = device_heartbeats s"
  "device_distance_odometer (store.truncate s) = device_distance_odometer s"
  "device_distance_daily (store.truncate s) = device_distance_daily s"
  "telegram_users (store.truncate s) = telegram_users s"
  "telegram_subscriptions (store.truncate s) = telegram_subscriptions s"
  "telegram_payment_events (store.truncate s) = telegram_payment_events s"
  "telegram_engine_sessions (store.truncate s) = telegram_engine_sessions s"
  "fuel_calibrations (store.truncate s) = fuel_calibrations s"
  by (simp_all add: store.defs)

section \<open>Shared invariants\<close>

text \<open>What an invariant of the database has to survive, so that it holds for ever.\<close>

locale shared_invariant =
  fixes lm :: libm and I :: "int \<Rightarrow> store \<Rightarrow> bool"
  assumes kept_by_tracker: "keeps I (build_event_handler configured lm now now1 now2 event)"
    and kept_by_bot: "keeps (\<lambda>n s. I n (store.truncate s)) (bot_cycle b)"
    and kept_by_api: "keeps (\<lambda>n s. I n (store.truncate s)) (route a request)"
    and kept_by_maintenance:
      "keeps (\<lambda>n s. I n (store.truncate s)) (run_subscription_maintenance_from_config now c)"
    and kept_by_backfill: "keeps I (run_service_distance_backfill_from_config lm c)"
begin

lemma run_on_keeps:
  assumes "keeps (\<lambda>n s. I n (store.truncate s)) m" and "I (wseq w) (wdb w)"
  shows "I (wseq (run_on own m w)) (wdb (run_on own m w))"
  using keepsD [OF assms(1), of "\<lparr>wdb = store.extend (wdb w) own, wseq = wseq w, wsched = wsched w\<rparr>"] assms(2)
  by (simp add: run_on_def Let_def)

lemma truncate_unit: "store.truncate (s :: store) = s"
  by (cases s) (simp add: store.defs)

lemma program_keeps: "program_step lm w w' \<Longrightarrow> I (wseq w) (wdb w) \<Longrightarrow> I (wseq w') (wdb w')"
  using kept_by_bot kept_by_api kept_by_maintenance kept_by_backfill
  by (erule_tac program_step_cases) (auto intro!: run_on_keeps simp: truncate_unit)

lemma step_keeps: "system_step lm w w' \<Longrightarrow> I (wseq w) (wdb w) \<Longrightarrow> I (wseq w') (wdb w')"
  using kept_by_tracker program_keeps
  by (erule_tac system_step_cases) (auto intro!: run_on_keeps simp: truncate_unit)

lemma steps_keep: "system_steps lm w w' \<Longrightarrow> I (wseq w) (wdb w) \<Longrightarrow> I (wseq w') (wdb w')"
  by (induction rule: rtranclp_induct) (blast intro: step_keeps)+

end

section \<open>The invariants of the components are shared\<close>

lemma session_view_tracker: "untouched telegram_engine_sessions (build_event_handler configured lm now now1 now2 event)"
  by (intro untouched_handler io_intros) simp_all

lemma keeps_quiet: "untouched view m \<Longrightarrow> keeps (\<lambda>_ s. I (view s)) m"
  by (rule keeps_view)

lemma advances_cycle: "advances (bot_cycle b)"
  by (rule untouched_advances) (simp add: untouched_cycle)

subsection \<open>Sessions\<close>

interpretation shared_sessions: shared_invariant lm "\<lambda>n s. session_inv T0 n (telegram_engine_sessions s)" for lm T0
proof unfold_locales
  fix b
  have "triple (\<lambda>n s. session_inv T0 n (telegram_engine_sessions s)) (bot_cycle b)
      (\<lambda>_ n s. session_inv T0 n (telegram_engine_sessions s)) (\<lambda>n s. session_inv T0 n (telegram_engine_sessions s))"
    using safe_cycle [of T0 b] by (simp add: session_safe_def session_triple_def)
  from keeps_of_triple [OF this advances_cycle]
  show "keeps (\<lambda>n s. session_inv T0 n (telegram_engine_sessions (store.truncate s))) (bot_cycle b)" by simp
qed (unfold truncate_fields, (rule keeps_view [where I = "session_inv T0"],
      simp_all add: session_view_tracker untouched_route untouched_maintenance_job untouched_backfill_job session_inv_mono)+)

subsection \<open>Calibrations\<close>

lemma fuel_kept_route: "keeps (fuel_kept T0) (route a request)"
proof (cases "is_fuel_change request")
  case True
  then show ?thesis
    by (cases request) (simp_all add: respond_def keeps_bind keeps_return keeps_start keeps_restart keeps_complete)
next
  case False
  then show ?thesis by (intro keeps_fuel_untouched untouched_route) simp_all
qed

interpretation shared_fuel: shared_invariant lm "fuel_kept T0" for lm T0
  by unfold_locales
     (unfold truncate_fields, (rule fuel_kept_route | rule keeps_fuel_untouched,
       simp add: untouched_handler untouched_tracker untouched_cycle untouched_maintenance_job untouched_backfill_job)+)

subsection \<open>Payments\<close>

lemma billed_route: "keeps (billed P0) (route a request)"
proof (cases "is_webhook request")
  case True
  then show ?thesis by (cases request) (simp_all add: respond_def keeps_bind keeps_return billed_post)
next
  case False
  then show ?thesis by (intro billed_untouched untouched_route) (simp_all add: billing_view_def)
qed

lemma billed_set_status: "keeps (billed P0) (set_subscription_status i st)"
  unfolding set_subscription_status_def
proof (rule keeps_query [OF persistent_billed])
  fix n and s s' :: "'a store_scheme" and x
  let ?S = "update_where (\<lambda>b. sb_id b = i) (\<lambda>b. b\<lparr>sb_status := st\<rparr>) (telegram_subscriptions s)"
  assume inv: "billed P0 n s" and "(if st \<notin> {''active'', ''expired'', ''canceled'', ''past_due''} then Inl CheckViolation
       else Inr ((), s\<lparr>telegram_subscriptions := ?S\<rparr>)) = Inr (x, s')"
  then have s': "billing_view s' = (telegram_payment_events s, ?S)" by (auto simp: billing_view_def split: if_splits)
  have "map sb_telegram_user_id ?S = map sb_telegram_user_id (telegram_subscriptions s)"
    by (rule map_update_where) simp
  moreover have "distinct (map sb_telegram_user_id (telegram_subscriptions s))"
    using inv unfolding billing_inv_def billing_view_def by (blast dest: billing_okD(6))
  ultimately have users: "distinct (map sb_telegram_user_id ?S)" by (simp only:)
  have same: "\<exists>b' \<in> set ?S. sb_id b' = sb_id b \<and> sb_telegram_user_id b' = sb_telegram_user_id b"
    if "b \<in> set (telegram_subscriptions s)" for b
    using that by (intro bexI [of _ "if sb_id b = i then b\<lparr>sb_status := st\<rparr> else b"]) (auto simp: set_update_where)
  have "billing_inv P0 n (telegram_payment_events s, ?S)"
    by (rule billing_subscriptions [OF inv [unfolded billing_view_def] users same])
  then show "billed P0 (n + 1) s'" using s' by (auto intro: billing_inv_mono)
qed

lemma billed_maintenance: "keeps (billed P0) (run_subscription_maintenance_from_config now c)"
proof -
  have "keeps (billed P0) (maintain_record now r)" for r
    unfolding maintain_record_def mark_pre_expiry_reminder_sent_def mark_overdue_reminder_sent_def mark_withdrawal_required_def
    by (cases "action_of_record now r"; simp only: maintenance_action.case;
        intro keeps_bind keeps_map_error keeps_return billed_set_status billed_untouched untouched_upsert_sanction untouched_reminder)
       (simp_all add: billing_view_def)
  then show ?thesis
    unfolding run_subscription_maintenance_from_config_def run_subscription_maintenance_def
      fetch_subscription_maintenance_records_def
    by (intro keeps_bind keeps_case_option keeps_throw keeps_map_error keeps_for billed_untouched [OF untouched_connect]
        billed_untouched [OF untouched_select])
qed

interpretation shared_payments: shared_invariant lm "billed P0" for lm P0
  by unfold_locales
     (unfold truncate_fields billing_view_def [of "store.truncate _"], unfold billing_view_def [symmetric],
      (rule billed_route billed_cycle billed_maintenance | rule billed_untouched,
       simp add: untouched_handler untouched_tracker untouched_backfill_job billing_view_def)+)

subsection \<open>Users\<close>

abbreviation users_kept :: "user_row list \<Rightarrow> int \<Rightarrow> 'z store_scheme \<Rightarrow> bool" where
  "users_kept T0 n s \<equiv> users_inv T0 (user_view s)"

lemma users_kept_untouched: "untouched user_view m \<Longrightarrow> keeps (users_kept T0) m"
  by (rule keeps_view)

lemma persistent_users: "persistent (users_kept T0)"
  by (simp add: persistent_def)

lemma users_kept_devices:
  "users_kept T0 n s \<Longrightarrow> dv_imei ` set (devices s) \<subseteq> dv_imei ` set ds \<Longrightarrow> users_kept T0 n (s\<lparr>devices := ds\<rparr>)"
  unfolding user_view_def by (simp add: users_inv_devices)

lemma imeis_update_where: "(\<And>r. dv_imei (f r) = dv_imei r) \<Longrightarrow> dv_imei ` set (update_where p f ds) = dv_imei ` set ds"
  using map_update_where [of ds p dv_imei f] by (metis list.set_map)

lemma imeis_upserted:
  "dv_imei ` set ds \<subseteq> dv_imei ` set (upsert dv_imei imei (fresh_login imei v) (merge_login v) ds)"
  "dv_imei ` set ds \<subseteq> dv_imei ` set (upsert dv_imei imei (fresh_seen imei v) (merge_seen v) ds)"
  using login.keys [of imei v ds] seen.keys [of imei v ds]
  by (metis (no_types, lifting) list.set_map set_append subset_refl sup_ge1)+

lemma users_kept_upserts:
  "keeps (users_kept T0) (upsert_device_login imei peer now)" "keeps (users_kept T0) (upsert_device_last_seen imei peer now)"
  unfolding upsert_device_login_def upsert_device_last_seen_def
  by (auto simp: Let_def intro!: keeps_query persistent_users users_kept_devices [OF _ imeis_upserted(1)]
      users_kept_devices [OF _ imeis_upserted(2)])

lemma users_kept_updates:
  "keeps (users_kept T0) (update_device_latest_location pk peer t t2 p)"
  "keeps (users_kept T0) (update_device_latest_heartbeat pk imei peer t hb)"
  unfolding update_device_latest_location_def update_device_latest_heartbeat_def fetch_previous_acc_high_def
  by (auto intro!: keeps_bind keeps_select keeps_execute persistent_users users_kept_devices simp: imeis_update_where)

lemma users_quiet_statements:
  "untouched user_view (insert_location pk imei peer t t1 p)" "untouched user_view (insert_heartbeat pk imei peer t hb)"
  "untouched user_view (process_location_distance lm imei pt)"
  by (auto simp: insert_location_def insert_heartbeat_def fetch_previous_acc_high_def user_view_def
      intro!: io_intros untouched_query split: if_splits)

lemmas users_kept_statements = users_kept_upserts users_kept_updates users_quiet_statements [THEN users_kept_untouched]

lemma users_kept_tracker: "keeps (users_kept T0) (build_event_handler configured lm now now1 now2 event)"
proof -
  have "keeps (users_kept T0) (persist_event lm now now1 now2 event)"
    by (cases event; simp only: persist_event.simps; (unfold persist_location_def persist_heartbeat_def)?;
        intro keeps_case_option keeps_transaction persistent_users keeps_bind keeps_return users_kept_statements)
  then show ?thesis
    unfolding build_event_handler_def composite_handle_event_def database_handle_event_def
    by (auto intro!: keeps_bind keeps_return keeps_try keeps_map_list users_kept_untouched [OF untouched_logging])
qed

lemma untouched_users_patch: "untouched user_view (update_device_sim_card_expiration a imei date)"
  unfolding update_device_sim_card_expiration_def set_expiration_date_def
  by (auto intro!: io_intros untouched_query simp: Let_def user_view_def imeis_update_where split: option.split)

lemma untouched_users_route: "untouched user_view (route a request)"
proof (cases "is_sim_card_change request")
  case True
  then show ?thesis by (cases request) (simp_all add: untouched_respond untouched_users_patch)
next
  case False
  then show ?thesis by (intro untouched_route) (simp_all add: user_view_def)
qed

lemma users_view_truncate [simp]: "user_view (store.truncate s) = user_view s"
  by (simp add: user_view_def)

interpretation shared_users: shared_invariant lm "users_kept T0" for lm T0
proof unfold_locales
  fix b
  have "triple (users_kept T0) (bot_cycle b) (\<lambda>_. users_kept T0) (users_kept T0)"
    using user_cycle [of T0 b] by (simp add: user_triple_def)
  from keeps_of_triple [OF this advances_cycle]
  show "keeps (\<lambda>n s. users_kept T0 n (store.truncate s)) (bot_cycle b)" by simp
qed (unfold users_view_truncate, (rule users_kept_tracker | rule users_kept_untouched,
      simp add: untouched_users_route untouched_maintenance_job untouched_backfill_job user_view_def)+)

subsection \<open>Devices, history and distances\<close>

definition tracked_view :: "'z store_scheme \<Rightarrow> store" where
  "tracked_view s = empty_store\<lparr>devices := devices s, device_locations := device_locations s,
     device_heartbeats := device_heartbeats s, device_distance_odometer := device_distance_odometer s,
     device_distance_daily := device_distance_daily s\<rparr>"

lemma tracker_ok_view: "tracker_ok lm n (tracked_view s) = tracker_ok lm n s"
  by (simp add: tracker_ok_def devices_ok_def history_ok_def owned_def synced_def distances_def stored_points_def
      tracked_view_def)

lemma tracked_view_truncate [simp]: "tracked_view (store.truncate s) = tracked_view s"
  by (simp add: tracked_view_def)

lemma tracker_ok_truncate [simp]: "tracker_ok lm n (store.truncate s) = tracker_ok lm n s"
  by (metis tracker_ok_view tracked_view_truncate)

lemma tracked_untouched:
  assumes "untouched tracked_view m"
  shows "keeps (tracker_ok lm) m"
proof -
  have "keeps (\<lambda>n s. tracker_ok lm n (tracked_view s)) m"
    using assms persistentD [OF persistent_tracker_ok] by (rule keeps_view)
  then show ?thesis by (simp add: tracker_ok_view)
qed

lemma tracked_set_expiration:
  "keeps (tracker_ok lm :: int \<Rightarrow> 'z store_scheme \<Rightarrow> bool) (set_expiration_date imei d now)"
  unfolding set_expiration_date_def
proof (rule keeps_query [OF persistent_tracker_ok])
  fix n and s s' :: "'z store_scheme" and x
  let ?T = "update_where (\<lambda>d. dv_imei d = imei)
      (\<lambda>r. r\<lparr>dv_sim_card_expiration_date := d, dv_updated_at := now\<rparr>) (devices s)"
  assume ok: "tracker_ok lm n s" and "(let T = ?T in Inr (lookup dv_imei imei T, s\<lparr>devices := T\<rparr>)) = Inr (x, s')"
  then have s': "s' = s\<lparr>devices := ?T\<rparr>" by (simp add: Let_def)
  have "base_ok n s'" unfolding s' using ok by (intro base_ok_update_device) (simp_all add: base_ok_def tracker_ok_def)
  then have "tracker_ok lm n s'" using ok by (simp add: tracker_ok_def base_ok_def s' synced_frame)
  then show "tracker_ok lm (n + 1) s'" by (rule persistentD [OF persistent_tracker_ok]) simp
qed

lemma tracked_patch: "keeps (tracker_ok lm) (update_device_sim_card_expiration a imei date)"
  unfolding update_device_sim_card_expiration_def
  by (intro keeps_bind keeps_map_error keeps_case_option keeps_throw keeps_return tracked_set_expiration
      tracked_untouched [OF untouched_api_result] tracked_untouched [OF untouched_sql_now])

lemma tracked_route: "keeps (tracker_ok lm) (route a request)"
proof (cases "is_sim_card_change request")
  case True
  then show ?thesis by (cases request) (simp_all add: respond_def keeps_bind keeps_return tracked_patch)
next
  case False
  then show ?thesis by (intro tracked_untouched untouched_route) (simp_all add: tracked_view_def)
qed

lemma backfill_error: "backfill_device_distance lm imei w = (Inl e, w') \<Longrightarrow> wdb w' = wdb w"
  unfolding backfill_device_distance_def bind_error
  by (auto dest!: transaction_rolls_back select_ok simp: select_def query_def operation_def Let_def split: if_splits)

lemma tracked_backfill: "keeps (tracker_ok lm) (backfill_device_distance lm imei)"
proof (rule keepsI)
  fix w :: "'a store_scheme world"
  obtain r w' where w': "backfill_device_distance lm imei w = (r, w')" by force
  have "untouched (\<lambda>_ :: 'a store_scheme. ()) (backfill_device_distance lm imei)" by (intro io_intros) simp_all
  then show seq: "wseq w \<le> wseq (snd (backfill_device_distance lm imei w))" by (simp add: untouched_def)
  assume ok: "tracker_ok lm (wseq w) (wdb w)"
  have "tracker_ok lm (wseq w) (wdb w')"
  proof (cases r)
    case (Inl e)
    then show ?thesis using backfill_error w' ok by metis
  next
    case (Inr u)
    with w' have "backfill_device_distance lm imei w = (Inr (), w')" by simp
    note b = backfill_refines [OF this]
    have "base_ok (wseq w) (wdb w)" using ok by (simp add: base_ok_def tracker_ok_def)
    then have "base_ok (wseq w) (wdb w')" using b base_ok_same_inputs by blast
    moreover have "synced lm (wdb w')"
      unfolding synced_def
    proof
      fix j
      have "distances j (wdb w) = replay lm j (stored_points j (wdb w))" using ok by (simp add: tracker_ok_def synced_def)
      then show "distances j (wdb w') = replay lm j (stored_points j (wdb w'))"
        using b same_inputs_points [of "wdb w" "wdb w'" j] by (cases "j = imei") simp_all
    qed
    ultimately show ?thesis by (simp add: tracker_ok_def base_ok_def)
  qed
  then show "tracker_ok lm (wseq (snd (backfill_device_distance lm imei w))) (wdb (snd (backfill_device_distance lm imei w)))"
    using seq w' persistentD [OF persistent_tracker_ok] by fastforce
qed

interpretation shared_tracking: shared_invariant lm "tracker_ok lm" for lm
proof unfold_locales
  fix configured now now1 now2 event
  show "keeps (tracker_ok lm) (build_event_handler configured lm now now1 now2 event)"
    by (rule server_handler.keeps_invariant)
next
  fix c
  show "keeps (tracker_ok lm) (run_service_distance_backfill_from_config lm c)"
    unfolding run_service_distance_backfill_from_config_def backfill_all_device_distances_def
    by (intro keeps_bind keeps_map_error keeps_for tracked_backfill tracked_untouched [OF untouched_connect]
        tracked_untouched [OF untouched_select])
qed (unfold tracker_ok_truncate, (rule tracked_route | rule tracked_untouched,
      simp add: untouched_cycle untouched_maintenance_job tracked_view_def)+)

section \<open>The system\<close>

text \<open>What holds of the database at all times, and what becomes of its rows.\<close>

definition system_ok :: "libm \<Rightarrow> int \<Rightarrow> store \<Rightarrow> bool" where
  "system_ok lm n s \<longleftrightarrow> tracker_ok lm n s
     \<and> users_ok (telegram_users s) (dv_imei ` set (devices s))
     \<and> sessions_ok n (telegram_engine_sessions s)
     \<and> billing_ok n (telegram_payment_events s, telegram_subscriptions s)
     \<and> fuel_ok n (fuel_calibrations s)"

definition system_history :: "store \<Rightarrow> store \<Rightarrow> bool" where
  "system_history s t \<longleftrightarrow> users_step (telegram_users s) (telegram_users t)
     \<and> sessions_step (telegram_engine_sessions s) (telegram_engine_sessions t)
     \<and> payments_step (telegram_payment_events s) (telegram_payment_events t)
     \<and> fuel_step (fuel_calibrations s) (fuel_calibrations t)"

text \<open>
  C1. The programs together, one whole event, bot cycle, request or run at a time, in any order, with any
  events, updates, requests, clocks and
  configurations, and whichever of their queries and requests fail: from a well-formed database, the
  database stays well formed. Devices are unique and own their history, and the odometer and the daily
  distances of every device are what its stored locations give; users are unique and bound to registered
  devices; a device has one open session in a chat; a paid payment belongs to the subscription of its
  user, and no transaction of the provider is recorded twice; a device has one active calibration. And
  nothing is forgotten or rewritten: no binding changes, a session only moves forward in its life, the
  fate of a payment is decided once, and a finished calibration stays as it is.
\<close>

theorem system_safe:
  assumes "system_steps lm w w'" and "system_ok lm (wseq w) (wdb w)"
  shows "system_ok lm (wseq w') (wdb w') \<and> system_history (wdb w) (wdb w')"
proof -
  have start: "users_inv (telegram_users (wdb w)) (user_view (wdb w))"
    "session_inv (telegram_engine_sessions (wdb w)) (wseq w) (telegram_engine_sessions (wdb w))"
    "billing_inv (telegram_payment_events (wdb w)) (wseq w) (billing_view (wdb w))"
    "fuel_inv (fuel_calibrations (wdb w)) (wseq w) (fuel_calibrations (wdb w))"
    using assms(2) fuel_step_refl
    by (simp_all add: system_ok_def users_inv_def user_view_def session_inv_def billing_inv_def billing_view_def fuel_inv_def)
  have "tracker_ok lm (wseq w') (wdb w')"
    using shared_tracking.steps_keep [OF assms(1)] assms(2) by (simp add: system_ok_def)
  moreover note shared_users.steps_keep [OF assms(1) start(1)] shared_sessions.steps_keep [OF assms(1) start(2)]
    shared_payments.steps_keep [OF assms(1) start(3)] shared_fuel.steps_keep [OF assms(1) start(4)]
  ultimately show ?thesis
    by (simp add: system_ok_def system_history_def users_inv_def session_inv_def billing_inv_def fuel_inv_def
        user_view_def billing_view_def)
qed

definition sample_step :: "bot \<Rightarrow> store world" where
  "sample_step b = run_on \<lparr>requests = []\<rparr> (bot_cycle b)
     (run_on () (build_event_handler True sample_libm 5 5 5 (LoginEvent ''p'' ''86'' 1)) fresh_world)"

lemma sample_steps: "system_steps lm w (run_on \<lparr>requests = []\<rparr> (bot_cycle b)
     (run_on () (build_event_handler configured lm now now1 now2 event) w))"
  by (rule rtranclp.rtrancl_into_rtrancl, rule r_into_rtranclp, rule system_step.tracker,
      rule system_step.program, rule program_step.bot)

lemma system_safe_witness:
  "\<forall>b. system_ok sample_libm (wseq (sample_step b)) (wdb (sample_step b))"
proof
  fix b
  have "system_ok sample_libm (wseq fresh_world) (wdb fresh_world)"
    using persist_event_empty [of sample_libm]
    by (simp add: system_ok_def fresh_world_def users_ok_def sessions_ok_def billing_ok_def distinct_transactions_def
        fuel_ok_def) (simp add: empty_store_def)
  from system_safe [OF sample_steps this]
  show "system_ok sample_libm (wseq (sample_step b)) (wdb (sample_step b))" unfolding sample_step_def by blast
qed

end
