(* ===== verification/Ingestion.thy ===== *)
theory Ingestion
  imports System
begin

text \<open>
  From the socket to the tables: the accept loop of \<open>Gt06TcpServer::run\<close> (\<open>src/server.rs\<close>) with its
  connections, whose events reach the database in any interleaving with each other and with the other
  programs, and what the stored history says about the bytes that were received.
\<close>

section \<open>The server\<close>

text \<open>A client: its address, what the reads of its connection return, and which writes succeed.\<close>

record tracker_client =
  tc_peer :: string
  tc_reads :: "read_result list"
  tc_writes :: "nat \<Rightarrow> bool"

definition emitted :: "action list \<Rightarrow> device_event list" where
  "emitted trace = concat (map (\<lambda>a. case a of Emit ev \<Rightarrow> [ev] | _ \<Rightarrow> []) trace)"

text \<open>The task spawned for an accepted connection, as the events that it awaits the handler for.\<close>

definition spawned :: "tracker_client \<Rightarrow> device_event list" where
  "spawned c = emitted (cn_trace (snd (handle_connection (tc_writes c) (tc_peer c) (tc_reads c))))"

record server_state =
  sv_clients :: "tracker_client list"
  sv_pending :: "device_event list list"
  sv_world :: "store world"

inductive server_step :: "libm \<Rightarrow> server_state \<Rightarrow> server_state \<Rightarrow> bool" for lm where
  accepted: "server_step lm v (v\<lparr>sv_clients := sv_clients v @ [c], sv_pending := sv_pending v @ [spawned c]\<rparr>)"
| handled: "i < length (sv_pending v) \<Longrightarrow> sv_pending v ! i = event # rest \<Longrightarrow>
    server_step lm v (v\<lparr>sv_pending := (sv_pending v)[i := rest],
      sv_world := run_on () (build_event_handler configured lm now now1 now2 event) (sv_world v)\<rparr>)"
| elsewhere: "program_step lm (sv_world v) w \<Longrightarrow> server_step lm v (v\<lparr>sv_world := w\<rparr>)"

definition idle_server :: "store world \<Rightarrow> server_state" where
  "idle_server w = \<lparr>sv_clients = [], sv_pending = [], sv_world = w\<rparr>"

section \<open>What a byte stream reports\<close>

text \<open>The messages of a stream, each with the IMEI of the last login before it.\<close>

fun reported :: "string option \<Rightarrow> (protocol_error + frame) list \<Rightarrow> (string \<times> gt06_message) list" where
  "reported dev [] = []"
| "reported dev (Inl e # rs) = reported dev rs"
| "reported dev (Inr f # rs) =
     (case decode_message f of
        Inl e \<Rightarrow> reported dev rs
      | Inr (Login p) \<Rightarrow> (lp_imei p, Login p) # reported (Some (lp_imei p)) rs
      | Inr m \<Rightarrow> (case dev of Some imei \<Rightarrow> [(imei, m)] | None \<Rightarrow> []) @ reported dev rs)"

definition reports :: "tracker_client \<Rightarrow> (string \<times> gt06_message) list" where
  "reports c = reported None (results_in (concat (chunks (tc_reads c))))"

text \<open>A message about a device follows a login of that device.\<close>

lemma reported_login:
  "(imei, m) \<in> set (reported dev rs) \<Longrightarrow> dev = Some imei \<or> (\<exists>p. (imei, Login p) \<in> set (reported dev rs))"
  by (induction dev rs rule: reported.induct)
     (auto split: sum.splits gt06_message.splits option.splits)

fun event_sent :: "tracker_client list \<Rightarrow> device_event \<Rightarrow> bool" where
  "event_sent cs (LoginEvent peer imei _) =
     (\<exists>c \<in> set cs. tc_peer c = peer \<and> (\<exists>p. (imei, Login p) \<in> set (reports c)))"
| "event_sent cs (HeartbeatEvent peer dev p) =
     (\<forall>imei. dev = Some imei \<longrightarrow> (\<exists>c \<in> set cs. tc_peer c = peer \<and> (imei, Heartbeat p) \<in> set (reports c)))"
| "event_sent cs (LocationEvent peer dev p) =
     (\<forall>imei. dev = Some imei \<longrightarrow> (\<exists>c \<in> set cs. tc_peer c = peer \<and> (imei, Location p) \<in> set (reports c)))"

lemma emitted_simps [simp]:
  "emitted [] = []" "emitted (Emit ev # as) = ev # emitted as" "emitted (Write bs # as) = emitted as"
  "emitted (Ignored p # as) = emitted as" "emitted (Logged f e # as) = emitted as"
  by (simp_all add: emitted_def)

fun event_reported :: "string \<Rightarrow> (string \<times> gt06_message) set \<Rightarrow> device_event \<Rightarrow> bool" where
  "event_reported peer R (LoginEvent a imei _) = (a = peer \<and> (\<exists>p. (imei, Login p) \<in> R))"
| "event_reported peer R (HeartbeatEvent a dev p) = (a = peer \<and> (\<forall>imei. dev = Some imei \<longrightarrow> (imei, Heartbeat p) \<in> R))"
| "event_reported peer R (LocationEvent a dev p) = (a = peer \<and> (\<forall>imei. dev = Some imei \<longrightarrow> (imei, Location p) \<in> R))"

lemma event_reported_mono: "event_reported peer R ev \<Longrightarrow> R \<subseteq> R' \<Longrightarrow> event_reported peer R' ev"
  by (cases ev) auto

lemma react_reported:
  "ev \<in> set (emitted (react wr peer n dev rs)) \<Longrightarrow> event_reported peer (set (reported dev rs)) ev"
proof (induction wr peer n dev rs arbitrary: ev rule: react.induct)
  case (3 wr peer n dev f rs)
  then show ?case
    by (auto split: sum.splits gt06_message.splits if_splits intro: event_reported_mono) 
qed auto

lemma spawned_sent: "c \<in> set cs \<Longrightarrow> ev \<in> set (spawned c) \<Longrightarrow> event_sent cs ev"
  unfolding spawned_def handle_connection_trace_reads
  by (drule react_reported, cases ev) (auto simp: reports_def)

lemma event_sent_more: "event_sent cs ev \<Longrightarrow> set cs \<subseteq> set ds \<Longrightarrow> event_sent ds ev"
  by (cases ev) (auto, blast+)

section \<open>The stored history\<close>

definition location_sent :: "tracker_client list \<Rightarrow> location_row \<Rightarrow> bool" where
  "location_sent cs l \<longleftrightarrow> (\<exists>c \<in> set cs. \<exists>p t. (lr_imei l, Location p) \<in> set (reports c)
     \<and> lr_peer_addr l = tc_peer c \<and> lr_columns l = location_values t p)"

definition heartbeat_sent :: "tracker_client list \<Rightarrow> heartbeat_row \<Rightarrow> bool" where
  "heartbeat_sent cs h \<longleftrightarrow> (\<exists>c \<in> set cs. \<exists>p previous. (hr_imei h, Heartbeat p) \<in> set (reports c)
     \<and> hr_peer_addr h = tc_peer c \<and> hr_columns h = heartbeat_values previous p)"

definition login_sent :: "tracker_client list \<Rightarrow> string \<Rightarrow> bool" where
  "login_sent cs imei \<longleftrightarrow> (\<exists>c \<in> set cs. \<exists>p. (imei, Login p) \<in> set (reports c))"

type_synonym history = "location_row list \<times> heartbeat_row list \<times> string set"

definition history_view :: "'z store_scheme \<Rightarrow> history" where
  "history_view s = (device_locations s, device_heartbeats s, dv_imei ` set (devices s))"

definition history_sent :: "tracker_client list \<Rightarrow> history \<Rightarrow> history \<Rightarrow> bool" where
  "history_sent cs old new \<longleftrightarrow> (case (old, new) of ((L0, H0, D0), (L, H, D)) \<Rightarrow>
     (\<forall>l \<in> set L. l \<in> set L0 \<or> location_sent cs l) \<and> (\<forall>h \<in> set H. h \<in> set H0 \<or> heartbeat_sent cs h)
     \<and> (\<forall>imei \<in> D. imei \<in> D0 \<or> login_sent cs imei))"

abbreviation history_kept :: "tracker_client list \<Rightarrow> history \<Rightarrow> int \<Rightarrow> 'z store_scheme \<Rightarrow> bool" where
  "history_kept cs old n s \<equiv> history_sent cs old (history_view s)"

lemma persistent_history: "persistent (history_kept cs old)"
  by (simp add: persistent_def)

lemma history_untouched: "untouched history_view m \<Longrightarrow> keeps (history_kept cs old) m"
  by (rule keeps_view)

lemma history_sent_devices:
  "history_sent cs old (L, H, D) \<Longrightarrow> D' \<subseteq> insert imei D \<Longrightarrow> login_sent cs imei \<Longrightarrow> history_sent cs old (L, H, D')"
  by (auto simp: history_sent_def split: prod.splits)

lemma history_sent_rows:
  "history_sent cs old (L, H, D) \<Longrightarrow> location_sent cs l \<Longrightarrow> history_sent cs old (L @ [l], H, D)"
  "history_sent cs old (L, H, D) \<Longrightarrow> heartbeat_sent cs h \<Longrightarrow> history_sent cs old (L, H @ [h], D)"
  by (auto simp: history_sent_def split: prod.splits)

lemma history_devices:
  "history_kept cs old n s \<Longrightarrow> dv_imei ` set ds \<subseteq> insert imei (dv_imei ` set (devices s)) \<Longrightarrow> login_sent cs imei \<Longrightarrow>
   history_kept cs old n (s\<lparr>devices := ds\<rparr>)"
  unfolding history_view_def by (simp add: history_sent_devices)

lemma imeis_upsert:
  "dv_imei ` set (upsert dv_imei imei (fresh_login imei v) (merge_login v) ds) \<subseteq> insert imei (dv_imei ` set ds)"
  "dv_imei ` set (upsert dv_imei imei (fresh_seen imei v) (merge_seen v) ds) \<subseteq> insert imei (dv_imei ` set ds)"
  using arg_cong [OF login.keys [of imei v ds], of set] arg_cong [OF seen.keys [of imei v ds], of set]
  by (auto split: if_splits)

lemma history_upserts:
  assumes "login_sent cs imei"
  shows "keeps (history_kept cs old) (upsert_device_login imei peer now)"
    "keeps (history_kept cs old) (upsert_device_last_seen imei peer now)"
  unfolding upsert_device_login_def upsert_device_last_seen_def
  by (auto simp: Let_def intro!: keeps_query persistent_history history_devices [OF _ imeis_upsert(1) assms]
      history_devices [OF _ imeis_upsert(2) assms])

lemma history_quiet_statements:
  "untouched history_view (update_device_latest_location pk peer t t2 p)"
  "untouched history_view (update_device_latest_heartbeat pk imei peer t hb)"
  "untouched history_view (process_location_distance lm imei pt)"
  by (auto simp: update_device_latest_location_def update_device_latest_heartbeat_def fetch_previous_acc_high_def
      history_view_def imeis_update_where intro!: io_intros untouched_execute)

lemma history_location:
  assumes "c \<in> set cs" and "(imei, Location p) \<in> set (reports c)"
  shows "keeps (history_kept cs old) (insert_location pk imei (tc_peer c) t now p)"
proof -
  have sent: "location_sent cs \<lparr>lr_id = i, lr_device_id = pk, lr_imei = imei, lr_server_received_at = t,
      lr_columns = location_values now p, lr_peer_addr = tc_peer c\<rparr>" for i pk
    using assms by (auto simp: location_sent_def)
  show ?thesis
    unfolding insert_location_def history_view_def
    by (rule keeps_query [OF persistent_history [unfolded history_view_def]])
       (auto split: if_splits intro: history_sent_rows(1) [OF _ sent])
qed

lemma history_heartbeat:
  assumes "c \<in> set cs" and "(imei, Heartbeat p) \<in> set (reports c)"
  shows "keeps (history_kept cs old) (insert_heartbeat pk imei (tc_peer c) t p)"
proof -
  have sent: "heartbeat_sent cs \<lparr>hr_id = i, hr_device_id = pk, hr_imei = imei, hr_server_received_at = t,
      hr_protocol_number = uint PROTOCOL_HEARTBEAT, hr_peer_addr = tc_peer c, hr_columns = heartbeat_values prev p\<rparr>" for i pk prev
    using assms by (auto simp: heartbeat_sent_def)
  show ?thesis
    unfolding insert_heartbeat_def fetch_previous_acc_high_def history_view_def
    by (intro keeps_bind keeps_select keeps_query persistent_history [unfolded history_view_def])
       (auto split: if_splits intro: history_sent_rows(2) [OF _ sent])
qed

lemma reports_login: "(imei, m) \<in> set (reports c) \<Longrightarrow> c \<in> set cs \<Longrightarrow> login_sent cs imei"
  using reported_login [of imei m None "results_in (concat (chunks (tc_reads c)))"]
  by (auto simp: reports_def login_sent_def)

lemmas history_statements = history_upserts [OF reports_login] history_location history_heartbeat
  history_quiet_statements [THEN history_untouched]

lemma history_event:
  assumes "event_sent cs event"
  shows "keeps (history_kept cs old) (build_event_handler configured lm now now1 now2 event)"
proof -
  have "keeps (history_kept cs old) (persist_event lm now now1 now2 event)"
  proof (cases event)
    case (LoginEvent peer imei ser)
    with assms obtain c p where "c \<in> set cs" "(imei, Login p) \<in> set (reports c)" by auto
    then show ?thesis
      unfolding LoginEvent persist_event.simps
      by (intro keeps_transaction persistent_history keeps_bind keeps_return history_statements)
  next
    case (HeartbeatEvent peer dev hb)
    show ?thesis
    proof (cases dev)
      case (Some imei)
      with assms HeartbeatEvent obtain c where "c \<in> set cs" "tc_peer c = peer" "(imei, Heartbeat hb) \<in> set (reports c)" by auto
      then show ?thesis
        unfolding HeartbeatEvent Some persist_event.simps option.case persist_heartbeat_def
        by (auto intro!: keeps_transaction persistent_history keeps_bind history_statements)
    qed (simp add: HeartbeatEvent keeps_return)
  next
    case (LocationEvent peer dev p)
    show ?thesis
    proof (cases dev)
      case (Some imei)
      with assms LocationEvent obtain c where "c \<in> set cs" "tc_peer c = peer" "(imei, Location p) \<in> set (reports c)" by auto
      then show ?thesis
        unfolding LocationEvent Some persist_event.simps option.case persist_location_def
        by (auto intro!: keeps_transaction persistent_history keeps_bind history_statements)
    qed (simp add: LocationEvent keeps_return)
  qed
  then show ?thesis
    unfolding build_event_handler_def composite_handle_event_def database_handle_event_def
    by (auto intro!: keeps_bind keeps_return keeps_try keeps_map_list history_untouched [OF untouched_logging])
qed

text \<open>The other programs leave the history alone.\<close>

lemma history_view_truncate [simp]: "history_view (store.truncate s) = history_view s"
  by (simp add: history_view_def)

lemma untouched_history_route: "untouched history_view (route a request)"
proof (cases "is_sim_card_change request")
  case True
  then obtain imei date where request: "request = PatchSimCardExpiration imei date" by (cases request) auto
  show ?thesis
    unfolding request route.simps update_device_sim_card_expiration_def set_expiration_date_def
    by (auto intro!: untouched_respond io_intros untouched_query simp: Let_def history_view_def imeis_update_where
        split: option.split)
next
  case False
  then show ?thesis by (intro untouched_route) (simp_all add: history_view_def)
qed

lemma run_on_history:
  "untouched history_view m \<Longrightarrow> history_view (wdb (run_on own m w)) = history_view (wdb w)"
  by (simp add: run_on_def Let_def untouched_def) (simp add: history_view_def store.defs)

lemma untouched_history_programs:
  "untouched history_view (bot_cycle b)" "untouched history_view (run_subscription_maintenance_from_config now c)"
  "untouched history_view (run_service_distance_backfill_from_config lm c)"
  by (intro untouched_cycle untouched_maintenance_job untouched_backfill_job; simp add: history_view_def)+

lemma program_history: "program_step lm w w' \<Longrightarrow> history_view (wdb w') = history_view (wdb w)"
  by (erule program_step_cases) (simp_all add: run_on_history untouched_history_programs untouched_history_route)

lemma history_sent_more: "history_sent cs old new \<Longrightarrow> set cs \<subseteq> set ds \<Longrightarrow> history_sent ds old new"
  by (fastforce simp: history_sent_def location_sent_def heartbeat_sent_def login_sent_def)

definition server_ok :: "history \<Rightarrow> server_state \<Rightarrow> bool" where
  "server_ok old v \<longleftrightarrow> history_sent (sv_clients v) old (history_view (wdb (sv_world v)))
     \<and> (\<forall>q \<in> set (sv_pending v). \<forall>event \<in> set q. event_sent (sv_clients v) event)"

lemma server_step_ok:
  assumes "server_step lm v v'" and "server_ok old v"
  shows "server_ok old v'"
  using assms(1)
proof (cases rule: server_step.cases)
  case (accepted c)
  have "event_sent (sv_clients v) event \<Longrightarrow> event_sent (sv_clients v @ [c]) event" for event
    by (erule event_sent_more) auto
  moreover have "history_sent (sv_clients v) old new \<Longrightarrow> history_sent (sv_clients v @ [c]) old new" for new
    by (erule history_sent_more) auto
  ultimately show ?thesis
    using accepted assms(2) spawned_sent [of c "sv_clients v @ [c]"] by (auto simp: server_ok_def)
next
  case (handled i event rest configured now now1 now2)
  have "sv_pending v ! i \<in> set (sv_pending v)" using handled by (intro nth_mem)
  then have sent: "\<forall>ev \<in> set (event # rest). event_sent (sv_clients v) ev" using assms(2) handled by (simp add: server_ok_def)
  have "keeps (history_kept (sv_clients v) old) (build_event_handler configured lm now now1 now2 event)"
    using sent by (intro history_event) simp
  from keepsD [OF this, of "\<lparr>wdb = store.extend (wdb (sv_world v)) (), wseq = wseq (sv_world v), wsched = wsched (sv_world v)\<rparr>"]
  have "history_sent (sv_clients v) old (history_view (wdb (sv_world v')))"
    using assms(2) handled by (simp add: server_ok_def run_on_def Let_def) (simp add: history_view_def store.defs)
  then show ?thesis
    using assms(2) handled sent by (auto simp: server_ok_def dest!: set_update_subset_insert [THEN subsetD])
next
  case (elsewhere w)
  then show ?thesis using assms(2) program_history [of lm "sv_world v" w] by (simp add: server_ok_def)
qed

abbreviation server_steps :: "libm \<Rightarrow> server_state \<Rightarrow> server_state \<Rightarrow> bool" where
  "server_steps lm \<equiv> (server_step lm)\<^sup>*\<^sup>*"

lemma server_steps_ok: "server_steps lm v v' \<Longrightarrow> server_ok old v \<Longrightarrow> server_ok old v'"
  by (induction rule: rtranclp_induct) (blast intro: server_step_ok)+

text \<open>The server is a part of the system: what it does to the database are steps of the system.\<close>

lemma server_step_system: "server_step lm v v' \<Longrightarrow> system_steps lm (sv_world v) (sv_world v')"
  by (erule server_step.cases) (auto intro: system_step.intros)

lemma server_steps_system: "server_steps lm v v' \<Longrightarrow> system_steps lm (sv_world v) (sv_world v')"
  by (induction rule: rtranclp_induct) (auto dest: server_step_system)

text \<open>
  C2. What is stored was sent: whichever clients connect, whatever bytes they send, however their
  events interleave with each other and with the other programs, and whatever fails, every location
  and heartbeat that is in the tables and was not there at the start is a message that the decoder
  found in the bytes of one client, stored under the address of that client and the IMEI of the last
  login before the message on the same connection, with the values that were sent; no device is
  registered but by a login; and the server does nothing to the database that is not a step of the system.
\<close>

theorem stored_history_was_sent:
  assumes "server_steps lm (idle_server w) v"
  shows "history_sent (sv_clients v) (history_view (wdb w)) (history_view (wdb (sv_world v)))
    \<and> system_steps lm w (sv_world v)"
proof -
  have "server_ok (history_view (wdb w)) (idle_server w)"
    by (auto simp: server_ok_def idle_server_def history_sent_def split: prod.splits)
  from server_steps_ok [OF assms this] server_steps_system [OF assms]
  show ?thesis by (simp add: server_ok_def idle_server_def)
qed

definition sample_digits :: "nat list" where
  "sample_digits = [8, 6, 6, 2, 2, 1, 0, 7, 0, 4, 7, 8, 3, 8, 8]"

definition sample_client :: tracker_client where
  "sample_client = \<lparr>tc_peer = ''p'', tc_reads = [Read (build_frame PROTOCOL_LOGIN (pack_digits (0 # sample_digits)) 1)],
     tc_writes = (\<lambda>_. True)\<rparr>"

lemma sample_spawned: "spawned sample_client = [LoginEvent ''p'' (digits_to_string sample_digits) 1]"
proof -
  let ?pl = "pack_digits (0 # sample_digits)"
  have len: "length ?pl = 8" by (simp add: length_pack_digits sample_digits_def)
  have "results_in (build_frame PROTOCOL_LOGIN ?pl 1) = [Inr \<lparr>protocol_number = PROTOCOL_LOGIN, payload = ?pl, serial = 1\<rparr>]"
    using results_in_frame [of "build_frame PROTOCOL_LOGIN ?pl 1"] next_frame_encoded [of ?pl PROTOCOL_LOGIN 1 "[]"] len
    by (simp add: results_in_wait next_frame_short)
  moreover have "decode_message \<lparr>protocol_number = PROTOCOL_LOGIN, payload = ?pl, serial = 1\<rparr> =
      Inr (Login \<lparr>lp_imei = digits_to_string sample_digits, lp_extra_data = []\<rparr>)"
    using decode_login_roundtrip [of sample_digits "[]" 1] by (simp add: sample_digits_def)
  moreover have "build_frame PROTOCOL_LOGIN ?pl 1 \<noteq> []" by (simp add: build_frame_def Let_def)
  ultimately show ?thesis
    unfolding spawned_def handle_connection_trace_reads by (simp add: sample_client_def)
qed

lemma stored_history_was_sent_witness:
  "\<exists>v :: server_state. sv_clients v = [sample_client] \<and> dv_imei ` set (devices (wdb (sv_world v))) = {digits_to_string sample_digits}
    \<and> history_sent [sample_client] (history_view empty_store) (history_view (wdb (sv_world v)))"
proof -
  let ?v1 = "(idle_server fresh_world)\<lparr>sv_clients := [sample_client], sv_pending := [spawned sample_client]\<rparr>"
  let ?w = "run_on () (build_event_handler True sample_libm 5 5 5 (LoginEvent ''p'' (digits_to_string sample_digits) 1)) fresh_world"
  let ?v2 = "?v1\<lparr>sv_pending := [[]], sv_world := ?w\<rparr>"
  have "server_step sample_libm (idle_server fresh_world) ?v1"
    using server_step.accepted [of sample_libm "idle_server fresh_world" sample_client] by (simp add: idle_server_def)
  moreover have "server_step sample_libm ?v1 ?v2"
    using server_step.handled [of 0 ?v1 _ "[]" sample_libm True 5 5 5] by (simp add: sample_spawned idle_server_def)
  ultimately have "server_steps sample_libm (idle_server fresh_world) ?v2" by simp
  from stored_history_was_sent [OF this]
  have "history_sent [sample_client] (history_view empty_store) (history_view (wdb ?w))" by (simp add: fresh_world_def)
  moreover have "dv_imei ` set (devices (wdb ?w)) = {digits_to_string sample_digits}"
    by (simp add: run_on_def build_event_handler_def composite_handle_event_def database_handle_event_def
        upsert_device_login_def io_run fresh_world_def Let_def store.defs empty_store_def upsert_def fresh_login_def
        new_device_def)
  ultimately show ?thesis by - (rule exI [of _ ?v2], simp)
qed

end
