(* ===== verification/Interleaving.thy ===== *)
theory Interleaving
  imports System
begin

text \<open>
  The backfill at a finer grain: \<open>backfill_device_distance\<close> of \<open>src/service_distance.rs\<close> reads the
  locations of a device before it begins its transaction, so the other programs take steps between the two.
\<close>

section \<open>What a replay has seen\<close>

definition last_seen :: "distances \<Rightarrow> previous_distance_point option" where
  "last_seen ds = Option.bind (fst ds) previous_point"

lemma last_seen_step:
  "last_seen (distance_step lm imei ds q) = (if replayed (fst ds) q then last_seen ds
     else Some \<lparr>pp_id = dp_id q, pp_server_received_at = dp_server_received_at q, pp_latitude = dp_latitude q,
       pp_longitude = dp_longitude q, pp_speed_kph = dp_speed_kph q\<rparr>)"
  by (auto simp: last_seen_def distance_step_def Let_def previous_after_step split: prod.split option.split)

lemma replayed_last_seen: "replayed (fst ds) q \<longleftrightarrow> (\<exists>p. last_seen ds = Some p \<and> dp_id q \<le> pp_id p)"
  by (auto simp: replayed_def last_seen_def split: option.split)

lemma last_seen_fold:
  "last_seen (foldl (distance_step lm imei) ds ps) = Some p \<Longrightarrow> last_seen ds = Some p \<or> pp_id p \<in> dp_id ` set ps"
proof (induction ps arbitrary: ds)
  case (Cons q ps)
  from Cons.IH [of "distance_step lm imei ds q"] Cons.prems
  show ?case by (auto simp: last_seen_step split: if_splits)
qed simp

lemma replayed_step:
  "replayed (fst (distance_step lm imei ds q)) q"
  "replayed (fst ds) q \<Longrightarrow> replayed (fst (distance_step lm imei ds p)) q"
  by (auto simp: replayed_last_seen last_seen_step)

lemma replayed_fold:
  "replayed (fst ds) q \<or> q \<in> set ps \<Longrightarrow> replayed (fst (foldl (distance_step lm imei) ds ps)) q"
proof (induction ps arbitrary: ds)
  case (Cons p ps)
  have "replayed (fst (distance_step lm imei ds p)) q \<or> q \<in> set ps"
    using Cons.prems by (cases "q = p") (auto simp: replayed_step)
  then show ?case using Cons.IH by simp
qed simp

text \<open>Points with later identifiers than all others leave a mark on the odometer.\<close>

lemma replay_differs:
  assumes "q \<in> set qs" and "\<And>p. p \<in> set ps \<Longrightarrow> dp_id p < dp_id q"
  shows "replay lm imei ps \<noteq> replay lm imei qs"
proof
  assume same: "replay lm imei ps = replay lm imei qs"
  have "replayed (fst (replay lm imei qs)) q" unfolding replay_def using assms(1) by (intro replayed_fold) simp
  then obtain p where p: "last_seen (replay lm imei ps) = Some p" "dp_id q \<le> pp_id p"
    unfolding same replayed_last_seen by blast
  then have "pp_id p \<in> dp_id ` set ps"
    unfolding replay_def using last_seen_fold [of lm imei "(None, Map.empty)" ps p] by (simp add: last_seen_def)
  with p(2) assms(2) show False by fastforce
qed

section \<open>The locations only grow\<close>

definition grown :: "location_row list \<Rightarrow> int \<Rightarrow> int \<Rightarrow> location_row list \<Rightarrow> bool" where
  "grown L0 n0 n L \<longleftrightarrow> n0 \<le> n \<and> (\<exists>new. L = L0 @ new \<and> (\<forall>l \<in> set new. n0 \<le> lr_id l))"

lemma grown_mono: "m \<le> n \<Longrightarrow> grown L0 n0 m L \<Longrightarrow> grown L0 n0 n L"
  by (auto simp: grown_def)

lemma grown_append:
  assumes "grown L0 n0 n L" and "lr_id l = n"
  shows "grown L0 n0 (n + 1) (L @ [l])"
proof -
  from assms(1) obtain new where "L = L0 @ new" "\<forall>l \<in> set new. n0 \<le> lr_id l" "n0 \<le> n" by (auto simp: grown_def)
  with assms(2) show ?thesis unfolding grown_def by (intro conjI exI [of _ "new @ [l]"]) auto
qed

abbreviation locations_grown :: "location_row list \<Rightarrow> int \<Rightarrow> int \<Rightarrow> 'z store_scheme \<Rightarrow> bool" where
  "locations_grown L0 n0 n s \<equiv> grown L0 n0 n (device_locations s)"

lemma persistent_grown: "persistent (locations_grown L0 n0)"
  by (auto simp: persistent_def intro: grown_mono)

lemma grown_untouched: "untouched device_locations m \<Longrightarrow> keeps (locations_grown L0 n0) m"
  by (rule keeps_view) (auto intro: grown_mono)

lemma grown_insert: "keeps (locations_grown L0 n0) (insert_location pk imei peer t now p)"
  unfolding insert_location_def
  by (rule keeps_query [OF persistent_grown])
     (auto split: if_splits intro: grown_append)

lemma locations_quiet:
  "untouched device_locations (upsert_device_login imei peer now)"
  "untouched device_locations (upsert_device_last_seen imei peer now)"
  "untouched device_locations (update_device_latest_location pk peer t t2 p)"
  "untouched device_locations (insert_heartbeat pk imei peer t hb)"
  "untouched device_locations (update_device_latest_heartbeat pk imei peer t hb)"
  "untouched device_locations (process_location_distance lm imei pt)"
  by (auto simp: upsert_device_login_def upsert_device_last_seen_def update_device_latest_location_def
      insert_heartbeat_def update_device_latest_heartbeat_def fetch_previous_acc_high_def Let_def
      intro!: io_intros untouched_execute untouched_query split: if_splits)

lemma grown_tracker: "keeps (locations_grown L0 n0) (build_event_handler configured lm now now1 now2 event)"
proof -
  have "keeps (locations_grown L0 n0) (persist_event lm now now1 now2 event)"
    by (cases event; simp only: persist_event.simps; (unfold persist_location_def persist_heartbeat_def)?;
        intro keeps_case_option keeps_transaction persistent_grown keeps_bind keeps_return grown_insert
          locations_quiet [THEN grown_untouched])
  then show ?thesis
    unfolding build_event_handler_def composite_handle_event_def database_handle_event_def
    by (auto intro!: keeps_bind keeps_return keeps_try keeps_map_list grown_untouched [OF untouched_logging])
qed

interpretation shared_locations: shared_invariant lm "locations_grown L0 n0" for lm L0 n0
  by unfold_locales
     (unfold truncate_fields, (rule grown_tracker | rule grown_untouched,
       simp add: untouched_route untouched_cycle untouched_maintenance_job untouched_backfill_job)+)

section \<open>A location that is stored in between\<close>

lemma point_ids: "dp_id ` set (stored_points imei s) = lr_id ` {l \<in> set (device_locations s). lr_imei l = imei}"
  by (auto simp: stored_points_def point_of_location_def image_image)

text \<open>
  C40. A backfill while the tracker runs: when the other programs take any steps between the query for
  the locations of a device and the transaction that rebuilds its distances, and both succeed, the
  distances of the device are those of the locations that were read, and every other device keeps
  distances that follow from its locations. So all distances follow from the stored locations
  if no location of the device was stored in between, and otherwise those of this device do not.
\<close>

theorem backfill_races_with_tracker:
  assumes "tracker_ok lm (wseq w) (wdb w)" and "select (stored_points imei) w = (Inr points, w1)"
    and "system_steps lm w1 w2" and "rebuild_distances lm imei points w2 = (Inr (), w3)"
  shows "distances imei (wdb w3) = replay lm imei (stored_points imei (wdb w))
    \<and> (\<forall>j. j \<noteq> imei \<longrightarrow> distances j (wdb w3) = replay lm j (stored_points j (wdb w3)))
    \<and> (synced lm (wdb w3) \<longleftrightarrow> stored_points imei (wdb w2) = stored_points imei (wdb w))"
proof -
  note points = select_ok [OF assms(2)]
  have start: "tracker_ok lm (wseq w1) (wdb w1)"
    using keepsD [OF keeps_select [OF persistent_tracker_ok], of lm w "stored_points imei"] assms(1,2) by simp
  then have ok: "tracker_ok lm (wseq w2) (wdb w2)" by (rule shared_tracking.steps_keep [OF assms(3)])
  note rebuilt = rebuild_refines [OF assms(4)]
  have stored: "stored_points j (wdb w3) = stored_points j (wdb w2)" for j
    using rebuilt same_inputs_points by blast
  have others: "distances j (wdb w3) = replay lm j (stored_points j (wdb w3))" if "j \<noteq> imei" for j
    using that rebuilt ok stored by (simp add: tracker_ok_def synced_def)
  have "grown (device_locations (wdb w1)) (wseq w1) (wseq w1) (device_locations (wdb w1))" by (simp add: grown_def)
  from shared_locations.steps_keep [OF assms(3) this] obtain new where
    new: "device_locations (wdb w2) = device_locations (wdb w1) @ new" "\<And>l. l \<in> set new \<Longrightarrow> wseq w1 \<le> lr_id l"
    by (auto simp: grown_def)
  have differs: "replay lm imei points \<noteq> replay lm imei (stored_points imei (wdb w2))"
    if "stored_points imei (wdb w2) \<noteq> points"
  proof -
    have "filter (\<lambda>l. lr_imei l = imei) new \<noteq> []"
      using that points new(1) by (auto simp: stored_points_def)
    then obtain l where l: "l \<in> set new" "lr_imei l = imei" by (auto simp: filter_empty_conv)
    have "point_of_location l \<in> set (stored_points imei (wdb w2))" using l new(1) by (simp add: stored_points_def)
    moreover have "dp_id p < dp_id (point_of_location l)" if "p \<in> set points" for p
      using that points new(2) [OF l(1)] start
      by (fastforce simp: stored_points_def point_of_location_def tracker_ok_def history_ok_def)
    ultimately show ?thesis by (rule replay_differs)
  qed
  have "synced lm (wdb w3) \<longleftrightarrow> stored_points imei (wdb w2) = points"
    using rebuilt others differs stored unfolding synced_def by metis
  then show ?thesis using rebuilt others points by simp
qed

lemma backfill_races_with_tracker_witness:
  "\<exists>w1 w2 w3. select (stored_points ''86'') fresh_world = (Inr [], w1) \<and> system_steps sample_libm w1 w2
    \<and> rebuild_distances sample_libm ''86'' [] w2 = (Inr (), w3) \<and> \<not> synced sample_libm (wdb w3)"
proof -
  let ?w1 = "fresh_world\<lparr>wseq := 1\<rparr>"
  let ?w2 = "run_on () (build_event_handler True sample_libm 7 8 9 (LocationEvent ''p'' (Some ''86'') sample_packet)) ?w1"
  have read: "select (stored_points ''86'') fresh_world = (Inr [], ?w1)"
    by (simp add: select_def query_def operation_def fresh_world_def stored_points_def order_by_def empty_store_def)
  have steps: "system_steps sample_libm ?w1 ?w2" by (rule r_into_rtranclp) (rule system_step.tracker)
  have "stored_points ''86'' (wdb ?w2) \<noteq> [] \<and> wsched ?w2 = []"
    by (simp add: run_on_def build_event_handler_def composite_handle_event_def database_handle_event_def
        persist_location_def upsert_device_last_seen_def insert_location_def process_alt
        update_device_latest_location_def io_run fresh_world_def empty_store_def Let_def upsert_def
        returning_id_def fresh_seen_def new_device_def lookup_Cons replayed_def segment_def
        upsert_odometer_def pg_non_negative_def location_point_def store.defs stored_points_def order_by_def)
  moreover have "\<exists>w3. rebuild_distances sample_libm ''86'' [] w = (Inr (), w3)" if "wsched w = []" for w :: "store world"
    using that by (simp add: rebuild_distances_def io_run Let_def)
  ultimately obtain w3 where w3: "rebuild_distances sample_libm ''86'' [] ?w2 = (Inr (), w3)"
    and more: "stored_points ''86'' (wdb ?w2) \<noteq> []" by blast
  have "tracker_ok sample_libm (wseq fresh_world) (wdb fresh_world)" by (simp add: fresh_world_def persist_event_empty)
  from backfill_races_with_tracker [OF this read steps w3] more
  have "\<not> synced sample_libm (wdb w3)"
    by (simp add: fresh_world_def stored_points_def order_by_def empty_store_def)
  with read steps w3 show ?thesis by blast
qed

end
