(* ===== verification/Polling.thy ===== *)
theory Polling
  imports Sessions
begin

text \<open>
  The polling of new heartbeats as a process: a cursor in the state of the bot that only moves
  forward, batches of at most a hundred, and when a poll does not disturb the user.
\<close>

section \<open>Programs that succeed when nothing fails\<close>

named_theorems reliable_intros

definition reliable :: "('s, 'e, 'a) io \<Rightarrow> bool" where
  "reliable m \<longleftrightarrow> (\<forall>w. wsched w = [] \<longrightarrow> (\<exists>x w'. m w = (Inr x, w') \<and> wsched w' = []))"

lemma reliable_return [reliable_intros]: "reliable (io_return x)"
  by (simp add: reliable_def io_return_def)

lemma reliable_bind [reliable_intros]:
  "reliable m \<Longrightarrow> (\<And>x. reliable (f x)) \<Longrightarrow> reliable (io_bind m f)"
  by (fastforce simp: reliable_def io_bind_def)

lemma reliable_if [reliable_intros]:
  "(c \<Longrightarrow> reliable m) \<Longrightarrow> (\<not> c \<Longrightarrow> reliable n) \<Longrightarrow> reliable (if c then m else n)"
  by simp

lemma reliable_case_option [reliable_intros]:
  "(x = None \<Longrightarrow> reliable m) \<Longrightarrow> (\<And>y. x = Some y \<Longrightarrow> reliable (f y)) \<Longrightarrow>
   reliable (case x of None \<Rightarrow> m | Some y \<Rightarrow> f y)"
  by (cases x) auto

lemma reliable_for [reliable_intros]: "(\<And>x. x \<in> set xs \<Longrightarrow> reliable (f x)) \<Longrightarrow> reliable (io_for xs f)"
  by (induction xs) (auto intro!: reliable_intros)

lemma reliable_map_error [reliable_intros]: "reliable m \<Longrightarrow> reliable (io_map_error g m)"
  by (fastforce simp: reliable_def io_map_error_def)

lemma reliable_unit [reliable_intros]: "reliable m \<Longrightarrow> reliable (io_unit m)"
  unfolding io_unit_def by (intro reliable_intros)

lemma reliable_warn [reliable_intros]: "reliable m \<Longrightarrow> reliable (io_warn m)"
  by (fastforce simp: reliable_def io_warn_def io_try_def io_return_def)

lemma reliable_operation:
  assumes "\<And>n s. \<exists>x s'. f n s = Inr (x, s')"
  shows "reliable (operation e f)"
  unfolding reliable_def
proof (intro allI impI)
  fix w :: "'a world"
  assume "wsched w = []"
  moreover obtain x s' where "f (wseq w) (wdb w) = Inr (x, s')" using assms by blast
  ultimately show "\<exists>x w'. operation e f w = (Inr x, w') \<and> wsched w' = []" by (simp add: operation_def Let_def)
qed

lemma reliable_statements [reliable_intros]:
  "reliable (select g)" "reliable (execute h)" "reliable (clock_now b)"
  by (auto simp: select_def execute_def query_def clock_now_def reliable_def operation_def Let_def)

lemma reliable_call [reliable_intros]: "reliable (call_api c)"
  unfolding call_api_def by (intro reliable_intros reliable_operation) auto

lemma reliable_requests [reliable_intros]:
  "reliable (send_message_internal b c t k p)" "reliable (send_message b c t)"
  "reliable (clear_inline_keyboard c i)"
  unfolding send_message_def send_message_internal_def clear_inline_keyboard_def edit_message_reply_markup_def
  by (intro reliable_intros)+

lemma reliable_queries [reliable_intros]:
  "reliable (fetch_active_engine_sessions imei c)" "reliable (fetch_notification_state imei c)"
  "reliable (fetch_heartbeat_server_received_at_by_id i)" "reliable (fetch_ride_summary lm imei t u)"
  "reliable (fetch_latest_location_for_imei imei)" "reliable (fetch_new_heartbeats i)"
  "reliable (get_state_i64 key)" "reliable (set_state_i64 key i)"
  "reliable (upsert_notification_state imei c st m h)" "reliable (resolve_engine_session_at i st t)"
  "reliable (set_engine_session_ride_status_message_id i m)"
  unfolding fetch_active_engine_sessions_def fetch_notification_state_def
    fetch_heartbeat_server_received_at_by_id_def fetch_ride_summary_def fetch_latest_location_for_imei_def
    fetch_new_heartbeats_def get_state_i64_def set_state_i64_def set_state_string_def
    upsert_notification_state_def resolve_engine_session_at_def
    set_engine_session_ride_status_message_id_def update_session_def
  by (intro reliable_intros)+

lemma reliable_queries_at [reliable_intros]:
  "reliable (fetch_notification_recipients_for_imei b imei)" "reliable (create_engine_session imei c h p t)"
  unfolding fetch_notification_recipients_for_imei_def create_engine_session_def query_def
  by (rule reliable_operation, simp)+

lemma reliable_finish_sessions [reliable_intros]: "reliable (finish_sessions b c imei t alert xs m)"
  by (induction xs arbitrary: m)
     (auto simp: clear_pending_keyboard_def finish_ride_session_and_send_summary_def resolve_engine_session_def
       intro!: reliable_intros)

lemma reliable_heartbeats [reliable_intros]: "reliable (process_heartbeat_notifications b)"
  unfolding process_heartbeat_notifications_def process_heartbeat_def set_last_notified_def notify_recipient_def
    process_heartbeat_notification_for_chat_def process_engine_on_notification_for_chat_def Let_def
    send_engine_on_confirmation_def process_inactive_subscription_notification_for_chat_def
    finish_inactive_subscription_sessions_def clear_pending_keyboard_def finish_active_engine_sessions_def
  by (intro reliable_intros)

section \<open>The cursor\<close>

definition cursor :: "'z store_scheme \<Rightarrow> int" where
  "cursor s = (case Option.bind (lookup fst ''last_notified_heartbeat_id'' (telegram_bot_state s)) (\<lambda>r. parse_i64 (snd r)) of
     Some n \<Rightarrow> n | None \<Rightarrow> 0)"

definition unseen :: "'z store_scheme \<Rightarrow> heartbeat_row list" where
  "unseen s = filter (\<lambda>r. cursor s < hr_id r) (device_heartbeats s)"

text \<open>The identifiers of the table: unique, positive and of 64 bits.\<close>

definition heartbeat_ids_ok :: "'z store_scheme \<Rightarrow> bool" where
  "heartbeat_ids_ok s \<longleftrightarrow> distinct (map hr_id (device_heartbeats s))
     \<and> (\<forall>r \<in> set (device_heartbeats s). 0 < hr_id r \<and> hr_id r < 2 ^ 63)"

definition cursor_view :: "bot_store \<Rightarrow> (string \<times> string) list \<times> heartbeat_row list" where
  "cursor_view s = (telegram_bot_state s, device_heartbeats s)"

lemma cursor_view_update [simp]:
  "cursor_view (s\<lparr>requests := c\<rparr>) = cursor_view s"
  "cursor_view (s\<lparr>telegram_device_notifications := ns\<rparr>) = cursor_view s"
  "cursor_view (s\<lparr>telegram_engine_sessions := es\<rparr>) = cursor_view s"
  by (simp_all add: cursor_view_def)

lemma cursor_view_eq: "cursor_view s' = cursor_view s \<Longrightarrow> cursor s' = cursor s \<and> device_heartbeats s' = device_heartbeats s"
  by (simp add: cursor_view_def cursor_def)

lemma set_last_notified_ok:
  "set_last_notified i w = (Inr x, w') \<Longrightarrow> 0 \<le> i \<Longrightarrow> i < 2 ^ 63 \<Longrightarrow>
   cursor (wdb w') = i \<and> device_heartbeats (wdb w') = device_heartbeats (wdb w)"
  unfolding set_last_notified_def set_state_i64_def set_state_string_def map_error_ok
  by (drule execute_ok)
     (simp add: cursor_def bot_state.lookup_same parse_i64_show_int split: option.split)

lemma untouchedD: "untouched view m \<Longrightarrow> m w = (r, w') \<Longrightarrow> view (wdb w') = view (wdb w)"
  by (auto simp: untouched_def dest: spec [of _ w])

lemma process_heartbeat_ok:
  assumes "process_heartbeat b h w = (Inr x, w')" and "0 \<le> sh_id h" "sh_id h < 2 ^ 63"
  shows "cursor (wdb w') = sh_id h \<and> device_heartbeats (wdb w') = device_heartbeats (wdb w)"
proof -
  from assms(1) obtain rs w1 where 1: "db (fetch_notification_recipients_for_imei b (sh_imei h)) w = (Inr rs, w1)"
    and 2: "(if rs = [] then set_last_notified (sh_id h)
       else io_bind (case notification_status h of
                  Some status \<Rightarrow> io_for rs (notify_recipient b h status) | None \<Rightarrow> io_return ()) (\<lambda>_.
            set_last_notified (sh_id h))) w1 = (Inr x, w')"
    unfolding process_heartbeat_def bind_ok by blast
  have "untouched cursor_view (db (fetch_notification_recipients_for_imei b (sh_imei h)))" by (intro io_intros)
  from untouchedD [OF this 1] have w1: "device_heartbeats (wdb w1) = device_heartbeats (wdb w)"
    by (simp add: cursor_view_def)
  show ?thesis
  proof (cases "rs = []")
    case True
    with 2 set_last_notified_ok [OF _ assms(2,3)] w1 show ?thesis by simp
  next
    case False
    with 2 obtain y w2 where 3: "(case notification_status h of
                  Some status \<Rightarrow> io_for rs (notify_recipient b h status) | None \<Rightarrow> io_return ()) w1 = (Inr y, w2)"
      and 4: "set_last_notified (sh_id h) w2 = (Inr x, w')" by (auto simp: bind_ok)
    have "untouched cursor_view (case notification_status h of
                  Some status \<Rightarrow> io_for rs (notify_recipient b h status) | None \<Rightarrow> io_return ())"
      by (intro io_intros untouched_notify cursor_view_update)
    from untouchedD [OF this 3] set_last_notified_ok [OF 4 assms(2,3)] w1 show ?thesis
      by (simp add: cursor_view_def)
  qed
qed

lemma process_heartbeats_ok:
  "io_for hs (process_heartbeat b) w = (Inr x, w') \<Longrightarrow> (\<forall>h \<in> set hs. 0 \<le> sh_id h \<and> sh_id h < 2 ^ 63) \<Longrightarrow>
   cursor (wdb w') = (if hs = [] then cursor (wdb w) else sh_id (last hs))
   \<and> device_heartbeats (wdb w') = device_heartbeats (wdb w)"
proof (induction hs arbitrary: w)
  case (Cons h hs)
  from Cons.prems(1) obtain y w1 where 1: "process_heartbeat b h w = (Inr y, w1)"
    and 2: "io_for hs (process_heartbeat b) w1 = (Inr x, w')" by (auto simp: bind_ok)
  from process_heartbeat_ok [OF 1] Cons.IH [OF 2] Cons.prems(2) show ?case by (auto split: if_splits)
qed simp

text \<open>The identifiers still to come are those of the sorted list behind the first hundred.\<close>

lemma sorted_distinct_beyond:
  assumes "sorted (map f L)" and "distinct (map f L)" and "0 < k" and "L \<noteq> []"
  shows "filter (\<lambda>r. f (last (take k L)) < f r) L = drop k L"
proof -
  obtain us p where us: "take k L = us @ [p]"
    using assms(3,4) by (metis rev_exhaust take_eq_Nil less_not_refl)
  then have split: "L = us @ p # drop k L" by (metis append.assoc append_Cons append_Nil append_take_drop_id)
  have "sorted_wrt (<) (map f L)" using assms(1,2) by (simp add: strict_sorted_iff)
  then have "sorted_wrt (<) (map f us @ f p # map f (drop k L))" by (subst (asm) split) simp
  then have "\<forall>u \<in> set us. f u < f p" "\<forall>d \<in> set (drop k L). f p < f d" by (auto simp: sorted_wrt_append)
  then have "filter (\<lambda>r. f p < f r) us = []" "filter (\<lambda>r. f p < f r) (drop k L) = drop k L"
    by (auto simp: filter_empty_conv filter_id_conv dest: less_asym)
  then have "filter (\<lambda>r. f p < f r) (us @ p # drop k L) = drop k L" by simp
  then show ?thesis using us split by simp
qed

section \<open>Progress\<close>

lemma fetch_new_ok:
  "db (fetch_new_heartbeats i) w = (Inr hs, w') \<Longrightarrow>
   hs = map stored_heartbeat_of (take 100 (order_by hr_id (filter (\<lambda>r. hr_id r > i) (device_heartbeats (wdb w)))))
   \<and> wdb w' = wdb w"
  unfolding fetch_new_heartbeats_def map_error_ok by (drule select_ok) simp

lemma sh_id_stored [simp]: "sh_id (stored_heartbeat_of r) = hr_id r"
  by (simp add: stored_heartbeat_of_def Let_def)

lemma poll_progress:
  assumes run: "process_heartbeat_notifications b w = (Inr x, w')" and ids: "heartbeat_ids_ok (wdb w)"
  shows "device_heartbeats (wdb w') = device_heartbeats (wdb w)
    \<and> length (unseen (wdb w')) = length (unseen (wdb w)) - 100"
proof -
  let ?L = "order_by hr_id (unseen (wdb w))"
  from run obtain last_notified w1 hs w2 where
    1: "db (get_state_i64 ''last_notified_heartbeat_id'') w = (Inr last_notified, w1)"
    and 2: "db (fetch_new_heartbeats (case last_notified of Some n \<Rightarrow> n | None \<Rightarrow> 0)) w1 = (Inr hs, w2)"
    and 3: "io_for hs (process_heartbeat b) w2 = (Inr x, w')"
    unfolding process_heartbeat_notifications_def bind_ok by blast
  have "(case last_notified of Some n \<Rightarrow> n | None \<Rightarrow> 0) = cursor (wdb w)" and w1: "wdb w1 = wdb w"
    using 1 unfolding get_state_i64_def map_error_ok by (auto simp: cursor_def dest: select_ok)
  then have hs: "hs = map stored_heartbeat_of (take 100 ?L)" and w2: "wdb w2 = wdb w"
    using fetch_new_ok [OF 2] by (simp_all add: unseen_def)
  have L: "set ?L = set (unseen (wdb w))" "length ?L = length (unseen (wdb w))" by (simp_all add: order_by_def)
  have range: "0 \<le> hr_id r \<and> hr_id r < 2 ^ 63" if "r \<in> set ?L" for r
    using that ids unfolding L(1) by (auto simp: unseen_def heartbeat_ids_ok_def less_imp_le)
  then have "\<forall>h \<in> set hs. 0 \<le> sh_id h \<and> sh_id h < 2 ^ 63" using hs by (auto dest: in_set_takeD)
  from process_heartbeats_ok [OF 3 this] w2
  have same: "device_heartbeats (wdb w') = device_heartbeats (wdb w)"
    and c: "cursor (wdb w') = (if hs = [] then cursor (wdb w) else sh_id (last hs))" by simp_all
  show ?thesis
  proof (cases "?L = []")
    case True
    then have "unseen (wdb w) = []" using L(2) by simp
    with True hs c same show ?thesis by (simp add: unseen_def)
  next
    case False
    then have c': "cursor (wdb w') = hr_id (last (take 100 ?L))" using c hs by (simp add: last_map)
    have "take 100 ?L \<noteq> []" using False by simp
    from in_set_takeD [OF last_in_set [OF this]] have "last (take 100 ?L) \<in> set ?L" .
    then have "cursor (wdb w) < cursor (wdb w')" unfolding c' L(1) by (simp add: unseen_def)
    then have u: "unseen (wdb w') = filter (\<lambda>r. cursor (wdb w') < hr_id r) (unseen (wdb w))"
      unfolding unseen_def same by (auto intro: filter_cong)
    have "length (unseen (wdb w')) = length (filter (\<lambda>r. hr_id (last (take 100 ?L)) < hr_id r) ?L)"
      unfolding u c' by (simp add: order_by_def filter_sort)
    also have "filter (\<lambda>r. hr_id (last (take 100 ?L)) < hr_id r) ?L = drop 100 ?L"
    proof (rule sorted_distinct_beyond)
      show "sorted (map hr_id ?L)" by (simp add: order_by_def)
      have "distinct (map hr_id (unseen (wdb w)))" using ids by (simp add: unseen_def heartbeat_ids_ok_def distinct_map_filter)
      then show "distinct (map hr_id ?L)" by simp
    qed (use False in auto)
    finally have "length (unseen (wdb w')) = length (drop 100 ?L)" .
    with same L(2) show ?thesis by simp
  qed
qed

fun polls :: "bot \<Rightarrow> nat \<Rightarrow> unit bot_io" where
  "polls b 0 = io_return ()"
| "polls b (Suc n) = io_bind (process_heartbeat_notifications b) (\<lambda>_. polls b n)"

text \<open>
  C20. Polling reaches every heartbeat: when no operation fails, enough polls (one for each hundred
  heartbeats that are stored behind the cursor) return and leave none behind it, whatever the
  heartbeats, recipients and sessions are.
\<close>

theorem polling_reaches_every_heartbeat:
  assumes "wsched w = []" and "heartbeat_ids_ok (wdb w)" and "length (unseen (wdb w)) \<le> 100 * n"
  shows "\<exists>w'. polls b n w = (Inr (), w') \<and> unseen (wdb w') = []
    \<and> device_heartbeats (wdb w') = device_heartbeats (wdb w)"
  using assms
proof (induction n arbitrary: w)
  case (Suc n)
  obtain w1 where w1: "process_heartbeat_notifications b w = (Inr (), w1)" "wsched w1 = []"
    using reliable_heartbeats Suc.prems(1) by (auto simp: reliable_def)
  from poll_progress [OF w1(1) Suc.prems(2)] have p: "device_heartbeats (wdb w1) = device_heartbeats (wdb w)"
    "length (unseen (wdb w1)) = length (unseen (wdb w)) - 100" by auto
  have "heartbeat_ids_ok (wdb w1)" using Suc.prems(2) p(1) by (simp add: heartbeat_ids_ok_def)
  moreover have "length (unseen (wdb w1)) \<le> 100 * n" using p(2) Suc.prems(3) by simp
  ultimately obtain w' where "polls b n w1 = (Inr (), w')" "unseen (wdb w') = []"
    "device_heartbeats (wdb w') = device_heartbeats (wdb w1)" using Suc.IH [OF w1(2)] by blast
  with w1 p(1) show ?case by (auto simp: bind_ok)
qed simp

definition sample_heartbeat :: "int \<Rightarrow> heartbeat_row" where
  "sample_heartbeat i = \<lparr>hr_id = i, hr_device_id = 1, hr_imei = ''1'', hr_server_received_at = i * SECOND,
     hr_protocol_number = 19, hr_peer_addr = ''p'',
     hr_columns = \<lparr>hk_terminal_info_raw = 0, hk_terminal_info_bits = [], hk_gps_tracking_on = True,
       hk_bit_1_guess = False, hk_acc_high = Some True, hk_bit_3_guess = False, hk_vibration_detected = False,
       hk_bit_4_guess = False, hk_engine_status_guess = ''on'', hk_voltage_level = 4,
       hk_gsm_signal_strength = 4, hk_alarm_language = 2\<rparr>\<rparr>"

definition sample_user :: user_row where
  "sample_user = \<lparr>tu_telegram_user_id = 10, tu_chat_id = 20, tu_bound_imei = Some ''1'',
     tu_registration_status = ''bound''\<rparr>"

definition sample_bot_store :: bot_store where
  "sample_bot_store = store.extend (empty_store\<lparr>device_heartbeats := [sample_heartbeat 1, sample_heartbeat 2],
     telegram_users := [sample_user], telegram_subscriptions := [sample_subscription]\<rparr>) \<lparr>requests = []\<rparr>"

lemma sample_bot_store_fields [simp]:
  "device_heartbeats sample_bot_store = [sample_heartbeat 1, sample_heartbeat 2]"
  "telegram_users sample_bot_store = [sample_user]" "telegram_engine_sessions sample_bot_store = []"
  "telegram_subscriptions sample_bot_store = [sample_subscription]"
  "telegram_bot_state sample_bot_store = []" "requests sample_bot_store = []"
  by (simp_all add: sample_bot_store_def empty_store_def store.defs)

lemma polling_reaches_every_heartbeat_witness:
  "\<forall>b. \<exists>w'. polls b 1 \<lparr>wdb = sample_bot_store, wseq = 3, wsched = []\<rparr> = (Inr (), w') \<and> unseen (wdb w') = []
     \<and> length (unseen sample_bot_store) = 2"
proof
  fix b
  have u: "unseen sample_bot_store = [sample_heartbeat 1, sample_heartbeat 2]"
    by (simp add: unseen_def cursor_def sample_heartbeat_def)
  have "heartbeat_ids_ok sample_bot_store" by (simp add: heartbeat_ids_ok_def sample_heartbeat_def)
  with polling_reaches_every_heartbeat [of "\<lparr>wdb = sample_bot_store, wseq = 3, wsched = []\<rparr>" 1 b] u
  show "\<exists>w'. polls b 1 \<lparr>wdb = sample_bot_store, wseq = 3, wsched = []\<rparr> = (Inr (), w') \<and> unseen (wdb w') = []
     \<and> length (unseen sample_bot_store) = 2" by auto
qed

section \<open>Prompts\<close>

lemma untouched_prompt: "untouched (\<lambda>s. (requests s, telegram_engine_sessions s)) (upsert_notification_state imei c st m h)"
  by (intro io_intros) simp

lemma upsert_notification_ok:
  "upsert_notification_state imei c st m h w = (Inr x, w') \<Longrightarrow>
   (\<exists>q. lookup notification_key (imei, c) (telegram_device_notifications (wdb w')) = Some q
      \<and> nt_last_status q = st \<and> nt_last_heartbeat_id q = h \<and> nt_last_message_id q = m)
   \<and> requests (wdb w') = requests (wdb w) \<and> telegram_engine_sessions (wdb w') = telegram_engine_sessions (wdb w)"
  unfolding upsert_notification_state_def
  by (drule execute_ok, simp add: Let_def notification.lookup_same)
     (simp add: fresh_notification_def merge_notification_def split: option.split)

lemma call_api_ok:
  "call_api c w = (Inr i, w') \<Longrightarrow> wdb w' = (wdb w)\<lparr>requests := requests (wdb w) @ [c]\<rparr>"
  by (auto simp: call_api_def bind_ok operation_def Let_def split: if_splits)

lemma send_internal_ok:
  "send_message_internal b c t k p w = (Inr i, w') \<Longrightarrow>
   wdb w' = (wdb w)\<lparr>requests := requests (wdb w) @ [SendMessage c t k p]\<rparr>"
  unfolding send_message_internal_def bind_ok return_ok by (auto dest: call_api_ok)

text \<open>Whether an engine that is on is news for a chat.\<close>

definition engine_on_news :: "'z store_scheme \<Rightarrow> stored_heartbeat \<Rightarrow> int \<Rightarrow> bool" where
  "engine_on_news s h chat_id =
     (case lookup notification_key (sh_imei h, chat_id) (telegram_device_notifications s) of
        None \<Rightarrow> True
      | Some st \<Rightarrow> nt_last_status st \<noteq> ''on''
          \<or> (case lookup hr_id (nt_last_heartbeat_id st) (device_heartbeats s) of
               None \<Rightarrow> True
             | Some q \<Rightarrow> num_seconds (sh_server_received_at h - hr_server_received_at q) \<ge> 600))"

lemma session_ok:
  "session_triple T0 I m J \<Longrightarrow> I (wseq w) (telegram_engine_sessions (wdb w)) \<Longrightarrow> m w = (Inr x, w') \<Longrightarrow>
   J x (wseq w') (telegram_engine_sessions (wdb w'))"
  unfolding session_triple_def by (rule triple_ok)

lemma engine_on_opens:
  assumes run: "io_bind (finish_active_engine_sessions b c (sh_imei h) xs (sh_server_received_at h) False) (\<lambda>_.
       io_bind (send_engine_on_confirmation b c h) (\<lambda>message_id.
       io_bind (db (create_engine_session (sh_imei h) c (sh_id h) message_id (sh_server_received_at h))) (\<lambda>_.
       db (upsert_notification_state (sh_imei h) c ''on'' message_id (sh_id h))))) w = (Inr x, w')"
    and e: "ending T0 {} (sh_imei h, c) {} xs (wseq w) (telegram_engine_sessions (wdb w))"
  shows "last (requests (wdb w')) = SendMessage c (Fixed 22) (Some engine_session_confirmation_keyboard) None
    \<and> (\<exists>r. filter (\<lambda>r. is_active r \<and> session_key r = (sh_imei h, c)) (telegram_engine_sessions (wdb w')) = [r]
         \<and> es_trigger_heartbeat_id r = sh_id h \<and> es_session_status r = ''pending_confirmation'')
    \<and> (\<exists>q. lookup notification_key (sh_imei h, c) (telegram_device_notifications (wdb w')) = Some q
         \<and> nt_last_status q = ''on'' \<and> nt_last_heartbeat_id q = sh_id h)"
proof -
  from run obtain y w1 m w2 i w3 where
    1: "finish_active_engine_sessions b c (sh_imei h) xs (sh_server_received_at h) False w = (Inr y, w1)"
    and 2: "send_message_internal b c (Fixed 22) (Some engine_session_confirmation_keyboard) None w1 = (Inr m, w2)"
    and 3: "create_engine_session (sh_imei h) c (sh_id h) m (sh_server_received_at h) w2 = (Inr i, w3)"
    and 4: "upsert_notification_state (sh_imei h) c ''on'' m (sh_id h) w3 = (Inr x, w')"
    unfolding bind_ok map_error_ok send_engine_on_confirmation_def by blast
  have "ending T0 {} (sh_imei h, c) {} [] (wseq w1) (telegram_engine_sessions (wdb w1))"
    by (rule triple_ok [OF session_finish_active [unfolded session_triple_def] e 1])
  from endingD(5) [OF this] have none: "filter (\<lambda>r. is_active r \<and> session_key r = (sh_imei h, c))
      (telegram_engine_sessions (wdb w1)) = []" by (auto simp: filter_empty_conv)
  let ?r = "\<lparr>es_id = i, es_imei = sh_imei h, es_chat_id = c, es_trigger_heartbeat_id = sh_id h,
      es_prompt_message_id = m, es_ride_status_message_id = None,
      es_session_status = ''pending_confirmation'', es_created_at = sh_server_received_at h,
      es_resolved_at = None\<rparr>"
  have w3: "wdb w3 = (wdb w2)\<lparr>telegram_engine_sessions := telegram_engine_sessions (wdb w2) @ [?r]\<rparr>"
    using query_ok [OF 3 [unfolded create_engine_session_def]] by auto
  have r: "is_active ?r" "session_key ?r = (sh_imei h, c)"
    by (simp_all add: is_active_def active_status_def session_key_def)
  show ?thesis
    using upsert_notification_ok [OF 4] send_internal_ok [OF 2] w3 none r by auto
qed

text \<open>What is read before the decision.\<close>

lemma engine_on_reads:
  assumes run: "process_heartbeat_notification_for_chat b h ''on'' c w = (Inr (), w')"
    and ok: "sessions_ok (wseq w) (telegram_engine_sessions (wdb w))"
  obtains xs w3 m where "wdb w3 = wdb w"
    "ending (telegram_engine_sessions (wdb w)) {} (sh_imei h, c) {} xs (wseq w3) (telegram_engine_sessions (wdb w3))"
    "(if \<not> engine_on_news (wdb w) h c
      then db (upsert_notification_state (sh_imei h) c ''on'' m (sh_id h))
      else io_bind (finish_active_engine_sessions b c (sh_imei h) xs (sh_server_received_at h) False) (\<lambda>_.
         io_bind (send_engine_on_confirmation b c h) (\<lambda>message_id.
         io_bind (db (create_engine_session (sh_imei h) c (sh_id h) message_id (sh_server_received_at h))) (\<lambda>_.
         db (upsert_notification_state (sh_imei h) c ''on'' message_id (sh_id h)))))) w3 = (Inr (), w')"
proof -
  let ?old = "lookup notification_key (sh_imei h, c) (telegram_device_notifications (wdb w))"
  let ?T = "telegram_engine_sessions (wdb w)"
  have "io_bind (db (fetch_notification_state (sh_imei h) c))
      (\<lambda>existing. process_engine_on_notification_for_chat b h c existing) w = (Inr (), w')"
    using run by (simp add: process_heartbeat_notification_for_chat_def)
  then obtain existing w1 xs w2 seen w3 where
    1: "fetch_notification_state (sh_imei h) c w = (Inr existing, w1)"
    and 2: "fetch_active_engine_sessions (sh_imei h) c w1 = (Inr xs, w2)"
    and 3: "(case existing of
                Some st \<Rightarrow> if nt_last_status st = ''on''
                           then db (fetch_heartbeat_server_received_at_by_id (nt_last_heartbeat_id st))
                           else io_return None
              | None \<Rightarrow> io_return None) w2 = (Inr seen, w3)"
    and 4: "(if \<not> should_start_new_engine_on_session (sh_server_received_at h) seen
       then db (upsert_notification_state (sh_imei h) c ''on''
              (case find (\<lambda>session. es_session_status session = ''pending_confirmation'') (rev xs) of
                 Some session \<Rightarrow> es_prompt_message_id session
               | None \<Rightarrow> (case existing of Some st \<Rightarrow> nt_last_message_id st | None \<Rightarrow> 0)) (sh_id h))
       else io_bind (finish_active_engine_sessions b c (sh_imei h) xs (sh_server_received_at h) False) (\<lambda>_.
         io_bind (send_engine_on_confirmation b c h) (\<lambda>message_id.
         io_bind (db (create_engine_session (sh_imei h) c (sh_id h) message_id (sh_server_received_at h))) (\<lambda>_.
         db (upsert_notification_state (sh_imei h) c ''on'' message_id (sh_id h)))))) w3 = (Inr (), w')"
    unfolding process_engine_on_notification_for_chat_def Let_def bind_ok map_error_ok by blast
  have w1: "existing = ?old" "wdb w1 = wdb w" using select_ok [OF 1 [unfolded fetch_notification_state_def]] by simp_all
  have w3: "wdb w3 = wdb w" and seen: "seen = (case ?old of
      Some st \<Rightarrow> if nt_last_status st = ''on''
                 then map_option hr_server_received_at (lookup hr_id (nt_last_heartbeat_id st) (device_heartbeats (wdb w)))
                 else None | None \<Rightarrow> None)"
    using 3 w1 select_ok [OF 2 [unfolded fetch_active_engine_sessions_def]]
    by (auto simp: map_error_ok fetch_heartbeat_server_received_at_by_id_def split: option.splits if_splits
        dest!: select_ok)
  have news: "should_start_new_engine_on_session (sh_server_received_at h) seen \<longleftrightarrow> engine_on_news (wdb w) h c"
    unfolding seen by (auto simp: should_start_new_engine_on_session_def engine_on_news_def
        ENGINE_ON_ALERT_COOLDOWN_SECS_def split: option.splits)
  let ?E = "ending ?T {} (sh_imei h, c) {} xs"
  have "session_inv ?T (wseq w) ?T" using ok by (simp add: session_inv_def)
  note inv = this
  have q1: "session_triple ?T (session_inv ?T) (db (fetch_notification_state (sh_imei h) c)) (\<lambda>_. session_inv ?T)"
    by (intro session_quiet stable_inv io_intros)
  have q3: "session_triple ?T ?E (case existing of
              Some st \<Rightarrow> if nt_last_status st = ''on''
                         then db (fetch_heartbeat_server_received_at_by_id (nt_last_heartbeat_id st))
                         else io_return None
            | None \<Rightarrow> io_return None) (\<lambda>_. ?E)" by (intro session_quiet stable_ending io_intros)
  have r: "db (fetch_notification_state (sh_imei h) c) w = (Inr existing, w1)"
    "db (fetch_active_engine_sessions (sh_imei h) c) w1 = (Inr xs, w2)" using 1 2 by (simp_all only: map_error_ok)
  have "?E (wseq w3) (telegram_engine_sessions (wdb w3))"
    by (rule session_ok [OF q3 session_ok [OF session_fetch_active session_ok [OF q1 inv r(1)] r(2)] 3])
  from that [OF w3 this] 4 show thesis unfolding news by blast
qed

text \<open>
  C21. One prompt per cooldown: an engine-on heartbeat less than ten minutes after the last one that
  the chat saw on makes no request to Telegram and leaves the sessions alone; any other one ends with the
  confirmation prompt as the last request and exactly one open session of the device in the chat,
  waiting for confirmation of this heartbeat. Either way the heartbeat is recorded as the last one on.
\<close>

theorem engine_on_prompts_once:
  assumes run: "process_heartbeat_notification_for_chat b h ''on'' c w = (Inr (), w')"
    and ok: "sessions_ok (wseq w) (telegram_engine_sessions (wdb w))"
  shows "(if engine_on_news (wdb w) h c
     then last (requests (wdb w')) = SendMessage c (Fixed 22) (Some engine_session_confirmation_keyboard) None
       \<and> (\<exists>r. filter (\<lambda>r. is_active r \<and> session_key r = (sh_imei h, c)) (telegram_engine_sessions (wdb w')) = [r]
            \<and> es_trigger_heartbeat_id r = sh_id h \<and> es_session_status r = ''pending_confirmation'')
     else requests (wdb w') = requests (wdb w) \<and> telegram_engine_sessions (wdb w') = telegram_engine_sessions (wdb w))
    \<and> (\<exists>q. lookup notification_key (sh_imei h, c) (telegram_device_notifications (wdb w')) = Some q
         \<and> nt_last_status q = ''on'' \<and> nt_last_heartbeat_id q = sh_id h)"
proof -
  obtain xs w3 m where r: "wdb w3 = wdb w"
    "ending (telegram_engine_sessions (wdb w)) {} (sh_imei h, c) {} xs (wseq w3) (telegram_engine_sessions (wdb w3))"
    "(if \<not> engine_on_news (wdb w) h c
      then db (upsert_notification_state (sh_imei h) c ''on'' m (sh_id h))
      else io_bind (finish_active_engine_sessions b c (sh_imei h) xs (sh_server_received_at h) False) (\<lambda>_.
         io_bind (send_engine_on_confirmation b c h) (\<lambda>message_id.
         io_bind (db (create_engine_session (sh_imei h) c (sh_id h) message_id (sh_server_received_at h))) (\<lambda>_.
         db (upsert_notification_state (sh_imei h) c ''on'' message_id (sh_id h)))))) w3 = (Inr (), w')"
    by (rule engine_on_reads [OF run ok])
  show ?thesis
  proof (cases "engine_on_news (wdb w) h c")
    case False
    with r show ?thesis by (auto simp: map_error_ok dest!: upsert_notification_ok)
  next
    case True
    with r engine_on_opens [OF _ r(2)] show ?thesis by auto
  qed
qed

lemma engine_on_prompts_once_witness:
  "\<forall>b. \<exists>w'. process_heartbeat_notification_for_chat b (stored_heartbeat_of (sample_heartbeat 1)) ''on'' 20
       \<lparr>wdb = sample_bot_store, wseq = 3, wsched = []\<rparr> = (Inr (), w')
     \<and> last (requests (wdb w')) = SendMessage 20 (Fixed 22) (Some engine_session_confirmation_keyboard) None"
proof
  fix b
  let ?h = "stored_heartbeat_of (sample_heartbeat 1)" and ?w = "\<lparr>wdb = sample_bot_store, wseq = 3, wsched = []\<rparr>"
  have "reliable (process_heartbeat_notification_for_chat b ?h ''on'' 20)"
    unfolding process_heartbeat_notification_for_chat_def process_engine_on_notification_for_chat_def Let_def
      send_engine_on_confirmation_def finish_active_engine_sessions_def by (intro reliable_intros)
  moreover have "wsched ?w = []" by simp
  ultimately have "\<exists>x w'. process_heartbeat_notification_for_chat b ?h ''on'' 20 ?w = (Inr x, w')"
    unfolding reliable_def by blast
  then obtain w' where w': "process_heartbeat_notification_for_chat b ?h ''on'' 20 ?w = (Inr (), w')"
    by (metis (full_types) old.unit.exhaust)
  have "sessions_ok (wseq ?w) (telegram_engine_sessions (wdb ?w))" by (simp add: sessions_ok_def)
  from engine_on_prompts_once [OF w' this] have "last (requests (wdb w'))
      = SendMessage 20 (Fixed 22) (Some engine_session_confirmation_keyboard) None"
    by (simp add: engine_on_news_def sample_bot_store_def empty_store_def store.defs)
  with w' show "\<exists>w'. process_heartbeat_notification_for_chat b ?h ''on'' 20 ?w = (Inr (), w')
      \<and> last (requests (wdb w')) = SendMessage 20 (Fixed 22) (Some engine_session_confirmation_keyboard) None" by blast
qed

end
