(* ===== verification/Handlers.thy ===== *)
theory Handlers
  imports Bindings Polling
begin

text \<open>
  What the handlers of the bot do for a user: a feature that needs a subscription stays closed without
  one, a prompt is answered once, a device is registered exactly when it may be, a payment link asks
  for what was recorded; and what becomes of an update whose handler fails.
\<close>

section \<open>Programs that only send\<close>

definition sends :: "bot_call set \<Rightarrow> 'a bot_io \<Rightarrow> bool" where
  "sends R m \<longleftrightarrow> (\<forall>w. \<exists>cs. wdb (snd (m w)) = (wdb w)\<lparr>requests := requests (wdb w) @ cs\<rparr> \<and> set cs \<subseteq> R)"

named_theorems send_intros

lemma sendsI: "(\<And>w. \<exists>cs. wdb (snd (m w)) = (wdb w)\<lparr>requests := requests (wdb w) @ cs\<rparr> \<and> set cs \<subseteq> R) \<Longrightarrow> sends R m"
  by (simp add: sends_def)

lemma sends_refl: "\<exists>cs. s = s\<lparr>requests := requests s @ cs\<rparr> \<and> set cs \<subseteq> R"
  by (rule exI [of _ "[]"]) simp

lemma sends_trans:
  fixes s :: "'z bot_store_scheme"
  assumes "\<exists>cs. s' = s\<lparr>requests := requests s @ cs\<rparr> \<and> set cs \<subseteq> R"
    and "\<exists>cs. s'' = s'\<lparr>requests := requests s' @ cs\<rparr> \<and> set cs \<subseteq> R"
  shows "\<exists>cs. s'' = s\<lparr>requests := requests s @ cs\<rparr> \<and> set cs \<subseteq> R"
proof -
  from assms obtain cs ds where "s' = s\<lparr>requests := requests s @ cs\<rparr>" "set cs \<subseteq> R"
    "s'' = s'\<lparr>requests := requests s' @ ds\<rparr>" "set ds \<subseteq> R" by blast
  then show ?thesis by (intro exI [of _ "cs @ ds"]) simp
qed

lemma sends_return [send_intros]: "sends R (io_return x)"
  by (intro sendsI) (simp add: io_return_def sends_refl)

lemma sends_throw [send_intros]: "sends R (io_throw e)"
  by (intro sendsI) (simp add: io_throw_def sends_refl)

lemma sends_bind [send_intros]:
  assumes m: "sends R m" and f: "\<And>x. sends R (f x)"
  shows "sends R (io_bind m f)"
proof (rule sendsI)
  fix w
  obtain r w1 where m1: "m w = (r, w1)" by force
  have 1: "\<exists>cs. wdb w1 = (wdb w)\<lparr>requests := requests (wdb w) @ cs\<rparr> \<and> set cs \<subseteq> R"
    using m m1 unfolding sends_def by (metis snd_conv)
  show "\<exists>cs. wdb (snd (io_bind m f w)) = (wdb w)\<lparr>requests := requests (wdb w) @ cs\<rparr> \<and> set cs \<subseteq> R"
  proof (cases r)
    case (Inr x)
    have "\<exists>cs. wdb (snd (f x w1)) = (wdb w1)\<lparr>requests := requests (wdb w1) @ cs\<rparr> \<and> set cs \<subseteq> R"
      using f by (simp add: sends_def)
    from sends_trans [OF 1 this] m1 Inr show ?thesis by (simp add: io_bind_def)
  qed (use 1 m1 in \<open>simp add: io_bind_def\<close>)
qed

lemma sends_select [send_intros]: "sends R (db (select f))"
  by (intro sendsI) (simp add: select_def query_def operation_def Let_def sends_refl)

lemma sends_clock [send_intros]: "sends R (clock_now b)"
  by (intro sendsI) (simp add: clock_now_def sends_refl)

lemma sends_warn [send_intros]: "sends R m \<Longrightarrow> sends R (io_warn m)"
  by (auto simp: sends_def io_warn_def try_result io_return_def)

lemma sends_call [send_intros]: "c \<in> R \<Longrightarrow> sends R (call_api c)"
  unfolding call_api_def
proof (intro send_intros)
  show "sends R (operation BotHttp (\<lambda>i s. Inr (i, s\<lparr>requests := requests s @ [c]\<rparr>)))" if "c \<in> R"
    using that by (intro sendsI) (auto simp: operation_def Let_def sends_refl)
  show "sends R (operation BotHttp (\<lambda>_ s. Inr ((), s)))"
    by (intro sendsI) (simp add: operation_def Let_def sends_refl)
qed

lemma sends_if [send_intros]: "(c \<Longrightarrow> sends R m) \<Longrightarrow> (\<not> c \<Longrightarrow> sends R n) \<Longrightarrow> sends R (if c then m else n)"
  by simp

lemma sends_case_option [send_intros]:
  "(x = None \<Longrightarrow> sends R m) \<Longrightarrow> (\<And>y. x = Some y \<Longrightarrow> sends R (f y)) \<Longrightarrow>
   sends R (case x of None \<Rightarrow> m | Some y \<Rightarrow> f y)"
  by (cases x) auto

lemmas request_defs = send_message_def send_message_html_def send_message_internal_def io_unit_def
  answer_callback_query_def clear_inline_keyboard_def edit_message_reply_markup_def get_updates_def
  send_engine_on_sticker_def send_theft_warning_sticker_def send_bind_success_sticker_def

section \<open>Features behind a subscription\<close>

lemma guard_inactive:
  assumes "\<not> subscription_active (wdb w) u (bt_clock b (wseq w))"
  obtains r w' cs where "ensure_active_subscription_for_callback b q c u m w = (r, w')" "r \<noteq> Inr True"
    "wdb w' = (wdb w)\<lparr>requests := requests (wdb w) @ cs\<rparr>"
    "set cs \<subseteq> {AnswerCallback q (Toast 2) False, SendMessage c (Fixed 15) (Some subscription_payment_keyboard) None}
       \<union> (case m of None \<Rightarrow> {} | Some i \<Rightarrow> {EditReplyMarkup c i None})"
proof -
  let ?R = "{AnswerCallback q (Toast 2) False, SendMessage c (Fixed 15) (Some subscription_payment_keyboard) None}
    \<union> (case m of None \<Rightarrow> {} | Some i \<Rightarrow> {EditReplyMarkup c i None})"
  let ?closed = "io_bind (answer_callback_query q (Toast 2) False) (\<lambda>_.
       io_bind (case m of Some i \<Rightarrow> io_warn (clear_inline_keyboard c i) | None \<Rightarrow> io_return ()) (\<lambda>_.
       io_bind (send_subscription_required_menu b c) (\<lambda>_. io_return False)))"
  have sends: "sends ?R ?closed"
    unfolding send_subscription_required_menu_def request_defs by (intro send_intros) (auto split: option.split)
  let ?active = "db (has_active_subscription u (bt_clock b (wseq w)))"
  obtain a w1 where a: "?active w = (a, w1)" by force
  have w1: "wdb w1 = wdb w" "a = Inr False \<or> (\<exists>e. a = Inl e)"
    using a assms
    by (auto simp: has_active_subscription_def io_map_error_def select_def query_def operation_def Let_def
        split: if_splits)
  have eq: "ensure_active_subscription_for_callback b q c u m w
     = (case a of Inl e \<Rightarrow> (Inl e, w1) | Inr _ \<Rightarrow> ?closed w1)"
    using a w1(2) by (auto simp: ensure_active_subscription_for_callback_def clock_now_def io_bind_def)
  have no: "fst (?closed w1) \<noteq> Inr True"
    by (auto simp: io_bind_def io_return_def split: prod.splits sum.splits)
  show thesis
  proof (cases a)
    case (Inl e)
    then show ?thesis using that [of "Inl e" w1 "[]"] eq w1(1) by simp
  next
    case (Inr x)
    obtain cs where "wdb (snd (?closed w1)) = (wdb w1)\<lparr>requests := requests (wdb w1) @ cs\<rparr>" "set cs \<subseteq> ?R"
      using sends by (auto simp: sends_def)
    then show ?thesis using that [of "fst (?closed w1)" "snd (?closed w1)" cs] eq no Inr w1(1) by simp
  qed
qed

text \<open>
  C25. Without a subscription, a button of a protected feature opens nothing: for a user with no active
  one, an analytics, tracking, status or session button changes no table at all, whatever fails, and the
  only requests it makes are the refusal, the removal of the button's keyboard and the payment menu.
\<close>

theorem subscription_required:
  assumes "cq_data q = Some d" and "cq_message q = Some m"
    and inactive: "\<not> subscription_active (wdb w) (cq_from q) (bt_clock b (wseq w))"
    and protected: "parse_analytics_action d \<noteq> None \<or> parse_session_action d \<noteq> None
      \<or> (\<exists>a. parse_theft_alert_action d = Some a \<and> requires_active_subscription a)"
  shows "\<exists>cs. wdb (snd (handle_callback_query b q w)) = (wdb w)\<lparr>requests := requests (wdb w) @ cs\<rparr>
    \<and> set cs \<subseteq> {AnswerCallback (cq_id q) (Toast 2) False,
          SendMessage (tg_chat m) (Fixed 15) (Some subscription_payment_keyboard) None}
        \<union> (case tg_message_id m of None \<Rightarrow> {} | Some i \<Rightarrow> {EditReplyMarkup (tg_chat m) i None})"
proof -
  obtain r w' cs where g: "ensure_active_subscription_for_callback b (cq_id q) (tg_chat m) (cq_from q) (tg_message_id m) w = (r, w')"
    "r \<noteq> Inr True" and cs: "wdb w' = (wdb w)\<lparr>requests := requests (wdb w) @ cs\<rparr>"
    "set cs \<subseteq> {AnswerCallback (cq_id q) (Toast 2) False,
        SendMessage (tg_chat m) (Fixed 15) (Some subscription_payment_keyboard) None}
      \<union> (case tg_message_id m of None \<Rightarrow> {} | Some i \<Rightarrow> {EditReplyMarkup (tg_chat m) i None})"
    using guard_inactive [OF inactive] by blast
  have stop: "snd (io_bind (ensure_active_subscription_for_callback b (cq_id q) (tg_chat m) (cq_from q) (tg_message_id m))
      (\<lambda>active. if \<not> active then io_return () else k) w) = w'" for k :: "unit bot_io"
    using g by (auto simp: io_bind_def io_return_def split: sum.split)
  have "parse_payment_action d = None"
    using protected callback_actions_cases [of d] by (auto simp: callback_actions_def split: option.splits)
  moreover have "parse_theft_alert_action d = None" if "parse_session_action d \<noteq> None"
    using that callback_actions_cases [of d] by (auto simp: callback_actions_def split: option.splits)
  ultimately have "snd (handle_callback_query b q w) = w'"
    using assms(1,2) protected
    by (auto simp: handle_callback_query_def handle_session_action_def Let_def stop split: option.split)
  with cs show ?thesis by auto
qed

lemma subscription_required_witness:
  "\<forall>b. \<exists>cs. wdb (snd (handle_callback_query b
       \<lparr>cq_id = ''q'', cq_from = 10, cq_data = Some (analytics_callback_data TotalKm Today),
        cq_message = Some \<lparr>tg_chat = 20, tg_from = None, tg_text = None, tg_message_id = None\<rparr>\<rparr>
       \<lparr>wdb = sample_loop_store, wseq = 3, wsched = []\<rparr>)) = sample_loop_store\<lparr>requests := cs\<rparr>
     \<and> set cs \<subseteq> {AnswerCallback ''q'' (Toast 2) False, SendMessage 20 (Fixed 15) (Some subscription_payment_keyboard) None}"
proof
  fix b :: bot
  let ?m = "\<lparr>tg_chat = 20, tg_from = None, tg_text = None, tg_message_id = None\<rparr>"
  let ?q = "\<lparr>cq_id = ''q'', cq_from = 10, cq_data = Some (analytics_callback_data TotalKm Today), cq_message = Some ?m\<rparr>"
  let ?w = "\<lparr>wdb = sample_loop_store, wseq = 3, wsched = []\<rparr>"
  have "\<not> subscription_active (wdb ?w) (cq_from ?q) (bt_clock b (wseq ?w))" "requests sample_loop_store = []"
    by (simp_all add: subscription_active_def sample_loop_store_def empty_store_def store.defs)
  with subscription_required [of ?q "analytics_callback_data TotalKm Today" ?m ?w b] parse_analytics_callback_data [of TotalKm Today]
  show "\<exists>cs. wdb (snd (handle_callback_query b ?q ?w)) = sample_loop_store\<lparr>requests := cs\<rparr>
     \<and> set cs \<subseteq> {AnswerCallback ''q'' (Toast 2) False, SendMessage 20 (Fixed 15) (Some subscription_payment_keyboard) None}"
    by auto
qed

section \<open>An update that fails\<close>

fun update_polls :: "bot \<Rightarrow> nat \<Rightarrow> unit bot_io" where
  "update_polls b 0 = io_return ()"
| "update_polls b (Suc n) = io_bind (io_log (process_updates b)) (\<lambda>_. update_polls b n)"

definition update_offset :: "'z store_scheme \<Rightarrow> int option" where
  "update_offset s = map_option (\<lambda>v. v + 1)
     (Option.bind (lookup fst ''last_telegram_update_id'' (telegram_bot_state s)) (\<lambda>r. parse_i64 (snd r)))"

definition is_bound_user :: "'z store_scheme \<Rightarrow> int \<Rightarrow> bool" where
  "is_bound_user s u \<longleftrightarrow> (case Option.bind (lookup tu_telegram_user_id u (telegram_users s)) user_record_of of
     None \<Rightarrow> False | Some user \<Rightarrow> ur_bound_imei user \<noteq> None \<and> ur_registration_status user = Bound)"

lemma payment_unconfigured:
  assumes "bt_midtrans b = None" and "is_bound_user (wdb w) (cq_from q)" and "cq_message q \<noteq> None"
  shows "\<exists>e w'. handle_payment_action b q a w = (Inl e, w') \<and> e \<noteq> Panicked \<and> wdb w' = wdb w"
proof -
  obtain m where m: "cq_message q = Some m" using assms(3) by blast
  let ?f = "db (fetch_telegram_user_by_user_id (cq_from q))"
  obtain r w1 where r: "?f w = (r, w1)" by force
  have w1: "wdb w1 = wdb w" and "(\<exists>e. r = Inl e \<and> e \<noteq> Panicked) \<or> r = Inr (Option.bind (lookup tu_telegram_user_id (cq_from q) (telegram_users (wdb w))) user_record_of)"
    using r by (auto simp: fetch_telegram_user_by_user_id_def io_map_error_def select_def query_def operation_def Let_def
        split: if_splits)
  then consider e where "r = Inl e" "e \<noteq> Panicked" | user where "r = Inr (Some user)" "ur_bound_imei user \<noteq> None" "ur_registration_status user = Bound"
    using assms(2) by (auto simp: is_bound_user_def split: option.splits)
  then show ?thesis
    using r w1 assms(1) m
    by cases (auto simp: handle_payment_action_def ensure_bound_for_payment_def io_bind_def io_return_def io_throw_def Let_def)
qed

lemma get_updates_result:
  assumes "get_updates b offset w = (r, w')"
  shows "(r = Inl BotHttp \<or> (\<exists>i. r = Inr (bt_updates b i offset)))
    \<and> (\<exists>cs. wdb w' = (wdb w)\<lparr>requests := requests (wdb w) @ cs\<rparr> \<and> set cs \<subseteq> {GetUpdates offset})"
proof
  show "r = Inl BotHttp \<or> (\<exists>i. r = Inr (bt_updates b i offset))"
    using assms by (auto simp: get_updates_def call_api_def io_bind_def io_return_def operation_def Let_def split: if_splits)
  have "sends {GetUpdates offset} (get_updates b offset)" unfolding get_updates_def by (intro send_intros) simp
  then show "\<exists>cs. wdb w' = (wdb w)\<lparr>requests := requests (wdb w) @ cs\<rparr> \<and> set cs \<subseteq> {GetUpdates offset}"
    using assms unfolding sends_def by (metis snd_conv)
qed

lemma blocked_poll:
  assumes midtrans: "bt_midtrans b = None" and bound: "is_bound_user (wdb w) (cq_from q)"
    and q: "cq_message q \<noteq> None" "cq_data q = Some d" "parse_payment_action d \<noteq> None"
    and updates: "\<forall>i. \<exists>rest. bt_updates b i (update_offset (wdb w))
        = \<lparr>up_update_id = k, up_message = None, up_callback_query = Some q\<rparr> # rest"
  shows "fst (process_updates b w) \<noteq> Inl Panicked
    \<and> (\<exists>cs. wdb (snd (process_updates b w)) = (wdb w)\<lparr>requests := requests (wdb w) @ cs\<rparr>
         \<and> set cs \<subseteq> {GetUpdates (update_offset (wdb w))})"
proof -
  let ?o = "update_offset (wdb w)"
  let ?s = "db (get_state_i64 ''last_telegram_update_id'')"
  obtain x w1 where x: "?s w = (x, w1)" by force
  have w1: "wdb w1 = wdb w" and xs: "(\<exists>e. x = Inl (BotQuery e)) \<or> (\<exists>v. x = Inr v \<and> map_option (\<lambda>v. v + 1) v = ?o)"
    using x by (auto simp: get_state_i64_def io_map_error_def select_def query_def operation_def Let_def update_offset_def
        split: if_splits)
  obtain y w2 where y: "get_updates b ?o w1 = (y, w2)" by force
  from get_updates_result [OF y] w1 obtain cs where cs: "wdb w2 = (wdb w)\<lparr>requests := requests (wdb w) @ cs\<rparr>"
    "set cs \<subseteq> {GetUpdates ?o}" and ys: "y = Inl BotHttp \<or> (\<exists>i. y = Inr (bt_updates b i ?o))" by auto
  have bound2: "is_bound_user (wdb w2) (cq_from q)" using bound by (simp add: cs(1) is_bound_user_def)
  obtain a where a: "parse_payment_action d = Some a" using q(3) by blast
  obtain e w3 where pay: "handle_payment_action b q a w2 = (Inl e, w3)" "e \<noteq> Panicked" "wdb w3 = wdb w2"
    using payment_unconfigured [OF midtrans bound2 q(1)] by blast
  have handled: "io_for us (handle_update b) w2 = (Inl e, w3)" if "y = Inr us" for us
  proof -
    from that ys updates obtain rest where "us = \<lparr>up_update_id = k, up_message = None, up_callback_query = Some q\<rparr> # rest"
      by auto
    then show ?thesis using pay(1) q a
      by (simp add: handle_update_def handle_callback_query_def Let_def io_bind_def io_return_def)
  qed
  from xs show ?thesis
  proof
    assume "\<exists>e. x = Inl (BotQuery e)"
    then show ?thesis using x w1 by (auto simp: process_updates_def io_bind_def sends_refl)
  next
    assume "\<exists>v. x = Inr v \<and> map_option (\<lambda>v. v + 1) v = ?o"
    then show ?thesis using x y ys handled pay cs by (cases y) (auto simp: process_updates_def io_bind_def)
  qed
qed

text \<open>
  C29. An update whose handler always fails blocks the bot for everyone: when payments are not
  configured and Telegram has the payment button of a bound user as its next update, then however often
  the bot polls, and whichever queries and requests fail, it never gets past this update; it changes no
  table and sends nothing but the same request for updates.
\<close>

theorem failing_update_blocks:
  assumes "bt_midtrans b = None" and bound: "is_bound_user (wdb w) (cq_from q)" and "cq_message q \<noteq> None"
    and "cq_data q = Some d" and "parse_payment_action d \<noteq> None"
    and updates: "\<forall>i. \<exists>rest. bt_updates b i (update_offset (wdb w))
        = \<lparr>up_update_id = k, up_message = None, up_callback_query = Some q\<rparr> # rest"
  shows "\<exists>cs. wdb (snd (update_polls b n w)) = (wdb w)\<lparr>requests := requests (wdb w) @ cs\<rparr>
    \<and> set cs \<subseteq> {GetUpdates (update_offset (wdb w))}"
  using bound updates
proof (induction n arbitrary: w)
  case 0
  then show ?case by (simp add: io_return_def sends_refl)
next
  case (Suc n)
  let ?R = "{GetUpdates (update_offset (wdb w))}"
  obtain r w1 where p: "process_updates b w = (r, w1)" by force
  from blocked_poll [OF assms(1) Suc.prems(1) assms(3,4,5) Suc.prems(2)] p
  have r: "r \<noteq> Inl Panicked" and 1: "\<exists>cs. wdb w1 = (wdb w)\<lparr>requests := requests (wdb w) @ cs\<rparr> \<and> set cs \<subseteq> ?R" by auto
  then have same: "is_bound_user (wdb w1) (cq_from q)" "update_offset (wdb w1) = update_offset (wdb w)"
    using Suc.prems(1) by (auto simp: is_bound_user_def update_offset_def)
  from Suc.IH [OF same(1)] Suc.prems(2) same(2)
  have 2: "\<exists>cs. wdb (snd (update_polls b n w1)) = (wdb w1)\<lparr>requests := requests (wdb w1) @ cs\<rparr> \<and> set cs \<subseteq> ?R" by simp
  have "snd (update_polls b (Suc n) w) = snd (update_polls b n w1)"
    using p r by (simp add: io_bind_def io_log_def try_result io_return_def)
  with sends_trans [OF 1 2] show ?case by simp
qed

lemma failing_update_blocks_witness:
  "\<forall>b. let q = \<lparr>cq_id = ''q'', cq_from = tu_telegram_user_id sample_user, cq_data = Some ''payment:subscribe'',
            cq_message = Some \<lparr>tg_chat = 20, tg_from = None, tg_text = None, tg_message_id = None\<rparr>\<rparr>;
        c = b\<lparr>bt_midtrans := None,
              bt_updates := \<lambda>_ _. [\<lparr>up_update_id = 5, up_message = None, up_callback_query = Some q\<rparr>]\<rparr>
    in \<exists>cs. wdb (snd (update_polls c 1000 \<lparr>wdb = sample_bot_store, wseq = 3, wsched = []\<rparr>))
         = sample_bot_store\<lparr>requests := cs\<rparr> \<and> set cs \<subseteq> {GetUpdates None}"
proof
  fix b :: bot
  let ?q = "\<lparr>cq_id = ''q'', cq_from = tu_telegram_user_id sample_user, cq_data = Some ''payment:subscribe'',
            cq_message = Some \<lparr>tg_chat = 20, tg_from = None, tg_text = None, tg_message_id = None\<rparr>\<rparr>"
  let ?c = "b\<lparr>bt_midtrans := None,
              bt_updates := \<lambda>_ _. [\<lparr>up_update_id = 5, up_message = None, up_callback_query = Some ?q\<rparr>]\<rparr>"
  let ?w = "\<lparr>wdb = sample_bot_store, wseq = 3, wsched = []\<rparr>"
  have "is_bound_user (wdb ?w) (cq_from ?q)"
    by (simp add: is_bound_user_def sample_user_def lookup_Cons user_record_of_def parse_registration_status_def)
  moreover have "parse_payment_action ''payment:subscribe'' \<noteq> None" by code_simp
  moreover have "update_offset sample_bot_store = None" by (simp add: update_offset_def)
  ultimately show "let q = ?q; c = b\<lparr>bt_midtrans := None,
              bt_updates := \<lambda>_ _. [\<lparr>up_update_id = 5, up_message = None, up_callback_query = Some q\<rparr>]\<rparr>
    in \<exists>cs. wdb (snd (update_polls c 1000 ?w)) = sample_bot_store\<lparr>requests := cs\<rparr> \<and> set cs \<subseteq> {GetUpdates None}"
    using failing_update_blocks [of ?c ?w ?q "''payment:subscribe''" 5 1000] by (auto simp: Let_def)
qed

section \<open>Registering a device\<close>

lemma call_unit_ok:
  "io_unit (call_api c) w = (Inr x, w') \<Longrightarrow> wdb w' = (wdb w)\<lparr>requests := requests (wdb w) @ [c]\<rparr>"
  unfolding io_unit_def bind_ok by (auto dest: call_api_ok)

lemma message_ok:
  "io_unit (send_message b c t) w = (Inr x, w') \<Longrightarrow>
   wdb w' = (wdb w)\<lparr>requests := requests (wdb w) @ [SendMessage c t None None]\<rparr>"
  unfolding io_unit_def send_message_def bind_ok by (auto dest: send_internal_ok)

lemma menu_ok:
  "send_subscription_required_menu b c w = (Inr x, w') \<Longrightarrow>
   wdb w' = (wdb w)\<lparr>requests := requests (wdb w) @ [SendMessage c (Fixed 15) (Some subscription_payment_keyboard) None]\<rparr>"
  unfolding send_subscription_required_menu_def io_unit_def bind_ok by (auto dest: send_internal_ok)

lemma warn_ok:
  assumes "sends R m" and "io_warn m w = (r, w')"
  shows "\<exists>cs. wdb w' = (wdb w)\<lparr>requests := requests (wdb w) @ cs\<rparr> \<and> set cs \<subseteq> R"
  using sends_warn [OF assms(1)] assms(2) unfolding sends_def by (metis snd_conv)

text \<open>The conditions that the handler checks, in its order, and the number of the answer to each.\<close>

definition registration_answer :: "'z store_scheme \<Rightarrow> user_record \<Rightarrow> int \<Rightarrow> string \<Rightarrow> nat option" where
  "registration_answer s user u imei =
     (if \<not> is_valid_imei imei then Some 1
      else if ur_bound_imei user \<noteq> None then Some 2
      else if imei \<notin> dv_imei ` set (devices s) then Some 3
      else if \<exists>r \<in> set (telegram_users s). tu_bound_imei r = Some imei \<and> tu_telegram_user_id r \<noteq> u then Some 4
      else None)"

lemma bind_user_ok:
  "db (bind_telegram_user_to_imei u c imei) w = (Inr x, w') \<Longrightarrow>
   wdb w' = (wdb w)\<lparr>telegram_users := update_where (\<lambda>r. tu_telegram_user_id r = u)
     (\<lambda>r. r\<lparr>tu_chat_id := c, tu_bound_imei := Some imei, tu_registration_status := ''bound''\<rparr>) (telegram_users (wdb w))\<rparr>"
  unfolding bind_telegram_user_to_imei_def map_error_ok by (drule query_ok) (auto split: if_splits)

lemma registration_done:
  assumes "io_bind (db (bind_telegram_user_to_imei u c imei)) (\<lambda>_.
            io_bind (io_unit (send_message b c (BindSuccess imei))) (\<lambda>_.
            io_bind (io_warn (send_bind_success_sticker c)) (\<lambda>_.
            send_subscription_required_menu b c))) w = (Inr x, w')"
  shows "\<exists>cs. set cs \<subseteq> {SendSticker c 2}
        \<and> wdb w' = (wdb w)\<lparr>
           telegram_users := update_where (\<lambda>r. tu_telegram_user_id r = u)
             (\<lambda>r. r\<lparr>tu_chat_id := c, tu_bound_imei := Some imei, tu_registration_status := ''bound''\<rparr>)
             (telegram_users (wdb w)),
           requests := requests (wdb w) @ SendMessage c (BindSuccess imei) None None # cs
             @ [SendMessage c (Fixed 15) (Some subscription_payment_keyboard) None]\<rparr>"
proof -
  from assms obtain x1 w1 x2 w2 x3 w3 where 1: "db (bind_telegram_user_to_imei u c imei) w = (Inr x1, w1)"
    and 2: "io_unit (send_message b c (BindSuccess imei)) w1 = (Inr x2, w2)"
    and 3: "io_warn (send_bind_success_sticker c) w2 = (Inr x3, w3)"
    and 4: "send_subscription_required_menu b c w3 = (Inr x, w')" unfolding bind_ok by blast
  have "sends {SendSticker c 2} (send_bind_success_sticker c)"
    unfolding send_bind_success_sticker_def io_unit_def by (intro send_intros) simp
  from warn_ok [OF this 3] obtain cs where "set cs \<subseteq> {SendSticker c 2}"
    "wdb w3 = (wdb w2)\<lparr>requests := requests (wdb w2) @ cs\<rparr>" by blast
  with bind_user_ok [OF 1] message_ok [OF 2] menu_ok [OF 4] show ?thesis by (intro exI [of _ cs]) simp
qed

lemma registration_ok:
  assumes "register_device b c u user imei w = (Inr x, w')"
  shows "case registration_answer (wdb w) user u imei of
      Some n \<Rightarrow> wdb w' = (wdb w)\<lparr>requests := requests (wdb w) @ [SendMessage c (Fixed n) None None]\<rparr>
    | None \<Rightarrow> \<exists>cs. set cs \<subseteq> {SendSticker c 2}
        \<and> wdb w' = (wdb w)\<lparr>
           telegram_users := update_where (\<lambda>r. tu_telegram_user_id r = u)
             (\<lambda>r. r\<lparr>tu_chat_id := c, tu_bound_imei := Some imei, tu_registration_status := ''bound''\<rparr>)
             (telegram_users (wdb w)),
           requests := requests (wdb w) @ SendMessage c (BindSuccess imei) None None # cs
             @ [SendMessage c (Fixed 15) (Some subscription_payment_keyboard) None]\<rparr>"
proof (cases "is_valid_imei imei \<and> ur_bound_imei user = None")
  case False
  then show ?thesis using assms by (auto simp: register_device_def registration_answer_def dest: message_ok)
next
  case True
  then obtain known w1 where 1: "db (device_exists imei) w = (Inr known, w1)"
    and 2: "(if \<not> known then io_unit (send_message b c (Fixed 3))
        else io_bind (db (is_device_bound_to_another_user imei u)) (\<lambda>taken.
          if taken then io_unit (send_message b c (Fixed 4))
          else io_bind (db (bind_telegram_user_to_imei u c imei)) (\<lambda>_.
            io_bind (io_unit (send_message b c (BindSuccess imei))) (\<lambda>_.
            io_bind (io_warn (send_bind_success_sticker c)) (\<lambda>_.
            send_subscription_required_menu b c))))) w1 = (Inr x, w')"
    using assms by (auto simp: register_device_def bind_ok)
  have w1: "wdb w1 = wdb w" "known \<longleftrightarrow> imei \<in> dv_imei ` set (devices (wdb w))"
    using 1 unfolding device_exists_def map_error_ok by (auto simp: list_ex_iff dest!: select_ok)
  show ?thesis
  proof (cases known)
    case False
    then show ?thesis using 2 True w1 by (auto simp: registration_answer_def dest!: message_ok)
  next
    case known: True
    from 2 known obtain taken w2 where 3: "db (is_device_bound_to_another_user imei u) w1 = (Inr taken, w2)"
      and 4: "(if taken then io_unit (send_message b c (Fixed 4))
          else io_bind (db (bind_telegram_user_to_imei u c imei)) (\<lambda>_.
            io_bind (io_unit (send_message b c (BindSuccess imei))) (\<lambda>_.
            io_bind (io_warn (send_bind_success_sticker c)) (\<lambda>_.
            send_subscription_required_menu b c)))) w2 = (Inr x, w')" by (auto simp: bind_ok)
    have w2: "wdb w2 = wdb w" "taken \<longleftrightarrow> (\<exists>r \<in> set (telegram_users (wdb w)). tu_bound_imei r = Some imei \<and> tu_telegram_user_id r \<noteq> u)"
      using 3 w1 unfolding is_device_bound_to_another_user_def map_error_ok by (auto simp: list_ex_iff dest!: select_ok)
    show ?thesis
    proof (cases taken)
      case True
      then show ?thesis using 4 w2 known w1 \<open>is_valid_imei imei \<and> ur_bound_imei user = None\<close>
        by (auto simp: registration_answer_def dest!: message_ok)
    next
      case False
      then have none: "registration_answer (wdb w) user u imei = None"
        using w2 known w1 \<open>is_valid_imei imei \<and> ur_bound_imei user = None\<close> by (simp add: registration_answer_def)
      from 4 False have "io_bind (db (bind_telegram_user_to_imei u c imei)) (\<lambda>_.
            io_bind (io_unit (send_message b c (BindSuccess imei))) (\<lambda>_.
            io_bind (io_warn (send_bind_success_sticker c)) (\<lambda>_.
            send_subscription_required_menu b c))) w2 = (Inr x, w')" by simp
      from registration_done [OF this] show ?thesis unfolding none w2(1) by simp
    qed
  qed
qed

text \<open>
  C26. A device is registered exactly when it may be: a text that an unbound user sends, which is no
  command and no date that was asked for, binds the user to the device it names if it is a valid IMEI of
  a known device that nobody else has, and then offers a subscription; otherwise it changes no table
  and is answered with the first of the objections to it.
\<close>

theorem registration_outcome:
  assumes run: "handle_message b m w = (Inr x, w')" and "tg_from m = Some u" and "tg_text m = Some t"
    and "parse_command t = None"
    and user: "Option.bind (lookup tu_telegram_user_id u (telegram_users (wdb w))) user_record_of = Some user"
    and "ur_registration_status user = AwaitingImei"
    and pending: "lookup fst (pending_analytics_state_key (tg_chat m)) (telegram_bot_state (wdb w)) = None"
  shows "case registration_answer (wdb w) user u (trim t) of
      Some n \<Rightarrow> wdb w' = (wdb w)\<lparr>requests := requests (wdb w) @ [SendMessage (tg_chat m) (Fixed n) None None]\<rparr>
    | None \<Rightarrow> \<exists>cs. set cs \<subseteq> {SendSticker (tg_chat m) 2}
        \<and> wdb w' = (wdb w)\<lparr>
           telegram_users := update_where (\<lambda>r. tu_telegram_user_id r = u)
             (\<lambda>r. r\<lparr>tu_chat_id := tg_chat m, tu_bound_imei := Some (trim t), tu_registration_status := ''bound''\<rparr>)
             (telegram_users (wdb w)),
           requests := requests (wdb w) @ SendMessage (tg_chat m) (BindSuccess (trim t)) None None # cs
             @ [SendMessage (tg_chat m) (Fixed 15) (Some subscription_payment_keyboard) None]\<rparr>"
proof -
  from run assms(2,3,4) obtain y w1 where 1: "db (fetch_telegram_user_by_user_id u) w = (Inr y, w1)"
    and 2: "(case y of None \<Rightarrow> io_return () | Some user \<Rightarrow>
      io_bind (db (get_pending_analytics_kind (tg_chat m))) (\<lambda>pending.
      case pending of
        Some kind \<Rightarrow> handle_custom_analytics_input b (tg_chat m) u user kind t
      | None \<Rightarrow> if ur_registration_status user \<noteq> AwaitingImei then io_return ()
               else register_device b (tg_chat m) u user (trim t))) w1 = (Inr x, w')"
    unfolding handle_message_def Let_def by (auto simp: bind_ok)
  have w1: "y = Some user" "wdb w1 = wdb w"
    using 1 user unfolding fetch_telegram_user_by_user_id_def map_error_ok by (auto dest!: select_ok)
  from 2 w1 obtain k w2 where 3: "db (get_pending_analytics_kind (tg_chat m)) w1 = (Inr k, w2)"
    and 4: "(case k of
        Some kind \<Rightarrow> handle_custom_analytics_input b (tg_chat m) u user kind t
      | None \<Rightarrow> if ur_registration_status user \<noteq> AwaitingImei then io_return ()
               else register_device b (tg_chat m) u user (trim t)) w2 = (Inr x, w')" by (auto simp: bind_ok)
  have k: "k = None" and w2: "wdb w2 = wdb w"
    using 3 pending w1 unfolding get_pending_analytics_kind_def get_state_string_def map_error_ok bind_ok
    by (auto dest!: select_ok)
  from 4 k assms(6) have "register_device b (tg_chat m) u user (trim t) w2 = (Inr x, w')" by simp
  from registration_ok [OF this, unfolded w2] show ?thesis .
qed

definition sample_registration_store :: bot_store where
  "sample_registration_store = store.extend (empty_store\<lparr>
     telegram_users := [\<lparr>tu_telegram_user_id = 10, tu_chat_id = 20, tu_bound_imei = None,
       tu_registration_status = ''awaiting_imei''\<rparr>]\<rparr>) \<lparr>requests = []\<rparr>"

lemma registration_outcome_witness:
  "\<forall>b. requests (wdb (snd (handle_message b
       \<lparr>tg_chat = 20, tg_from = Some 10, tg_text = Some '' 12345 '', tg_message_id = None\<rparr>
       \<lparr>wdb = sample_registration_store, wseq = 3, wsched = []\<rparr>))) = [SendMessage 20 (Fixed 1) None None]"
proof
  fix b :: bot
  let ?m = "\<lparr>tg_chat = 20, tg_from = Some 10, tg_text = Some '' 12345 '', tg_message_id = None\<rparr>"
  let ?w = "\<lparr>wdb = sample_registration_store, wseq = 3, wsched = []\<rparr>"
  let ?user = "\<lparr>ur_telegram_user_id = 10, ur_chat_id = 20, ur_bound_imei = None, ur_registration_status = AwaitingImei\<rparr>"
  have parse: "parse_command '' 12345 '' = None" "trim '' 12345 '' = ''12345''" by code_simp+
  have s: "telegram_users sample_registration_store = [\<lparr>tu_telegram_user_id = 10, tu_chat_id = 20, tu_bound_imei = None,
       tu_registration_status = ''awaiting_imei''\<rparr>]" "telegram_bot_state sample_registration_store = []"
    "requests sample_registration_store = []"
    by (simp_all add: sample_registration_store_def empty_store_def store.defs)
  have user: "Option.bind (lookup tu_telegram_user_id 10 (telegram_users (wdb ?w))) user_record_of = Some ?user"
    by (simp add: s lookup_Cons user_record_of_def parse_registration_status_def)
  have "\<exists>x w'. handle_message b ?m ?w = (Inr x, w')"
    by (simp add: handle_message_def parse fetch_telegram_user_by_user_id_def lookup_Cons user_record_of_def parse_registration_status_def get_pending_analytics_kind_def
        get_state_string_def s register_device_def is_valid_imei_def request_defs call_api_def io_run Let_def)
  then obtain x w' where run: "handle_message b ?m ?w = (Inr x, w')" by blast
  from registration_outcome [OF run _ _ parse(1) user] have "wdb w' = sample_registration_store\<lparr>requests := [SendMessage 20 (Fixed 1) None None]\<rparr>"
    by (simp add: s registration_answer_def parse is_valid_imei_def)
  with run show "requests (wdb (snd (handle_message b ?m ?w))) = [SendMessage 20 (Fixed 1) None None]" by simp
qed

section \<open>Answering a prompt\<close>

lemma guard_ok:
  assumes "ensure_active_subscription_for_callback b q c u m w = (Inr active, w')"
    and "subscription_active (wdb w) u (bt_clock b (wseq w))"
  shows "active \<and> wdb w' = wdb w"
proof -
  from assms(1) obtain a w1 where 1: "db (has_active_subscription u (bt_clock b (wseq w))) w = (Inr a, w1)"
    and 2: "(if a then io_return True else io_bind (answer_callback_query q (Toast 2) False) (\<lambda>_.
       io_bind (case m of Some i \<Rightarrow> io_warn (clear_inline_keyboard c i) | None \<Rightarrow> io_return ()) (\<lambda>_.
       io_bind (send_subscription_required_menu b c) (\<lambda>_. io_return False)))) w1 = (Inr active, w')"
    unfolding ensure_active_subscription_for_callback_def clock_now_def by (auto simp: io_bind_def split: prod.splits sum.splits)
  have "a \<and> wdb w1 = wdb w"
    using 1 assms(2) unfolding has_active_subscription_def map_error_ok by (auto dest: select_ok)
  with 2 show ?thesis by simp
qed

definition answered_status :: "session_action \<Rightarrow> string" where
  "answered_status a = (case a of Yes \<Rightarrow> ''confirmed_safe'' | No \<Rightarrow> ''reported_theft'')"

definition answer_message :: "int \<Rightarrow> session_row \<Rightarrow> session_action \<Rightarrow> bot_call" where
  "answer_message c y a = (case a of
       Yes \<Rightarrow> SendMessage c (Fixed 23) None None
     | No \<Rightarrow> SendMessage c (Fixed 25) (Some (theft_alert_keyboard (Some (es_id y)))) None)"

lemma update_status_ok:
  "db (update_engine_session_status i st) w = (Inr x, w') \<Longrightarrow>
   wdb w' = (wdb w)\<lparr>telegram_engine_sessions := update_where (\<lambda>r. es_id r = i)
     (\<lambda>r. r\<lparr>es_session_status := st\<rparr>) (telegram_engine_sessions (wdb w))\<rparr>"
  unfolding update_engine_session_status_def update_session_def map_error_ok by (rule execute_ok)

lemma answer_prompt_ok:
  assumes "answer_session_prompt b c i y a w = (Inr x, w')"
  shows "\<exists>cs. set cs \<subseteq> {SendSticker c (if a = Yes then 1 else 4)}
    \<and> wdb w' = (wdb w)\<lparr>
        requests := requests (wdb w) @ EditReplyMarkup c i None # answer_message c y a # cs,
        telegram_engine_sessions := update_where (\<lambda>r. es_id r = es_id y)
          (\<lambda>r. r\<lparr>es_session_status := answered_status a\<rparr>) (telegram_engine_sessions (wdb w))\<rparr>"
proof -
  let ?sticker = "if a = Yes then send_engine_on_sticker c else send_theft_warning_sticker c"
  from assms obtain x1 w1 x2 w2 x3 w3 where 1: "clear_inline_keyboard c i w = (Inr x1, w1)"
    and 2: "(if a = Yes then io_unit (send_message b c (Fixed 23))
       else io_unit (send_message_internal b c (Fixed 25) (Some (theft_alert_keyboard (Some (es_id y)))) None)) w1 = (Inr x2, w2)"
    and 3: "io_warn ?sticker w2 = (Inr x3, w3)"
    and 4: "db (update_engine_session_status (es_id y) (answered_status a)) w3 = (Inr x, w')"
    unfolding answer_session_prompt_def answered_status_def by (cases a) (auto simp: bind_ok)
  have w1: "wdb w1 = (wdb w)\<lparr>requests := requests (wdb w) @ [EditReplyMarkup c i None]\<rparr>"
    using 1 unfolding clear_inline_keyboard_def edit_message_reply_markup_def by (rule call_unit_ok)
  have w2: "wdb w2 = (wdb w1)\<lparr>requests := requests (wdb w1) @ [answer_message c y a]\<rparr>"
    using 2 by (cases a) (auto simp: answer_message_def io_unit_def send_message_def bind_ok dest: send_internal_ok)
  have "sends {SendSticker c (if a = Yes then 1 else 4)} ?sticker"
    by (cases a) (auto simp: send_engine_on_sticker_def send_theft_warning_sticker_def io_unit_def intro!: send_intros)
  from warn_ok [OF this 3] obtain cs where "set cs \<subseteq> {SendSticker c (if a = Yes then 1 else 4)}"
    "wdb w3 = (wdb w2)\<lparr>requests := requests (wdb w2) @ cs\<rparr>" by blast
  with w1 w2 update_status_ok [OF 4] show ?thesis by (intro exI [of _ cs]) simp
qed

text \<open>
  C27. A prompt is answered once: the answer of a subscriber to a prompt whose session waits for it is
  acknowledged, takes the buttons away, is confirmed by the matching message, and gives this session and
  no other the status it stands for; an answer to a session that no longer waits gets a notice and
  changes nothing.
\<close>

theorem prompt_answered_once:
  assumes run: "handle_callback_query b q w = (Inr x, w')"
    and "cq_data q = Some d" and a: "parse_session_action d = Some a"
    and "cq_message q = Some m" and "tg_message_id m = Some i"
    and active: "subscription_active (wdb w) (cq_from q) (bt_clock b (wseq w))"
    and session: "latest_by es_id (filter (\<lambda>r. es_chat_id r = tg_chat m \<and> es_prompt_message_id r = i)
       (telegram_engine_sessions (wdb w))) = Some y"
  shows "if es_session_status y = ''pending_confirmation''
    then \<exists>cs. set cs \<subseteq> {SendSticker (tg_chat m) (if a = Yes then 1 else 4)}
      \<and> wdb w' = (wdb w)\<lparr>
          requests := requests (wdb w) @ AnswerCallback (cq_id q) NoText False
            # EditReplyMarkup (tg_chat m) i None # answer_message (tg_chat m) y a # cs,
          telegram_engine_sessions := update_where (\<lambda>r. es_id r = es_id y)
            (\<lambda>r. r\<lparr>es_session_status := answered_status a\<rparr>) (telegram_engine_sessions (wdb w))\<rparr>
    else wdb w' = (wdb w)\<lparr>requests := requests (wdb w) @ [AnswerCallback (cq_id q) (Toast 6) False]\<rparr>"
proof -
  have "parse_payment_action d = None" "parse_analytics_action d = None" "parse_theft_alert_action d = None"
    using a callback_actions_cases [of d] by (auto simp: callback_actions_def split: option.splits)
  with run assms(2-5) obtain act w1 where
    1: "ensure_active_subscription_for_callback b (cq_id q) (tg_chat m) (cq_from q) (Some i) w = (Inr act, w1)"
    and 2: "(if \<not> act then io_return ()
      else io_bind (db (fetch_engine_session_by_prompt_message (tg_chat m) i)) (\<lambda>session.
        case session of None \<Rightarrow> answer_callback_query (cq_id q) (Toast 4) False | Some session \<Rightarrow>
        if es_chat_id session \<noteq> tg_chat m \<or> es_prompt_message_id session \<noteq> i
        then answer_callback_query (cq_id q) (Toast 5) False
        else if es_session_status session \<noteq> ''pending_confirmation''
        then answer_callback_query (cq_id q) (Toast 6) False
        else io_bind (answer_callback_query (cq_id q) NoText False) (\<lambda>_.
          answer_session_prompt b (tg_chat m) i session a))) w1 = (Inr x, w')"
    by (auto simp: handle_callback_query_def handle_session_action_def Let_def bind_ok)
  from guard_ok [OF 1 active] 2 obtain z w2 where 3: "db (fetch_engine_session_by_prompt_message (tg_chat m) i) w1 = (Inr z, w2)"
    and 4: "(case z of None \<Rightarrow> answer_callback_query (cq_id q) (Toast 4) False | Some session \<Rightarrow>
        if es_chat_id session \<noteq> tg_chat m \<or> es_prompt_message_id session \<noteq> i
        then answer_callback_query (cq_id q) (Toast 5) False
        else if es_session_status session \<noteq> ''pending_confirmation''
        then answer_callback_query (cq_id q) (Toast 6) False
        else io_bind (answer_callback_query (cq_id q) NoText False) (\<lambda>_.
          answer_session_prompt b (tg_chat m) i session a)) w2 = (Inr x, w')"
    by (simp only: not_True_eq_False if_False bind_ok) blast
  have z: "z = Some y" "wdb w2 = wdb w"
    using 3 session guard_ok [OF 1 active] unfolding fetch_engine_session_by_prompt_message_def map_error_ok
    by (auto dest!: select_ok)
  have y: "es_chat_id y = tg_chat m" "es_prompt_message_id y = i" using latest_by_max [OF session] by auto
  show ?thesis
  proof (cases "es_session_status y = ''pending_confirmation''")
    case False
    with 4 z y show ?thesis unfolding answer_callback_query_def by (auto dest: call_unit_ok)
  next
    case True
    with 4 z y obtain x1 w3 where 5: "answer_callback_query (cq_id q) NoText False w2 = (Inr x1, w3)"
      and 6: "answer_session_prompt b (tg_chat m) i y a w3 = (Inr x, w')" by (auto simp: bind_ok)
    have "wdb w3 = (wdb w)\<lparr>requests := requests (wdb w) @ [AnswerCallback (cq_id q) NoText False]\<rparr>"
      using 5 z unfolding answer_callback_query_def by (auto dest: call_unit_ok)
    with answer_prompt_ok [OF 6] True show ?thesis by auto
  qed
qed

definition sample_prompt_row :: session_row where
  "sample_prompt_row = \<lparr>es_id = 2, es_imei = ''1'', es_chat_id = 20, es_trigger_heartbeat_id = 1,
     es_prompt_message_id = 7, es_ride_status_message_id = None, es_session_status = ''finished'',
     es_created_at = 0, es_resolved_at = Some 5\<rparr>"

definition sample_prompt_store :: bot_store where
  "sample_prompt_store = sample_bot_store\<lparr>telegram_engine_sessions := [sample_prompt_row]\<rparr>"

lemma prompt_answered_once_witness:
  "\<forall>b. requests (wdb (snd (handle_callback_query (b\<lparr>bt_clock := \<lambda>_. 0\<rparr>)
       \<lparr>cq_id = ''q'', cq_from = 10, cq_data = Some ''engine_session:yes'',
        cq_message = Some \<lparr>tg_chat = 20, tg_from = None, tg_text = None, tg_message_id = Some 7\<rparr>\<rparr>
       \<lparr>wdb = sample_prompt_store, wseq = 3, wsched = []\<rparr>))) = [AnswerCallback ''q'' (Toast 6) False]"
proof
  fix b :: bot
  let ?b = "b\<lparr>bt_clock := \<lambda>_. 0\<rparr>"
  let ?m = "\<lparr>tg_chat = 20, tg_from = None, tg_text = None, tg_message_id = Some 7\<rparr>"
  let ?q = "\<lparr>cq_id = ''q'', cq_from = 10, cq_data = Some ''engine_session:yes'', cq_message = Some ?m\<rparr>"
  let ?w = "\<lparr>wdb = sample_prompt_store, wseq = 3, wsched = []\<rparr>"
  have parse: "parse_session_action ''engine_session:yes'' = Some Yes" "parse_payment_action ''engine_session:yes'' = None"
    "parse_analytics_action ''engine_session:yes'' = None" "parse_theft_alert_action ''engine_session:yes'' = None"
    by code_simp+
  have active: "subscription_active (wdb ?w) (cq_from ?q) (bt_clock ?b (wseq ?w))"
    by (simp add: subscription_active_def sample_prompt_store_def sample_subscription_def MIDTRANS_BASIC_PLAN_CODE_def)
  have session: "latest_by es_id (filter (\<lambda>r. es_chat_id r = tg_chat ?m \<and> es_prompt_message_id r = 7)
      (telegram_engine_sessions (wdb ?w))) = Some sample_prompt_row"
    by (simp add: sample_prompt_store_def sample_prompt_row_def)
  have "\<exists>x w'. handle_callback_query ?b ?q ?w = (Inr x, w')"
    using active
    by (simp add: handle_callback_query_def handle_session_action_def parse ensure_active_subscription_for_callback_def
        clock_now_def has_active_subscription_def fetch_engine_session_by_prompt_message_def
        session [simplified] sample_prompt_row_def request_defs call_api_def io_run Let_def)
  then obtain x w' where run: "handle_callback_query ?b ?q ?w = (Inr x, w')" by blast
  from prompt_answered_once [OF run _ parse(1) _ _ active session]
  have "wdb w' = (wdb ?w)\<lparr>requests := requests (wdb ?w) @ [AnswerCallback ''q'' (Toast 6) False]\<rparr>"
    by (simp add: sample_prompt_row_def)
  with run show "requests (wdb (snd (handle_callback_query ?b ?q ?w))) = [AnswerCallback ''q'' (Toast 6) False]"
    by (simp add: sample_prompt_store_def)
qed

end
