(* ===== verification/Checkout.thy ===== *)
theory Checkout
  imports Handlers Distance
begin

text \<open>
  The payment button of the bot, from the quote of \<open>src/subscription_maintenance.rs\<close> over the pending
  row and the Snap transaction of \<open>src/midtrans.rs\<close> to the link in the chat: the amounts agree.
\<close>

lemma quote_sum:
  "build_subscription_payment_quote u plan t w = (Inr quote, w') \<Longrightarrow> wdb w' = wdb w
   \<and> qt_total_amount_idr quote = qt_base_amount_idr quote + qt_customer_reference_fee_idr quote
       + qt_shipment_fee_idr quote + qt_fine_amount_idr quote
   \<and> 0 \<le> qt_fine_amount_idr quote"
  unfolding build_subscription_payment_quote_def Let_def bind_ok
  using fine_bounds by (auto dest!: select_ok split: option.splits)

lemma throw_ok [simp]: "io_throw e w \<noteq> (Inr x, w')"
  by (simp add: io_throw_def)

lemma bound_device_ok:
  assumes "resolve_bound_device_for_user user w = (Inr d, w')"
  shows "wdb w' = wdb w \<and> ur_bound_imei user = Some (bd_imei d)"
proof (cases "ur_bound_imei user")
  case (Some imei)
  from assms obtain row w1 where 1: "db (select (\<lambda>s. lookup dv_imei imei (devices s))) w = (Inr row, w1)"
    and 2: "(case row of None \<Rightarrow> io_throw (BotMidtrans (InvalidPricingTier (''missing_bound_device_record:'' @ imei)))
          | Some d \<Rightarrow> io_return \<lparr>bd_id = dv_id d, bd_imei = dv_imei d\<rparr>) w1 = (Inr d, w')"
    unfolding resolve_bound_device_for_user_def Some option.case bind_ok by blast
  have "row = lookup dv_imei imei (devices (wdb w)) \<and> wdb w1 = wdb w" using 1 unfolding map_error_ok by (rule select_ok)
  with 2 Some lookup_SomeD [of dv_imei imei "devices (wdb w)"] show ?thesis by (auto split: option.splits)
qed (use assms in \<open>simp add: resolve_bound_device_for_user_def\<close>)

lemma plan_ok:
  assumes "resolve_subscription_plan_for_user mc user w = (Inr plan, w')"
  shows "wdb w' = wdb w"
proof -
  from assms obtain d w1 row w2 where 1: "resolve_bound_device_for_user user w = (Inr d, w1)"
    and 2: "db (select (\<lambda>s. map_option dv_pricing_tier (lookup dv_imei (bd_imei d) (devices s)))) w1 = (Inr row, w2)"
    and 3: "(case row of
       None \<Rightarrow> io_throw (BotMidtrans (InvalidPricingTier (''missing_device_pricing_tier:'' @ bd_imei d)))
     | Some pricing_tier \<Rightarrow>
         (case parse_pricing_tier pricing_tier of
            Inl e \<Rightarrow> io_throw (BotMidtrans e)
          | Inr tier \<Rightarrow> io_return (subscription_plan_for_tier mc tier))) w2 = (Inr plan, w')"
    unfolding resolve_subscription_plan_for_user_def bind_ok by blast
  have "wdb w2 = wdb w1" using 2 unfolding map_error_ok by (blast dest: select_ok)
  with 3 bound_device_ok [OF 1] show ?thesis by (auto split: option.splits sum.splits)
qed

lemma bound_check_ok:
  "ensure_bound_for_payment q u w = (Inr True, w') \<Longrightarrow> wdb w' = wdb w"
  unfolding ensure_bound_for_payment_def
  by (auto simp: bind_ok map_error_ok Let_def fetch_telegram_user_by_user_id_def dest!: select_ok)

lemma create_pending_ok:
  assumes "create_pending_midtrans_payment u c d imei plan_code order g t w = (Inr i, w')"
  shows "wdb w' = (wdb w)\<lparr>telegram_payment_events := telegram_payment_events (wdb w) @
      [\<lparr>pm_id = i, pm_telegram_user_id = u, pm_chat_id = c, pm_device_id = Some d, pm_imei = Some imei,
        pm_subscription_id = None, pm_payment_status = ''pending'', pm_plan_code = plan_code,
        pm_gross_amount_idr = g, pm_period_days = MIDTRANS_PERIOD_DAYS, pm_provider_order_id = order,
        pm_provider_transaction_id = None, pm_payment_type = None, pm_payment_url = None,
        pm_expires_at = Some t, pm_paid_at = None\<rparr>]\<rparr>
    \<and> (\<forall>p \<in> set (telegram_payment_events (wdb w)). pm_provider_order_id p \<noteq> order)"
  using query_ok [OF assms [unfolded create_pending_midtrans_payment_def]]
  by (auto split: if_splits)

lemma mark_created_ok:
  assumes "mark_midtrans_payment_created order created w = (Inr x, w')"
  shows "wdb w' = (wdb w)\<lparr>telegram_payment_events := update_where (\<lambda>p. pm_provider_order_id p = order)
     (\<lambda>p. p\<lparr>pm_provider_transaction_id := cp_transaction_id created, pm_payment_type := cp_payment_type created,
            pm_payment_url := Some (cp_payment_url created)\<rparr>) (telegram_payment_events (wdb w))\<rparr>"
  using query_ok [OF assms [unfolded mark_midtrans_payment_created_def]] by (auto split: if_splits)

lemma payment_link_ok:
  assumes "create_payment_link b mc plan order t quote w = (Inr created, w')"
  shows "wdb w' = (wdb w)\<lparr>requests := requests (wdb w) @ [SnapTransaction (snap_request_for mc plan order t
      (qt_base_amount_idr quote + qt_customer_reference_fee_idr quote) (qt_shipment_fee_idr quote)
      (qt_total_amount_idr quote) (qt_fine_amount_idr quote))]\<rparr>
    \<and> cp_expires_at created = t + mc_expiry_hours mc * 3600 * SECOND"
  using assms unfolding create_payment_link_def Let_def
  by (auto simp: bind_ok operation_def Let_def io_throw_def create_snap_transaction_def
      split: sum.splits if_splits snap_reply.splits)

text \<open>
  What has been asked for: \<open>p\<close> is the new row, and the requests are those of this payment.
\<close>

definition payment_requested ::
  "bot_store \<Rightarrow> bot_store \<Rightarrow> telegram_callback_query \<Rightarrow> telegram_message \<Rightarrow> midtrans_client \<Rightarrow> payment_row \<Rightarrow> bool" where
  "payment_requested s s' q m mc p \<longleftrightarrow> (\<exists>plan base shipment fine url expires cs.
     pm_payment_status p = ''pending'' \<and> pm_telegram_user_id p = cq_from q \<and> pm_chat_id p = tg_chat m
     \<and> pm_plan_code p = pl_plan_code plan \<and> pm_payment_url p = Some url \<and> pm_expires_at p = Some expires
     \<and> pm_gross_amount_idr p = base + shipment + fine
     \<and> (0 \<le> shipment \<longrightarrow> sum_list (map (\<lambda>i. it_price i * it_quantity i) (snap_items plan base shipment fine))
          = pm_gross_amount_idr p)
     \<and> s' = s\<lparr>telegram_payment_events := telegram_payment_events s @ [p],
         requests := requests s @
           SnapTransaction (snap_request_for mc plan (pm_provider_order_id p) (expires - mc_expiry_hours mc * 3600 * SECOND)
             base shipment (pm_gross_amount_idr p) fine)
           # AnswerCallback (cq_id q) NoText False
           # SendMessage (tg_chat m) (PaymentLink plan url expires base shipment fine (pm_gross_amount_idr p)) None (Some ''HTML'')
           # cs\<rparr>
     \<and> set cs \<subseteq> {EditReplyMarkup (tg_chat m) (case tg_message_id m of Some i \<Rightarrow> i | None \<Rightarrow> 0) None})"

lemma checkout_ok:
  assumes "checkout b q m mc user w = (Inr x, w')"
  shows "\<exists>p. payment_requested (wdb w) (wdb w') q m mc p
    \<and> (\<forall>r \<in> set (telegram_payment_events (wdb w)). pm_provider_order_id r \<noteq> pm_provider_order_id p)"
proof -
  let ?i = "case tg_message_id m of Some i \<Rightarrow> i | None \<Rightarrow> 0"
  from assms obtain d plan t quote created w1 w2 w3 w4 i w5 w6 x7 w7 x8 w8 x9 w9 where
    1: "resolve_bound_device_for_user user w = (Inr d, w1)"
    and 2: "resolve_subscription_plan_for_user mc user w1 = (Inr plan, w2)"
    and 3: "clock_now b w2 = (Inr t, w3)"
    and 4: "db (build_subscription_payment_quote (cq_from q) plan t) w3 = (Inr quote, w4)"
    and 5: "db (create_pending_midtrans_payment (cq_from q) (tg_chat m) (bd_id d) (bd_imei d) (pl_plan_code plan)
       (build_midtrans_order_id (cq_from q) t) (qt_total_amount_idr quote) (t + mc_expiry_hours mc * 3600 * SECOND)) w4 = (Inr i, w5)"
    and 6: "create_payment_link b mc plan (build_midtrans_order_id (cq_from q) t) t quote w5 = (Inr created, w6)"
    and 7: "db (mark_midtrans_payment_created (build_midtrans_order_id (cq_from q) t) created) w6 = (Inr x7, w7)"
    and 8: "answer_callback_query (cq_id q) NoText False w7 = (Inr x8, w8)"
    and 9: "send_message_html b (tg_chat m) (PaymentLink plan (cp_payment_url created) (cp_expires_at created)
       (qt_base_amount_idr quote + qt_customer_reference_fee_idr quote) (qt_shipment_fee_idr quote)
       (qt_fine_amount_idr quote) (qt_total_amount_idr quote)) w8 = (Inr x9, w9)"
    and 10: "io_warn (clear_inline_keyboard (tg_chat m) ?i) w9 = (Inr x, w')"
    unfolding checkout_def Let_def bind_ok by blast
  let ?order = "build_midtrans_order_id (cq_from q) t"
  have w3: "wdb w3 = wdb w2" using 3 by (simp add: clock_now_def)
  note quote = quote_sum [OF 4 [unfolded map_error_ok]] and created = payment_link_ok [OF 6]
  have w4: "wdb w4 = wdb w" using quote w3 plan_ok [OF 2] bound_device_ok [OF 1] by simp
  note pending = create_pending_ok [OF 5 [unfolded map_error_ok], unfolded w4]
  have w8: "wdb w8 = (wdb w7)\<lparr>requests := requests (wdb w7) @ [AnswerCallback (cq_id q) NoText False]\<rparr>"
    using 8 unfolding answer_callback_query_def by (rule call_unit_ok)
  note w9 = send_internal_ok [OF 9 [unfolded send_message_html_def]]
  have "sends {EditReplyMarkup (tg_chat m) ?i None} (clear_inline_keyboard (tg_chat m) ?i)"
    unfolding request_defs by (intro send_intros) simp
  from warn_ok [OF this 10] obtain cs where cs: "set cs \<subseteq> {EditReplyMarkup (tg_chat m) ?i None}"
    "wdb w' = (wdb w9)\<lparr>requests := requests (wdb w9) @ cs\<rparr>" by blast
  have others: "update_where (\<lambda>p. pm_provider_order_id p = ?order) f (telegram_payment_events (wdb w)) = telegram_payment_events (wdb w)" for f
    using pending by (auto simp: update_where_def intro: map_idI)
  define p where "p = \<lparr>pm_id = i, pm_telegram_user_id = cq_from q, pm_chat_id = tg_chat m, pm_device_id = Some (bd_id d),
      pm_imei = Some (bd_imei d), pm_subscription_id = None, pm_payment_status = ''pending'',
      pm_plan_code = pl_plan_code plan, pm_gross_amount_idr = qt_total_amount_idr quote,
      pm_period_days = MIDTRANS_PERIOD_DAYS, pm_provider_order_id = ?order,
      pm_provider_transaction_id = cp_transaction_id created, pm_payment_type = cp_payment_type created,
      pm_payment_url = Some (cp_payment_url created), pm_expires_at = Some (t + mc_expiry_hours mc * 3600 * SECOND),
      pm_paid_at = None\<rparr>"
  have w7: "wdb w7 = (wdb w)\<lparr>telegram_payment_events := telegram_payment_events (wdb w) @ [p],
      requests := requests (wdb w) @ [SnapTransaction (snap_request_for mc plan ?order t
        (qt_base_amount_idr quote + qt_customer_reference_fee_idr quote) (qt_shipment_fee_idr quote)
        (qt_total_amount_idr quote) (qt_fine_amount_idr quote))]\<rparr>"
    using mark_created_ok [OF 7 [unfolded map_error_ok]] created pending others
    by (simp add: p_def update_where_def)
  have "wdb w' = (wdb w)\<lparr>telegram_payment_events := telegram_payment_events (wdb w) @ [p],
      requests := requests (wdb w) @ SnapTransaction (snap_request_for mc plan ?order t
        (qt_base_amount_idr quote + qt_customer_reference_fee_idr quote) (qt_shipment_fee_idr quote)
        (qt_total_amount_idr quote) (qt_fine_amount_idr quote)) # AnswerCallback (cq_id q) NoText False
      # SendMessage (tg_chat m) (PaymentLink plan (cp_payment_url created) (cp_expires_at created)
       (qt_base_amount_idr quote + qt_customer_reference_fee_idr quote) (qt_shipment_fee_idr quote)
       (qt_fine_amount_idr quote) (qt_total_amount_idr quote)) None (Some ''HTML'') # cs\<rparr>"
    using cs(2) w9 w8 w7 by simp
  with cs(1) created quote have "payment_requested (wdb w) (wdb w') q m mc p"
    unfolding payment_requested_def
    by (intro exI [of _ plan] exI [of _ "qt_base_amount_idr quote + qt_customer_reference_fee_idr quote"]
        exI [of _ "qt_shipment_fee_idr quote"] exI [of _ "qt_fine_amount_idr quote"]
        exI [of _ "cp_payment_url created"] exI [of _ "t + mc_expiry_hours mc * 3600 * SECOND"] exI [of _ cs])
       (simp add: p_def snap_items_total)
  with pending show ?thesis by (intro exI [of _ p]) (simp add: p_def)
qed

text \<open>
  C28. What a payment link asks for is what is recorded: when the payment button of a bound user
  succeeds, one pending payment has been added, with an order number that no other payment has, for the
  user, the chat and the bound device; its amount is the total of the quote, the gross amount of the
  Snap transaction, the sum of the transaction's items and the total in the message; and the link in
  the message is the one in the row. Nothing else is changed, and the subscription is not extended yet.
\<close>

theorem payment_link_matches_record:
  assumes run: "handle_payment_action b q Subscribe w = (Inr x, w')" and "cq_message q = Some m"
    and bound: "is_bound_user (wdb w) (cq_from q)"
  shows "\<exists>mc p. bt_midtrans b = Some mc \<and> payment_requested (wdb w) (wdb w') q m mc p
    \<and> (\<forall>r \<in> set (telegram_payment_events (wdb w)). pm_provider_order_id r \<noteq> pm_provider_order_id p)"
proof -
  let ?c = "tg_chat m" and ?u = "cq_from q"
  let ?i = "case tg_message_id m of Some i \<Rightarrow> i | None \<Rightarrow> 0"
  from run assms(2) obtain is_bound w1 where 1: "ensure_bound_for_payment (cq_id q) ?u w = (Inr is_bound, w1)"
    and 2: "(if \<not> is_bound then io_return ()
          else
            case bt_midtrans b of None \<Rightarrow> io_throw MissingMidtransConfig | Some midtrans \<Rightarrow>
            io_bind (db (fetch_telegram_user_by_user_id ?u)) (\<lambda>user.
            case user of
              None \<Rightarrow> io_throw (BotMidtrans (InvalidPricingTier ''missing_user''))
            | Some user \<Rightarrow> checkout b q m midtrans user)) w1 = (Inr x, w')"
    unfolding handle_payment_action_def by (auto simp: bind_ok)
  have is_bound: is_bound and w1: "wdb w1 = wdb w"
    using 1 bound unfolding ensure_bound_for_payment_def fetch_telegram_user_by_user_id_def Let_def bind_ok map_error_ok
    by (auto simp: is_bound_user_def split: option.splits dest!: select_ok)
  from 2 is_bound obtain mc where mc: "bt_midtrans b = Some mc" by (cases "bt_midtrans b") auto
  from 2 is_bound mc obtain user w2 where 3: "db (fetch_telegram_user_by_user_id ?u) w1 = (Inr (Some user), w2)"
    and 4: "checkout b q m mc user w2 = (Inr x, w')" by (auto simp: bind_ok split: option.splits)
  have w2: "wdb w2 = wdb w" using 3 w1 unfolding fetch_telegram_user_by_user_id_def map_error_ok by (auto dest: select_ok)
  show ?thesis using checkout_ok [OF 4, unfolded w2] mc by blast
qed

definition sample_client :: midtrans_client where
  "sample_client = \<lparr>mc_server_key = ''k'', mc_snap_base_url = ''u'', mc_basic_price_idr = 45000,
     mc_ojol_price_idr = 35000, mc_expiry_hours = 24\<rparr>"

definition sample_checkout_store :: bot_store where
  "sample_checkout_store = store.extend (empty_store\<lparr>devices := [sample_device ''1''],
     telegram_users := [sample_user]\<rparr>) \<lparr>requests = []\<rparr>"

lemma sample_checkout_store_fields [simp]:
  "devices sample_checkout_store = [sample_device ''1'']"
  "telegram_users sample_checkout_store = [sample_user]" "telegram_subscriptions sample_checkout_store = []"
  "telegram_payment_events sample_checkout_store = []" "requests sample_checkout_store = []"
  by (simp_all add: sample_checkout_store_def empty_store_def store.defs)

lemma payment_link_matches_record_witness:
  "\<forall>b. \<exists>p. telegram_payment_events (wdb (snd (handle_payment_action
        (b\<lparr>bt_midtrans := Some sample_client, bt_snap := \<lambda>_. SnapResponse ''t'' ''u'' ''r''\<rparr>)
        \<lparr>cq_id = ''q'', cq_from = 10, cq_data = None,
         cq_message = Some \<lparr>tg_chat = 20, tg_from = None, tg_text = None, tg_message_id = None\<rparr>\<rparr> Subscribe
        \<lparr>wdb = sample_checkout_store, wseq = 3, wsched = []\<rparr>))) = [p] \<and> pm_payment_url p \<noteq> None"
proof
  fix b :: bot
  let ?b = "b\<lparr>bt_midtrans := Some sample_client, bt_snap := \<lambda>_. SnapResponse ''t'' ''u'' ''r''\<rparr>"
  let ?m = "\<lparr>tg_chat = 20, tg_from = None, tg_text = None, tg_message_id = None\<rparr>"
  let ?q = "\<lparr>cq_id = ''q'', cq_from = 10, cq_data = None, cq_message = Some ?m\<rparr>"
  let ?w = "\<lparr>wdb = sample_checkout_store, wseq = 3, wsched = []\<rparr>"
  have bound: "is_bound_user (wdb ?w) (cq_from ?q)"
    by (simp add: is_bound_user_def sample_user_def lookup_Cons user_record_of_def parse_registration_status_def)
  have "\<not> 45000 + fine_amount_for_overdue_days 0 \<le> 0" using fine_bounds [of 0] by linarith
  then have "\<exists>x w'. handle_payment_action ?b ?q Subscribe ?w = (Inr x, w')"
    by (simp add: handle_payment_action_def ensure_bound_for_payment_def fetch_telegram_user_by_user_id_def
        checkout_def resolve_bound_device_for_user_def resolve_subscription_plan_for_user_def
        build_subscription_payment_quote_def create_pending_midtrans_payment_def create_payment_link_def
        create_snap_transaction_def mark_midtrans_payment_created_def transaction_id_taken_def
        sample_user_def sample_client_def sample_device_def lookup_Cons user_record_of_def
        parse_registration_status_def parse_pricing_tier_def parse_tier_def is_blank_def
        clock_now_def request_defs call_api_def io_warn_def io_run Let_def)
  then obtain x w' where run: "handle_payment_action ?b ?q Subscribe ?w = (Inr x, w')" by blast
  from payment_link_matches_record [OF run _ bound] obtain p where
    "telegram_payment_events (wdb w') = [p]" "pm_payment_url p \<noteq> None"
    by (auto simp: payment_requested_def)
  with run show "\<exists>p. telegram_payment_events (wdb (snd (handle_payment_action ?b ?q Subscribe ?w))) = [p]
      \<and> pm_payment_url p \<noteq> None" by (intro exI [of _ p]) simp
qed

end
