(* ===== verification/Agreement.thy ===== *)
theory Agreement
  imports Reports Fuel Bot Polling
begin

text \<open>
  The app and the bot tell a rider the same: the daily summary of \<open>src/api.rs\<close> and the metrics report of
  \<open>src/bot.rs\<close> are two loops over the sessions of a device, with their own queries and their own code.
\<close>

section \<open>The two loops\<close>

definition analytics_session_of :: "session_row \<Rightarrow> analytics_session" where
  "analytics_session_of e = \<lparr>as_id = es_id e, as_session_status = es_session_status e,
     as_created_at = es_created_at e, as_resolved_at = es_resolved_at e\<rparr>"

lemma calm_select: "select f (calm s n) = (Inr (f s), calm s (n + 1))"
  by (simp add: select_def query_def operation_def)

lemma calm_ride:
  "fetch_ride_summary lm imei t u (calm s n)
   = (Inr (Some (ride_summary_of_rows lm (locations_between imei t u s))), calm s (n + 1))"
  by (simp add: fetch_ride_summary_def io_bind_def io_return_def calm_select)

text \<open>From the same totals, over the same sessions, both loops come to the same totals.\<close>

lemma loops_agree:
  "\<exists>total' k l. add_rides lm imei a b rows totals (calm s m) = (Inr total', calm s k)
     \<and> sum_summaries lm imei a b (map analytics_session_of rows) totals (calm s n) = (Inr total', calm s l)"
proof (induction rows arbitrary: totals m n)
  case Nil
  show ?case by (cases totals) (simp add: io_return_def)
next
  case (Cons row rows)
  obtain d t where totals: "totals = (d, t)" by force
  show ?case
    using Cons.IH [of totals m n]
      Cons.IH [of "(fadd d (rs_total_distance_km r), t + rs_riding_seconds r)" "m + 1" "n + 1" for r]
    by (auto simp: totals clipped_def analytics_session_of_def Let_def io_bind_def io_map_error_def calm_ride)
qed

lemma sessions_agree:
  assumes "\<forall>e \<in> set (telegram_engine_sessions s). es_imei e = imei \<longrightarrow> es_chat_id e = chat_id"
  shows "fetch_analytics_sessions imei chat_id a b now (calm s n)
    = (Inr (map analytics_session_of (sessions_of_day imei a b now s)), calm s (n + 1))"
proof -
  have "filter (\<lambda>e. es_imei e = imei \<and> es_chat_id e = chat_id \<and> es_created_at e < b
          \<and> a < (case es_resolved_at e of Some t \<Rightarrow> t | None \<Rightarrow> now)) (telegram_engine_sessions s)
      = filter (\<lambda>e. es_imei e = imei \<and> es_created_at e < b
          \<and> a < (case es_resolved_at e of Some t \<Rightarrow> t | None \<Rightarrow> now)) (telegram_engine_sessions s)"
    using assms by (auto intro: filter_cong)
  then show ?thesis
    by (simp add: fetch_analytics_sessions_def calm_select sessions_of_day_def analytics_session_of_def)
qed

text \<open>
  C34. The app and the bot agree: for a device whose sessions were all recorded for one chat, the daily
  summary that the HTTP API computes for a day has the distance, the riding time and the average speed of
  the metrics report that the bot sends that chat for the range of this day at the same time, on the same
  database; both are computed whenever no query fails.
\<close>

theorem daily_summary_is_metrics_report:
  fixes s :: bot_store
  assumes "wib_day_bounds (ap_parse_date a) requested = Inr (date, day_start, day_end)"
    and "ar_started_at dates = day_start" and "ar_ended_at dates = day_end"
    and "bt_libm b = ap_libm a"
    and "\<forall>e \<in> set (telegram_engine_sessions s). es_imei e = imei \<longrightarrow> es_chat_id e = chat_id"
  shows "\<exists>d r k l. get_device_daily_summary a imei requested (calm s m) = (Inr d, calm s k)
    \<and> analytics_report_text b chat_id imei Metrics dates (ap_clock a m) (calm s n) = (Inr (MetricsReport dates r), calm s l)
    \<and> dy_date d = date \<and> dy_total_distance_km d = rs_total_distance_km r
    \<and> dy_riding_seconds d = rs_riding_seconds r \<and> dy_average_speed_kph d = rs_average_speed_kph r"
proof -
  let ?now = "ap_clock a m"
  let ?rows = "sessions_of_day imei day_start day_end ?now s"
  obtain total k l where
    add: "add_rides (ap_libm a) imei day_start (min day_end ?now) ?rows (Fin 0, 0) (calm s (m + 1 + 1)) = (Inr total, calm s k)"
    and sum: "sum_summaries (ap_libm a) imei day_start (min day_end ?now) (map analytics_session_of ?rows) (Fin 0, 0)
        (calm s (n + 1)) = (Inr total, calm s l)"
    using loops_agree by blast
  from add assms(1) have "\<exists>d. get_device_daily_summary a imei requested (calm s m) = (Inr d, calm s k)
      \<and> dy_date d = date \<and> dy_total_distance_km d = fst total \<and> dy_riding_seconds d = snd total
      \<and> dy_average_speed_kph d = rs_average_speed_kph (summary_of (fst total) (snd total))"
    by (cases total) (simp add: get_device_daily_summary_def api_result_def io_bind_def io_return_def api_now_def
        io_map_error_def calm_select Let_def summary_of_def)
  moreover from sum have "analytics_report_text b chat_id imei Metrics dates ?now (calm s n)
      = (Inr (MetricsReport dates (summary_of (fst total) (snd total))), calm s l)"
    by (simp add: analytics_report_text_def sessions_agree [OF assms(5)] io_bind_def io_map_error_def io_return_def
        fetch_analytics_ride_summary_def Let_def assms(2-4) min.commute)
  moreover have "rs_total_distance_km (summary_of (fst total) (snd total)) = fst total"
    by (simp add: summary_of_def Let_def)
  ultimately show ?thesis by auto
qed

definition sample_ride :: session_row where
  "sample_ride = \<lparr>es_id = 2, es_imei = ''1'', es_chat_id = 20, es_trigger_heartbeat_id = 1,
     es_prompt_message_id = 7, es_ride_status_message_id = None, es_session_status = ''finished'',
     es_created_at = 0, es_resolved_at = Some (600 * SECOND)\<rparr>"

lemma daily_summary_is_metrics_report_witness:
  "\<forall>b. \<exists>d r w w'. get_device_daily_summary sample_api ''1'' ''1970-01-01''
         (calm (sample_bot_store\<lparr>telegram_engine_sessions := [sample_ride]\<rparr>) 0) = (Inr d, w)
     \<and> analytics_report_text (b\<lparr>bt_libm := sample_libm\<rparr>) 20 ''1'' Metrics
         \<lparr>ar_label = ''Hari ini'', ar_started_at = - (7 * 3600 * SECOND), ar_ended_at = DAY - 7 * 3600 * SECOND\<rparr>
         (10 * SECOND) (calm (sample_bot_store\<lparr>telegram_engine_sessions := [sample_ride]\<rparr>) 0)
       = (Inr (MetricsReport \<lparr>ar_label = ''Hari ini'', ar_started_at = - (7 * 3600 * SECOND),
                ar_ended_at = DAY - 7 * 3600 * SECOND\<rparr> r), w')
     \<and> dy_riding_seconds d = rs_riding_seconds r"
proof
  fix b :: bot
  let ?dates = "\<lparr>ar_label = ''Hari ini'', ar_started_at = - (7 * 3600 * SECOND), ar_ended_at = DAY - 7 * 3600 * SECOND\<rparr>"
  let ?s = "sample_bot_store\<lparr>telegram_engine_sessions := [sample_ride]\<rparr>"
  have "wib_day_bounds (ap_parse_date sample_api) ''1970-01-01''
      = Inr (0, - (7 * 3600 * SECOND), DAY - 7 * 3600 * SECOND)"
    by (simp add: wib_day_bounds_def sample_api_def and_hms_opt_def NAIVE_DATE_MIN_def Let_def
        days_before_year_def WIB_OFFSET_SECONDS_def)
  from daily_summary_is_metrics_report [OF this, of ?dates "b\<lparr>bt_libm := sample_libm\<rparr>" ?s "''1''" 20 0 0]
  show "\<exists>d r w w'. get_device_daily_summary sample_api ''1'' ''1970-01-01'' (calm ?s 0) = (Inr d, w)
     \<and> analytics_report_text (b\<lparr>bt_libm := sample_libm\<rparr>) 20 ''1'' Metrics ?dates (10 * SECOND) (calm ?s 0)
       = (Inr (MetricsReport ?dates r), w') \<and> dy_riding_seconds d = rs_riding_seconds r"
    by (simp add: sample_api_def sample_ride_def) blast
qed

end
