(* ===== verification/Texts.thy ===== *)
theory Texts
  imports Prelude
begin

text \<open>
  The fixed texts of \<open>src/telegram_messages.rs\<close>, as the bytes of their UTF-8 encoding: the Telegram messages,
  the toasts that answer a button and the file names of the stickers.
\<close>

section \<open>Characters that are not ASCII\<close>

abbreviation NL :: string where "NL \<equiv> [CHR 0x0A]"
definition SIREN :: string where "SIREN = [CHR 0xF0, CHR 0x9F, CHR 0x9A, CHR 0xA8]"
definition WARNING :: string where "WARNING = [CHR 0xE2, CHR 0x9A, CHR 0xA0, CHR 0xEF, CHR 0xB8, CHR 0x8F]"
definition PIN :: string where "PIN = [CHR 0xF0, CHR 0x9F, CHR 0x93, CHR 0x8D]"
definition EM_DASH :: string where "EM_DASH = [CHR 0xE2, CHR 0x80, CHR 0x94]"
definition MOTORCYCLE :: string where "MOTORCYCLE = [CHR 0xF0, CHR 0x9F, CHR 0x8F, CHR 0x8D, CHR 0xEF, CHR 0xB8, CHR 0x8F]"
definition STOPWATCH :: string where "STOPWATCH = [CHR 0xE2, CHR 0x8F, CHR 0xB1, CHR 0xEF, CHR 0xB8, CHR 0x8F]"
definition BOLT :: string where "BOLT = [CHR 0xE2, CHR 0x9A, CHR 0xA1]"
definition ARROW :: string where "ARROW = [CHR 0xE2, CHR 0x86, CHR 0x92]"
definition MAP_SYMBOL :: string where "MAP_SYMBOL = [CHR 0xF0, CHR 0x9F, CHR 0x97, CHR 0xBA, CHR 0xEF, CHR 0xB8, CHR 0x8F]"
definition BULLET :: string where "BULLET = [CHR 0xE2, CHR 0x80, CHR 0xA2]"
definition ROAD :: string where "ROAD = [CHR 0xF0, CHR 0x9F, CHR 0x9B, CHR 0xA3, CHR 0xEF, CHR 0xB8, CHR 0x8F]"

section \<open>The texts\<close>

definition MSG_1_BIND_INVALID_IMEI :: string where
  "MSG_1_BIND_INVALID_IMEI =
    ''IMEI harus 15 digit angka. Coba kirim ulang IMEI yang benar ya.''"

definition MSG_2_BIND_ALREADY_BOUND :: string where
  "MSG_2_BIND_ALREADY_BOUND =
    ''Akun Telegram ini sudah terhubung ke perangkat.''"

definition MSG_3_BIND_DEVICE_NOT_FOUND :: string where
  "MSG_3_BIND_DEVICE_NOT_FOUND =
    ''IMEI ini belum terdaftar di sistem. Cek lagi IMEI-nya lalu coba ulang.''"

definition MSG_4_BIND_DEVICE_ALREADY_TAKEN :: string where
  "MSG_4_BIND_DEVICE_ALREADY_TAKEN =
    ''Perangkat itu sudah terhubung ke akun Telegram lain.''"

definition MSG_6_NOT_BOUND_USE_START :: string where
  "MSG_6_NOT_BOUND_USE_START =
    ''Akun Telegram ini belum terhubung ke perangkat. Mulai dari /start '' @ ''dulu ya.''"

definition MSG_7_ANALYTICS_INVALID_DATE :: string where
  "MSG_7_ANALYTICS_INVALID_DATE =
    ''Format tanggal belum benar. Kirim seperti ini ya:'' @ NL @ ''2026-05-16''"

definition MSG_8_ANALYTICS_INVALID_RANGE :: string where
  "MSG_8_ANALYTICS_INVALID_RANGE =
    ''Format rentang tanggal belum benar. Kirim seperti ini ya:'' @ NL @ ''2026-05-16 to 2026-05-16''"

definition MSG_9_START_BIND_PROMPT :: string where
  "MSG_9_START_BIND_PROMPT =
    ''Halo. Kirim IMEI perangkat kamu dulu ya supaya akun Telegram ini bisa '' @ ''terhubung.''"

definition MSG_10_HELP :: string where
  "MSG_10_HELP =
    ''Pantau motor kamu real-time, dapat info motor nyala/mati, dan lihat '' @ ''riwayat perjalanan.'' @ NL
    @ NL @ ''/start - Buka menu utama bot'' @ NL @ ''/help - Lihat bantuan ini'' @ NL
    @ ''/paysupport - Kontak bantuan pembayaran'' @ NL @ ''/terms - Lihat ketentuan langganan Heartbeats''"

definition MSG_11_PAY_SUPPORT :: string where
  "MSG_11_PAY_SUPPORT =
    ''Kalau ada pertanyaan, hubungi @jojojows''"

definition MSG_12_TERMS :: string where
  "MSG_12_TERMS =
    ''Heartbeats adalah layanan pemantauan kendaraan online. Kami ''
    @ ''menyediakan GPS tracking dengan fitur lengkap lewat sistem langganan ''
    @ ''bulanan. Kami yang mengelola platform GPS, server, pemakaian data ''
    @ ''internet, dan aplikasi Heartbeats.'' @ NL @ NL @ ''Langganan bulanan sudah termasuk:'' @ NL
    @ ''- Tracking motor real-time'' @ NL @ ''- Notifikasi instan saat mesin ON/OFF'' @ NL
    @ ''- Analitik perjalanan (jarak, kecepatan, durasi berkendara, dan '' @ ''visualisasi rute)'' @ NL
    @ ''- Fitur lain menyusul'' @ NL @ NL @ ''Kebijakan pembayaran langganan:'' @ NL
    @ ''Langganan harus diperpanjang maksimal 7 hari setelah masa aktif 30 '' @ ''hari berakhir.'' @ NL
    @ ''Kalau telat bayar, akan ada denda Rp 1.000 per hari sampai pembayaran '' @ ''dilakukan.'' @ NL @ NL
    @ ''Kebijakan perangkat GPS:'' @ NL @ ''Perangkat GPS adalah unit pinjaman.'' @ NL
    @ ''Kalau berhenti menggunakan Heartbeats, perangkat wajib dikembalikan.'' @ NL
    @ ''Untuk pengembalian, silakan hubungi kami lewat /paysupport.'' @ NL @ NL
    @ ''Catatan keamanan perangkat:'' @ NL
    @ ''Heartbeats bisa melacak posisi perangkat GPS secara real-time.'' @ NL
    @ ''Jangan mencoba mencuri, merusak, atau menahan perangkat tanpa izin.''"

definition MSG_14_START_STATUS :: string where
  "MSG_14_START_STATUS =
    ''Selamat datang di @tryheartbeatsbot'' @ NL @ NL @ ''Ketik /help kalau mau lihat info lengkapnya.''"

definition MSG_15_SUBSCRIPTION_MENU :: string where
  "MSG_15_SUBSCRIPTION_MENU =
    ''Aktifkan langganan Heartbeats biar kamu bisa pantau motor real-time '' @ ''kapan saja.''"

definition MSG_19_INACTIVE_SUB_ENGINE_ON :: string where
  "MSG_19_INACTIVE_SUB_ENGINE_ON =
    ''Motor Dinyalakan'' @ NL @ NL
    @ ''Perpanjang langganan dulu ya supaya bisa akses live tracking, status ''
    @ ''motor, riwayat perjalanan, dan alert pencurian.''"

definition MSG_20_INACTIVE_SUB_ENGINE_OFF :: string where
  "MSG_20_INACTIVE_SUB_ENGINE_OFF =
    ''Motor Dimatikan'' @ NL @ NL
    @ ''Perpanjang langganan dulu ya supaya bisa akses live tracking, status ''
    @ ''motor, riwayat perjalanan, dan alert pencurian.''"

definition MSG_21_INACTIVE_SUB_FALLBACK :: string where
  "MSG_21_INACTIVE_SUB_FALLBACK =
    ''Ada aktivitas dari motor.'' @ NL @ NL
    @ ''Perpanjang langganan dulu ya supaya bisa akses live tracking, status ''
    @ ''motor, riwayat perjalanan, dan alert pencurian.''"

definition MSG_22_ENGINE_ON_CONFIRMATION :: string where
  "MSG_22_ENGINE_ON_CONFIRMATION =
    SIREN @ '' Engine ON Terdeteksi'' @ NL @ NL @ ''Motor Anda baru saja dinyalakan.'' @ NL
    @ ''Apakah ini Anda?''"

definition MSG_23_RIDE_SAFE :: string where
  "MSG_23_RIDE_SAFE =
    ''Hati-hati di jalan ya, kami tetap pantau motor kamu di background.''"

definition MSG_24_SESSION_FINISHED :: string where
  "MSG_24_SESSION_FINISHED =
    ''Sesi perjalanan selesai.''"

definition MSG_25_THEFT_WARNING :: string where
  "MSG_25_THEFT_WARNING =
    SIREN @ '' INDIKASI PENCURIAN'' @ NL @ NL @ ''Motor ini dinyalakan bukan oleh Anda. '' @ WARNING
    @ '' Gerak cepat ya, beberapa menit pertama itu penting banget kalau '' @ ''kejadian pencurian.'' @ NL
    @ NL @ ''Tap tombol di bawah untuk mulai live tracking.''"

definition MSG_26_THEFT_LOCATION_MISSING :: string where
  "MSG_26_THEFT_LOCATION_MISSING =
    ''Lokasi Terakhir'' @ NL @ ''Lokasi terakhir belum tersedia.''"

definition MSG_28_STREAM_LOCATION_LINK_MISSING :: string where
  "MSG_28_STREAM_LOCATION_LINK_MISSING =
    ''Link live tracking belum tersedia.''"

definition MSG_29_CONTACT_SUPPORT :: string where
  "MSG_29_CONTACT_SUPPORT =
    ''1. Hubungi Call Center 110'' @ NL @ [CHR 0x27]
    @ ''Halo Polisi, saya ingin melaporkan pencurian motor yang baru saja ''
    @ ''terjadi. Posisi pelaku sedang terpantau di GPS saya. Mohon bantuan '' @ ''untuk pengejaran.''
    @ [CHR 0x27] @ NL @ NL @ ''2. Datangi SPKT Polsek/Polres'' @ NL
    @ ''Langsung ke bagian SPKT (Sentra Pelayanan Kepolisian Terpadu). ''
    @ ''Tunjukkan aplikasi GPS yang sedang live kepada petugas. Polisi akan ''
    @ ''langsung berkoordinasi dengan tim Buser/Resmob untuk bergerak ke '' @ ''titik tersebut.'' @ NL @ NL
    @ ''3. Bawa Bukti Kepemilikan'' @ NL
    @ ''Siapkan STNK/BPKB (asli atau foto) dan KTP. Polisi butuh ini untuk ''
    @ ''memastikan itu benar motor Anda sebelum mereka melakukan penindakan '' @ ''atau penangkapan.'' @ NL
    @ NL @ ''4. Minta Pendampingan Unit Lapangan'' @ NL
    @ ''Setelah melapor, minta izin untuk mendampingi petugas (di mobil ''
    @ ''patroli) atau memberikan akses akun GPS Anda kepada petugas agar ''
    @ ''mereka bisa mengejar target secara akurat.'' @ NL @ NL
    @ ''PENTING: Jangan mendatangi lokasi GPS sendirian. Biarkan polisi yang ''
    @ ''melakukan tindakan penggerebekan demi keselamatan Anda.''"

definition MSG_31_RIDE_SUMMARY_HISTORY_LINK_MISSING :: string where
  "MSG_31_RIDE_SUMMARY_HISTORY_LINK_MISSING =
    ''Link riwayat rute belum tersedia.''"

definition MSG_32_RIDE_SUMMARY_MAP_LINK_MISSING :: string where
  "MSG_32_RIDE_SUMMARY_MAP_LINK_MISSING =
    ''Link lokasi terakhir belum tersedia.''"

definition MSG_33_STATUS_LOCATION_MISSING :: string where
  "MSG_33_STATUS_LOCATION_MISSING =
    ''Lokasi belum tersedia.''"

definition MSG_34_STATUS_UNKNOWN :: string where
  "MSG_34_STATUS_UNKNOWN =
    ''TIDAK DIKETAHUI''"

definition MSG_35_STATUS_SIGNAL_UNKNOWN :: string where
  "MSG_35_STATUS_SIGNAL_UNKNOWN =
    ''Tidak diketahui''"

definition MSG_36_ANALYTICS_PICK_RANGE_PREFIX :: string where
  "MSG_36_ANALYTICS_PICK_RANGE_PREFIX =
    ''Pilih rentang untuk''"

definition MSG_37_ANALYTICS_CUSTOM_DATE_PROMPT :: string where
  "MSG_37_ANALYTICS_CUSTOM_DATE_PROMPT =
    ''Kirim tanggal custom dalam WIB:'' @ NL @ ''YYYY-MM-DD'' @ NL @ NL @ ''Contoh:'' @ NL @ ''2026-05-16''"

definition MSG_38_ANALYTICS_CUSTOM_RANGE_PROMPT :: string where
  "MSG_38_ANALYTICS_CUSTOM_RANGE_PROMPT =
    ''Kirim rentang tanggal custom dalam WIB:'' @ NL @ ''YYYY-MM-DD to YYYY-MM-DD'' @ NL @ NL @ ''Contoh:''
    @ NL @ ''2026-05-16 to 2026-05-16''"

definition MSG_39_ANALYTICS_SESSIONS_MONTH_UNSUPPORTED :: string where
  "MSG_39_ANALYTICS_SESSIONS_MONTH_UNSUPPORTED =
    ''History Perjalanan saat ini cuma bisa dibuka per 1 tanggal.''"

definition MSG_43_PLAN_LABEL_BASIC :: string where
  "MSG_43_PLAN_LABEL_BASIC =
    ''Heartbeats Basic''"

definition MSG_44_PLAN_LABEL_OJOL :: string where
  "MSG_44_PLAN_LABEL_OJOL =
    ''Heartbeats Ojol''"

definition MSG_46_PAYMENT_SUCCESS :: string where
  "MSG_46_PAYMENT_SUCCESS =
    ''Pembayaran Berhasil'' @ NL @ NL @ ''Akses Heartbeats kamu sudah aktif sampai {active_until}.'' @ NL
    @ NL @ ''Sekarang kamu sudah bisa mulai pantau motor kamu.'' @ NL
    @ ''Ketik /start untuk mulai atau /help kalau mau lihat fiturnya.''"

definition MSG_47_SUBSCRIPTION_PRE_EXPIRY_REMINDER :: string where
  "MSG_47_SUBSCRIPTION_PRE_EXPIRY_REMINDER =
    ''Langganan Heartbeats kamu akan segera habis.'' @ NL @ NL
    @ ''Perpanjang dulu sebelum masa aktifnya berakhir ya.'' @ NL
    @ ''Kalau telat perpanjang, ada denda Rp 1.000 per hari.''"

definition MSG_50_SUBSCRIPTION_EXPIRY_DAY_REMINDER :: string where
  "MSG_50_SUBSCRIPTION_EXPIRY_DAY_REMINDER =
    ''Langganan Heartbeats kamu berakhir hari ini.'' @ NL @ NL
    @ ''Perpanjang sekarang supaya akses pemantauan motor tidak terputus.'' @ NL
    @ ''Mulai besok, keterlambatan dikenakan denda Rp 1.000 per hari.''"

definition TOAST_1_OPEN_BOT_CHAT :: string where
  "TOAST_1_OPEN_BOT_CHAT =
    ''Buka chat bot-nya dulu lalu coba lagi ya.''"

definition TOAST_2_SUBSCRIPTION_REQUIRED :: string where
  "TOAST_2_SUBSCRIPTION_REQUIRED =
    ''Langganan aktif dibutuhkan.''"

definition TOAST_3_BIND_FIRST :: string where
  "TOAST_3_BIND_FIRST =
    ''Hubungkan perangkat dulu lewat /start ya.''"

definition TOAST_4_SESSION_NOT_FOUND :: string where
  "TOAST_4_SESSION_NOT_FOUND =
    ''Sesi tidak ditemukan atau sudah tidak aktif.''"

definition TOAST_5_SESSION_MISMATCH :: string where
  "TOAST_5_SESSION_MISMATCH =
    ''Sesi ini tidak cocok dengan pesan yang dipilih.''"

definition TOAST_6_SESSION_ALREADY_ENDED :: string where
  "TOAST_6_SESSION_ALREADY_ENDED =
    ''Sesi ini sudah selesai.''"

definition STICKER_1_ENGINE_ON_FILE_NAME :: string where
  "STICKER_1_ENGINE_ON_FILE_NAME =
    ''AnimatedSticker.tgs''"

definition STICKER_2_BIND_SUCCESS_FILE_NAME :: string where
  "STICKER_2_BIND_SUCCESS_FILE_NAME =
    ''AnimatedSticker - hi.tgs''"

definition STICKER_3_NOT_SUBSCRIBED_FILE_NAME :: string where
  "STICKER_3_NOT_SUBSCRIBED_FILE_NAME =
    ''AnimatedSticker - no.tgs''"

definition STICKER_4_THEFT_WARNING_FILE_NAME :: string where
  "STICKER_4_THEFT_WARNING_FILE_NAME =
    ''AnimatedSticker - not my motor.tgs''"

definition STICKER_5_PAYMENT_SUCCESS_FILE_NAME :: string where
  "STICKER_5_PAYMENT_SUCCESS_FILE_NAME =
    ''AnimatedSticker - payment success.tgs''"

end
