(* ===== verification/Rendering.thy ===== *)
theory Rendering
  imports Texts Messages Ranges Checkout
begin

text \<open>
  The texts that \<open>src/telegram_messages.rs\<close> makes from data, as the bytes of their UTF-8 encoding, and the
  text that stands behind every \<open>bot_text\<close> of the bot model. Building a URL is a parameter: it takes the
  base and the query pairs, and fails when the base does not parse.
\<close>

section \<open>Instants\<close>

text \<open>
  The formats of chrono that the sources use, on the local clock: \<open>%b\<close> is the English abbreviation of the
  month, and \<open>%Y\<close> has four digits, or a sign and at least four outside the years 0 to 9999.
\<close>

definition wib_local :: "int \<Rightarrow> int" where
  "wib_local t = t + WIB_OFFSET_SECONDS * SECOND"

definition day_of :: "int \<Rightarrow> int" where
  "day_of d = d - days_before_year (year_of d) - days_before_month (year_of d) (month_of d) + 1"

definition MONTH_NAMES :: "string list" where
  "MONTH_NAMES = [''Jan'', ''Feb'', ''Mar'', ''Apr'', ''May'', ''Jun'', ''Jul'', ''Aug'', ''Sep'', ''Oct'', ''Nov'', ''Dec'']"

definition show_year :: "int \<Rightarrow> string" where
  "show_year y =
     (if 0 \<le> y \<and> y \<le> 9999 then show_padded 4 (nat y)
      else (if y < 0 then ''-'' else ''+'') @ show_padded 4 (nat \<bar>y\<bar>))"

definition show_d_b :: "int \<Rightarrow> string" where
  "show_d_b d = show_padded 2 (nat (day_of d)) @ '' '' @ MONTH_NAMES ! nat (month_of d - 1)"

definition show_d_b_Y :: "int \<Rightarrow> string" where
  "show_d_b_Y d = show_d_b d @ '' '' @ show_year (year_of d)"

definition show_Y_m_d :: "int \<Rightarrow> string" where
  "show_Y_m_d d =
     show_year (year_of d) @ ''-'' @ show_padded 2 (nat (month_of d)) @ ''-'' @ show_padded 2 (nat (day_of d))"

definition seconds_of_day :: "int \<Rightarrow> nat" where
  "seconds_of_day local = nat ((local mod DAY) div SECOND)"

definition show_H_M :: "int \<Rightarrow> string" where
  "show_H_M local =
     show_padded 2 (seconds_of_day local div 3600) @ '':'' @ show_padded 2 (seconds_of_day local mod 3600 div 60)"

definition show_H_M_S :: "int \<Rightarrow> string" where
  "show_H_M_S local = show_H_M local @ '':'' @ show_padded 2 (seconds_of_day local mod 60)"

text \<open>The formats \<open>%d %b %Y\<close> and \<open>%d %b %Y %H:%M\<close> of an instant in WIB, and the link format in UTC.\<close>

definition wib_day :: "int \<Rightarrow> string" where
  "wib_day t = show_d_b_Y (wib_local t div DAY)"

definition wib_minute :: "int \<Rightarrow> string" where
  "wib_minute t = wib_day t @ '' '' @ show_H_M (wib_local t)"

definition utc_link_time :: "int \<Rightarrow> string" where
  "utc_link_time t = show_Y_m_d (t div DAY) @ ''T'' @ show_H_M_S t @ ''Z''"

section \<open>Numbers\<close>

text \<open>
  \<open>{:.k}\<close> on a double prints the exact value rounded to k decimals, ties to even. The sign of a zero is not
  in the model; of a number that rounds to zero it is printed.
\<close>

definition show_fixed :: "nat \<Rightarrow> f64 \<Rightarrow> string" where
  "show_fixed k x =
     (case x of NaN \<Rightarrow> ''NaN'' | Inf negative \<Rightarrow> if negative then ''-inf'' else ''inf''
      | Fin q \<Rightarrow>
          let n = nat (round_even (\<bar>q\<bar> * 10 ^ k))
          in (if q < 0 then ''-'' else []) @ show_nat (n div 10 ^ k) @ ''.'' @ show_padded k (n mod 10 ^ k))"

definition show_bool :: "bool \<Rightarrow> string" where
  "show_bool b = (if b then ''true'' else ''false'')"

definition option_bool :: "bool option \<Rightarrow> string" where
  "option_bool value = (case value of Some b \<Rightarrow> show_bool b | None \<Rightarrow> ''tidak diketahui'')"

definition ascii_upper :: "char \<Rightarrow> char" where
  "ascii_upper c = (let n = of_char c in if 97 \<le> n \<and> n \<le> (122 :: nat) then char_of (n - 32) else c)"

section \<open>Links\<close>

type_synonym url_builder = "string \<Rightarrow> (string \<times> string) list \<Rightarrow> string option"

definition LIVE_TRACKING_BASE_URL :: string where
  "LIVE_TRACKING_BASE_URL = ''https://hearthbeats-client.vercel.app/live-tracking''"

definition build_live_tracking_link :: "url_builder \<Rightarrow> string \<Rightarrow> int \<Rightarrow> string option" where
  "build_live_tracking_link url imei start_at =
     url (LIVE_TRACKING_BASE_URL @ ''/'' @ imei) [(''start_at'', utc_link_time start_at)]"

definition build_history_tracking_link :: "url_builder \<Rightarrow> string \<Rightarrow> int \<Rightarrow> int \<Rightarrow> string option" where
  "build_history_tracking_link url imei start_at end_at =
     url (LIVE_TRACKING_BASE_URL @ ''/'' @ imei)
       [(''start_at'', utc_link_time start_at), (''end_at'', utc_link_time end_at)]"

definition latest_location_link :: "stored_location option \<Rightarrow> string option" where
  "latest_location_link location =
     Option.bind location (\<lambda>l. Option.bind (sl_latitude l) (\<lambda>latitude. Option.bind (sl_longitude l) (\<lambda>longitude.
       Some (''https://maps.google.com/?q='' @ show_fixed 6 latitude @ '','' @ show_fixed 6 longitude))))"

definition otherwise :: "string option \<Rightarrow> string \<Rightarrow> string" where
  "otherwise value fallback = (case value of Some s \<Rightarrow> s | None \<Rightarrow> fallback)"

section \<open>Messages\<close>

definition msg_5_bind_success :: "string \<Rightarrow> string" where
  "msg_5_bind_success imei =
      ''Berhasil. Akun Telegram ini sekarang sudah terhubung ke IMEI '' @ imei @ ''.''"

definition msg_13_unknown_command :: "string \<Rightarrow> string" where
  "msg_13_unknown_command command =
      ''Command '' @ command @ '' belum dikenali. Ketik /help untuk lihat daftar perintah.''"

definition msg_17_heartbeat_notification :: "stored_heartbeat \<Rightarrow> string" where
  "msg_17_heartbeat_notification heartbeat =
      ''Update heartbeat'' @ NL @ ''IMEI: '' @ sh_imei heartbeat @ NL @ ''Waktu server: ''
      @ show_Y_m_d (sh_server_received_at heartbeat div DAY) @ '' '' @ show_H_M_S (sh_server_received_at heartbeat)
      @ '' UTC'' @ NL @ ''Status mesin: '' @ sh_engine_status_guess heartbeat @ '' (perkiraan)'' @ NL
      @ ''Terminal info: '' @ show_int (sh_terminal_info_raw heartbeat) @ '' (''
      @ sh_terminal_info_bits heartbeat @ '')'' @ NL @ ''Level tegangan: ''
      @ show_int (sh_voltage_level heartbeat) @ NL @ ''Sinyal GSM: ''
      @ show_int (sh_gsm_signal_strength heartbeat) @ NL @ ''GPS tracking: ''
      @ show_bool (sh_gps_tracking_on heartbeat) @ NL @ ''ACC high: '' @ option_bool (sh_acc_high heartbeat)
      @ NL @ ''Getaran terdeteksi: '' @ show_bool (sh_vibration_detected heartbeat)"

definition msg_16_engine_status_notification :: "stored_heartbeat \<Rightarrow> string \<Rightarrow> string" where
  "msg_16_engine_status_notification heartbeat status =
     (let moment = wib_day (sh_server_received_at heartbeat) @ '' - '' @ show_H_M (wib_local (sh_server_received_at heartbeat)) @ '' WIB'' in
      if status = ''on'' then
      ''Motor Dinyalakan'' @ NL @ ''Kalau ini bukan kamu, segera cek lokasi motor.'' @ NL @ moment
      else if status = ''off'' then
      ''Motor Dimatikan'' @ NL @ ''Aktivitas terdeteksi pada motor kamu.'' @ NL @ moment
      else msg_17_heartbeat_notification heartbeat)"

definition msg_18_inactive_subscription_engine_status_message :: "string \<Rightarrow> string" where
  "msg_18_inactive_subscription_engine_status_message status =
     (if status = ''on'' then MSG_19_INACTIVE_SUB_ENGINE_ON
      else if status = ''off'' then MSG_20_INACTIVE_SUB_ENGINE_OFF else MSG_21_INACTIVE_SUB_FALLBACK)"

definition msg_27_theft_engine_off_message :: "stored_location option \<Rightarrow> int \<Rightarrow> string" where
  "msg_27_theft_engine_off_message latest_location engine_off_at =
      SIREN @ '' ALERT PENCURIAN'' @ NL @ NL
      @ ''Mesin motor kamu baru saja mati di situasi yang terindikasi pencurian.'' @ NL @ NL @ PIN
      @ '' Lokasi Terakhir Diketahui:'' @ NL
      @ otherwise (latest_location_link latest_location) MSG_33_STATUS_LOCATION_MISSING @ NL @ NL
      @ ''GPS masih terus aktif dalam mode baterai selama daya perangkat masih '' @ ''ada.'' @ NL @ NL
      @ ''Mesin mati terdeteksi pada '' @ wib_minute engine_off_at @ '' WIB.'' @ NL @ NL @ WARNING
      @ '' Segera ambil tindakan: cek live location, bagikan akses tracking, ''
      @ ''atau hubungi pihak berwajib kalau diperlukan.''"

definition msg_28_stream_location_message :: "string option \<Rightarrow> string" where
  "msg_28_stream_location_message live_tracking_link =
      PIN @ '' Live Tracking Siap'' @ NL @ NL @ ''Pantau motor kamu secara real-time di sini:'' @ NL
      @ otherwise live_tracking_link MSG_28_STREAM_LOCATION_LINK_MISSING @ NL @ NL
      @ ''Link ini bisa kamu bagikan ke orang yang kamu percaya buat bantu '' @ ''mantau motor.''"

definition summary_distance :: "ride_summary option \<Rightarrow> f64" where
  "summary_distance summary = (case summary of Some r \<Rightarrow> rs_total_distance_km r | None \<Rightarrow> Fin 0)"

definition summary_speed :: "ride_summary option \<Rightarrow> f64" where
  "summary_speed summary = (case summary of Some r \<Rightarrow> rs_average_speed_kph r | None \<Rightarrow> Fin 0)"

definition summary_seconds :: "ride_summary option \<Rightarrow> nat" where
  "summary_seconds summary = (case summary of Some r \<Rightarrow> nat (rs_riding_seconds r) | None \<Rightarrow> 0)"

definition msg_30_ride_summary_message ::
  "url_builder \<Rightarrow> engine_session \<Rightarrow> int \<Rightarrow> ride_summary option \<Rightarrow> stored_location option \<Rightarrow> string" where
  "msg_30_ride_summary_message url session off_time summary latest_location =
      ''Ringkasan Perjalanan '' @ EM_DASH @ '' '' @ wib_day (es_created_at session) @ NL @ NL @ MOTORCYCLE
      @ '' Jarak tempuh '' @ show_fixed 2 (summary_distance summary) @ '' km'' @ NL @ STOPWATCH
      @ '' Waktu berkendara '' @ format_duration_compact_from_seconds (summary_seconds summary) @ NL @ BOLT
      @ '' Kecepatan rata-rata '' @ show_fixed 2 (summary_speed summary) @ '' km/jam'' @ NL @ NL
      @ show_H_M (wib_local (es_created_at session)) @ '' '' @ ARROW @ '' '' @ show_H_M (wib_local off_time)
      @ '' WIB'' @ NL @ NL @ MAP_SYMBOL @ '' Lihat Rute'' @ NL
      @ otherwise (build_history_tracking_link url (es_imei session) (es_created_at session) off_time) MSG_31_RIDE_SUMMARY_HISTORY_LINK_MISSING
      @ NL @ NL @ PIN @ '' Lokasi Terakhir'' @ NL
      @ otherwise (latest_location_link latest_location) MSG_32_RIDE_SUMMARY_MAP_LINK_MISSING"

definition movement_status :: "stored_location option \<Rightarrow> string" where
  "movement_status location =
     (case Option.bind location sl_speed_kph of
        Some speed \<Rightarrow> if 0 < speed then ''BERJALAN '' @ show_int speed @ '' km/jam'' else ''DIAM''
      | None \<Rightarrow> MSG_34_STATUS_UNKNOWN)"

definition last_update :: "stored_heartbeat option \<Rightarrow> stored_location option \<Rightarrow> int option" where
  "last_update heartbeat location =
     (case (heartbeat, Option.bind location sl_last_seen_at) of
        (Some h, Some seen) \<Rightarrow> Some (max (sh_server_received_at h) seen)
      | (Some h, None) \<Rightarrow> Some (sh_server_received_at h)
      | (None, seen) \<Rightarrow> seen)"

definition msg_33_latest_motor_status_message ::
  "engine_session \<Rightarrow> stored_heartbeat option \<Rightarrow> stored_location option \<Rightarrow> int \<Rightarrow> string" where
  "msg_33_latest_motor_status_message session heartbeat location reference_time =
     (let map_link = otherwise (latest_location_link location) MSG_33_STATUS_LOCATION_MISSING;
          engine_status =
            (case heartbeat of
               Some h \<Rightarrow> if sh_engine_status_guess h = ''on'' then ''ON''
                         else if sh_engine_status_guess h = ''off'' then ''OFF'' else MSG_34_STATUS_UNKNOWN
             | None \<Rightarrow> MSG_34_STATUS_UNKNOWN);
          signal_status =
            (case heartbeat of Some h \<Rightarrow> connection_status_label (sh_gsm_signal_strength h)
             | None \<Rightarrow> MSG_35_STATUS_SIGNAL_UNKNOWN);
          battery_level =
            (case heartbeat of Some h \<Rightarrow> gps_battery_label (sh_voltage_level h)
             | None \<Rightarrow> MSG_35_STATUS_SIGNAL_UNKNOWN);
          updated =
            (case last_update heartbeat location of
               Some event_time \<Rightarrow> format_relative_time_compact reference_time event_time | None \<Rightarrow> ''tidak diketahui'');
          battery_warning =
            (if (case heartbeat of Some h \<Rightarrow> sh_voltage_level h = 0 | None \<Rightarrow> False) then
      NL @ NL @ WARNING @ '' Baterai GPS habis. Update baru kemungkinan akan masuk lagi setelah ''
      @ ''motor dinyalakan.''
             else []);
          session_timing =
            (case es_resolved_at session of
               Some resolved_at \<Rightarrow> ''Sesi terakhir selesai pada '' @ show_H_M_S (wib_local resolved_at) @ '' WIB.''
             | None \<Rightarrow> ''Sesi aktif sejak '' @ show_H_M_S (wib_local (es_created_at session)) @ '' WIB'')
      in
      PIN @ '' Status Motor'' @ NL @ NL @ map_link @ NL @ NL @ movement_status location @ '' '' @ BULLET
      @ '' Diperbarui '' @ updated @ NL @ ''Mesin: '' @ engine_status @ '' '' @ BULLET @ '' GPS: ''
      @ map ascii_upper signal_status @ '' '' @ BULLET @ '' Daya: '' @ map ascii_upper battery_level @ NL
      @ NL @ session_timing @ battery_warning)"

definition msg_36_choose_range_for :: "string \<Rightarrow> string" where
  "msg_36_choose_range_for label = MSG_36_ANALYTICS_PICK_RANGE_PREFIX @ '' '' @ label @ ''.''"

section \<open>Reports\<close>

text \<open>\<open>max_by_key\<close> takes the last of the longest rides.\<close>

fun last_longest :: "analytics_session_report list \<Rightarrow> analytics_session_report option" where
  "last_longest [] = None"
| "last_longest (r # rs) =
     (case last_longest rs of
        None \<Rightarrow> Some r | Some best \<Rightarrow> Some (if ap_riding_seconds best < ap_riding_seconds r then r else best))"

definition ride_end :: "analytics_session_report \<Rightarrow> string" where
  "ride_end report =
     (if as_resolved_at (ap_session report) \<noteq> None then show_H_M (wib_local (ap_clipped_end report))
      else ''MASIH BERJALAN'')"

definition ride_line :: "nat \<times> analytics_session_report \<Rightarrow> string" where
  "ride_line = (\<lambda>(index, report).
      show_nat (index + 1) @ ''. '' @ show_H_M (wib_local (ap_clipped_start report)) @ '' '' @ ARROW @ '' ''
      @ ride_end report @ '' '' @ BULLET @ '' ''
      @ format_duration_minutes_from_seconds (nat (ap_riding_seconds report)) @ '' '' @ BULLET @ '' ''
      @ show_fixed 2 (ap_total_distance_km report) @ '' km'')"

fun join_lines :: "string list \<Rightarrow> string" where
  "join_lines [] = []"
| "join_lines [l] = l"
| "join_lines (l # ls) = l @ NL @ join_lines ls"

definition msg_40_driving_sessions_report ::
  "analytics_date_range \<Rightarrow> analytics_session_report list \<Rightarrow> string option \<Rightarrow> string" where
  "msg_40_driving_sessions_report dates sessions full_day_route_link =
     (let total_distance_km = foldl fadd (Fin 0) (map ap_total_distance_km sessions);
          total_seconds = sum_list (map ap_riding_seconds sessions);
          longest_ride =
            (case last_longest sessions of
               Some report \<Rightarrow> show_H_M (wib_local (ap_clipped_start report)) @ '' '' @ ARROW @ '' '' @ ride_end report
             | None \<Rightarrow> ''-'');
          route = otherwise full_day_route_link ''Rute satu hari penuh belum tersedia.'';
          headings =
            [ROAD @ '' Laporan Perjalanan '' @ EM_DASH @ '' '' @ wib_day (ar_started_at dates), [],
             show_nat (length sessions) @ '' sesi '' @ BULLET @ '' '' @ show_fixed 2 total_distance_km @ '' km ditempuh ''
               @ BULLET @ '' '' @ format_duration_minutes_from_seconds (nat total_seconds) @ '' waktu berkendara'',
             ''Perjalanan terpanjang: '' @ longest_ride, []]
      in join_lines (headings
           @ (if sessions = [] then [''Tidak ada sesi perjalanan di tanggal ini.'']
              else map ride_line (enumerate 0 sessions))
           @ [[], PIN @ '' Rute Seharian'', route]))"

definition format_analytics_range_label :: "analytics_date_range \<Rightarrow> string" where
  "format_analytics_range_label dates =
     ar_label dates @ NL @ wib_minute (ar_started_at dates) @ '' - '' @ wib_minute (ar_ended_at dates) @ '' WIB''"

definition msg_41_total_km_report :: "analytics_date_range \<Rightarrow> ride_summary option \<Rightarrow> string" where
  "msg_41_total_km_report dates summary =
      ''Total KM'' @ NL @ format_analytics_range_label dates @ NL @ NL @ ''Total jarak: ''
      @ show_fixed 2 (summary_distance summary) @ '' km'' @ NL @ ''Kecepatan rata-rata: ''
      @ show_fixed 2 (summary_speed summary) @ '' km/jam''"

text \<open>The last instant of a range belongs to the next day: a second before it names the last day.\<close>

definition format_ride_stats_date_range :: "analytics_date_range \<Rightarrow> string" where
  "format_ride_stats_date_range dates =
     (let started_at = wib_local (ar_started_at dates) div DAY;
          ended_at = wib_local (ar_ended_at dates - SECOND) div DAY
      in if started_at = ended_at then show_d_b_Y started_at
         else if year_of started_at = year_of ended_at
         then show_d_b started_at @ '' '' @ ARROW @ '' '' @ show_d_b_Y ended_at
         else show_d_b_Y started_at @ '' '' @ ARROW @ '' '' @ show_d_b_Y ended_at)"

definition msg_42_metrics_report :: "analytics_date_range \<Rightarrow> ride_summary option \<Rightarrow> string" where
  "msg_42_metrics_report dates summary =
      MOTORCYCLE @ '' Statistik Perjalanan '' @ EM_DASH @ '' '' @ ar_label dates @ NL @ NL
      @ format_ride_stats_date_range dates @ '' '' @ BULLET @ '' ''
      @ show_fixed 2 (summary_distance summary) @ '' km ditempuh '' @ BULLET @ '' ''
      @ format_duration_minutes_from_seconds (summary_seconds summary) @ '' waktu berkendara '' @ BULLET
      @ '' '' @ show_fixed 1 (summary_speed summary) @ '' km/jam kecepatan rata-rata'' @ NL @ NL @ WARNING
      @ '' Jangan lupa rutin cek kondisi motor demi keamanan, termasuk oli ''
      @ ''mesin, tekanan ban, dan rem.''"

definition msg_45_total_driving_time_report :: "analytics_date_range \<Rightarrow> int \<Rightarrow> string" where
  "msg_45_total_driving_time_report dates total_seconds =
      ''Total Waktu Berkendara'' @ NL @ format_analytics_range_label dates @ NL @ NL
      @ ''Total waktu berkendara: '' @ format_duration_compact_from_seconds (nat total_seconds)"

section \<open>Payments\<close>

text \<open>\<open>replace\<close> in a template: the placeholder occurs once.\<close>

definition msg_46_payment_success :: "int option \<Rightarrow> string" where
  "msg_46_payment_success current_period_end_at =
     (let active_until =
            (case current_period_end_at of Some t \<Rightarrow> wib_minute t @ '' WIB'' | None \<Rightarrow> ''tidak diketahui'')
      in case split_once ''{active_until}'' MSG_46_PAYMENT_SUCCESS of
           Some (before, after) \<Rightarrow> before @ active_until @ after
         | None \<Rightarrow> MSG_46_PAYMENT_SUCCESS)"

definition msg_48_subscription_overdue_reminder :: "int \<Rightarrow> string" where
  "msg_48_subscription_overdue_reminder fine_amount_idr =
      ''Langganan Heartbeats kamu sudah habis.'' @ NL @ NL @ ''Denda saat ini: ''
      @ format_idr fine_amount_idr @ NL @ ''Yuk perpanjang lagi supaya akses penuh kembali aktif.''"

text \<open>The three replacements of the payment link, one after the other.\<close>

definition replace_char :: "char \<Rightarrow> string \<Rightarrow> string \<Rightarrow> string" where
  "replace_char c by s = concat (map (\<lambda>d. if d = c then by else [d]) s)"

definition escape_html :: "string \<Rightarrow> string" where
  "escape_html s =
     replace_char CHR ''>'' ''&gt;'' (replace_char CHR ''<'' ''&lt;'' (replace_char CHR ''&'' ''&amp;'' s))"

definition msg_49_payment_link_with_quote ::
  "string \<Rightarrow> string \<Rightarrow> int \<Rightarrow> int \<Rightarrow> int \<Rightarrow> int \<Rightarrow> int \<Rightarrow> string" where
  "msg_49_payment_link_with_quote plan_label payment_url expires_at effective_base_amount_idr shipment_fee_idr
       fine_amount_idr total_amount_idr =
     (let shipment_line =
            (if 0 < shipment_fee_idr then NL @ ''Biaya pengiriman: '' @ format_idr shipment_fee_idr else []);
          fine_line = (if 0 < fine_amount_idr then NL @ ''Denda telat: '' @ format_idr fine_amount_idr else []);
          total_line =
            (if 0 < shipment_fee_idr \<or> 0 < fine_amount_idr then NL @ ''Total: '' @ format_idr total_amount_idr else [])
      in
      plan_label @ NL @ format_idr effective_base_amount_idr @ '' - 30 Hari'' @ shipment_line @ fine_line
      @ total_line @ NL @ NL @ ''Untuk aktifkan langganan, selesaikan pembayaran lewat link berikut:'' @ NL
      @ ''<tg-spoiler>'' @ escape_html payment_url @ ''</tg-spoiler>'' @ NL @ NL
      @ ''Link pembayaran berlaku sampai: '' @ wib_minute expires_at @ '' WIB'')"

section \<open>What the bot sends\<close>

text \<open>The fixed texts and the toasts by their numbers.\<close>

definition fixed_texts :: "(nat \<times> string) list" where
  "fixed_texts =
     [(1, MSG_1_BIND_INVALID_IMEI), (2, MSG_2_BIND_ALREADY_BOUND), (3, MSG_3_BIND_DEVICE_NOT_FOUND),
      (4, MSG_4_BIND_DEVICE_ALREADY_TAKEN), (6, MSG_6_NOT_BOUND_USE_START), (7, MSG_7_ANALYTICS_INVALID_DATE),
      (8, MSG_8_ANALYTICS_INVALID_RANGE), (9, MSG_9_START_BIND_PROMPT), (10, MSG_10_HELP),
      (11, MSG_11_PAY_SUPPORT), (12, MSG_12_TERMS), (14, MSG_14_START_STATUS),
      (15, MSG_15_SUBSCRIPTION_MENU), (22, MSG_22_ENGINE_ON_CONFIRMATION), (23, MSG_23_RIDE_SAFE),
      (24, MSG_24_SESSION_FINISHED), (25, MSG_25_THEFT_WARNING), (29, MSG_29_CONTACT_SUPPORT),
      (37, MSG_37_ANALYTICS_CUSTOM_DATE_PROMPT), (38, MSG_38_ANALYTICS_CUSTOM_RANGE_PROMPT), (39, MSG_39_ANALYTICS_SESSIONS_MONTH_UNSUPPORTED)]"

definition toasts :: "(nat \<times> string) list" where
  "toasts =
     [(1, TOAST_1_OPEN_BOT_CHAT), (2, TOAST_2_SUBSCRIPTION_REQUIRED), (3, TOAST_3_BIND_FIRST),
      (4, TOAST_4_SESSION_NOT_FOUND), (5, TOAST_5_SESSION_MISMATCH), (6, TOAST_6_SESSION_ALREADY_ENDED)]"

definition format_driving_sessions_report ::
  "url_builder \<Rightarrow> string \<Rightarrow> analytics_date_range \<Rightarrow> analytics_session_report list \<Rightarrow> string" where
  "format_driving_sessions_report url imei dates sessions =
     msg_40_driving_sessions_report dates sessions
       (build_history_tracking_link url imei (ar_started_at dates) (ar_ended_at dates - SECOND))"

definition format_engine_status_notification :: "stored_heartbeat \<Rightarrow> string \<Rightarrow> string" where
  "format_engine_status_notification heartbeat status = msg_16_engine_status_notification heartbeat status"

text \<open>The arguments that the code ignores are left out of the next two.\<close>

definition format_inactive_subscription_engine_status_message :: "string \<Rightarrow> string" where
  "format_inactive_subscription_engine_status_message status =
     msg_18_inactive_subscription_engine_status_message status"

definition format_theft_engine_off_message :: "stored_location option \<Rightarrow> int \<Rightarrow> string" where
  "format_theft_engine_off_message latest_location engine_off_at =
     msg_27_theft_engine_off_message latest_location engine_off_at"

definition format_stream_location_message :: "string option \<Rightarrow> string" where
  "format_stream_location_message live_tracking_link = msg_28_stream_location_message live_tracking_link"

definition format_ride_summary_message ::
  "url_builder \<Rightarrow> engine_session \<Rightarrow> int \<Rightarrow> ride_summary option \<Rightarrow> stored_location option \<Rightarrow> string" where
  "format_ride_summary_message url session off_time summary latest_location =
     msg_30_ride_summary_message url session off_time summary latest_location"

definition format_latest_motor_status_initial_message ::
  "engine_session \<Rightarrow> stored_heartbeat option \<Rightarrow> stored_location option \<Rightarrow> int \<Rightarrow> string" where
  "format_latest_motor_status_initial_message session heartbeat location requested_at =
     msg_33_latest_motor_status_message session heartbeat location requested_at"

definition format_midtrans_payment_message_with_quote ::
  "subscription_plan \<Rightarrow> string \<Rightarrow> int \<Rightarrow> int \<Rightarrow> int \<Rightarrow> int \<Rightarrow> int \<Rightarrow> string" where
  "format_midtrans_payment_message_with_quote plan payment_url expires_at effective_base_amount_idr shipment_fee_idr
       fine_amount_idr total_amount_idr =
     msg_49_payment_link_with_quote (tier_label (pl_tier plan)) payment_url expires_at effective_base_amount_idr
       shipment_fee_idr fine_amount_idr total_amount_idr"

fun bot_text_string :: "url_builder \<Rightarrow> bot_text \<Rightarrow> string" where
  "bot_text_string url (Fixed n) = (case map_of fixed_texts n of Some t \<Rightarrow> t | None \<Rightarrow> [])"
| "bot_text_string url (Toast n) = (case map_of toasts n of Some t \<Rightarrow> t | None \<Rightarrow> [])"
| "bot_text_string url NoText = []"
| "bot_text_string url (BindSuccess imei) = msg_5_bind_success imei"
| "bot_text_string url (UnknownCommand command) = msg_13_unknown_command command"
| "bot_text_string url (EngineStatusText heartbeat status) = format_engine_status_notification heartbeat status"
| "bot_text_string url (InactiveEngineStatus status) = format_inactive_subscription_engine_status_message status"
| "bot_text_string url (TheftEngineOff location engine_off_at) = format_theft_engine_off_message location engine_off_at"
| "bot_text_string url (StreamLocationText imei start_at) =
     format_stream_location_message (Option.bind start_at (build_live_tracking_link url imei))"
| "bot_text_string url (RideSummaryText session off_time summary location) =
     format_ride_summary_message url session off_time summary location"
| "bot_text_string url (LatestStatus session heartbeat location requested_at) =
     format_latest_motor_status_initial_message session heartbeat location requested_at"
| "bot_text_string url (ChooseRange label) = msg_36_choose_range_for label"
| "bot_text_string url (SessionsReport imei dates reports) = format_driving_sessions_report url imei dates reports"
| "bot_text_string url (TotalKmReport dates summary) = msg_41_total_km_report dates (Some summary)"
| "bot_text_string url (MetricsReport dates summary) = msg_42_metrics_report dates (Some summary)"
| "bot_text_string url (DrivingTimeReport dates seconds) = msg_45_total_driving_time_report dates seconds"
| "bot_text_string url (PaymentLink plan payment_url expires_at base shipment fine amount) =
     format_midtrans_payment_message_with_quote plan payment_url expires_at base shipment fine amount"

section \<open>Instants are printed to the minute\<close>

lemma show_padded_inj: "show_padded w m = show_padded w n \<Longrightarrow> m = n"
proof -
  have read: "read_nat 0 (replicate k CHR ''0'' @ s) = read_nat 0 s" for k s
    by (induction k) (simp_all add: of_char_def)
  have "read_nat 0 (show_padded w k) = Some k" for k
    by (simp add: show_padded_def pad_left_def read)
  then show "show_padded w m = show_padded w n \<Longrightarrow> m = n" by (metis option.inject)
qed

lemma month_of_spec:
  "1 \<le> month_of d \<and> month_of d \<le> 12 \<and> days_before_year (year_of d) + days_before_month (year_of d) (month_of d) \<le> d"
  using month_of_bounds [of d] month_range [of d d] by simp

lemma day_of_pos: "1 \<le> day_of d"
  using month_of_spec [of d] by (simp add: day_of_def)

lemma date_determined: "year_of d = year_of e \<Longrightarrow> month_of d = month_of e \<Longrightarrow> day_of d = day_of e \<Longrightarrow> d = e"
  by (simp add: day_of_def)

text \<open>What is printed between two spaces contains none.\<close>

lemma show_padded_chars: "c \<in> set (show_padded w n) \<Longrightarrow> \<exists>d < 10. c = digit_char d"
proof -
  assume "c \<in> set (show_padded w n)"
  moreover have "CHR ''0'' = digit_char 0" by code_simp
  ultimately show ?thesis
    using show_nat_digits [of c n] by (auto simp: show_padded_def pad_left_def split: if_splits intro: exI [of _ 0])
qed

lemma show_padded_no: "(of_char c :: nat) < 48 \<or> 57 < (of_char c :: nat) \<Longrightarrow> c \<notin> set (show_padded w n)"
  using show_padded_chars digit_char_neq by metis

lemma show_year_no: "c \<noteq> CHR ''-'' \<Longrightarrow> c \<noteq> CHR ''+'' \<Longrightarrow> (of_char c :: nat) < 48 \<or> 57 < (of_char c :: nat) \<Longrightarrow> c \<notin> set (show_year y)"
  using show_padded_no [of c] by (auto simp: show_year_def)

lemma sign_no_digit: "CHR ''-'' \<notin> set (show_padded w n)" "CHR ''+'' \<notin> set (show_padded w n)"
  by (rule show_padded_no, simp add: of_char_def)+

lemma show_year_inj:
  assumes "show_year y = show_year z"
  shows "y = z"
proof -
  have "CHR ''-'' \<in> set (show_year y) \<longleftrightarrow> y < 0" "CHR ''+'' \<in> set (show_year y) \<longleftrightarrow> 9999 < y" for y
    using sign_no_digit by (auto simp: show_year_def)
  then have "y < 0 \<longleftrightarrow> z < 0" "9999 < y \<longleftrightarrow> 9999 < z" using assms by metis+
  then show ?thesis
    using assms by (auto simp: show_year_def split: if_splits dest!: show_padded_inj)
qed

lemma month_names:
  assumes "1 \<le> m" and "m \<le> 12"
  shows "length (MONTH_NAMES ! nat (m - 1)) = 3" and "CHR '' '' \<notin> set (MONTH_NAMES ! nat (m - 1))"
proof -
  have "list_all (\<lambda>t. length t = 3 \<and> CHR '' '' \<notin> set t) MONTH_NAMES" by code_simp
  moreover have "nat (m - 1) < length MONTH_NAMES" using assms by (simp add: MONTH_NAMES_def)
  ultimately have "length (MONTH_NAMES ! nat (m - 1)) = 3 \<and> CHR '' '' \<notin> set (MONTH_NAMES ! nat (m - 1))"
    unfolding list_all_length by blast
  then show "length (MONTH_NAMES ! nat (m - 1)) = 3" and "CHR '' '' \<notin> set (MONTH_NAMES ! nat (m - 1))" by simp_all
qed

lemma month_names_inj:
  assumes "MONTH_NAMES ! nat (m - 1) = MONTH_NAMES ! nat (n - 1)" and "1 \<le> m" "m \<le> 12" "1 \<le> n" "n \<le> 12"
  shows "m = n"
proof -
  have "distinct MONTH_NAMES" by code_simp
  then have "nat (m - 1) = nat (n - 1)"
    using assms nth_eq_iff_index_eq [of MONTH_NAMES "nat (m - 1)" "nat (n - 1)"] by (simp add: MONTH_NAMES_def)
  with assms show ?thesis by simp
qed

lemma space_separates:
  "c \<notin> set a \<Longrightarrow> c \<notin> set a' \<Longrightarrow> a @ c # b = a' @ c # b' \<longleftrightarrow> a = a' \<and> b = b'"
proof (induction a arbitrary: a')
  case Nil
  then show ?case by (cases a') auto
next
  case (Cons x a)
  then show ?case by (cases a') auto
qed

lemma space_no: "CHR '' '' \<notin> set (show_padded w n)" "CHR '' '' \<notin> set (show_year y)" "CHR '':'' \<notin> set (show_padded w n)"
  by (rule show_padded_no show_year_no, simp_all add: of_char_def)+

lemma mod_div_block:
  fixes x b c :: int
  shows "0 < b \<Longrightarrow> 0 < c \<Longrightarrow> x mod (b * c) div b = x div b mod c"
  using zmod_zmult2_eq [of c x b] by simp

text \<open>The fields of \<open>wib_minute\<close> in terms of the minutes since the epoch of the local clock.\<close>

lemma minute_fields:
  fixes t :: int
  defines "m \<equiv> wib_local t div (60 * SECOND)"
  shows "wib_local t div DAY = m div 1440" and "int (seconds_of_day (wib_local t) div 3600) = m mod 1440 div 60"
    and "int (seconds_of_day (wib_local t) mod 3600 div 60) = m mod 1440 mod 60" and "m = t div (60 * SECOND) + 420"
proof -
  let ?l = "wib_local t"
  show "?l div DAY = m div 1440" unfolding m_def by (simp add: zdiv_zmult2_eq [of 1440 ?l "60 * SECOND", simplified])
  have "int (seconds_of_day ?l) = (?l mod DAY) div SECOND"
    by (simp add: seconds_of_day_def pos_imp_zdiv_nonneg_iff)
  moreover have "?l mod DAY div SECOND div 60 = m mod 1440"
  proof -
    have "?l mod DAY div SECOND div 60 = ?l mod DAY div (SECOND * 60)" by (rule zdiv_zmult2_eq [symmetric]) simp
    also have "\<dots> = ?l mod (60 * SECOND * 1440) div (60 * SECOND)" by simp
    also have "\<dots> = m mod 1440" unfolding m_def by (rule mod_div_block) simp_all
    finally show ?thesis .
  qed
  moreover have "x div 3600 = x div 60 div 60" "x mod 3600 div 60 = x div 60 mod 60" for x :: int
    using mod_div_block [of 60 60 x] zdiv_zmult2_eq [of 60 x 60] by simp_all
  ultimately show "int (seconds_of_day ?l div 3600) = m mod 1440 div 60"
    and "int (seconds_of_day ?l mod 3600 div 60) = m mod 1440 mod 60"
    by (simp_all add: zdiv_int zmod_int)
  show "m = t div (60 * SECOND) + 420"
    using div_mult_self1 [of "60 * SECOND" t 420] by (simp add: m_def wib_local_def WIB_OFFSET_SECONDS_def)
qed

lemma minutes_determined:
  fixes x y :: int
  assumes "x div 1440 = y div 1440" and "x mod 1440 div 60 = y mod 1440 div 60" and "x mod 1440 mod 60 = y mod 1440 mod 60"
  shows "x = y"
proof -
  have "x mod 1440 = y mod 1440"
    using assms(2,3) div_mult_mod_eq [of "x mod 1440" 60] div_mult_mod_eq [of "y mod 1440" 60] by linarith
  with assms(1) show ?thesis using div_mult_mod_eq [of x 1440] div_mult_mod_eq [of y 1440] by linarith
qed

text \<open>
  The instants in the messages are exact to the minute: two instants are printed alike, as in the
  expiry of a payment link or the end of a subscription, exactly when they fall into the same minute, for
  every instant and every year.
\<close>

theorem wib_minute_roundtrip: "wib_minute t = wib_minute u \<longleftrightarrow> t div (60 * SECOND) = u div (60 * SECOND)"
proof
  assume eq: "wib_minute t = wib_minute u"
  let ?d = "wib_local t div DAY" and ?e = "wib_local u div DAY"
  have m: "1 \<le> month_of d" "month_of d \<le> 12" for d using month_of_spec by auto
  note separate = space_separates [OF space_no(1) space_no(1)] space_separates [OF space_no(2) space_no(2)]
    space_separates [OF space_no(3) space_no(3)] space_separates [OF month_names(2) [OF m] month_names(2) [OF m]]
  from eq have "show_padded 2 (nat (day_of ?d)) = show_padded 2 (nat (day_of ?e))"
    "MONTH_NAMES ! nat (month_of ?d - 1) = MONTH_NAMES ! nat (month_of ?e - 1)"
    "show_year (year_of ?d) = show_year (year_of ?e)"
    and hm: "show_padded 2 (seconds_of_day (wib_local t) div 3600) = show_padded 2 (seconds_of_day (wib_local u) div 3600)"
    "show_padded 2 (seconds_of_day (wib_local t) mod 3600 div 60) = show_padded 2 (seconds_of_day (wib_local u) mod 3600 div 60)"
    by (simp_all add: wib_minute_def wib_day_def show_d_b_Y_def show_d_b_def show_H_M_def separate)
  then have "nat (day_of ?d) = nat (day_of ?e)" "month_of ?d = month_of ?e" "year_of ?d = year_of ?e"
    using show_padded_inj month_names_inj [OF _ m m] show_year_inj by blast+
  then have "?d = ?e"
    using date_determined [of ?d ?e] day_of_pos [of ?d] day_of_pos [of ?e]
      eq_nat_nat_iff [of "day_of ?d" "day_of ?e"] by simp
  moreover have "seconds_of_day (wib_local t) div 3600 = seconds_of_day (wib_local u) div 3600"
    "seconds_of_day (wib_local t) mod 3600 div 60 = seconds_of_day (wib_local u) mod 3600 div 60"
    using hm show_padded_inj by blast+
  ultimately have "(t div (60 * SECOND) + 420) div 1440 = (u div (60 * SECOND) + 420) div 1440"
    "(t div (60 * SECOND) + 420) mod 1440 div 60 = (u div (60 * SECOND) + 420) mod 1440 div 60"
    "(t div (60 * SECOND) + 420) mod 1440 mod 60 = (u div (60 * SECOND) + 420) mod 1440 mod 60"
    using minute_fields [of t] minute_fields [of u] by metis+
  from minutes_determined [OF this] show "t div (60 * SECOND) = u div (60 * SECOND)" by simp
next
  assume "t div (60 * SECOND) = u div (60 * SECOND)"
  then show "wib_minute t = wib_minute u"
    using minute_fields [of t] minute_fields [of u]
    by (simp add: wib_minute_def wib_day_def show_H_M_def) (metis nat_int)
qed

section \<open>The payment link is safe to show as HTML\<close>

text \<open>
  The payment link is sent with the parse mode HTML. This is how such a text is read: what stands between
  angle brackets is a tag, and the three entities that the code uses stand for their characters.
\<close>

function html_text :: "string \<Rightarrow> string" where
  "html_text [] = []"
| "html_text (c # cs) =
     (if c = CHR ''<'' then html_text (drop 1 (dropWhile (\<lambda>d. d \<noteq> CHR ''>'') cs))
      else if c = CHR ''&'' \<and> take 4 cs = ''amp;'' then CHR ''&'' # html_text (drop 4 cs)
      else if c = CHR ''&'' \<and> take 3 cs = ''lt;'' then CHR ''<'' # html_text (drop 3 cs)
      else if c = CHR ''&'' \<and> take 3 cs = ''gt;'' then CHR ''>'' # html_text (drop 3 cs)
      else c # html_text cs)"
  by pat_completeness auto
termination
  by (relation "measure length") (auto simp: less_Suc_eq_le intro: le_trans [OF diff_le_self length_dropWhile_le])

fun html_tags :: "string \<Rightarrow> string list" where
  "html_tags [] = []"
| "html_tags (c # cs) =
     (if c = CHR ''<'' then takeWhile (\<lambda>d. d \<noteq> CHR ''>'') cs # html_tags cs else html_tags cs)"

definition plain :: "string \<Rightarrow> bool" where
  "plain s \<longleftrightarrow> list_all (\<lambda>c. c \<notin> {CHR ''<'', CHR ''>'', CHR ''&''}) s"

lemma plain_append [simp]: "plain (s @ t) \<longleftrightarrow> plain s \<and> plain t"
  by (simp add: plain_def)

lemma plain_words:
  "plain []" "plain (c # s) \<longleftrightarrow> c \<notin> {CHR ''<'', CHR ''>'', CHR ''&''} \<and> plain s"
  by (simp_all add: plain_def)

lemma html_text_plain: "plain s \<Longrightarrow> html_text (s @ t) = s @ html_text t"
  by (induction s) (auto simp: plain_def)

lemma html_tags_plain: "CHR ''<'' \<notin> set s \<Longrightarrow> html_tags (s @ t) = html_tags t"
  by (induction s) auto

lemma escape_Cons: "escape_html (c # cs) = escape_html [c] @ escape_html cs"
  by (simp add: escape_html_def replace_char_def)

lemma escape_char:
  "escape_html [c] = (if c = CHR ''&'' then ''&amp;'' else if c = CHR ''<'' then ''&lt;''
     else if c = CHR ''>'' then ''&gt;'' else [c])"
  by (simp add: escape_html_def replace_char_def)

lemma html_text_escaped: "html_text (escape_html s @ t) = s @ html_text t"
proof (induction s)
  case (Cons c s)
  then show ?case by (subst escape_Cons) (simp add: escape_char)
qed (simp add: escape_html_def replace_char_def)

lemma escaped_no_tag: "CHR ''<'' \<notin> set (escape_html s)"
proof (induction s)
  case (Cons c s)
  then show ?case by (subst escape_Cons) (simp add: escape_char)
qed (simp add: escape_html_def replace_char_def)

lemma plain_no: "(\<And>c. c \<in> {CHR ''<'', CHR ''>'', CHR ''&''} \<Longrightarrow> c \<notin> set s) \<Longrightarrow> plain s"
  by (auto simp: plain_def list_all_iff)

lemma plain_padded: "plain (show_padded w n)"
  by (rule plain_no, rule show_padded_no) (auto simp: of_char_def)

lemma plain_nat: "plain (show_nat n)"
  by (rule plain_no, rule show_nat_chars) (auto simp: of_char_def)

lemma plain_idr: "plain (format_idr amount)"
proof -
  have "set (group_thousands s) \<subseteq> insert CHR ''.'' (set s)" for s
    by (auto simp: group_thousands_def enumerate_eq_zip split: if_splits dest: set_zip_rightD)
  then have "plain (group_thousands (show_nat n))" for n
    using plain_nat [of n] by (auto simp: plain_def list_all_iff)
  then show ?thesis by (simp add: format_idr_def Let_def) (simp add: plain_def)
qed

lemma length_months: "length MONTH_NAMES = 12"
  by (simp add: MONTH_NAMES_def)

lemma plain_minute: "plain (wib_minute t)"
proof -
  have "list_all plain MONTH_NAMES" by code_simp
  then have "plain (MONTH_NAMES ! nat (month_of d - 1))" for d
    using month_of_spec [of d] nat_less_iff [of "month_of d - 1" 12] by (simp add: list_all_length length_months)
  moreover have "plain (show_year y)" for y by (auto simp: show_year_def plain_padded) (simp_all add: plain_def)
  ultimately show ?thesis
    by (simp add: wib_minute_def wib_day_def show_d_b_Y_def show_d_b_def show_H_M_def plain_padded plain_words)
qed

lemma payment_link_parts:
  assumes "plain label"
  shows "\<exists>before after. plain before \<and> plain after \<and> (\<forall>payment_url.
      msg_49_payment_link_with_quote label payment_url expires_at base shipment fine amount
      = before @ ''<tg-spoiler>'' @ escape_html payment_url @ ''</tg-spoiler>'' @ after)"
proof (rule exI, rule exI, intro conjI allI)
  let ?before = "label @ NL @ format_idr base @ '' - 30 Hari''
      @ (if 0 < shipment then NL @ ''Biaya pengiriman: '' @ format_idr shipment else [])
      @ (if 0 < fine then NL @ ''Denda telat: '' @ format_idr fine else [])
      @ (if 0 < shipment \<or> 0 < fine then NL @ ''Total: '' @ format_idr amount else [])
      @ NL @ NL @ ''Untuk aktifkan langganan, selesaikan pembayaran lewat link berikut:'' @ NL"
  let ?after = "NL @ NL @ ''Link pembayaran berlaku sampai: '' @ wib_minute expires_at @ '' WIB''"
  show "plain ?before" using assms by (simp add: plain_idr plain_words)
  show "plain ?after" by (simp add: plain_minute plain_words)
  show "msg_49_payment_link_with_quote label payment_url expires_at base shipment fine amount
      = ?before @ ''<tg-spoiler>'' @ escape_html payment_url @ ''</tg-spoiler>'' @ ?after" for payment_url
    by (simp add: msg_49_payment_link_with_quote_def Let_def)
qed

text \<open>
  C35. The payment link shows the address as it is and nothing else as markup: for every payment address,
  whatever characters it has, the text that the bot sends as HTML has the spoiler tags as its only tags, and
  read as HTML it is the message with the address itself between them.
\<close>

theorem payment_link_shows_address:
  "\<exists>before after. \<forall>payment_url.
     (let text = bot_text_string url (PaymentLink plan payment_url expires_at base shipment fine amount)
      in html_tags text = [''tg-spoiler'', ''/tg-spoiler''] \<and> html_text text = before @ payment_url @ after
       \<and> text = before @ ''<tg-spoiler>'' @ escape_html payment_url @ ''</tg-spoiler>'' @ after)"
proof -
  have "plain (tier_label tier)" for tier by (cases tier) (simp_all add: plain_def)
  from payment_link_parts [OF this [of "pl_tier plan"]] obtain before after where
    plain: "plain before" "plain after"
    and shown: "msg_49_payment_link_with_quote (tier_label (pl_tier plan)) payment_url expires_at base shipment fine amount
      = before @ ''<tg-spoiler>'' @ escape_html payment_url @ ''</tg-spoiler>'' @ after" for payment_url
    by blast
  have tags: "CHR ''<'' \<notin> set before" "CHR ''<'' \<notin> set after" using plain by (auto simp: plain_def list_all_iff)
  have after: "html_text after = after" "html_tags after = []"
    using html_text_plain [OF plain(2), of "[]"] html_tags_plain [OF tags(2), of "[]"] by simp_all
  show ?thesis
    by (intro exI [of _ before] exI [of _ after])
       (simp add: format_midtrans_payment_message_with_quote_def shown Let_def html_text_plain [OF plain(1)]
         html_tags_plain [OF tags(1)] html_tags_plain [OF escaped_no_tag] html_text_escaped after)
qed

end
