(* ===== verification/Spec2Isabelle.thy ===== *)
theory Spec2Isabelle
  imports Ingestion Interleaving Checkout Agreement Rendering
begin

text \<open>
  A verification development beside the GT06N tracker server, a Rust workspace of one library and five
  programs: the TCP server that trackers report to (\<open>src/main.rs\<close>), the Telegram bot of the riders
  (\<open>src/bin/telegram_bot.rs\<close>), the HTTP API of the app and of the payment provider
  (\<open>src/bin/http_api.rs\<close>), the daily subscription maintenance (\<open>src/bin/subscription_maintenance.rs\<close>) and the
  distance backfill (\<open>src/bin/service_distance_backfill.rs\<close>). The programs share nothing but a PostgreSQL
  database. File names without a directory are those of \<open>src/\<close>.

  \<^bold>\<open>How the code is modelled.\<close> The pure parts are functions: bytes and serial numbers are words, other
  integers are \<open>int\<close> with their casts and bounds written out, \<open>f64\<close> is IEEE 754 binary64 with
  round-to-nearest-even on rationals (\<open>Float64\<close>), text is the list of its UTF-8 bytes, and an instant is
  its number of microseconds since 1970 (\<open>Calendar\<close>). An asynchronous function is a program of type
  \<open>('s, 'e, 'a) io\<close> (\<open>Effects\<close>): from a world it gives an error or a result, and the world after. A world
  has the tables as lists of rows (\<open>Tables\<close>, \<open>Store\<close>), the next identifier of the sequences, and a
  schedule that decides for every query, begin, commit and request whether it fails; theorems that do
  not mention the schedule hold whichever operations fail. \<open>transaction\<close> and \<open>api_transaction\<close> roll back,
  \<open>?\<close> is \<open>io_bind\<close>, a logged error is \<open>io_try\<close> or \<open>io_warn\<close>, and a failing \<open>expect\<close> is an error of its
  own that no handler catches. What a program sends (requests to Telegram and to the provider,
  reminders) is a log in its state.

  \<^bold>\<open>The parts.\<close>
  \<^item> \<open>protocol.rs\<close>: \<open>Frames\<close> has the checksum and \<open>FrameDecoder::next_frame\<close> on a buffer, \<open>Codec\<close> the
    packets and \<open>decode_message\<close>. Frames survive garbage before and behind them, one corrupted byte is
    found, exactly the short payloads are refused, and coordinates are bounded.
  \<^item> \<open>server.rs\<close>: \<open>Connection\<close> has \<open>handle_connection\<close>, whose state is the buffer, the IMEI of the last login
    and the trace of writes, events and log lines. It refines \<open>react\<close>, the reaction to the whole byte
    stream, so it does not depend on how reads cut the stream; the buffer is bounded. \<open>Ingestion\<close> has
    \<open>Gt06TcpServer::run\<close>: any number of connections whose events reach the handler interleaved.
  \<^item> \<open>db.rs\<close>, \<open>events.rs\<close>: \<open>Devices\<close> has the statements of \<open>persist_event\<close> and the handlers with their
    composition; the locale \<open>event_handler\<close> is the trait \<open>DeviceEventHandler\<close>, interpreted for the
    database, the logging and the composite handler. \<open>Startup\<close> has \<open>Database::connect\<close> and the
    \<open>from_config\<close> functions of all programs, \<open>Config\<close> the settings of \<open>config.rs\<close>.
  \<^item> \<open>service_distance.rs\<close>: \<open>Distance\<close> has the filter of segments, odometer and daily distances, and the
    backfill; both refine \<open>replay\<close>, the fold of the stored locations of a device.
  \<^item> \<open>subscription_maintenance.rs\<close>: \<open>Subscription\<close> has the lifecycle, the reminders and fines, the run and
    the quotes. \<open>midtrans.rs\<close>: \<open>Payment\<close> has the plans, the Snap transaction, the signature and what a
    notification of the provider does to payments, subscriptions and sanctions.
  \<^item> \<open>telegram_messages.rs\<close>: \<open>Messages\<close>, \<open>Texts\<close> and \<open>Rendering\<close> have the fixed texts and the texts made from
    data, byte for byte, with the escaping of what is sent as HTML.
  \<^item> \<open>bot.rs\<close>: \<open>Telegram\<close> has the requests of the bot and its table of states, \<open>Buttons\<close> the callback data and
    keyboards, \<open>Analytics\<close> the rides, \<open>Ranges\<close> the date ranges, \<open>Sessions\<close> the engine sessions and alerts,
    \<open>Users\<close> the registration, and \<open>Bot\<close> the handlers and \<open>bot_cycle\<close>, one round of \<open>TelegramBot::run\<close>.
    \<open>Polling\<close>, \<open>Bindings\<close>, \<open>Handlers\<close> and \<open>Checkout\<close> prove what they do: the cursor over the heartbeats,
    the life of sessions and bindings over any cycles, the handlers branch by branch, and the payment
    button through the quote and the provider.
  \<^item> \<open>api.rs\<close>: \<open>Api\<close> has the errors and their status codes, \<open>Fuel\<close> the fuel calibrations, \<open>Service\<close> the service
    page, \<open>Reports\<close> the reading endpoints, \<open>Webhook\<close> the endpoint of the provider, and \<open>Router\<close> the table of
    routes with the answer to a request. \<open>Agreement\<close> proves that the summary of the app and the report of
    the bot, two implementations, give the same totals.
  \<^item> The programs together: \<open>Billing\<close> is the life of a payment through bot, API and maintenance, \<open>Programs\<close>
    what each program leaves alone, and \<open>System\<close> runs all programs on one database.

  \<^bold>\<open>How the proofs are organised.\<close> \<open>Prelude\<close> has the collections (\<open>parser_simps\<close>, \<open>upsert_simps\<close>,
  \<open>io_intros\<close>) and the lemmas on lists and words. \<open>Effects\<close> gives rules for \<open>keeps\<close> (an invariant survives
  a program, failures included), \<open>untouched\<close> (a view of the state is left alone) and \<open>persistent\<close>, \<open>Triples\<close>
  those for pre- and postconditions. The locale \<open>upsert_contract\<close> is the contract of
  \<open>INSERT .. ON CONFLICT DO UPDATE\<close>, interpreted for the eight tables written that way. The locale
  \<open>shared_invariant\<close> says what an invariant of the database must survive (tracker, bot, API, maintenance,
  backfill) and proves once that it then holds for ever; it is interpreted for sessions, calibrations,
  payments, users, and devices with their history and distances. \<open>system_safe\<close> joins the five, and
  \<open>stored_history_was_sent\<close> ties the tables to the bytes on the sockets.

  \<^bold>\<open>Termination and bounds.\<close> Every loop over data is a terminating recursion. The only loops of the
  source that may run for ever are the accept loop and the loop of the bot: they are steps that are
  repeated any number of times. \<open>build_service_milestones\<close> is written with \<open>while_option\<close> on \<open>i64\<close> values,
  for builds that check overflows and for builds that wrap around; it is proved to end but for a saturated
  number of milestones in a release build.
  A batch of heartbeats has at most one hundred rows and a frame at most 260 bytes, as in the code; no
  fuel is used.

  \<^bold>\<open>Assumptions.\<close> A step of the system is one event, one cycle, one request or one run: programs interleave
  between these steps and not within them; \<open>Interleaving\<close> lifts this for the backfill, which reads before
  its transaction, and proves when a race loses a location. \<open>LIMIT 1\<close> without an order gives the first row. White space is ASCII. Zero has no sign, and
  \<open>i64\<close> sums of seconds, amounts and row numbers, which no stored data brings near the bound, are not wrapped. Parameters of the
  definitions, because they are libraries: the clocks, \<open>sin\<close>, \<open>cos\<close>, \<open>atan2\<close> and the square root, SHA-512,
  chrono's parsers of dates and instants, the building of URLs, the profile of the build, and what
  Telegram and the provider answer. What is assumed of them stands in the statement of the theorem that needs it.

  \<^bold>\<open>Not modelled.\<close> Matching of paths, and reading and writing JSON, by the web framework; the reading of
  \<open>.env\<close>; binding of sockets; the migrations, of which the tables and their constraints are taken; the
  set-up of logging in \<open>main.rs\<close> and \<open>bin/\<close>; one-line functions that only forward to \<open>telegram_messages.rs\<close>,
  copies of its functions in \<open>bot.rs\<close> and queries there that no program calls; and the tests, but for the
  encoder of frames that they contain.
\<close>

end
